(* ===== verification/Bcc_Prelude.thy ===== *)
theory Bcc_Prelude
  imports Main "HOL-Library.Word" "HOL-Library.Monad_Syntax"
begin

text \<open>
  Shared vocabulary of the development: the machine-integer types of the C and C++ sources,
  byte buffers with bounds-checked loads (an access outside the buffer is \<^term>\<open>None\<close>, the
  model's undefined behaviour), little-endian decoding, and the generic list and word lemmas
  the component theories rely on.
\<close>

unbundle bit_operations_syntax

type_synonym u8 = "8 word"
type_synonym u16 = "16 word"
type_synonym u32 = "32 word"
type_synonym u64 = "64 word"
type_synonym bytes = "u8 list"

text \<open>The outcome of a loop that is run with fuel and whose body may perform an invalid access.\<close>

datatype 'a loop_res = Finished 'a | Timeout | Fault

named_theorems mem_simps \<open>loads from byte buffers\<close>
named_theorems le_simps \<open>little-endian encoding and decoding\<close>


section \<open>Widening machine integers\<close>

lemma unat_ucast_up:
  fixes w :: "'a::len word"
  assumes "LENGTH('a) \<le> LENGTH('b::len)"
  shows "unat (ucast w :: 'b word) = unat w"
proof -
  have "unat w < 2 ^ LENGTH('a)" by simp
  also have "\<dots> \<le> (2::nat) ^ LENGTH('b)"
    using assms by (simp add: power_increasing)
  finally show ?thesis
    by (simp add: unsigned_ucast_eq take_bit_nat_eq_self)
qed

lemma unat_ucast_u16_u32 [simp]: "unat (ucast (w :: u16) :: u32) = unat w"
  by (rule unat_ucast_up) simp

lemma unat_ucast_u16_u64 [simp]: "unat (ucast (w :: u16) :: u64) = unat w"
  by (rule unat_ucast_up) simp

lemma unat_ucast_u32_u64 [simp]: "unat (ucast (w :: u32) :: u64) = unat w"
  by (rule unat_ucast_up) simp

lemma unat_u16_less: "unat (w :: u16) < 65536"
  using unsigned_less [of w, where 'a = nat] by simp

lemma unat_u32_less: "unat (w :: u32) < 4294967296"
  using unsigned_less [of w, where 'a = nat] by simp

lemma unat_add_u32: "unat x + unat y < 4294967296 \<Longrightarrow> unat (x + y :: u32) = unat x + unat y"
  using unat_add_lem [of x y] by simp


lemma unat_of_nat_u16 [simp]: "n < 65536 \<Longrightarrow> unat (word_of_nat n :: u16) = n"
  by (simp add: unat_of_nat)

lemma unat_of_nat_u32 [simp]: "n < 4294967296 \<Longrightarrow> unat (word_of_nat n :: u32) = n"
  by (simp add: unat_of_nat)

lemma ucast_of_nat_u16: "n < 65536 \<Longrightarrow> (ucast (word_of_nat n :: u16) :: u32) = word_of_nat n"
  by (rule unsigned_word_eqI [where ?'a = nat]) simp


section \<open>Byte buffers\<close>

text \<open>
  \<open>rd bs p n\<close> is a load of \<open>n\<close> bytes at address \<open>p\<close> of the buffer \<open>bs\<close>.  A load that is not
  entirely inside the buffer has no value.
\<close>

definition rd :: "bytes \<Rightarrow> nat \<Rightarrow> nat \<Rightarrow> bytes option" where
  "rd bs p n = (if p + n \<le> length bs then Some (take n (drop p bs)) else None)"

lemma rd_Some_iff: "rd bs p n = Some xs \<longleftrightarrow> p + n \<le> length bs \<and> xs = take n (drop p bs)"
  by (auto simp: rd_def)

lemma rd_eq_None_iff [simp]: "rd bs p n = None \<longleftrightarrow> length bs < p + n"
  by (auto simp: rd_def)

lemma rd_in_bounds [mem_simps]: "p + n \<le> length bs \<Longrightarrow> rd bs p n = Some (take n (drop p bs))"
  by (simp add: rd_def)

lemma length_rd: "rd bs p n = Some xs \<Longrightarrow> length xs = n"
  by (auto simp: rd_def split: if_splits)

lemma rd_append_left:
  "p + n \<le> length xs \<Longrightarrow> rd (xs @ ys) p n = rd xs p n"
  by (simp add: rd_def)

lemma rd_append_right:
  "length xs \<le> p \<Longrightarrow> rd (xs @ ys) p n = rd ys (p - length xs) n"
  by (auto simp: rd_def)

lemma rd_middle: "rd (xs @ ys @ zs) (length xs) (length ys) = Some ys"
  by (simp add: rd_def)


section \<open>Little-endian words\<close>

fun le_nat :: "bytes \<Rightarrow> nat" where
  "le_nat [] = 0"
| "le_nat (b # bs) = unat b + 256 * le_nat bs"

fun enc_le :: "nat \<Rightarrow> nat \<Rightarrow> bytes" where
  "enc_le 0 v = []"
| "enc_le (Suc n) v = word_of_nat v # enc_le n (v div 256)"

lemma length_enc_le [simp]: "length (enc_le n v) = n"
  by (induction n arbitrary: v) auto

lemma le_nat_less: "le_nat bs < 256 ^ length bs"
proof (induction bs)
  case (Cons b bs)
  have "unat b < 256"
    using unsigned_less [of b, where 'a = nat] by simp
  with Cons show ?case by simp
qed simp

lemma le_nat_enc_le [le_simps]: "le_nat (enc_le n v) = v mod 256 ^ n"
proof (induction n arbitrary: v)
  case (Suc n)
  have "unat (word_of_nat v :: u8) = v mod 256"
    by (simp add: unat_of_nat)
  then have "le_nat (enc_le (Suc n) v) = v mod 256 + 256 * (v div 256 mod 256 ^ n)"
    using Suc by simp
  also have "\<dots> = v mod (256 * 256 ^ n)"
    by (simp add: mod_mult2_eq)
  finally show ?case by simp
qed simp


section \<open>C strings\<close>

text \<open>
  A C string is the list of its characters before the terminating NUL.  \<open>strstr hay needle\<close> is
  the index of the first occurrence of \<open>needle\<close>.
\<close>

fun strstr :: "'a list \<Rightarrow> 'a list \<Rightarrow> nat option" where
  "strstr [] needle = (if needle = [] then Some 0 else None)"
| "strstr (c # cs) needle =
     (if take (length needle) (c # cs) = needle then Some 0
      else map_option Suc (strstr cs needle))"

definition PATH_MAX :: nat where
  "PATH_MAX = 4096"

lemma strstr_SomeD:
  "strstr hay needle = Some i \<Longrightarrow>
     i \<le> length hay \<and> take (length needle) (drop i hay) = needle"
  by (induction hay arbitrary: i) (auto split: if_splits)

lemma strstr_Some_decomp:
  "strstr hay needle = Some i \<Longrightarrow> hay = take i hay @ needle @ drop (i + length needle) hay"
  using strstr_SomeD [of hay needle i]
  by (metis add.commute append_take_drop_id drop_drop)

lemma strstr_first:
  "strstr hay needle = Some i \<Longrightarrow> j < i \<Longrightarrow> take (length needle) (drop j hay) \<noteq> needle"
proof (induction hay arbitrary: i j)
  case (Cons c cs)
  then show ?case by (cases j) (auto split: if_splits)
qed (auto split: if_splits)

lemma strstr_NoneD:
  "strstr hay needle = None \<Longrightarrow> take (length needle) (drop j hay) \<noteq> needle"
proof (induction hay arbitrary: j)
  case (Cons c cs)
  then show ?case by (cases j) (auto split: if_splits)
qed (auto split: if_splits)

lemma sint_small_u32:
  assumes "unat (w :: u32) < 2 ^ 31"
  shows "sint w = int (unat w)"
proof -
  have "uint w < 2 ^ 31"
    using assms by (metis of_nat_less_iff of_nat_numeral of_nat_power uint_nat)
  moreover have "- (2 ^ 31) \<le> uint w"
    by (rule order_trans [of _ 0]) simp_all
  ultimately show ?thesis
    by (simp add: sint_uint signed_take_bit_int_eq_self)
qed

end
