(* ===== verification/Zip.thy ===== *)
theory Zip
  imports Bcc_Prelude
begin

text \<open>
  The ZIP archive reader of \<^verbatim>\<open>src/cc/bcc_zip.c\<close>, which bcc uses to find shared objects that are
  mapped straight out of an \<^verbatim>\<open>.apk\<close> or \<^verbatim>\<open>.zip\<close> file.

  The mapped file is a byte list, a pointer into it is the offset from \<^verbatim>\<open>archive->data\<close>, and a
  load outside the mapping has no value (\<^const>\<open>None\<close>), so that a theorem of the form
  \<open>f a \<noteq> None\<close> says the C code performs no out-of-bounds access.  The unaligned readers copy
  bytes in host order; the model is that of a little-endian host.
\<close>


section \<open>On-disk structures\<close>

definition unaligned_uint16_read :: "bytes \<Rightarrow> u16" where
  "unaligned_uint16_read raw = word_of_nat (le_nat raw)"

definition unaligned_uint32_read :: "bytes \<Rightarrow> u32" where
  "unaligned_uint32_read raw = word_of_nat (le_nat raw)"

definition field16 :: "bytes \<Rightarrow> nat \<Rightarrow> u16" where
  "field16 bs k = unaligned_uint16_read (take 2 (drop k bs))"

definition field32 :: "bytes \<Rightarrow> nat \<Rightarrow> u32" where
  "field32 bs k = unaligned_uint32_read (take 4 (drop k bs))"

definition END_OF_CD_RECORD_MAGIC :: u32 where
  "END_OF_CD_RECORD_MAGIC = 0x06054b50"

record end_of_central_directory_record =
  eocd_magic :: u32
  eocd_this_disk :: u16
  eocd_cd_disk :: u16
  eocd_cd_records :: u16
  eocd_cd_records_total :: u16
  eocd_cd_size :: u32
  eocd_cd_offset :: u32
  eocd_comment_length :: u16

abbreviation (input) sizeof_eocd :: nat where
  "sizeof_eocd \<equiv> 22"

definition eocd_of_bytes :: "bytes \<Rightarrow> end_of_central_directory_record" where
  "eocd_of_bytes bs = \<lparr>
     eocd_magic = field32 bs 0, eocd_this_disk = field16 bs 4, eocd_cd_disk = field16 bs 6,
     eocd_cd_records = field16 bs 8, eocd_cd_records_total = field16 bs 10,
     eocd_cd_size = field32 bs 12, eocd_cd_offset = field32 bs 16,
     eocd_comment_length = field16 bs 20\<rparr>"

definition CD_FILE_HEADER_MAGIC :: u32 where
  "CD_FILE_HEADER_MAGIC = 0x02014b50"

definition FLAG_ENCRYPTED :: u16 where
  "FLAG_ENCRYPTED = push_bit 0 1"

definition FLAG_HAS_DATA_DESCRIPTOR :: u16 where
  "FLAG_HAS_DATA_DESCRIPTOR = push_bit 3 1"

record central_directory_file_header =
  cdfh_magic :: u32
  cdfh_version :: u16
  cdfh_min_version :: u16
  cdfh_flags :: u16
  cdfh_compression :: u16
  cdfh_last_modified_time :: u16
  cdfh_last_modified_date :: u16
  cdfh_crc :: u32
  cdfh_compressed_size :: u32
  cdfh_uncompressed_size :: u32
  cdfh_file_name_length :: u16
  cdfh_extra_field_length :: u16
  cdfh_file_comment_length :: u16
  cdfh_disk :: u16
  cdfh_internal_attributes :: u16
  cdfh_external_attributes :: u32
  cdfh_offset :: u32

abbreviation (input) sizeof_cdfh :: nat where
  "sizeof_cdfh \<equiv> 46"

definition cdfh_of_bytes :: "bytes \<Rightarrow> central_directory_file_header" where
  "cdfh_of_bytes bs = \<lparr>
     cdfh_magic = field32 bs 0, cdfh_version = field16 bs 4, cdfh_min_version = field16 bs 6,
     cdfh_flags = field16 bs 8, cdfh_compression = field16 bs 10,
     cdfh_last_modified_time = field16 bs 12, cdfh_last_modified_date = field16 bs 14,
     cdfh_crc = field32 bs 16, cdfh_compressed_size = field32 bs 20,
     cdfh_uncompressed_size = field32 bs 24, cdfh_file_name_length = field16 bs 28,
     cdfh_extra_field_length = field16 bs 30, cdfh_file_comment_length = field16 bs 32,
     cdfh_disk = field16 bs 34, cdfh_internal_attributes = field16 bs 36,
     cdfh_external_attributes = field32 bs 38, cdfh_offset = field32 bs 42\<rparr>"

definition LOCAL_FILE_HEADER_MAGIC :: u32 where
  "LOCAL_FILE_HEADER_MAGIC = 0x04034b50"

record local_file_header =
  lfh_magic :: u32
  lfh_min_version :: u16
  lfh_flags :: u16
  lfh_compression :: u16
  lfh_last_modified_time :: u16
  lfh_last_modified_date :: u16
  lfh_crc :: u32
  lfh_compressed_size :: u32
  lfh_uncompressed_size :: u32
  lfh_file_name_length :: u16
  lfh_extra_field_length :: u16

abbreviation (input) sizeof_lfh :: nat where
  "sizeof_lfh \<equiv> 30"

definition lfh_of_bytes :: "bytes \<Rightarrow> local_file_header" where
  "lfh_of_bytes bs = \<lparr>
     lfh_magic = field32 bs 0, lfh_min_version = field16 bs 4, lfh_flags = field16 bs 6,
     lfh_compression = field16 bs 8, lfh_last_modified_time = field16 bs 10,
     lfh_last_modified_date = field16 bs 12, lfh_crc = field32 bs 14,
     lfh_compressed_size = field32 bs 18, lfh_uncompressed_size = field32 bs 22,
     lfh_file_name_length = field16 bs 26, lfh_extra_field_length = field16 bs 28\<rparr>"


section \<open>Opening an archive\<close>

record bcc_zip_archive =
  za_data :: bytes
  za_size :: u32
  za_cd_offset :: u32
  za_cd_records :: u32

record bcc_zip_entry =
  ze_compression :: u16
  ze_name :: u32
  ze_name_length :: u16
  ze_data :: u32
  ze_data_length :: u32
  ze_data_offset :: u32

text \<open>The pointer that \<^verbatim>\<open>check_access\<close> returns is the offset itself; NULL is \<^const>\<open>None\<close>.\<close>

definition check_access :: "bcc_zip_archive \<Rightarrow> u32 \<Rightarrow> u32 \<Rightarrow> u32 option" where
  "check_access a offset sz =
     (if offset + sz > za_size a \<or> offset > offset + sz then None else Some offset)"

definition load_eocd :: "bcc_zip_archive \<Rightarrow> u32 \<Rightarrow> end_of_central_directory_record option" where
  "load_eocd a p = map_option eocd_of_bytes (rd (za_data a) (unat p) sizeof_eocd)"

definition load_cdfh :: "bcc_zip_archive \<Rightarrow> u32 \<Rightarrow> central_directory_file_header option" where
  "load_cdfh a p = map_option cdfh_of_bytes (rd (za_data a) (unat p) sizeof_cdfh)"

definition load_lfh :: "bcc_zip_archive \<Rightarrow> u32 \<Rightarrow> local_file_header option" where
  "load_lfh a p = map_option lfh_of_bytes (rd (za_data a) (unat p) sizeof_lfh)"

definition try_parse_end_of_central_directory ::
  "bcc_zip_archive \<Rightarrow> u32 \<Rightarrow> (int \<times> bcc_zip_archive) option" where
  "try_parse_end_of_central_directory a offset =
     (case check_access a offset 22 of
        None \<Rightarrow> Some (-1, a)
      | Some p \<Rightarrow> do {
          eocd \<leftarrow> load_eocd a p;
          if eocd_magic eocd \<noteq> END_OF_CD_RECORD_MAGIC then Some (-1, a)
          else if (ucast offset :: u64) + 22 + ucast (eocd_comment_length eocd) \<noteq> ucast (za_size a)
          then Some (-1, a)
          else if eocd_this_disk eocd \<noteq> 0 \<or> eocd_cd_disk eocd \<noteq> 0 \<or>
                  eocd_cd_records_total eocd \<noteq> eocd_cd_records eocd
          then Some (-2, a)
          else if check_access a (eocd_cd_offset eocd) (eocd_cd_size eocd) = None
          then Some (-1, a)
          else Some (0, a\<lparr>za_cd_offset := eocd_cd_offset eocd,
                          za_cd_records := ucast (eocd_cd_records eocd)\<rparr>)
        })"

text \<open>
  The scan \<^verbatim>\<open>for (; offset >= 0 && offset > limit && rc == -1; offset--)\<close>; \<open>offset\<close> and \<open>limit\<close>
  are \<^verbatim>\<open>int64_t\<close> and stay far inside that range, the call truncates \<open>offset\<close> to \<^verbatim>\<open>uint32_t\<close>.
\<close>

function scan_central_directory ::
  "bcc_zip_archive \<Rightarrow> int \<Rightarrow> int \<Rightarrow> int \<Rightarrow> (int \<times> bcc_zip_archive) option" where
  "scan_central_directory a offset limit rc =
     (if 0 \<le> offset \<and> limit < offset \<and> rc = -1 then do {
        (rc', a') \<leftarrow> try_parse_end_of_central_directory a (word_of_int offset);
        scan_central_directory a' (offset - 1) limit rc'
      } else Some (rc, a))"
  by pat_completeness auto
termination
  by (relation "measure (\<lambda>(a, offset, limit, rc). nat (offset + 1))") auto

declare scan_central_directory.simps [simp del]

definition find_central_directory :: "bcc_zip_archive \<Rightarrow> (int \<times> bcc_zip_archive) option" where
  "find_central_directory a =
     (if za_size a \<le> 22 then Some (-1, a)
      else let offset = int (unat (za_size a)) - 22; limit = offset - 65536
           in scan_central_directory a offset limit (-1))"

text \<open>
  What the kernel and the C library answer to the calls of \<^verbatim>\<open>bcc_zip_archive_open\<close>: the contents
  of a file that can be opened, and whether \<^verbatim>\<open>lseek\<close>, \<^verbatim>\<open>mmap\<close> and \<^verbatim>\<open>malloc\<close> succeed (an empty
  mapping never does).  The fields of a freshly allocated archive are indeterminate.
  \<open>os_res\<close> counts the live descriptors, mappings and allocations.
\<close>

record zip_env =
  env_open :: "bytes \<Rightarrow> bytes option"
  env_lseek_ok :: bool
  env_mmap_ok :: bool
  env_malloc_ok :: bool
  env_junk :: "u32 \<times> u32"

record os_res =
  os_fds :: int
  os_maps :: int
  os_allocs :: int

definition os_open_fd :: "os_res \<Rightarrow> os_res" where
  "os_open_fd os = os\<lparr>os_fds := os_fds os + 1\<rparr>"

definition os_close_fd :: "os_res \<Rightarrow> os_res" where
  "os_close_fd os = os\<lparr>os_fds := os_fds os - 1\<rparr>"

definition os_mmap :: "os_res \<Rightarrow> os_res" where
  "os_mmap os = os\<lparr>os_maps := os_maps os + 1\<rparr>"

definition os_munmap :: "os_res \<Rightarrow> os_res" where
  "os_munmap os = os\<lparr>os_maps := os_maps os - 1\<rparr>"

definition os_malloc :: "os_res \<Rightarrow> os_res" where
  "os_malloc os = os\<lparr>os_allocs := os_allocs os + 1\<rparr>"

definition os_free :: "os_res \<Rightarrow> os_res" where
  "os_free os = os\<lparr>os_allocs := os_allocs os - 1\<rparr>"

definition bcc_zip_archive_open ::
  "zip_env \<Rightarrow> os_res \<Rightarrow> bytes \<Rightarrow> (bcc_zip_archive option \<times> os_res) option" where
  "bcc_zip_archive_open env os path =
     (case env_open env path of
        None \<Rightarrow> Some (None, os)
      | Some contents \<Rightarrow>
          (let os = os_open_fd os; size = int (length contents) in
           if \<not> env_lseek_ok env \<or> size > 4294967295 then Some (None, os_close_fd os)
           else
             (let mapped = env_mmap_ok env \<and> size \<noteq> 0; os = (if mapped then os_mmap os else os);
                  os = os_close_fd os in
              if \<not> mapped then Some (None, os)
              else if \<not> env_malloc_ok env then Some (None, os_munmap os)
              else do {
                let archive = \<lparr>za_data = contents, za_size = word_of_int size,
                               za_cd_offset = fst (env_junk env),
                               za_cd_records = snd (env_junk env)\<rparr>;
                let os = os_malloc os;
                (rc, archive) \<leftarrow> find_central_directory archive;
                if rc \<noteq> 0 then Some (None, os_free (os_munmap os))
                else Some (Some archive, os)
              })))"

definition bcc_zip_archive_close :: "os_res \<Rightarrow> bcc_zip_archive \<Rightarrow> os_res" where
  "bcc_zip_archive_close os archive = os_free (os_munmap os)"


section \<open>Finding an entry\<close>

definition local_file_header_at_offset ::
  "bcc_zip_archive \<Rightarrow> u32 \<Rightarrow> local_file_header option option" where
  "local_file_header_at_offset a offset =
     (case check_access a offset 30 of
        None \<Rightarrow> Some None
      | Some p \<Rightarrow> do {
          lfh \<leftarrow> load_lfh a p;
          if lfh_magic lfh \<noteq> LOCAL_FILE_HEADER_MAGIC then Some None else Some (Some lfh)
        })"

definition get_entry_at_offset ::
  "bcc_zip_archive \<Rightarrow> u32 \<Rightarrow> bcc_zip_entry \<Rightarrow> (int \<times> bcc_zip_entry) option" where
  "get_entry_at_offset a offset out = do {
     lfh \<leftarrow> local_file_header_at_offset a offset;
     let offset = offset + 30;
     (case lfh of
        None \<Rightarrow> Some (-1, out)
      | Some lfh \<Rightarrow>
          (if lfh_flags lfh AND FLAG_ENCRYPTED \<noteq> 0 \<or> lfh_flags lfh AND FLAG_HAS_DATA_DESCRIPTOR \<noteq> 0
           then Some (-1, out)
           else
             (let name_length = lfh_file_name_length lfh;
                  name = check_access a offset (ucast name_length);
                  offset = offset + ucast name_length in
              case name of
                None \<Rightarrow> Some (-1, out)
              | Some name \<Rightarrow>
                  (let extra_field_length = lfh_extra_field_length lfh in
                   if check_access a offset (ucast extra_field_length) = None then Some (-1, out)
                   else
                     (let offset = offset + ucast extra_field_length;
                          compressed_size = lfh_compressed_size lfh in
                      case check_access a offset compressed_size of
                        None \<Rightarrow> Some (-1, out)
                      | Some data \<Rightarrow>
                          Some (0, \<lparr>ze_compression = lfh_compression lfh, ze_name = name,
                                    ze_name_length = name_length, ze_data = data,
                                    ze_data_length = compressed_size,
                                    ze_data_offset = offset\<rparr>))))))
   }"

definition cd_file_header_at_offset ::
  "bcc_zip_archive \<Rightarrow> u32 \<Rightarrow> central_directory_file_header option option" where
  "cd_file_header_at_offset a offset =
     (case check_access a offset 46 of
        None \<Rightarrow> Some None
      | Some p \<Rightarrow> do {
          cdfh \<leftarrow> load_cdfh a p;
          if cdfh_magic cdfh \<noteq> CD_FILE_HEADER_MAGIC then Some None else Some (Some cdfh)
        })"

definition cdfh_plain :: "central_directory_file_header \<Rightarrow> bool" where
  "cdfh_plain cdfh \<longleftrightarrow> cdfh_flags cdfh AND FLAG_ENCRYPTED = 0 \<and>
     cdfh_flags cdfh AND FLAG_HAS_DATA_DESCRIPTOR = 0"

text \<open>The loop over the central directory; \<open>n\<close> is \<^verbatim>\<open>archive->cd_records - i\<close>.\<close>

fun find_entry_loop ::
  "bcc_zip_archive \<Rightarrow> bytes \<Rightarrow> nat \<Rightarrow> u32 \<Rightarrow> bcc_zip_entry \<Rightarrow> (int \<times> bcc_zip_entry) option" where
  "find_entry_loop a file_name 0 offset out = Some (-1, out)"
| "find_entry_loop a file_name (Suc n) offset out = do {
     cdfh \<leftarrow> cd_file_header_at_offset a offset;
     let offset = offset + 46;
     (case cdfh of
        None \<Rightarrow> Some (-1, out)
      | Some cdfh \<Rightarrow>
          (let cdfh_name_length = cdfh_file_name_length cdfh in
           case check_access a offset (ucast cdfh_name_length) of
             None \<Rightarrow> Some (-1, out)
           | Some cdfh_name \<Rightarrow> do {
               hit \<leftarrow> (if cdfh_plain cdfh \<and> length file_name = unat cdfh_name_length
                       then map_option (\<lambda>bs. bs = file_name)
                              (rd (za_data a) (unat offset) (length file_name))
                       else Some False);
               if hit then get_entry_at_offset a (cdfh_offset cdfh) out
               else find_entry_loop a file_name n
                      (offset + ucast cdfh_name_length + ucast (cdfh_extra_field_length cdfh) +
                       ucast (cdfh_file_comment_length cdfh)) out
             }))
   }"

definition bcc_zip_archive_find_entry ::
  "bcc_zip_archive \<Rightarrow> bytes \<Rightarrow> bcc_zip_entry \<Rightarrow> (int \<times> bcc_zip_entry) option" where
  "bcc_zip_archive_find_entry a file_name out =
     find_entry_loop a file_name (unat (za_cd_records a)) (za_cd_offset a) out"

fun find_entry_at_offset_loop ::
  "bcc_zip_archive \<Rightarrow> u32 \<Rightarrow> nat \<Rightarrow> u32 \<Rightarrow> bcc_zip_entry \<Rightarrow> (int \<times> bcc_zip_entry) option" where
  "find_entry_at_offset_loop a target 0 offset out = Some (-1, out)"
| "find_entry_at_offset_loop a target (Suc n) offset out = do {
     cdfh \<leftarrow> cd_file_header_at_offset a offset;
     let offset = offset + 46;
     (case cdfh of
        None \<Rightarrow> Some (-1, out)
      | Some cdfh \<Rightarrow>
          (let next = (\<lambda>out. find_entry_at_offset_loop a target n
                 (offset + ucast (cdfh_file_name_length cdfh) +
                  ucast (cdfh_extra_field_length cdfh) + ucast (cdfh_file_comment_length cdfh)) out)
           in if cdfh_plain cdfh then do {
                (rc, out) \<leftarrow> get_entry_at_offset a (cdfh_offset cdfh) out;
                if rc \<noteq> 0 then Some (-1, out)
                else if unat (ze_data out) \<le> unat target \<and>
                        unat target < unat (ze_data out) + unat (ze_data_length out)
                then Some (0, out)
                else next out
              } else next out))
   }"

definition bcc_zip_archive_find_entry_at_offset ::
  "bcc_zip_archive \<Rightarrow> u32 \<Rightarrow> bcc_zip_entry \<Rightarrow> (int \<times> bcc_zip_entry) option" where
  "bcc_zip_archive_find_entry_at_offset a target out =
     find_entry_at_offset_loop a target (unat (za_cd_records a)) (za_cd_offset a) out"

definition bcc_zip_archive_open_and_find ::
  "zip_env \<Rightarrow> os_res \<Rightarrow> bytes \<Rightarrow> bcc_zip_entry \<Rightarrow>
   (bcc_zip_archive option \<times> bcc_zip_entry \<times> os_res) option" where
  "bcc_zip_archive_open_and_find env os path out =
     (case strstr path [0x21, 0x2f] of
        None \<Rightarrow> Some (None, out, os)
      | Some separator \<Rightarrow>
          (if separator \<ge> PATH_MAX then Some (None, out, os)
           else do {
             (archive, os) \<leftarrow> bcc_zip_archive_open env os (take separator path);
             (case archive of
                None \<Rightarrow> Some (None, out, os)
              | Some archive \<Rightarrow> do {
                  (rc, out) \<leftarrow> bcc_zip_archive_find_entry archive (drop (separator + 2) path) out;
                  if rc \<noteq> 0 then Some (None, out, bcc_zip_archive_close os archive)
                  else Some (Some archive, out, os)
                })
           }))"


section \<open>Memory safety\<close>

text \<open>The mapping is as long as the archive says it is.\<close>

definition wf_archive :: "bcc_zip_archive \<Rightarrow> bool" where
  "wf_archive a \<longleftrightarrow> unat (za_size a) = length (za_data a)"

definition entry_in_bounds :: "bcc_zip_archive \<Rightarrow> bcc_zip_entry \<Rightarrow> bool" where
  "entry_in_bounds a e \<longleftrightarrow>
     unat (ze_name e) + unat (ze_name_length e) \<le> unat (ze_data e) \<and>
     unat (ze_data e) + unat (ze_data_length e) \<le> length (za_data a) \<and>
     ze_data_offset e = ze_data e"

text \<open>
  The contract between the bounds check and its clients: a non-NULL answer is the offset that was
  asked for and the whole range lies inside the mapping, NULL means that it does not.
\<close>

locale bounded_view =
  fixes acc :: "'a \<Rightarrow> u32 \<Rightarrow> u32 \<Rightarrow> u32 option"
    and mem :: "'a \<Rightarrow> bytes"
    and ok :: "'a \<Rightarrow> bool"
  assumes acc_Some: "ok a \<Longrightarrow> acc a off n = Some p \<Longrightarrow> p = off \<and> unat off + unat n \<le> length (mem a)"
    and acc_None: "ok a \<Longrightarrow> acc a off n = None \<Longrightarrow> length (mem a) < unat off + unat n"
    and mem_u32: "ok a \<Longrightarrow> length (mem a) < 2 ^ 32"
begin

lemma acc_iff: "ok a \<Longrightarrow> acc a off n = Some p \<longleftrightarrow> p = off \<and> unat off + unat n \<le> length (mem a)"
  using acc_Some [of a off n] acc_None [of a off n] by (cases "acc a off n") auto

lemma acc_load:
  "ok a \<Longrightarrow> acc a off n = Some p \<Longrightarrow> m \<le> unat n \<Longrightarrow>
     rd (mem a) (unat p) m = Some (take m (drop (unat off) (mem a)))"
  using acc_Some [of a off n p] by (auto simp: mem_simps)

lemma acc_no_wrap: "ok a \<Longrightarrow> acc a off n = Some p \<Longrightarrow> unat (off + n) = unat off + unat n"
  using acc_Some [of a off n p] mem_u32 [of a] by (intro unat_add_u32) simp

end

lemma check_access_Some_iff:
  "check_access a off n = Some p \<longleftrightarrow> p = off \<and> unat off + unat n \<le> unat (za_size a)"
proof -
  have "off \<le> off + n \<longleftrightarrow> unat off + unat n < 2 ^ 32"
    using no_olen_add_nat [of off n] by simp
  moreover have "unat (off + n) = unat off + unat n" if "unat off + unat n < 2 ^ 32"
    using that unat_add_lem [of off n] by simp
  moreover have "unat (za_size a) < 2 ^ 32"
    using unsigned_less [of "za_size a"] by simp
  ultimately show ?thesis
    unfolding check_access_def
    by (auto simp: not_less word_le_nat_alt word_less_nat_alt)
qed

interpretation za: bounded_view check_access za_data wf_archive
proof unfold_locales
  fix a off n p
  assume "wf_archive a" "check_access a off n = Some p"
  then show "p = off \<and> unat off + unat n \<le> length (za_data a)"
    by (simp add: check_access_Some_iff wf_archive_def)
next
  fix a off n
  assume "wf_archive a" "check_access a off n = None"
  then show "length (za_data a) < unat off + unat n"
    using check_access_Some_iff [of a off n off] by (simp add: wf_archive_def)
next
  fix a
  assume "wf_archive a"
  then show "length (za_data a) < 2 ^ 32"
    using unat_u32_less [of "za_size a"] by (simp add: wf_archive_def)
qed

lemma load_after_check:
  assumes "wf_archive a"
  shows "check_access a off 22 = Some p \<Longrightarrow>
      load_eocd a p = Some (eocd_of_bytes (take 22 (drop (unat off) (za_data a))))"
    and "check_access a off 46 = Some p \<Longrightarrow>
      load_cdfh a p = Some (cdfh_of_bytes (take 46 (drop (unat off) (za_data a))))"
    and "check_access a off 30 = Some p \<Longrightarrow>
      load_lfh a p = Some (lfh_of_bytes (take 30 (drop (unat off) (za_data a))))"
  using assms za.acc_load [of a off 22 p 22] za.acc_load [of a off 46 p 46]
    za.acc_load [of a off 30 p 30]
  by (simp_all add: load_eocd_def load_cdfh_def load_lfh_def)

lemma wf_archive_upd [simp]:
  "wf_archive (a\<lparr>za_cd_offset := x, za_cd_records := y\<rparr>) = wf_archive a"
  by (simp add: wf_archive_def)

definition parse_post :: "bcc_zip_archive \<Rightarrow> int \<times> bcc_zip_archive \<Rightarrow> bool" where
  "parse_post a r \<longleftrightarrow>
     (case r of (rc, a') \<Rightarrow>
        (rc = -1 \<or> rc = -2) \<and> a' = a \<or>
        rc = 0 \<and> a' = a\<lparr>za_cd_offset := za_cd_offset a', za_cd_records := za_cd_records a'\<rparr> \<and>
        unat (za_cd_offset a') \<le> length (za_data a) \<and> unat (za_cd_records a') < 2 ^ 16)"

lemma try_parse_post:
  assumes "wf_archive a"
  shows "\<exists>r. try_parse_end_of_central_directory a off = Some r \<and> parse_post a r"
proof (cases "check_access a off 22")
  case None
  then show ?thesis
    by (simp add: try_parse_end_of_central_directory_def parse_post_def)
next
  case (Some p)
  define e where "e = eocd_of_bytes (take 22 (drop (unat off) (za_data a)))"
  have load: "load_eocd a p = Some e"
    using load_after_check(1) [OF assms Some] by (simp add: e_def)
  have cd: "unat (eocd_cd_offset e) \<le> length (za_data a)"
    if "check_access a (eocd_cd_offset e) (eocd_cd_size e) = Some q" for q
    using za.acc_Some [OF assms that] by simp
  have "unat (ucast (eocd_cd_records e) :: u32) < 2 ^ 16"
    using unat_u16_less [of "eocd_cd_records e"] by simp
  with Some load cd show ?thesis
    by (cases "check_access a (eocd_cd_offset e) (eocd_cd_size e)")
       (auto simp: try_parse_end_of_central_directory_def parse_post_def)
qed


lemma parse_post_wf: "wf_archive a \<Longrightarrow> parse_post a (rc, a') \<Longrightarrow> wf_archive a'"
  by (auto simp: parse_post_def) (metis wf_archive_upd)

lemma scan_miss:
  assumes "\<And>i. 0 \<le> i \<Longrightarrow> limit < i \<Longrightarrow> i \<le> offset \<Longrightarrow>
             try_parse_end_of_central_directory a (word_of_int i) = Some (-1, a)"
  shows "scan_central_directory a offset limit (-1) = Some (-1, a)"
  using assms
proof (induction "nat (offset + 1)" arbitrary: offset)
  case 0
  then show ?case by (simp add: scan_central_directory.simps)
next
  case (Suc n)
  show ?case
  proof (cases "limit < offset")
    case True
    have "scan_central_directory a (offset - 1) limit (-1) = Some (-1, a)"
      using Suc.hyps(2) by (intro Suc.hyps(1) Suc.prems) auto
    with True Suc.hyps(2) Suc.prems [of offset] show ?thesis
      by (simp add: scan_central_directory.simps [of a offset])
  qed (simp add: scan_central_directory.simps)
qed

lemma scan_hit:
  assumes "try_parse_end_of_central_directory a (word_of_int i) = Some (rc, a')" "rc \<noteq> -1"
    and "0 \<le> i" "limit < i" "i \<le> offset"
    and "\<And>j. i < j \<Longrightarrow> j \<le> offset \<Longrightarrow>
           try_parse_end_of_central_directory a (word_of_int j) = Some (-1, a)"
  shows "scan_central_directory a offset limit (-1) = Some (rc, a')"
  using assms(5,6)
proof (induction "nat (offset - i)" arbitrary: offset)
  case 0
  then have "offset = i" by simp
  with assms(1-4) show ?case
    by (simp add: scan_central_directory.simps [of a i])
       (simp add: scan_central_directory.simps [of a'])
next
  case (Suc n)
  have "scan_central_directory a (offset - 1) limit (-1) = Some (rc, a')"
    using Suc.hyps(2) by (intro Suc.hyps(1) Suc.prems) auto
  moreover have "i < offset"
    using Suc.hyps(2) by simp
  ultimately show ?case
    using Suc.prems(2) [of offset] assms(3,4)
    by (simp add: scan_central_directory.simps [of a offset])
qed

text \<open>
  An end-of-central-directory record that parses ends exactly at the end of the file, so its
  comment of at most 65535 bytes puts it inside the scanned window.
\<close>

lemma try_parse_hit_window:
  assumes "wf_archive a" "try_parse_end_of_central_directory a off = Some (rc, a')" "rc \<noteq> -1"
  shows "unat off + 22 \<le> unat (za_size a)" "unat (za_size a) < unat off + 22 + 65536"
proof -
  obtain p where p: "check_access a off 22 = Some p"
    using assms(2,3) by (cases "check_access a off 22")
      (auto simp: try_parse_end_of_central_directory_def)
  define e where "e = eocd_of_bytes (take 22 (drop (unat off) (za_data a)))"
  have load: "load_eocd a p = Some e"
    using load_after_check(1) [OF assms(1) p] by (simp add: e_def)
  have eq: "(ucast off :: u64) + 22 + ucast (eocd_comment_length e) = ucast (za_size a)"
    using assms(2,3) p load
    by (auto simp: try_parse_end_of_central_directory_def split: if_splits)
  have "unat ((ucast off :: u64) + 22 + ucast (eocd_comment_length e)) =
        unat off + 22 + unat (eocd_comment_length e)"
    using unat_u32_less [of off] unat_u16_less [of "eocd_comment_length e"]
    by (simp add: unat_word_ariths)
  then have "unat (za_size a) = unat off + 22 + unat (eocd_comment_length e)"
    using eq by (metis unat_ucast_u32_u64)
  then show "unat off + 22 \<le> unat (za_size a)" "unat (za_size a) < unat off + 22 + 65536"
    using unat_u16_less [of "eocd_comment_length e"] by simp_all
qed

lemma word_of_int_u32_inverse: "0 \<le> i \<Longrightarrow> i < 4294967296 \<Longrightarrow> int (unat (word_of_int i :: u32)) = i"
  by (simp add: uint_word_of_int)

lemma find_central_directory_last_hit:
  assumes "wf_archive a" "22 < unat (za_size a)"
    and hit: "try_parse_end_of_central_directory a off = Some (rc, a')" "rc \<noteq> -1"
    and last: "\<And>off'. off < off' \<Longrightarrow> try_parse_end_of_central_directory a off' = Some (-1, a)"
  shows "find_central_directory a = Some (rc, a')"
proof -
  let ?o = "int (unat (za_size a)) - 22"
  note win = try_parse_hit_window [OF assms(1) hit]
  have "scan_central_directory a ?o (?o - 65536) (-1) = Some (rc, a')"
  proof (rule scan_hit)
    show "try_parse_end_of_central_directory a (word_of_int (int (unat off))) = Some (rc, a')"
      using hit(1) by simp
    fix j
    assume j: "int (unat off) < j" "j \<le> ?o"
    moreover have "0 \<le> j" "j < 4294967296"
      using j unat_u32_less [of "za_size a"] by linarith+
    ultimately have "off < word_of_int j"
      using word_of_int_u32_inverse [of j] by (simp add: word_less_def)
    then show "try_parse_end_of_central_directory a (word_of_int j) = Some (-1, a)"
      by (rule last)
  next
    show "?o - 65536 < int (unat off)" "int (unat off) \<le> ?o"
      using win by linarith+
  qed (use hit(2) in simp_all)
  then show ?thesis
    using assms(2) by (simp add: find_central_directory_def word_le_nat_alt Let_def)
qed

lemma find_central_directory_no_hit:
  assumes "\<And>off. try_parse_end_of_central_directory a off = Some (-1, a)"
  shows "find_central_directory a = Some (-1, a)"
  using assms by (simp add: find_central_directory_def Let_def scan_miss)


lemma scan_post:
  assumes "wf_archive a"
  shows "\<exists>r. scan_central_directory a offset limit rc = Some r \<and> (rc = -1 \<longrightarrow> parse_post a r)"
  using assms
proof (induction a offset limit rc rule: scan_central_directory.induct)
  case (1 a offset limit rc)
  show ?case
  proof (cases "0 \<le> offset \<and> limit < offset \<and> rc = -1")
    case True
    obtain rc' a' where parse: "try_parse_end_of_central_directory a (word_of_int offset) = Some (rc', a')"
      and post: "parse_post a (rc', a')"
      using try_parse_post [OF "1.prems", of "word_of_int offset"] by auto
    obtain r where r: "scan_central_directory a' (offset - 1) limit rc' = Some r"
        "rc' = -1 \<longrightarrow> parse_post a' r"
      using "1.IH" [OF True parse refl parse_post_wf [OF "1.prems" post]] by blast
    show ?thesis
    proof (cases "rc' = -1")
      case True
      then have "a' = a" using post by (auto simp: parse_post_def)
      with r True \<open>0 \<le> offset \<and> limit < offset \<and> rc = -1\<close> parse show ?thesis
        by (simp add: scan_central_directory.simps [of a offset])
    next
      case False
      then have "r = (rc', a')"
        using r(1) by (simp add: scan_central_directory.simps [of a'])
      with r(1) post \<open>0 \<le> offset \<and> limit < offset \<and> rc = -1\<close> parse show ?thesis
        by (simp add: scan_central_directory.simps [of a offset])
    qed
  next
    case False
    then show ?thesis
      by (auto simp: scan_central_directory.simps [of a offset] parse_post_def)
  qed
qed

lemma find_central_directory_post:
  assumes "wf_archive a"
  shows "\<exists>r. find_central_directory a = Some r \<and> parse_post a r"
proof (cases "za_size a \<le> 22")
  case False
  then show ?thesis
    using scan_post [OF assms, of "int (unat (za_size a)) - 22" "int (unat (za_size a)) - 22 - 65536" "-1"]
    by (simp add: find_central_directory_def Let_def)
qed (simp add: find_central_directory_def parse_post_def)

lemma local_file_header_at_offset_total:
  assumes "wf_archive a"
  shows "\<exists>r. local_file_header_at_offset a off = Some r \<and>
           (r \<noteq> None \<longrightarrow> check_access a off 30 = Some off)"
  using load_after_check(3) [OF assms, of off] check_access_Some_iff [of a off 30]
  by (cases "check_access a off 30") (auto simp: local_file_header_at_offset_def)

lemma cd_file_header_at_offset_total:
  assumes "wf_archive a"
  shows "\<exists>r. cd_file_header_at_offset a off = Some r \<and>
           (r \<noteq> None \<longrightarrow> check_access a off 46 = Some off)"
  using load_after_check(2) [OF assms, of off] check_access_Some_iff [of a off 46]
  by (cases "check_access a off 46") (auto simp: cd_file_header_at_offset_def)

text \<open>A successful lookup hands out a name and a data range that lie inside the mapping.\<close>

lemma get_entry_at_offset_post:
  assumes "wf_archive a"
  shows "\<exists>rc e. get_entry_at_offset a off out = Some (rc, e) \<and>
           (rc = 0 \<and> entry_in_bounds a e \<or> rc = -1 \<and> e = out)"
proof -
  obtain r where r: "local_file_header_at_offset a off = Some r"
      "r \<noteq> None \<longrightarrow> check_access a off 30 = Some off"
    using local_file_header_at_offset_total [OF assms] by blast
  show ?thesis
  proof (cases r)
    case None
    with r show ?thesis by (simp add: get_entry_at_offset_def)
  next
    case (Some lfh)
    let ?o1 = "off + 30"
    let ?o2 = "?o1 + ucast (lfh_file_name_length lfh)"
    let ?o3 = "?o2 + ucast (lfh_extra_field_length lfh)"
    have "entry_in_bounds a \<lparr>ze_compression = c, ze_name = p, ze_name_length = lfh_file_name_length lfh,
            ze_data = q, ze_data_length = lfh_compressed_size lfh, ze_data_offset = ?o3\<rparr>"
      if "check_access a ?o1 (ucast (lfh_file_name_length lfh)) = Some p"
        and "check_access a ?o2 (ucast (lfh_extra_field_length lfh)) = Some x"
        and "check_access a ?o3 (lfh_compressed_size lfh) = Some q" for p x q c
      using za.acc_Some [OF assms that(1)] za.acc_Some [OF assms that(2)]
        za.acc_Some [OF assms that(3)] za.acc_no_wrap [OF assms that(1)]
        za.acc_no_wrap [OF assms that(2)]
      by (simp add: entry_in_bounds_def)
    with r Some show ?thesis
      by (auto simp: get_entry_at_offset_def Let_def split: option.splits)
  qed
qed

lemma find_entry_loop_post:
  assumes "wf_archive a"
  shows "\<exists>rc e. find_entry_loop a name n off out = Some (rc, e) \<and>
           (rc = 0 \<and> entry_in_bounds a e \<or> rc = -1 \<and> e = out)"
proof (induction n arbitrary: off)
  case (Suc n)
  obtain r where r: "cd_file_header_at_offset a off = Some r"
    using cd_file_header_at_offset_total [OF assms] by blast
  show ?case
  proof (cases r)
    case (Some h)
    show ?thesis
    proof (cases "check_access a (off + 46) (ucast (cdfh_file_name_length h))")
      case (Some p)
      note in_range = za.acc_Some [OF assms Some]
      have "(if cdfh_plain h \<and> length name = unat (cdfh_file_name_length h)
          then map_option (\<lambda>bs. bs = name) (rd (za_data a) (unat (off + 46)) (length name))
          else Some False) \<noteq> None"
        using in_range by (auto simp: mem_simps)
      then obtain hit where
        "(if cdfh_plain h \<and> length name = unat (cdfh_file_name_length h)
          then map_option (\<lambda>bs. bs = name) (rd (za_data a) (unat (off + 46)) (length name))
          else Some False) = Some hit"
        by blast
      with r \<open>r = Some h\<close> Some Suc get_entry_at_offset_post [OF assms] show ?thesis
        by (cases hit) (simp_all add: Let_def)
    qed (simp add: r \<open>r = Some h\<close> Let_def)
  qed (simp add: r)
qed simp

lemma find_entry_at_offset_loop_post:
  assumes "wf_archive a"
  shows "\<exists>rc e. find_entry_at_offset_loop a target n off out = Some (rc, e) \<and>
           (rc = -1 \<or> rc = 0 \<and> entry_in_bounds a e \<and> unat (ze_data e) \<le> unat target \<and>
                       unat target < unat (ze_data e) + unat (ze_data_length e))"
proof (induction n arbitrary: off out)
  case (Suc n)
  obtain r where r: "cd_file_header_at_offset a off = Some r"
    using cd_file_header_at_offset_total [OF assms] by blast
  show ?case
  proof (cases r)
    case (Some h)
    obtain rc e where "get_entry_at_offset a (cdfh_offset h) out = Some (rc, e)"
        "rc = 0 \<and> entry_in_bounds a e \<or> rc = -1 \<and> e = out"
      using get_entry_at_offset_post [OF assms] by blast
    with r Some Suc show ?thesis
      by (auto simp: Let_def)
  qed (simp add: r)
qed simp



section \<open>Resources\<close>

lemmas os_defs = os_open_fd_def os_close_fd_def os_mmap_def os_munmap_def os_malloc_def os_free_def

lemma os_cancel [simp]:
  "os_close_fd (os_open_fd os) = os" "os_munmap (os_mmap os) = os" "os_free (os_malloc os) = os"
  "os_close_fd (os_mmap (os_open_fd os)) = os_mmap os"
  "os_munmap (os_malloc os) = os_malloc (os_munmap os)"
  by (simp_all add: os_defs)

lemma wf_archive_mapped:
  "length contents \<le> 4294967295 \<Longrightarrow>
     wf_archive \<lparr>za_data = contents, za_size = word_of_int (int (length contents)),
                 za_cd_offset = x, za_cd_records = y\<rparr>"
  by (simp add: wf_archive_def unat_of_nat)

lemma bcc_zip_archive_open_post:
  "\<exists>r os'. bcc_zip_archive_open env os path = Some (r, os') \<and>
     (case r of None \<Rightarrow> os' = os
      | Some a \<Rightarrow> wf_archive a \<and> env_open env path = Some (za_data a) \<and>
                  os' = os_malloc (os_mmap os))"
proof (cases "env_open env path")
  case (Some contents)
  show ?thesis
  proof (cases "env_lseek_ok env \<and> length contents \<le> 4294967295 \<and> env_mmap_ok env \<and>
      contents \<noteq> [] \<and> env_malloc_ok env")
    case True
    let ?a = "\<lparr>za_data = contents, za_size = word_of_int (int (length contents)),
                za_cd_offset = fst (env_junk env), za_cd_records = snd (env_junk env)\<rparr>"
    have wf: "wf_archive ?a"
      using True by (intro wf_archive_mapped) simp
    obtain rc a' where fcd: "find_central_directory ?a = Some (rc, a')"
      and post: "parse_post ?a (rc, a')"
      using find_central_directory_post [OF wf] by auto
    have "wf_archive a'"
      using wf post by (rule parse_post_wf)
    moreover have "za_data a' = contents"
      using post by (auto simp: parse_post_def) (metis bcc_zip_archive.select_convs(1)
          bcc_zip_archive.update_convs(3,4))
    ultimately show ?thesis
      using True Some fcd by (simp add: bcc_zip_archive_open_def Let_def)
  next
    case False
    with Some show ?thesis
      by (auto simp: bcc_zip_archive_open_def Let_def)
  qed
qed (simp add: bcc_zip_archive_open_def)

lemma open_and_find_accounts:
  "\<exists>r e os'. bcc_zip_archive_open_and_find env os path out = Some (r, e, os') \<and>
     (case r of None \<Rightarrow> os' = os
      | Some a \<Rightarrow> wf_archive a \<and> entry_in_bounds a e \<and> bcc_zip_archive_close os' a = os)"
proof (cases "strstr path [0x21, 0x2f]")
  case (Some sep)
  show ?thesis
  proof (cases "sep \<ge> PATH_MAX")
    case False
    obtain r os' where op: "bcc_zip_archive_open env os (take sep path) = Some (r, os')"
        and post: "case r of None \<Rightarrow> os' = os
          | Some a \<Rightarrow> wf_archive a \<and> env_open env (take sep path) = Some (za_data a) \<and>
                      os' = os_malloc (os_mmap os)"
      using bcc_zip_archive_open_post [of env os "take sep path"] by blast
    show ?thesis
    proof (cases r)
      case (Some a)
      then have wf: "wf_archive a" and os': "os' = os_malloc (os_mmap os)"
        using post by auto
      obtain rc e where "bcc_zip_archive_find_entry a (drop (sep + 2) path) out = Some (rc, e)"
          "rc = 0 \<and> entry_in_bounds a e \<or> rc = -1 \<and> e = out"
        using find_entry_loop_post [OF wf] unfolding bcc_zip_archive_find_entry_def by blast
      with Some False op os' wf \<open>strstr path _ = Some sep\<close> show ?thesis
        by (auto simp: bcc_zip_archive_open_and_find_def bcc_zip_archive_close_def)
    qed (use False op post \<open>strstr path _ = Some sep\<close> in
          \<open>simp add: bcc_zip_archive_open_and_find_def\<close>)
  qed (simp add: bcc_zip_archive_open_and_find_def Some)
qed (simp add: bcc_zip_archive_open_and_find_def)

text \<open>
  (C1) Opening an archive by its \<open>archive!/entry\<close> path performs no out-of-bounds access for any
  file contents, path and answers of the operating system.  It either returns NULL with every
  descriptor, mapping and allocation released, or an archive whose reported entry lies inside the
  mapped file and whose closing releases everything that was acquired.
\<close>

theorem zip_open_and_find_safe:
  "\<exists>r e os'. bcc_zip_archive_open_and_find env os path out = Some (r, e, os') \<and>
     (case r of None \<Rightarrow> os' = os
      | Some a \<Rightarrow> wf_archive a \<and> entry_in_bounds a e \<and> bcc_zip_archive_close os' a = os)"
  by (rule open_and_find_accounts)

end
