(* ===== verification/Zip_Roundtrip.thy ===== *)
theory Zip_Roundtrip
  imports Zip
begin

text \<open>
  An encoder for ZIP archives of the kind \<^verbatim>\<open>bcc_zip.c\<close> supports (one disk, no encryption, no data
  descriptors, no archive comment), as the specification of the file format, and the proof that
  the reader of theory \<^verbatim>\<open>Zip\<close> finds in an encoded archive exactly the files that were encoded, by
  name and by file offset.
\<close>


section \<open>The format\<close>

record zip_file =
  zf_compression :: u16
  zf_name :: bytes
  zf_extra :: bytes
  zf_data :: bytes
  zf_cd_extra :: bytes
  zf_comment :: bytes

definition enc_lfh :: "zip_file \<Rightarrow> bytes" where
  "enc_lfh f = enc_le 4 0x04034b50 @ enc_le 2 10 @ enc_le 2 0 @ enc_le 2 (unat (zf_compression f)) @
     enc_le 2 0 @ enc_le 2 0 @ enc_le 4 0 @ enc_le 4 (length (zf_data f)) @
     enc_le 4 (length (zf_data f)) @ enc_le 2 (length (zf_name f)) @ enc_le 2 (length (zf_extra f))"

definition enc_local :: "zip_file \<Rightarrow> bytes" where
  "enc_local f = enc_lfh f @ zf_name f @ zf_extra f @ zf_data f"

definition enc_cdfh :: "nat \<Rightarrow> zip_file \<Rightarrow> bytes" where
  "enc_cdfh off f = enc_le 4 0x02014b50 @ enc_le 2 10 @ enc_le 2 10 @ enc_le 2 0 @
     enc_le 2 (unat (zf_compression f)) @ enc_le 2 0 @ enc_le 2 0 @ enc_le 4 0 @
     enc_le 4 (length (zf_data f)) @ enc_le 4 (length (zf_data f)) @ enc_le 2 (length (zf_name f)) @
     enc_le 2 (length (zf_cd_extra f)) @ enc_le 2 (length (zf_comment f)) @ enc_le 2 0 @ enc_le 2 0 @
     enc_le 4 0 @ enc_le 4 off"

definition enc_cd1 :: "nat \<Rightarrow> zip_file \<Rightarrow> bytes" where
  "enc_cd1 off f = enc_cdfh off f @ zf_name f @ zf_cd_extra f @ zf_comment f"

fun enc_cd :: "nat \<Rightarrow> zip_file list \<Rightarrow> bytes" where
  "enc_cd off [] = []"
| "enc_cd off (f # fs) = enc_cd1 off f @ enc_cd (off + length (enc_local f)) fs"

definition enc_eocd :: "nat \<Rightarrow> nat \<Rightarrow> nat \<Rightarrow> bytes" where
  "enc_eocd n cd_size cd_off = enc_le 4 0x06054b50 @ enc_le 2 0 @ enc_le 2 0 @ enc_le 2 n @
     enc_le 2 n @ enc_le 4 cd_size @ enc_le 4 cd_off @ enc_le 2 0"

definition zip_bytes :: "zip_file list \<Rightarrow> bytes" where
  "zip_bytes fs = (let locals = concat (map enc_local fs); cd = enc_cd 0 fs in
     locals @ cd @ enc_eocd (length fs) (length cd) (length locals))"

definition zip_file_ok :: "zip_file \<Rightarrow> bool" where
  "zip_file_ok f \<longleftrightarrow> length (zf_name f) < 65536 \<and> length (zf_extra f) < 65536 \<and>
     length (zf_data f) < 4294967296 \<and>
     length (zf_cd_extra f) < 65536 \<and> length (zf_comment f) < 65536"

definition entry_for :: "bytes \<Rightarrow> zip_file \<Rightarrow> bcc_zip_entry \<Rightarrow> bool" where
  "entry_for bs f e \<longleftrightarrow> ze_compression e = zf_compression f \<and>
     rd bs (unat (ze_name e)) (unat (ze_name_length e)) = Some (zf_name f) \<and>
     rd bs (unat (ze_data_offset e)) (unat (ze_data_length e)) = Some (zf_data f) \<and>
     ze_data e = ze_data_offset e"

definition archive_of :: "bytes \<Rightarrow> u32 \<times> u32 \<Rightarrow> bcc_zip_archive" where
  "archive_of bs cd = \<lparr>za_data = bs, za_size = word_of_nat (length bs), za_cd_offset = fst cd,
     za_cd_records = snd cd\<rparr>"

lemma length_enc_lfh [simp]: "length (enc_lfh f) = 30"
  by (simp add: enc_lfh_def)

lemma length_enc_cdfh [simp]: "length (enc_cdfh off f) = 46"
  by (simp add: enc_cdfh_def)

lemma enc_local_ne [simp]: "enc_local f \<noteq> []"
  by (simp add: enc_local_def flip: length_greater_0_conv)

lemma length_enc_eocd [simp]: "length (enc_eocd n s off) = 22"
  by (simp add: enc_eocd_def)

lemma field_reads: 
  "unaligned_uint16_read (enc_le 2 v) = word_of_nat v"
  "unaligned_uint32_read (enc_le 4 v) = word_of_nat v"
proof -
  have "(word_of_nat (v mod 65536) :: u16) = word_of_nat v"
    by (rule unsigned_word_eqI [where ?'a = nat]) (simp add: unat_of_nat)
  then show "unaligned_uint16_read (enc_le 2 v) = word_of_nat v"
    by (simp add: unaligned_uint16_read_def le_simps)
  have "(word_of_nat (v mod 4294967296) :: u32) = word_of_nat v"
    by (rule unsigned_word_eqI [where ?'a = nat]) (simp add: unat_of_nat)
  then show "unaligned_uint32_read (enc_le 4 v) = word_of_nat v"
    by (simp add: unaligned_uint32_read_def le_simps)
qed

lemma lfh_of_enc:
  "lfh_of_bytes (enc_lfh f) = \<lparr>lfh_magic = LOCAL_FILE_HEADER_MAGIC, lfh_min_version = 10,
     lfh_flags = 0, lfh_compression = zf_compression f, lfh_last_modified_time = 0,
     lfh_last_modified_date = 0, lfh_crc = 0, lfh_compressed_size = word_of_nat (length (zf_data f)),
     lfh_uncompressed_size = word_of_nat (length (zf_data f)),
     lfh_file_name_length = word_of_nat (length (zf_name f)),
     lfh_extra_field_length = word_of_nat (length (zf_extra f))\<rparr>"
  by (simp add: lfh_of_bytes_def enc_lfh_def field16_def field32_def field_reads
      LOCAL_FILE_HEADER_MAGIC_def)

lemma cdfh_of_enc:
  "cdfh_of_bytes (enc_cdfh off f) = \<lparr>cdfh_magic = CD_FILE_HEADER_MAGIC, cdfh_version = 10,
     cdfh_min_version = 10, cdfh_flags = 0, cdfh_compression = zf_compression f,
     cdfh_last_modified_time = 0, cdfh_last_modified_date = 0, cdfh_crc = 0,
     cdfh_compressed_size = word_of_nat (length (zf_data f)),
     cdfh_uncompressed_size = word_of_nat (length (zf_data f)),
     cdfh_file_name_length = word_of_nat (length (zf_name f)),
     cdfh_extra_field_length = word_of_nat (length (zf_cd_extra f)),
     cdfh_file_comment_length = word_of_nat (length (zf_comment f)), cdfh_disk = 0,
     cdfh_internal_attributes = 0, cdfh_external_attributes = 0, cdfh_offset = word_of_nat off\<rparr>"
  by (simp add: cdfh_of_bytes_def enc_cdfh_def field16_def field32_def field_reads
      CD_FILE_HEADER_MAGIC_def)

lemma eocd_of_enc:
  "eocd_of_bytes (enc_eocd n s off) = \<lparr>eocd_magic = END_OF_CD_RECORD_MAGIC, eocd_this_disk = 0,
     eocd_cd_disk = 0, eocd_cd_records = word_of_nat n, eocd_cd_records_total = word_of_nat n,
     eocd_cd_size = word_of_nat s, eocd_cd_offset = word_of_nat off, eocd_comment_length = 0\<rparr>"
  by (simp add: eocd_of_bytes_def enc_eocd_def field16_def field32_def field_reads
      END_OF_CD_RECORD_MAGIC_def)

lemma check_access_of_nat:
  "wf_archive a \<Longrightarrow> p + n \<le> length (za_data a) \<Longrightarrow> n < 4294967296 \<Longrightarrow>
   check_access a (word_of_nat p) (word_of_nat n) = Some (word_of_nat p)"
  using za.mem_u32 [of a] by (simp add: za.acc_iff)

lemma get_entry_of_enc:
  assumes wf: "wf_archive a" and data: "za_data a = pre @ enc_local f @ post"
    and ok: "zip_file_ok f"
  shows "get_entry_at_offset a (word_of_nat (length pre)) out =
     Some (0, \<lparr>ze_compression = zf_compression f, ze_name = word_of_nat (length pre + 30),
       ze_name_length = word_of_nat (length (zf_name f)),
       ze_data = word_of_nat (length pre + 30 + length (zf_name f) + length (zf_extra f)),
       ze_data_length = word_of_nat (length (zf_data f)),
       ze_data_offset = word_of_nat (length pre + 30 + length (zf_name f) + length (zf_extra f))\<rparr>)"
proof -
  have len: "length (za_data a) = length pre + 30 + length (zf_name f) + length (zf_extra f) +
      length (zf_data f) + length post"
    by (simp add: data enc_local_def)
  have small: "length (za_data a) < 4294967296"
    using za.mem_u32 [OF wf] by simp
  have lens: "length (zf_name f) < 65536" "length (zf_extra f) < 65536" "length (zf_data f) < 4294967296"
    using ok by (simp_all add: zip_file_ok_def)
  have acc: "check_access a (word_of_nat (length pre)) 30 = Some (word_of_nat (length pre))"
    using check_access_of_nat [OF wf, of "length pre" 30] len by simp
  have "load_lfh a (word_of_nat (length pre)) = Some (lfh_of_bytes (enc_lfh f))"
    using load_after_check(3) [OF wf acc] len small by (simp add: data enc_local_def)
  then have lfh: "local_file_header_at_offset a (word_of_nat (length pre)) =
      Some (Some (lfh_of_bytes (enc_lfh f)))"
    by (simp add: local_file_header_at_offset_def acc lfh_of_enc)
  have acc1: "check_access a (word_of_nat (length pre + 30)) (word_of_nat (length (zf_name f))) =
      Some (word_of_nat (length pre + 30))"
    using len lens by (intro check_access_of_nat [OF wf]) simp_all
  have acc2: "check_access a (word_of_nat (length pre + 30 + length (zf_name f)))
      (word_of_nat (length (zf_extra f))) = Some (word_of_nat (length pre + 30 + length (zf_name f)))"
    using len lens by (intro check_access_of_nat [OF wf]) simp_all
  have acc3: "check_access a (word_of_nat (length pre + 30 + length (zf_name f) + length (zf_extra f)))
      (word_of_nat (length (zf_data f))) =
      Some (word_of_nat (length pre + 30 + length (zf_name f) + length (zf_extra f)))"
    using len lens by (intro check_access_of_nat [OF wf]) simp_all
  show ?thesis
    using acc1 acc2 acc3 lens
    by (simp add: get_entry_at_offset_def lfh lfh_of_enc Let_def ucast_of_nat_u16 add.commute add.left_commute)
qed

lemma get_entry_of_enc_for:
  assumes wf: "wf_archive a" and data: "za_data a = pre @ enc_local f @ post"
    and ok: "zip_file_ok f"
  shows "\<exists>e. get_entry_at_offset a (word_of_nat (length pre)) out = Some (0, e) \<and>
             entry_for (za_data a) f e"
proof -
  have "length (za_data a) < 4294967296"
    using za.mem_u32 [OF wf] by simp
  moreover have "length (zf_name f) < 65536" "length (zf_data f) < 4294967296"
    using ok by (simp_all add: zip_file_ok_def)
  moreover have "length (za_data a) = length pre + 30 + length (zf_name f) + length (zf_extra f) +
      length (zf_data f) + length post"
    by (simp add: data enc_local_def)
  ultimately show ?thesis
    using get_entry_of_enc [OF assms]
    by (simp add: entry_for_def rd_def data enc_local_def del: of_nat_add)
qed

lemma cd_header_of_enc:
  assumes wf: "wf_archive a" and data: "za_data a = pre @ enc_cd1 off f @ post"
    and ok: "zip_file_ok f"
  shows "cd_file_header_at_offset a (word_of_nat (length pre)) =
           Some (Some (cdfh_of_bytes (enc_cdfh off f)))"
    and "check_access a (word_of_nat (length pre) + 46) (word_of_nat (length (zf_name f))) =
           Some (word_of_nat (length pre) + 46)"
    and "rd (za_data a) (unat (word_of_nat (length pre) + 46 :: u32)) (length (zf_name f)) =
           Some (zf_name f)"
proof -
  have len: "length (za_data a) = length pre + 46 + length (zf_name f) + length (zf_cd_extra f) +
      length (zf_comment f) + length post"
    by (simp add: data enc_cd1_def)
  have small: "length (za_data a) < 4294967296"
    using za.mem_u32 [OF wf] by simp
  have acc: "check_access a (word_of_nat (length pre)) 46 = Some (word_of_nat (length pre))"
    using check_access_of_nat [OF wf, of "length pre" 46] len by simp
  have "load_cdfh a (word_of_nat (length pre)) = Some (cdfh_of_bytes (enc_cdfh off f))"
    using load_after_check(2) [OF wf acc] len small by (simp add: data enc_cd1_def)
  then show "cd_file_header_at_offset a (word_of_nat (length pre)) =
      Some (Some (cdfh_of_bytes (enc_cdfh off f)))"
    by (simp add: cd_file_header_at_offset_def acc cdfh_of_enc)
  have pos: "(word_of_nat (length pre) + 46 :: u32) = word_of_nat (length pre + 46)"
    by simp
  show "check_access a (word_of_nat (length pre) + 46) (word_of_nat (length (zf_name f))) =
      Some (word_of_nat (length pre) + 46)"
    unfolding pos using len ok
    by (intro check_access_of_nat [OF wf]) (simp_all add: zip_file_ok_def)
  have "unat (word_of_nat (length pre) + 46 :: u32) = length pre + 46"
    unfolding pos using len small by (intro unat_of_nat_u32) simp
  then show "rd (za_data a) (unat (word_of_nat (length pre) + 46 :: u32)) (length (zf_name f)) =
      Some (zf_name f)"
    using len by (simp add: rd_def data enc_cd1_def)
qed

lemma find_entry_loop_of_enc:
  assumes wf: "wf_archive a" and ok: "\<forall>f\<in>set fs. zip_file_ok f"
    and data: "za_data a = lpre @ concat (map enc_local fs) @ cpre @ enc_cd (length lpre) fs @ rest"
  shows "case find (\<lambda>f. zf_name f = name) fs of
       None \<Rightarrow> find_entry_loop a name (length fs)
           (word_of_nat (length (lpre @ concat (map enc_local fs) @ cpre))) out = Some (-1, out)
     | Some f \<Rightarrow> \<exists>e. find_entry_loop a name (length fs)
           (word_of_nat (length (lpre @ concat (map enc_local fs) @ cpre))) out = Some (0, e) \<and>
           entry_for (za_data a) f e"
  using ok data
proof (induction fs arbitrary: lpre cpre)
  case (Cons f fs)
  let ?pre = "lpre @ concat (map enc_local (f # fs)) @ cpre"
  let ?pos = "word_of_nat (length ?pre) :: u32"
  have okf: "zip_file_ok f" using Cons.prems(1) by simp
  have at: "za_data a = ?pre @ enc_cd1 (length lpre) f @ (enc_cd (length lpre + length (enc_local f)) fs @ rest)"
    using Cons.prems(2) by simp
  note hdr = cd_header_of_enc [OF wf at okf]
  have lens: "length (zf_name f) < 65536" "length (zf_cd_extra f) < 65536" "length (zf_comment f) < 65536"
    using okf by (simp_all add: zip_file_ok_def)
  show ?case
  proof (cases "zf_name f = name")
    case True
    obtain e where "get_entry_at_offset a (word_of_nat (length lpre)) out = Some (0, e)"
        "entry_for (za_data a) f e"
      using get_entry_of_enc_for [OF wf _ okf, of lpre "concat (map enc_local fs) @ cpre @
        enc_cd (length lpre) (f # fs) @ rest" out] Cons.prems(2) by auto
    moreover have "find_entry_loop a name (length (f # fs)) ?pos out =
        get_entry_at_offset a (word_of_nat (length lpre)) out"
      using hdr True lens
      by (simp add: cdfh_of_enc Let_def ucast_of_nat_u16 cdfh_plain_def del: length_append of_nat_add)
    ultimately show ?thesis
      using True by simp
  next
    case False
    have "\<not> (length name = length (zf_name f) \<and> rd (za_data a) (unat (?pos + 46)) (length name) = Some name)"
      using False hdr(3) by auto
    then have "find_entry_loop a name (length (f # fs)) ?pos out =
        find_entry_loop a name (length fs) (?pos + 46 + word_of_nat (length (zf_name f)) +
          word_of_nat (length (zf_cd_extra f)) + word_of_nat (length (zf_comment f))) out"
      using hdr False lens
      by (auto simp add: cdfh_of_enc Let_def ucast_of_nat_u16 cdfh_plain_def simp del: length_append of_nat_add)
    also have "?pos + 46 + word_of_nat (length (zf_name f)) + word_of_nat (length (zf_cd_extra f)) +
        word_of_nat (length (zf_comment f)) =
        word_of_nat (length ((lpre @ enc_local f) @ concat (map enc_local fs) @ (cpre @ enc_cd1 (length lpre) f)))"
      by (simp add: enc_cd1_def)
    finally have step: "find_entry_loop a name (length (f # fs)) ?pos out =
        find_entry_loop a name (length fs) (word_of_nat (length ((lpre @ enc_local f) @
          concat (map enc_local fs) @ (cpre @ enc_cd1 (length lpre) f)))) out" .
    have skip: "find (\<lambda>f. zf_name f = name) (f # fs) = find (\<lambda>f. zf_name f = name) fs"
      using False by simp
    show ?thesis
      unfolding step skip by (rule Cons.IH) (use Cons.prems in simp_all)
  qed
qed simp

lemma try_parse_of_enc:
  assumes wf: "wf_archive a"
    and data: "za_data a = pre @ enc_eocd n s off" and n: "n < 65536" and cd: "off + s \<le> length pre"
  shows "try_parse_end_of_central_directory a (word_of_nat (length pre)) =
     Some (0, a\<lparr>za_cd_offset := word_of_nat off, za_cd_records := word_of_nat n\<rparr>)"
proof -
  have len: "length (za_data a) = length pre + 22"
    by (simp add: data)
  have small: "length (za_data a) < 4294967296"
    using za.mem_u32 [OF wf] by simp
  have acc: "check_access a (word_of_nat (length pre)) 22 = Some (word_of_nat (length pre))"
    using check_access_of_nat [OF wf, of "length pre" 22] len by simp
  have load: "load_eocd a (word_of_nat (length pre)) = Some (eocd_of_bytes (enc_eocd n s off))"
    using load_after_check(1) [OF wf acc] len small by (simp add: data)
  have "unat ((ucast (word_of_nat (length pre) :: u32) :: u64) + 22) = unat (ucast (za_size a) :: u64)"
    using wf len small by (simp add: unat_word_ariths wf_archive_def)
  then have "(ucast (word_of_nat (length pre) :: u32) :: u64) + 22 = ucast (za_size a)"
    by (rule unsigned_word_eqI [where ?'a = nat])
  moreover have "check_access a (word_of_nat off) (word_of_nat s) = Some (word_of_nat off)"
    using len small cd by (intro check_access_of_nat [OF wf]) simp_all
  ultimately show ?thesis
    using n by (simp add: try_parse_end_of_central_directory_def acc load eocd_of_enc ucast_of_nat_u16)
qed

lemma find_central_directory_of_enc:
  assumes wf: "wf_archive a"
    and data: "za_data a = pre @ enc_eocd n s off" and n: "n < 65536" and cd: "off + s \<le> length pre"
    and ne: "pre \<noteq> []"
  shows "find_central_directory a =
     Some (0, a\<lparr>za_cd_offset := word_of_nat off, za_cd_records := word_of_nat n\<rparr>)"
proof (rule find_central_directory_last_hit [OF wf])
  show "try_parse_end_of_central_directory a (word_of_nat (length pre)) =
     Some (0, a\<lparr>za_cd_offset := word_of_nat off, za_cd_records := word_of_nat n\<rparr>)"
    by (rule try_parse_of_enc [OF wf data n cd])
  have sz: "unat (za_size a) = length pre + 22"
    using wf by (simp add: wf_archive_def data)
  then show "22 < unat (za_size a)"
    using ne by simp
  fix off' :: u32
  assume "word_of_nat (length pre) < off'"
  then have "unat (za_size a) < unat off' + 22"
    using sz unat_u32_less [of "za_size a"] by (simp add: word_less_nat_alt)
  then have "check_access a off' 22 = None"
    using check_access_Some_iff [of a off' 22] by (cases "check_access a off' 22") auto
  then show "try_parse_end_of_central_directory a off' = Some (-1, a)"
    by (simp add: try_parse_end_of_central_directory_def)
qed simp

lemma at_offset_hit:
  assumes wf: "wf_archive a" and okf: "zip_file_ok f"
    and loc: "za_data a = lpre @ enc_local f @ lrest" and at: "za_data a = cpre @ enc_cd1 (length lpre) f @ crest"
    and target: "unat target = length lpre + 30 + length (zf_name f) + length (zf_extra f) + j" and j: "j < length (zf_data f)"
  shows "\<exists>e. find_entry_at_offset_loop a target (Suc n) (word_of_nat (length cpre)) out = Some (0, e) \<and>
    entry_for (za_data a) f e \<and> target - ze_data_offset e = word_of_nat j"
proof -
  note hdr = cd_header_of_enc [OF wf at okf]
  have len: "length lpre + 30 + length (zf_name f) + length (zf_extra f) + length (zf_data f) < 4294967296"
    using za.mem_u32 [OF wf] loc by (simp add: enc_local_def)
  have "unat (word_of_nat (length lpre + 30 + length (zf_name f) + length (zf_extra f)) :: u32) \<le> unat target"
       "unat target < unat (word_of_nat (length lpre + 30 + length (zf_name f) + length (zf_extra f)) :: u32) +
          unat (word_of_nat (length (zf_data f)) :: u32)"
    using target j len by (simp_all del: of_nat_add)
  moreover have "target - word_of_nat (length lpre + 30 + length (zf_name f) + length (zf_extra f)) = word_of_nat j"
  proof -
    have "target = word_of_nat (unat target)"
      by simp
    then show ?thesis
      unfolding target by simp
  qed
  ultimately show ?thesis
    using hdr(1) get_entry_of_enc [OF wf loc okf, of out] get_entry_of_enc_for [OF wf loc okf, of out]
    by (simp add: cdfh_of_enc Let_def cdfh_plain_def del: length_append of_nat_add)
qed

lemma at_offset_skip:
  assumes wf: "wf_archive a" and okg: "zip_file_ok g"
    and loc: "za_data a = lpre @ enc_local g @ lrest" and at: "za_data a = cpre @ enc_cd1 (length lpre) g @ crest"
    and target: "length lpre + length (enc_local g) \<le> unat target"
  shows "\<exists>e. find_entry_at_offset_loop a target (Suc n) (word_of_nat (length cpre)) out =
    find_entry_at_offset_loop a target n (word_of_nat (length (cpre @ enc_cd1 (length lpre) g))) e"
proof -
  let ?pos = "word_of_nat (length cpre) :: u32"
  note hdr = cd_header_of_enc [OF wf at okg]
  have lens: "length (zf_name g) < 65536" "length (zf_cd_extra g) < 65536" "length (zf_comment g) < 65536"
      "length (zf_data g) < 4294967296"
    using okg by (simp_all add: zip_file_ok_def)
  have len: "length lpre + 30 + length (zf_name g) + length (zf_extra g) + length (zf_data g) < 4294967296"
    using za.mem_u32 [OF wf] loc by (simp add: enc_local_def)
  obtain e where entry: "get_entry_at_offset a (word_of_nat (length lpre)) out = Some (0, e)"
    and e: "ze_data e = word_of_nat (length lpre + 30 + length (zf_name g) + length (zf_extra g))"
      "ze_data_length e = word_of_nat (length (zf_data g))"
    using get_entry_of_enc [OF wf loc okg, of out] by simp
  have "\<not> unat target < unat (ze_data e) + unat (ze_data_length e)"
    unfolding e using target len lens(4) by (simp add: enc_local_def del: of_nat_add)
  then have "find_entry_at_offset_loop a target (Suc n) ?pos out =
      find_entry_at_offset_loop a target n (?pos + 46 + word_of_nat (length (zf_name g)) +
        word_of_nat (length (zf_cd_extra g)) + word_of_nat (length (zf_comment g))) e"
    using hdr(1) entry lens
    by (simp add: cdfh_of_enc Let_def cdfh_plain_def ucast_of_nat_u16 del: length_append of_nat_add)
  also have "?pos + 46 + word_of_nat (length (zf_name g)) + word_of_nat (length (zf_cd_extra g)) +
      word_of_nat (length (zf_comment g)) = word_of_nat (length (cpre @ enc_cd1 (length lpre) g))"
    by (simp add: enc_cd1_def)
  finally show ?thesis
    by blast
qed

lemma find_at_offset_loop_of_enc:
  assumes wf: "wf_archive a" and ok: "\<forall>f\<in>set (fs1 @ f # fs2). zip_file_ok f"
    and data: "za_data a = lpre @ concat (map enc_local (fs1 @ f # fs2)) @ cpre @
                 enc_cd (length lpre) (fs1 @ f # fs2) @ rest"
    and target: "unat target = length lpre + length (concat (map enc_local fs1)) + 30 +
                   length (zf_name f) + length (zf_extra f) + j"
    and j: "j < length (zf_data f)"
  shows "\<exists>e. find_entry_at_offset_loop a target (length (fs1 @ f # fs2))
             (word_of_nat (length (lpre @ concat (map enc_local (fs1 @ f # fs2)) @ cpre))) out =
           Some (0, e) \<and> entry_for (za_data a) f e \<and> target - ze_data_offset e = word_of_nat j"
  using ok data target
proof (induction fs1 arbitrary: lpre cpre out)
  case Nil
  then show ?case
    using at_offset_hit [OF wf, of f lpre "concat (map enc_local fs2) @ cpre @ enc_cd (length lpre) (f # fs2) @ rest"
        "lpre @ concat (map enc_local (f # fs2)) @ cpre" "enc_cd (length lpre + length (enc_local f)) fs2 @ rest" target j "length fs2" out] j
    by (simp del: find_entry_at_offset_loop.simps length_append)
next
  case (Cons g fs1)
  let ?fs = "fs1 @ f # fs2"
  obtain e where step: "find_entry_at_offset_loop a target (Suc (length ?fs))
        (word_of_nat (length (lpre @ concat (map enc_local (g # ?fs)) @ cpre))) out =
      find_entry_at_offset_loop a target (length ?fs)
        (word_of_nat (length ((lpre @ concat (map enc_local (g # ?fs)) @ cpre) @ enc_cd1 (length lpre) g))) e"
    using at_offset_skip [OF wf, of g lpre "concat (map enc_local ?fs) @ cpre @ enc_cd (length lpre) (g # ?fs) @ rest"
        "lpre @ concat (map enc_local (g # ?fs)) @ cpre" "enc_cd (length lpre + length (enc_local g)) ?fs @ rest" target "length ?fs" out]
      Cons.prems by (auto simp del: find_entry_at_offset_loop.simps)
  show ?case
    using Cons.IH [of "lpre @ enc_local g" "cpre @ enc_cd1 (length lpre) g" e] Cons.prems step
    by (simp del: find_entry_at_offset_loop.simps)
qed

lemma open_of_enc:
  assumes "env_open env path = Some (zip_bytes fs)" "env_lseek_ok env" "env_mmap_ok env"
    "env_malloc_ok env" "fs \<noteq> []" "length fs < 65536" "length (zip_bytes fs) < 4294967296"
  shows "bcc_zip_archive_open env os path =
     Some (Some (archive_of (zip_bytes fs)
        (word_of_nat (length (concat (map enc_local fs))), word_of_nat (length fs))),
        os_malloc (os_mmap os))"
proof -
  let ?cd = "enc_cd 0 fs"
  let ?locals = "concat (map enc_local fs)"
  let ?a = "\<lparr>za_data = zip_bytes fs, za_size = word_of_int (int (length (zip_bytes fs))),
              za_cd_offset = fst (env_junk env), za_cd_records = snd (env_junk env)\<rparr>"
  have bytes: "zip_bytes fs = (?locals @ ?cd) @ enc_eocd (length fs) (length ?cd) (length ?locals)"
    by (simp add: zip_bytes_def Let_def)
  have wf: "wf_archive ?a"
    using assms(7) by (intro wf_archive_mapped) simp
  have ne: "?locals @ ?cd \<noteq> []"
    using assms(5) by (cases fs) simp_all
  have "find_central_directory ?a = Some (0, ?a\<lparr>za_cd_offset := word_of_nat (length ?locals),
      za_cd_records := word_of_nat (length fs)\<rparr>)"
    by (rule find_central_directory_of_enc [OF wf, where pre = "?locals @ ?cd" and s = "length ?cd"])
       (use assms(6) ne in \<open>simp_all only: bcc_zip_archive.select_convs bytes length_append not_False_eq_True order_refl\<close>)
  moreover have "zip_bytes fs \<noteq> []"
    by (simp add: bytes flip: length_greater_0_conv)
  ultimately show ?thesis
    using assms by (simp add: bcc_zip_archive_open_def Let_def archive_of_def)
qed

lemma wf_archive_of: "length bs < 4294967296 \<Longrightarrow> wf_archive (archive_of bs cd)"
  by (simp add: wf_archive_def archive_of_def)

lemma find_entry_of_enc:
  assumes "\<forall>f\<in>set fs. zip_file_ok f" "length fs < 65536" "length (zip_bytes fs) < 4294967296"
    and a: "a = archive_of (zip_bytes fs)
              (word_of_nat (length (concat (map enc_local fs))), word_of_nat (length fs))"
  shows "case find (\<lambda>f. zf_name f = name) fs of
       None \<Rightarrow> bcc_zip_archive_find_entry a name out = Some (-1, out)
     | Some f \<Rightarrow> \<exists>e. bcc_zip_archive_find_entry a name out = Some (0, e) \<and>
                      entry_for (zip_bytes fs) f e"
proof -
  have data: "za_data a = [] @ concat (map enc_local fs) @ [] @ enc_cd (length []) fs @
     enc_eocd (length fs) (length (enc_cd 0 fs)) (length (concat (map enc_local fs)))"
    by (simp add: a archive_of_def zip_bytes_def Let_def)
  have wf: "wf_archive a"
    unfolding a using assms(3) by (rule wf_archive_of)
  have start: "bcc_zip_archive_find_entry a name out = find_entry_loop a name (length fs)
      (word_of_nat (length ([] @ concat (map enc_local fs) @ []))) out"
    using assms(2) by (simp add: bcc_zip_archive_find_entry_def a archive_of_def)
  have bytes: "za_data a = zip_bytes fs"
    by (simp add: a archive_of_def)
  show ?thesis
    using find_entry_loop_of_enc [OF wf assms(1) data, of name out] unfolding start bytes .
qed

lemma find_at_offset_of_enc:
  assumes "\<forall>f\<in>set (fs1 @ f # fs2). zip_file_ok f" "length (fs1 @ f # fs2) < 65536"
    "length (zip_bytes (fs1 @ f # fs2)) < 4294967296" "j < length (zf_data f)"
    and a: "a = archive_of (zip_bytes (fs1 @ f # fs2))
              (word_of_nat (length (concat (map enc_local (fs1 @ f # fs2)))),
               word_of_nat (length (fs1 @ f # fs2)))"
    and target: "unat target = length (concat (map enc_local fs1)) + 30 + length (zf_name f) +
                   length (zf_extra f) + j"
  shows "\<exists>e. bcc_zip_archive_find_entry_at_offset a target out = Some (0, e) \<and>
             entry_for (zip_bytes (fs1 @ f # fs2)) f e \<and> target - ze_data_offset e = word_of_nat j"
proof -
  let ?fs = "fs1 @ f # fs2"
  have data: "za_data a = [] @ concat (map enc_local ?fs) @ [] @ enc_cd (length []) ?fs @
     enc_eocd (length ?fs) (length (enc_cd 0 ?fs)) (length (concat (map enc_local ?fs)))"
    by (simp add: a archive_of_def zip_bytes_def Let_def)
  have wf: "wf_archive a"
    unfolding a using assms(3) by (rule wf_archive_of)
  have start: "bcc_zip_archive_find_entry_at_offset a target out =
      find_entry_at_offset_loop a target (length ?fs)
        (word_of_nat (length ([] @ concat (map enc_local ?fs) @ []))) out"
    using unat_of_nat_u32 [of "length ?fs"] assms(2)
    by (simp only: bcc_zip_archive_find_entry_at_offset_def a archive_of_def
        bcc_zip_archive.select_convs fst_conv snd_conv append_Nil append_Nil2)
  have bytes: "za_data a = zip_bytes ?fs"
    by (simp add: a archive_of_def)
  have "unat target = length [] + length (concat (map enc_local fs1)) + 30 +
      length (zf_name f) + length (zf_extra f) + j"
    using target by simp
  from find_at_offset_loop_of_enc [OF wf assms(1) data this assms(4), of out]
  show ?thesis unfolding start bytes .
qed

section \<open>Reading back what was written\<close>

text \<open>
  (C2) Opening a well-formed archive of at most 4 GiB succeeds.  Looking a name up then yields the
  first file of that name, with its compression method and its data bytes, and fails for every other
  name.  Looking an offset up that lies in the data of one of the files yields that file.
\<close>

theorem zip_roundtrip:
  assumes "env_open env path = Some (zip_bytes fs)"
    and "env_lseek_ok env" "env_mmap_ok env" "env_malloc_ok env"
    and "fs \<noteq> []" "length fs < 65536" "\<forall>f\<in>set fs. zip_file_ok f"
    and "length (zip_bytes fs) < 4294967296"
  shows "\<exists>a os'. bcc_zip_archive_open env os path = Some (Some a, os') \<and>
     (\<forall>name out. case find (\<lambda>f. zf_name f = name) fs of
          None \<Rightarrow> bcc_zip_archive_find_entry a name out = Some (-1, out)
        | Some f \<Rightarrow> \<exists>e. bcc_zip_archive_find_entry a name out = Some (0, e) \<and>
                         entry_for (zip_bytes fs) f e) \<and>
     (\<forall>fs1 f fs2 j target out. fs = fs1 @ f # fs2 \<and> j < length (zf_data f) \<and>
          unat target = length (concat (map enc_local fs1)) + 30 + length (zf_name f) +
                        length (zf_extra f) + j \<longrightarrow>
        (\<exists>e. bcc_zip_archive_find_entry_at_offset a target out = Some (0, e) \<and>
             entry_for (zip_bytes fs) f e))"
proof -
  let ?a = "archive_of (zip_bytes fs)
              (word_of_nat (length (concat (map enc_local fs))), word_of_nat (length fs))"
  have "bcc_zip_archive_open env os path = Some (Some ?a, os_malloc (os_mmap os))"
    using assms(1-6,8) by (rule open_of_enc)
  moreover have "\<forall>name out. case find (\<lambda>f. zf_name f = name) fs of
          None \<Rightarrow> bcc_zip_archive_find_entry ?a name out = Some (-1, out)
        | Some f \<Rightarrow> \<exists>e. bcc_zip_archive_find_entry ?a name out = Some (0, e) \<and>
                         entry_for (zip_bytes fs) f e"
    using find_entry_of_enc [OF assms(7,6,8) refl] by blast
  moreover have "\<forall>fs1 f fs2 j target out. fs = fs1 @ f # fs2 \<and> j < length (zf_data f) \<and>
          unat target = length (concat (map enc_local fs1)) + 30 + length (zf_name f) +
                        length (zf_extra f) + j \<longrightarrow>
        (\<exists>e. bcc_zip_archive_find_entry_at_offset ?a target out = Some (0, e) \<and>
             entry_for (zip_bytes fs) f e)"
    using assms(6-8) find_at_offset_of_enc by blast
  ultimately show ?thesis by blast
qed

definition wit_file :: zip_file where
  "wit_file = \<lparr>zf_compression = 0, zf_name = [0x61], zf_extra = [7, 7], zf_data = [1, 2, 3],
     zf_cd_extra = [], zf_comment = [9]\<rparr>"

definition wit_env :: zip_env where
  "wit_env = \<lparr>env_open = (\<lambda>_. Some (zip_bytes [wit_file])), env_lseek_ok = True,
     env_mmap_ok = True, env_malloc_ok = True, env_junk = (0, 0)\<rparr>"

definition wit_entry :: bcc_zip_entry where
  "wit_entry = \<lparr>ze_compression = 0, ze_name = 0, ze_name_length = 0, ze_data = 0,
     ze_data_length = 0, ze_data_offset = 0\<rparr>"

theorem zip_roundtrip_witness:
  "\<exists>a os'. bcc_zip_archive_open wit_env \<lparr>os_fds = 0, os_maps = 0, os_allocs = 0\<rparr> [0x7a] =
       Some (Some a, os') \<and>
     (\<exists>e. bcc_zip_archive_find_entry a [0x61] wit_entry = Some (0, e) \<and>
          entry_for (zip_bytes [wit_file]) wit_file e) \<and>
     bcc_zip_archive_find_entry a [0x62] wit_entry = Some (-1, wit_entry) \<and>
     (\<exists>e. bcc_zip_archive_find_entry_at_offset a 34 wit_entry = Some (0, e) \<and>
          entry_for (zip_bytes [wit_file]) wit_file e)"
proof -
  obtain a os' where open_ok:
      "bcc_zip_archive_open wit_env \<lparr>os_fds = 0, os_maps = 0, os_allocs = 0\<rparr> [0x7a] = Some (Some a, os')"
    and by_name: "\<forall>name out. case find (\<lambda>f. zf_name f = name) [wit_file] of
          None \<Rightarrow> bcc_zip_archive_find_entry a name out = Some (-1, out)
        | Some f \<Rightarrow> \<exists>e. bcc_zip_archive_find_entry a name out = Some (0, e) \<and>
                         entry_for (zip_bytes [wit_file]) f e"
    and by_offset: "\<forall>fs1 f fs2 j target out. [wit_file] = fs1 @ f # fs2 \<and> j < length (zf_data f) \<and>
          unat target = length (concat (map enc_local fs1)) + 30 + length (zf_name f) +
                        length (zf_extra f) + j \<longrightarrow>
        (\<exists>e. bcc_zip_archive_find_entry_at_offset a target out = Some (0, e) \<and>
             entry_for (zip_bytes [wit_file]) f e)"
    using zip_roundtrip [of wit_env "[0x7a]" "[wit_file]" "\<lparr>os_fds = 0, os_maps = 0, os_allocs = 0\<rparr>"]
    by (auto simp: wit_env_def wit_file_def zip_file_ok_def zip_bytes_def Let_def enc_local_def enc_cd1_def)
  have "\<exists>e. bcc_zip_archive_find_entry a [0x61] wit_entry = Some (0, e) \<and>
          entry_for (zip_bytes [wit_file]) wit_file e"
    using by_name [rule_format, of "[0x61]" wit_entry] by (simp add: wit_file_def)
  moreover have "bcc_zip_archive_find_entry a [0x62] wit_entry = Some (-1, wit_entry)"
    using by_name [rule_format, of "[0x62]" wit_entry] by (simp add: wit_file_def)
  moreover have "\<exists>e. bcc_zip_archive_find_entry_at_offset a 34 wit_entry = Some (0, e) \<and>
          entry_for (zip_bytes [wit_file]) wit_file e"
    using by_offset [rule_format, of "[]" wit_file "[]" 1 34 wit_entry] by (simp add: wit_file_def)
  ultimately show ?thesis using open_ok by blast
qed


section \<open>Completeness of the backward scan, soundness of the offset lookup\<close>

lemma try_parse_beyond:
  "unat (za_size a) < unat off + 22 \<Longrightarrow> try_parse_end_of_central_directory a off = Some (-1, a)"
  using check_access_Some_iff [of a off 22]
  by (cases "check_access a off 22") (auto simp: try_parse_end_of_central_directory_def)

text \<open>
  (C3) In a file of more than 22 bytes, the size of the record, the backward scan for the end-of-central-directory record looks at 65536 positions only, and
  loses nothing by it: it fails exactly like a scan of the whole file when no position holds an
  acceptable record, and otherwise it returns the verdict on the last position of the file that does.
\<close>

theorem find_central_directory_complete:
  assumes "wf_archive a" "22 < unat (za_size a)"
  shows "((\<forall>off. try_parse_end_of_central_directory a off = Some (-1, a)) \<longrightarrow>
            find_central_directory a = Some (-1, a)) \<and>
         (\<forall>off rc a'. try_parse_end_of_central_directory a off = Some (rc, a') \<and> rc \<noteq> -1 \<and>
            (\<forall>off'. off < off' \<longrightarrow> try_parse_end_of_central_directory a off' = Some (-1, a)) \<longrightarrow>
            find_central_directory a = Some (rc, a'))"
  using find_central_directory_no_hit [of a] find_central_directory_last_hit [OF assms] by blast

definition wit_archive :: bcc_zip_archive where
  "wit_archive = archive_of (zip_bytes [wit_file]) (36, 1)"

lemma wit_archive_layout:
  "za_data wit_archive = (enc_local wit_file @ enc_cd 0 [wit_file]) @ enc_eocd 1 48 36"
  "wf_archive wit_archive" "unat (za_size wit_archive) = 106"
  by (simp_all add: wit_archive_def archive_of_def zip_bytes_def Let_def wf_archive_def wit_file_def
      enc_local_def enc_cd1_def)

theorem find_central_directory_complete_witness:
  "wf_archive wit_archive \<and> 22 < unat (za_size wit_archive) \<and>
   find_central_directory wit_archive = Some (0, wit_archive)"
proof -
  have parse: "try_parse_end_of_central_directory wit_archive 84 = Some (0, wit_archive)"
    using try_parse_of_enc [OF wit_archive_layout(2,1)]
    by (simp add: wit_archive_def archive_of_def enc_local_def enc_cd1_def wit_file_def)
  have beyond: "\<forall>off'. 84 < off' \<longrightarrow>
      try_parse_end_of_central_directory wit_archive off' = Some (-1, wit_archive)"
    using wit_archive_layout(3) by (auto simp: word_less_nat_alt intro: try_parse_beyond)
  have "22 < unat (za_size wit_archive)"
    by (simp add: wit_archive_layout(3))
  with find_central_directory_complete [OF wit_archive_layout(2) this] parse beyond wit_archive_layout(2)
  show ?thesis by (auto simp: numeral_eq_iff)
qed

text \<open>
  Looking up which entry covers a file offset never reads outside the mapping, whatever the
  central directory contains, and a reported entry lies inside the file and covers the offset.
\<close>

lemma zip_find_entry_at_offset_sound:
  assumes "wf_archive a"
  shows "\<exists>rc e. bcc_zip_archive_find_entry_at_offset a target out = Some (rc, e) \<and>
           (rc = -1 \<or> rc = 0 \<and> entry_in_bounds a e \<and> unat (ze_data e) \<le> unat target \<and>
                       unat target < unat (ze_data e) + unat (ze_data_length e))"
  unfolding bcc_zip_archive_find_entry_at_offset_def
  using find_entry_at_offset_loop_post [OF assms] .

end
