(* ===== verification/Perf_Reader.thy ===== *)
theory Perf_Reader
  imports Bcc_Prelude
begin

text \<open>
  The perf ring-buffer reader of \<^verbatim>\<open>src/cc/perf_reader.c\<close>.

  The mapped ring is the record \<open>perf_ring\<close>: the data pages and the two counters of the header
  page.  The kernel writes the data and \<open>data_head\<close> while the reader runs; its action before each
  \<^verbatim>\<open>read_data_head\<close> is a parameter of the model.  Loads outside the data pages or outside the
  copied record have no value.  Callbacks and diagnostics are the output of the model.
\<close>


section \<open>State\<close>

datatype rb_state = RB_NOT_USED | RB_USED_IN_MUNMAP | RB_USED_IN_READ

record perf_reader =
  has_raw_cb :: bool
  has_lost_cb :: bool
  cb_cookie :: nat
  pr_buf :: bytes
  pr_base :: bool
  rb_use_state :: rb_state
  rb_read_tid :: int
  page_size :: nat
  page_cnt :: nat
  pr_fd :: int

record perf_ring =
  ring_data :: bytes
  data_head :: u64
  data_tail :: u64

datatype perf_out =
    Raw_cb nat bytes u32
  | Lost_cb nat u64
  | Msg_lost u64
  | Msg_corrupt_sample_header
  | Msg_corrupt_raw_sample
  | Msg_extra_data
  | Msg_unknown_type u32

record perf_event_header =
  peh_type :: u32
  peh_misc :: u16
  peh_size :: u16

definition header_of_bytes :: "bytes \<Rightarrow> perf_event_header" where
  "header_of_bytes bs = \<lparr>peh_type = word_of_nat (le_nat (take 4 bs)),
     peh_misc = word_of_nat (le_nat (take 2 (drop 4 bs))),
     peh_size = word_of_nat (le_nat (take 2 (drop 6 bs)))\<rparr>"

definition PERF_RECORD_LOST :: u32 where "PERF_RECORD_LOST = 2"

definition PERF_RECORD_SAMPLE :: u32 where "PERF_RECORD_SAMPLE = 9"

definition perf_reader_new :: "bool \<Rightarrow> bool \<Rightarrow> bool \<Rightarrow> nat \<Rightarrow> nat \<Rightarrow> nat \<Rightarrow> perf_reader option" where
  "perf_reader_new calloc_ok raw_cb lost_cb cookie pagesize pages =
     (if \<not> calloc_ok then None
      else Some \<lparr>has_raw_cb = raw_cb, has_lost_cb = lost_cb, cb_cookie = cookie, pr_buf = [],
                 pr_base = False, rb_use_state = RB_NOT_USED, rb_read_tid = 0,
                 page_size = pagesize, page_cnt = pages, pr_fd = -1\<rparr>)"

text \<open>
  \<^verbatim>\<open>perf_reader_mmap\<close> also prints a diagnostic on failure; the mapping's contents are the
  \<open>perf_ring\<close> the other operations take.
\<close>

definition perf_reader_mmap :: "bool \<Rightarrow> perf_reader \<Rightarrow> int \<times> perf_reader" where
  "perf_reader_mmap mmap_ok reader =
     (if pr_fd reader < 0 then (-1, reader)
      else if \<not> mmap_ok then (-1, reader\<lparr>pr_base := False\<rparr>)
      else (0, reader\<lparr>pr_base := True\<rparr>))"

definition perf_reader_set_fd :: "perf_reader \<Rightarrow> int \<Rightarrow> perf_reader" where
  "perf_reader_set_fd reader fd = reader\<lparr>pr_fd := fd\<rparr>"

definition perf_reader_fd :: "perf_reader \<Rightarrow> int" where
  "perf_reader_fd reader = pr_fd reader"


section \<open>Reading events\<close>

text \<open>
  \<open>parse_sw reader data size\<close>: \<open>data\<close> is the memory that can be read from the record's first byte
  on.  The length word is loaded before the code knows that the record contains it.
\<close>

definition parse_sw :: "perf_reader \<Rightarrow> bytes \<Rightarrow> nat \<Rightarrow> perf_out list option" where
  "parse_sw reader data sz =
     (if 8 > sz then Some [Msg_corrupt_sample_header]
      else do {
        raw \<leftarrow> rd data 8 4;
        let raw_size = (word_of_nat (le_nat raw) :: u32);
        let ptr = 8 + 4 + unat raw_size;
        if ptr > sz then Some [Msg_corrupt_raw_sample]
        else if ptr \<noteq> sz then Some [Msg_extra_data]
        else if has_raw_cb reader then do {
          payload \<leftarrow> rd data 12 (unat raw_size);
          Some [Raw_cb (cb_cookie reader) payload raw_size]
        } else Some []
      })"

definition buffer_size :: "perf_reader \<Rightarrow> u64" where
  "buffer_size reader = word_of_nat (page_size reader) * word_of_nat (page_cnt reader)"

text \<open>
  One iteration of the read loop.  \<open>begin\<close> and \<open>end\<close> are offsets from \<^verbatim>\<open>base\<close>.  A record that
  wraps is copied: the copy has no value when the allocation failed or when the first part is
  longer than the buffer that was allocated for it.
\<close>

definition copy_wrapped :: "bool \<Rightarrow> perf_reader \<Rightarrow> perf_ring \<Rightarrow> nat \<Rightarrow> nat \<Rightarrow> bytes option" where
  "copy_wrapped realloc_ok reader g begin_off sz =
     (let len = unat (buffer_size reader) - begin_off in
      if \<not> realloc_ok \<or> len > sz then None
      else do {
        part1 \<leftarrow> rd (ring_data g) begin_off len;
        part2 \<leftarrow> rd (ring_data g) 0 (sz - len);
        Some (part1 @ part2)
      })"

definition read_event ::
  "bool \<Rightarrow> perf_reader \<Rightarrow> perf_ring \<Rightarrow> (perf_reader \<times> perf_ring \<times> perf_out list) option" where
  "read_event realloc_ok reader g = do {
     let tail = data_tail g;
     let begin_off = unat (tail mod buffer_size reader);
     hdr \<leftarrow> rd (ring_data g) begin_off 8;
     let e = header_of_bytes hdr;
     let end_off = unat ((tail + ucast (peh_size e)) mod buffer_size reader);
     (reader, ptr) \<leftarrow>
       (if end_off < begin_off then do {
          copy \<leftarrow> copy_wrapped realloc_ok reader g begin_off (unat (peh_size e));
          Some (reader\<lparr>pr_buf := copy\<rparr>, copy)
        } else Some (reader, drop begin_off (ring_data g)));
     outs \<leftarrow>
       (if peh_type e = PERF_RECORD_LOST then do {
          bs \<leftarrow> rd ptr 16 8;
          let lost = (word_of_nat (le_nat bs) :: u64);
          Some [if has_lost_cb reader then Lost_cb (cb_cookie reader) lost else Msg_lost lost]
        }
        else if peh_type e = PERF_RECORD_SAMPLE then parse_sw reader ptr (unat (peh_size e))
        else Some [Msg_unknown_type (peh_type e)]);
     Some (reader, g\<lparr>data_tail := data_tail g + ucast (peh_size e)\<rparr>, outs)
   }"

text \<open>
  The loop: \<open>kern i\<close> is what the kernel did to the ring before the \<open>i\<close>-th read of \<open>data_head\<close>.
  The result is \<^term>\<open>Timeout\<close> when the fuel runs out and \<^term>\<open>Fault\<close> on an invalid access.
\<close>

fun read_loop ::
  "nat \<Rightarrow> nat \<Rightarrow> (nat \<Rightarrow> perf_ring \<Rightarrow> perf_ring) \<Rightarrow> bool \<Rightarrow> perf_reader \<Rightarrow> perf_ring \<Rightarrow>
   (perf_reader \<times> perf_ring \<times> perf_out list) loop_res" where
  "read_loop 0 i kern realloc_ok reader g = Timeout"
| "read_loop (Suc fuel) i kern realloc_ok reader g =
     (let g = kern i g in
      if data_tail g = data_head g then Finished (reader, g, [])
      else (case read_event realloc_ok reader g of
              None \<Rightarrow> Fault
            | Some (reader, g, outs) \<Rightarrow>
                (case read_loop fuel (Suc i) kern realloc_ok reader g of
                   Finished (reader, g, outs') \<Rightarrow> Finished (reader, g, outs @ outs')
                 | Timeout \<Rightarrow> Timeout
                 | Fault \<Rightarrow> Fault)))"

definition perf_reader_event_read ::
  "nat \<Rightarrow> (nat \<Rightarrow> perf_ring \<Rightarrow> perf_ring) \<Rightarrow> bool \<Rightarrow> int \<Rightarrow> perf_reader \<Rightarrow> perf_ring \<Rightarrow>
   (perf_reader \<times> perf_ring \<times> perf_out list) loop_res" where
  "perf_reader_event_read fuel kern realloc_ok tid reader g =
     (let reader = reader\<lparr>rb_read_tid := tid\<rparr> in
      if rb_use_state reader \<noteq> RB_NOT_USED then Finished (reader, g, [])
      else
        (case read_loop fuel 0 kern realloc_ok (reader\<lparr>rb_use_state := RB_USED_IN_READ\<rparr>) g of
           Finished (reader, g, outs) \<Rightarrow>
             Finished (reader\<lparr>rb_use_state := RB_NOT_USED, rb_read_tid := 0\<rparr>, g, outs)
         | Timeout \<Rightarrow> Timeout
         | Fault \<Rightarrow> Fault))"

text \<open>
  \<^verbatim>\<open>perf_reader_consume\<close> reads every reader in turn, \<^verbatim>\<open>perf_reader_poll\<close> those that \<^verbatim>\<open>poll\<close>
  reports readable; \<open>revents\<close> is \<^verbatim>\<open>poll\<close>'s answer, \<^const>\<open>None\<close> when it returned no event.
  \<open>kern j\<close> is the kernel's action on the ring of the \<open>j\<close>-th reader.
\<close>

fun perf_reader_consume ::
  "nat \<Rightarrow> (nat \<Rightarrow> nat \<Rightarrow> perf_ring \<Rightarrow> perf_ring) \<Rightarrow> bool \<Rightarrow> int \<Rightarrow> (perf_reader \<times> perf_ring) list \<Rightarrow>
   ((perf_reader \<times> perf_ring) list \<times> perf_out list) loop_res" where
  "perf_reader_consume fuel kern realloc_ok tid [] = Finished ([], [])"
| "perf_reader_consume fuel kern realloc_ok tid ((reader, g) # rest) =
     (case perf_reader_event_read fuel (kern 0) realloc_ok tid reader g of
        Finished (reader, g, outs) \<Rightarrow>
          (case perf_reader_consume fuel (\<lambda>j. kern (Suc j)) realloc_ok tid rest of
             Finished (rest, outs') \<Rightarrow> Finished ((reader, g) # rest, outs @ outs')
           | Timeout \<Rightarrow> Timeout
           | Fault \<Rightarrow> Fault)
      | Timeout \<Rightarrow> Timeout
      | Fault \<Rightarrow> Fault)"

fun poll_readers ::
  "nat \<Rightarrow> (nat \<Rightarrow> nat \<Rightarrow> perf_ring \<Rightarrow> perf_ring) \<Rightarrow> bool \<Rightarrow> int \<Rightarrow> bool list \<Rightarrow> (perf_reader \<times> perf_ring) list \<Rightarrow>
   ((perf_reader \<times> perf_ring) list \<times> perf_out list) loop_res" where
  "poll_readers fuel kern realloc_ok tid (pollin # revents) ((reader, g) # rest) =
     (case (if pollin then perf_reader_event_read fuel (kern 0) realloc_ok tid reader g
            else Finished (reader, g, [])) of
        Finished (reader, g, outs) \<Rightarrow>
          (case poll_readers fuel (\<lambda>j. kern (Suc j)) realloc_ok tid revents rest of
             Finished (rest, outs') \<Rightarrow> Finished ((reader, g) # rest, outs @ outs')
           | Timeout \<Rightarrow> Timeout
           | Fault \<Rightarrow> Fault)
      | Timeout \<Rightarrow> Timeout
      | Fault \<Rightarrow> Fault)"
| "poll_readers fuel kern realloc_ok tid revents readers = Finished (readers, [])"

definition perf_reader_poll ::
  "nat \<Rightarrow> (nat \<Rightarrow> nat \<Rightarrow> perf_ring \<Rightarrow> perf_ring) \<Rightarrow> bool \<Rightarrow> int \<Rightarrow> bool list option \<Rightarrow>
   (perf_reader \<times> perf_ring) list \<Rightarrow> ((perf_reader \<times> perf_ring) list \<times> perf_out list) loop_res" where
  "perf_reader_poll fuel kern realloc_ok tid poll_answer readers =
     (case poll_answer of
        None \<Rightarrow> Finished (readers, [])
      | Some revents \<Rightarrow> poll_readers fuel kern realloc_ok tid revents readers)"

end
