(* ===== verification/Perf_Ring.thy ===== *)
theory Perf_Ring
  imports Perf_Reader
begin

text \<open>
  What \<^verbatim>\<open>perf_reader_event_read\<close> of src/cc/perf_reader.c promises: the records that the kernel
  publishes in the ring reach the callbacks, each once and in order.  The specification is a stream
  of records; the ring is a window of it.
\<close>

section \<open>The record stream\<close>

text \<open>
  The kernel's output is an unbounded byte stream \<open>S\<close>; positions in it are natural numbers, and the
  counters of the header page are positions modulo \<open>2\<^sup>6\<^sup>4\<close>.  \<open>ring_at S bs g p q\<close>: the ring of \<open>bs\<close>
  bytes has been consumed up to \<open>p\<close>, published up to \<open>q\<close>, and holds the unread part of the stream.
\<close>

definition win :: "(nat \<Rightarrow> u8) \<Rightarrow> nat \<Rightarrow> nat \<Rightarrow> bytes" where
  "win S p n = map S [p..<p + n]"

definition ring_at :: "(nat \<Rightarrow> u8) \<Rightarrow> nat \<Rightarrow> perf_ring \<Rightarrow> nat \<Rightarrow> nat \<Rightarrow> bool" where
  "ring_at S bs g p q \<longleftrightarrow>
     length (ring_data g) = bs \<and> data_tail g = word_of_nat p \<and> data_head g = word_of_nat q \<and>
     p \<le> q \<and> q \<le> p + bs \<and> (\<forall>i. p \<le> i \<longrightarrow> i < q \<longrightarrow> ring_data g ! (i mod bs) = S i)"

datatype perf_rec =
    Sample u16 bytes
  | LostRec u16 u64 u64 bytes
  | OtherRec u32 u16 bytes

fun enc_rec :: "perf_rec \<Rightarrow> bytes" where
  "enc_rec (Sample misc raw) =
     enc_le 4 9 @ enc_le 2 (unat misc) @ enc_le 2 (12 + length raw) @ enc_le 4 (length raw) @ raw"
| "enc_rec (LostRec misc lid lost rest) =
     enc_le 4 2 @ enc_le 2 (unat misc) @ enc_le 2 (24 + length rest) @ enc_le 8 (unat lid) @
     enc_le 8 (unat lost) @ rest"
| "enc_rec (OtherRec t misc rest) =
     enc_le 4 (unat t) @ enc_le 2 (unat misc) @ enc_le 2 (8 + length rest) @ rest"

abbreviation rec_size :: "perf_rec \<Rightarrow> nat" where
  "rec_size r \<equiv> length (enc_rec r)"

definition rec_ok :: "nat \<Rightarrow> perf_rec \<Rightarrow> bool" where
  "rec_ok bs r \<longleftrightarrow> 8 dvd rec_size r \<and> rec_size r < 65536 \<and> rec_size r < bs \<and>
     (case r of OtherRec t misc rest \<Rightarrow> t \<noteq> PERF_RECORD_LOST \<and> t \<noteq> PERF_RECORD_SAMPLE | _ \<Rightarrow> True)"

text \<open>What the consumer must see for a record.\<close>

fun deliver :: "perf_reader \<Rightarrow> perf_rec \<Rightarrow> perf_out list" where
  "deliver reader (Sample misc raw) =
     (if has_raw_cb reader then [Raw_cb (cb_cookie reader) raw (word_of_nat (length raw))] else [])"
| "deliver reader (LostRec misc lid lost rest) =
     [if has_lost_cb reader then Lost_cb (cb_cookie reader) lost else Msg_lost lost]"
| "deliver reader (OtherRec t misc rest) = [Msg_unknown_type t]"

definition rec_pos :: "nat \<Rightarrow> perf_rec list \<Rightarrow> nat \<Rightarrow> nat" where
  "rec_pos p0 recs k = p0 + length (concat (map enc_rec (take k recs)))"

text \<open>
  What the reader relies on of the kernel: it publishes whole records, in order, never touches
  unread bytes and never moves the tail.
\<close>

definition kernel_ok ::
  "(nat \<Rightarrow> u8) \<Rightarrow> nat \<Rightarrow> nat \<Rightarrow> perf_rec list \<Rightarrow> (nat \<Rightarrow> perf_ring \<Rightarrow> perf_ring) \<Rightarrow> bool" where
  "kernel_ok S bs p0 recs kern \<longleftrightarrow>
     (\<forall>i g p m. m \<le> length recs \<longrightarrow> ring_at S bs g p (rec_pos p0 recs m) \<longrightarrow>
        (\<exists>m'. m \<le> m' \<and> m' \<le> length recs \<and> ring_at S bs (kern i g) p (rec_pos p0 recs m')))"

section \<open>Windows of the ring\<close>

lemma length_win [simp]: "length (win S p n) = n"
  by (simp add: win_def)

lemma nth_win [simp]: "i < n \<Longrightarrow> win S p n ! i = S (p + i)"
  by (simp add: win_def)

lemma win_add: "win S p (m + n) = win S p m @ win S (p + m) n"
  by (rule nth_equalityI) (auto simp: nth_append)

lemma rd_ring:
  assumes "ring_at S bs g p q" "p mod bs + n \<le> bs" "p + n \<le> q"
  shows "rd (ring_data g) (p mod bs) n = Some (win S p n)"
proof -
  have "ring_data g ! (p mod bs + i) = S (p + i)" if "i < n" for i
  proof -
    have "(p + i) mod bs = p mod bs + i"
      using that assms(2) by (subst mod_add_left_eq [symmetric]) simp
    then show ?thesis
      using assms(1,3) that unfolding ring_at_def
      by (metis add_less_cancel_left le_add1 order_less_le_trans)
  qed
  moreover have "length (ring_data g) = bs"
    using assms(1) by (simp add: ring_at_def)
  ultimately have "take n (drop (p mod bs) (ring_data g)) = win S p n"
    using assms(2) by (intro nth_equalityI) auto
  then show ?thesis
    using assms(2) \<open>length (ring_data g) = bs\<close> by (simp add: rd_def)
qed

lemma rd_drop: "rd (drop p xs) k n = (if p \<le> length xs then rd xs (p + k) n else rd (drop p xs) k n)"
  by (auto simp: rd_def add.commute add.left_commute)

lemma rd_prefix:
  assumes "k + n \<le> m" "m \<le> length xs"
  shows "rd xs k n = rd (take m xs) k n"
  using assms by (simp add: rd_def drop_take)

section \<open>One record\<close>

lemma word_of_nat_mod_u64: "(word_of_nat (v mod 18446744073709551616) :: u64) = word_of_nat v"
  by (rule unsigned_word_eqI [where ?'a = nat]) (simp add: unat_of_nat)

lemma word_of_nat_mod_small:
  "(word_of_nat (v mod 65536) :: u16) = word_of_nat v"
  "(word_of_nat (v mod 4294967296) :: u32) = word_of_nat v"
  by (rule unsigned_word_eqI [where ?'a = nat], simp add: unat_of_nat)+

lemma header_of_enc:
  "header_of_bytes (take 8 (enc_rec (Sample misc raw))) =
     \<lparr>peh_type = PERF_RECORD_SAMPLE, peh_misc = misc, peh_size = word_of_nat (12 + length raw)\<rparr>"
  "header_of_bytes (take 8 (enc_rec (LostRec misc lid lost rest))) =
     \<lparr>peh_type = PERF_RECORD_LOST, peh_misc = misc, peh_size = word_of_nat (24 + length rest)\<rparr>"
  "header_of_bytes (take 8 (enc_rec (OtherRec t misc rest))) =
     \<lparr>peh_type = t, peh_misc = misc, peh_size = word_of_nat (8 + length rest)\<rparr>"
  by (simp_all add: header_of_bytes_def le_simps word_of_nat_mod_small PERF_RECORD_SAMPLE_def
      PERF_RECORD_LOST_def del: of_nat_add)


lemma rec_size_ge: "8 \<le> rec_size r"
  by (cases r) simp_all

lemma rd_enc_lost: "rd (enc_rec (LostRec misc lid lost rest)) 16 8 = Some (enc_le 8 (unat lost))"
  by (simp add: rd_def)

lemma le_nat_u64: "(word_of_nat (le_nat (enc_le 8 (unat (w::u64)))) :: u64) = w"
  by (simp add: le_nat_enc_le word_of_nat_mod_u64)

definition event_outs :: "perf_reader \<Rightarrow> bytes \<Rightarrow> perf_event_header \<Rightarrow> perf_out list option" where
  "event_outs reader ptr e =
     (if peh_type e = PERF_RECORD_LOST then do {
          bs \<leftarrow> rd ptr 16 8;
          let lost = (word_of_nat (le_nat bs) :: u64);
          Some [if has_lost_cb reader then Lost_cb (cb_cookie reader) lost else Msg_lost lost]
        }
        else if peh_type e = PERF_RECORD_SAMPLE then parse_sw reader ptr (unat (peh_size e))
        else Some [Msg_unknown_type (peh_type e)])"

lemma peh_size_enc:
  "rec_ok bs r \<Longrightarrow> unat (peh_size (header_of_bytes (take 8 (enc_rec r)))) = rec_size r"
  by (cases r) (simp_all only: header_of_enc, auto simp: rec_ok_def unat_of_nat_u16 simp del: of_nat_add)

lemma event_outs_enc:
  assumes "rec_ok bs r" "rec_size r \<le> length ptr" "take (rec_size r) ptr = enc_rec r"
  shows "event_outs reader ptr (header_of_bytes (take 8 (enc_rec r))) = Some (deliver reader r)"
proof -
  have rd: "rd ptr k n = rd (enc_rec r) k n" if "k + n \<le> rec_size r" for k n
    using rd_prefix [OF that assms(2)] assms(3) by simp
  have sz: "unat (peh_size (header_of_bytes (take 8 (enc_rec r)))) = rec_size r"
    by (rule peh_size_enc [OF assms(1)])
  show ?thesis
  proof (cases r)
    case (Sample misc raw)
    have small: "length raw < 65536"
      using assms(1) Sample by (simp add: rec_ok_def)
    have l: "rd ptr 8 4 = Some (enc_le 4 (length raw))"
      by (subst rd) (simp_all add: Sample rd_def)
    have d: "rd ptr 12 (length raw) = Some raw"
      by (subst rd) (simp_all add: Sample rd_def)
    have u: "unat (word_of_nat (length raw) :: u32) = length raw"
      using small by (simp add: unat_of_nat)
    have le: "le_nat (enc_le 4 (length raw)) = length raw"
      using small by (simp add: le_nat_enc_le)
    have ty: "peh_type (header_of_bytes (take 8 (enc_rec r))) = PERF_RECORD_SAMPLE"
      by (simp only: Sample header_of_enc perf_event_header.simps)
    show ?thesis
      unfolding event_outs_def ty sz parse_sw_def l
      using d by (simp add: le u Sample PERF_RECORD_LOST_def PERF_RECORD_SAMPLE_def)
  next
    case (LostRec misc lid lost rest)
    have ty: "peh_type (header_of_bytes (take 8 (enc_rec r))) = PERF_RECORD_LOST"
      by (simp only: LostRec header_of_enc perf_event_header.simps)
    have l: "rd ptr 16 8 = Some (enc_le 8 (unat lost))"
      by (subst rd) (simp_all add: LostRec rd_def)
    show ?thesis
      unfolding event_outs_def ty l by (simp add: LostRec le_nat_u64)
  next
    case (OtherRec t misc rest)
    have ty: "peh_type (header_of_bytes (take 8 (enc_rec r))) = t"
      by (simp only: OtherRec header_of_enc perf_event_header.simps)
    show ?thesis
      using assms(1) unfolding event_outs_def ty by (simp add: OtherRec rec_ok_def)
  qed
qed

definition ring_sizes_ok :: "perf_reader \<Rightarrow> nat \<Rightarrow> bool" where
  "ring_sizes_ok reader bs \<longleftrightarrow> unat (buffer_size reader) = bs \<and> bs dvd 2 ^ 64 \<and> 8 dvd bs"

lemma unat_mod_buffer:
  assumes "ring_sizes_ok reader bs"
  shows "unat ((word_of_nat p :: u64) mod buffer_size reader) = p mod bs"
  using assms by (simp add: ring_sizes_ok_def unat_mod unat_of_nat mod_mod_cancel)

lemma header_fits:
  assumes "8 dvd bs" "8 dvd p" "0 < bs"
  shows "p mod bs + 8 \<le> (bs::nat)"
proof -
  have "8 dvd p mod bs" "p mod bs < bs"
    using assms by (auto simp: dvd_mod)
  then show ?thesis
    using \<open>8 dvd bs\<close> by (elim dvdE) auto
qed

lemma copy_wrapped_ring:
  assumes "ring_sizes_ok reader bs" "ring_at S bs g p q" "bs \<le> p mod bs + n" "n < bs" "p + n \<le> q"
  shows "copy_wrapped True reader g (p mod bs) n = Some (win S p n)"
proof -
  define len where "len = bs - p mod bs"
  have pos: "0 < bs" "p mod bs < bs"
    using assms(4) by auto
  have len: "len \<le> n" "p mod bs + len = bs"
    using assms(3) pos(2) by (auto simp: len_def)
  have m0: "(p + len) mod bs = 0"
    using len(2) by (metis mod_add_left_eq mod_self)
  have p1: "rd (ring_data g) (p mod bs) len = Some (win S p len)"
    using assms len by (intro rd_ring) auto
  have p2: "rd (ring_data g) 0 (n - len) = Some (win S (p + len) (n - len))"
  proof -
    have "ring_data g ! i = S (p + len + i)" if "i < n - len" for i
    proof -
      have "(p + len + i) mod bs = i"
        using m0 that assms(4) by (metis add_0 diff_le_self le_less_trans less_trans mod_add_left_eq mod_less not_less)
      moreover have "p + len + i < q"
        using that assms(5) by linarith
      ultimately show ?thesis
        using assms(2) unfolding ring_at_def by (metis add.assoc le_add1)
    qed
    then have "take (n - len) (ring_data g) = win S (p + len) (n - len)"
      using assms(2,4) by (intro nth_equalityI) (auto simp: ring_at_def)
    then show ?thesis
      using assms(2,4) by (simp add: rd_def ring_at_def)
  qed
  have "win S p n = win S p len @ win S (p + len) (n - len)"
    using win_add [of S p len "n - len"] len(1) by simp
  then show ?thesis
    using assms(1) p1 p2 len(1)
    by (simp add: copy_wrapped_def ring_sizes_ok_def Let_def len_def)
qed


lemma read_event_event_outs:
  "read_event realloc_ok reader g = do {
     let begin_off = unat (data_tail g mod buffer_size reader);
     hdr \<leftarrow> rd (ring_data g) begin_off 8;
     let e = header_of_bytes hdr;
     let end_off = unat ((data_tail g + ucast (peh_size e)) mod buffer_size reader);
     (reader, ptr) \<leftarrow>
       (if end_off < begin_off then do {
          copy \<leftarrow> copy_wrapped realloc_ok reader g begin_off (unat (peh_size e));
          Some (reader\<lparr>pr_buf := copy\<rparr>, copy)
        } else Some (reader, drop begin_off (ring_data g)));
     outs \<leftarrow> event_outs reader ptr e;
     Some (reader, g\<lparr>data_tail := data_tail g + ucast (peh_size e)\<rparr>, outs)
   }"
  by (simp add: read_event_def event_outs_def Let_def)

lemma read_header_ring:
  assumes sizes: "ring_sizes_ok reader bs" and ring: "ring_at S bs g p q" and "8 dvd p"
    and ok: "rec_ok bs r" and enc: "win S p (rec_size r) = enc_rec r" and le: "p + rec_size r \<le> q"
  shows "p mod bs + 8 \<le> bs" "rd (ring_data g) (p mod bs) 8 = Some (take 8 (enc_rec r))"
proof -
  have n: "rec_size r < bs" "8 \<le> rec_size r"
    using ok rec_size_ge [of r] by (auto simp: rec_ok_def)
  show fits: "p mod bs + 8 \<le> bs"
    using sizes \<open>8 dvd p\<close> n by (intro header_fits) (auto simp: ring_sizes_ok_def)
  have "win S p 8 = take 8 (win S p (rec_size r))"
    using win_add [of S p 8 "rec_size r - 8"] n by simp
  then show "rd (ring_data g) (p mod bs) 8 = Some (take 8 (enc_rec r))"
    using rd_ring [OF ring fits] le n enc by simp
qed

lemma read_event_ring:
  assumes sizes: "ring_sizes_ok reader bs" and ring: "ring_at S bs g p q" and "8 dvd p"
    and ok: "rec_ok bs r" and enc: "win S p (rec_size r) = enc_rec r" and le: "p + rec_size r \<le> q"
  shows "\<exists>buf. read_event True reader g =
     Some (reader\<lparr>pr_buf := buf\<rparr>, g\<lparr>data_tail := word_of_nat (p + rec_size r)\<rparr>, deliver reader r)"
proof -
  let ?n = "rec_size r" and ?b = "p mod bs"
  have n: "?n < bs" "8 \<le> ?n" "?n < 65536"
    using ok rec_size_ge [of r] by (auto simp: rec_ok_def)
  note hdr_len = read_header_ring(1) [OF assms] and hdr = read_header_ring(2) [OF assms]
  let ?e = "header_of_bytes (take 8 (enc_rec r))"
  have tail: "data_tail g = word_of_nat p" and len: "length (ring_data g) = bs"
    using ring by (auto simp: ring_at_def)
  have usz: "unat (peh_size ?e) = ?n"
    by (rule peh_size_enc [OF ok])
  have sz: "(ucast (peh_size ?e) :: u64) = word_of_nat ?n"
    using usz n by (intro unsigned_word_eqI [where ?'a = nat]) (simp add: unat_of_nat unsigned_ucast_eq take_bit_nat_eq_self)
  have tail': "data_tail g + ucast (peh_size ?e) = word_of_nat (p + ?n)"
    by (simp add: tail sz)
  have b: "unat (data_tail g mod buffer_size reader) = ?b"
    by (simp add: tail unat_mod_buffer [OF sizes])
  have e: "unat ((word_of_nat (p + ?n) :: u64) mod buffer_size reader) = (p + ?n) mod bs"
    by (rule unat_mod_buffer [OF sizes])
  have wrap: "(p + ?n) mod bs < ?b \<longleftrightarrow> bs \<le> ?b + ?n"
    using n hdr_len mod_add_left_eq [of p bs ?n]
    by (cases "bs \<le> ?b + ?n") (auto simp: mod_if [of "?b + ?n"])
  show ?thesis
  proof (cases "bs \<le> ?b + ?n")
    case True
    have c: "copy_wrapped True reader g ?b ?n = Some (enc_rec r)"
      using copy_wrapped_ring [OF sizes ring True n(1) le] enc by simp
    have o: "event_outs (reader\<lparr>pr_buf := enc_rec r\<rparr>) (enc_rec r) ?e = Some (deliver reader r)"
      using event_outs_enc [OF ok, of "enc_rec r" "reader\<lparr>pr_buf := enc_rec r\<rparr>"] by (cases r) simp_all
    show ?thesis
      unfolding read_event_event_outs Let_def b hdr Option.bind.simps e usz c tail'
      by (intro exI [of _ "enc_rec r"]) (simp add: wrap True o del: of_nat_add)
  next
    case False
    have t: "take ?n (drop ?b (ring_data g)) = enc_rec r"
      using rd_ring [OF ring _ le] False enc by (simp add: rd_def split: if_splits)
    have o: "event_outs reader (drop ?b (ring_data g)) ?e = Some (deliver reader r)"
      using event_outs_enc [OF ok _ t] False len by simp
    show ?thesis
      unfolding read_event_event_outs Let_def b hdr Option.bind.simps e usz tail'
      by (intro exI [of _ "pr_buf reader"]) (simp add: wrap False o del: of_nat_add)
  qed
qed


section \<open>Draining the ring\<close>

lemma rec_pos_Suc: "k < length recs \<Longrightarrow> rec_pos p0 recs (Suc k) = rec_pos p0 recs k + rec_size (recs ! k)"
  by (simp add: rec_pos_def take_Suc_conv_app_nth)

lemma rec_pos_mono: "j \<le> k \<Longrightarrow> rec_pos p0 recs j \<le> rec_pos p0 recs k"
  by (metis rec_pos_def concat_append le_add_diff_inverse length_append map_append nat_add_left_cancel_le
      nat_le_iff_add take_add)

lemma rec_pos_strict: "k \<le> length recs \<Longrightarrow> j < k \<Longrightarrow> rec_pos p0 recs j < rec_pos p0 recs k"
  using rec_pos_Suc [of j recs p0] rec_pos_mono [of "Suc j" k p0 recs] rec_size_ge [of "recs ! j"] by simp

lemma rec_pos_dvd:
  "8 dvd p0 \<Longrightarrow> list_all (rec_ok bs) recs \<Longrightarrow> k \<le> length recs \<Longrightarrow> 8 dvd rec_pos p0 recs k"
proof (induction k)
  case (Suc k)
  then show ?case
    by (simp add: rec_pos_Suc list_all_length rec_ok_def)
qed (simp add: rec_pos_def)

lemma win_rec:
  assumes "win S p0 (length (concat (map enc_rec recs))) = concat (map enc_rec recs)" "k < length recs"
  shows "win S (rec_pos p0 recs k) (rec_size (recs ! k)) = enc_rec (recs ! k)"
proof -
  let ?C = "\<lambda>rs. concat (map enc_rec rs)"
  have split: "?C recs = ?C (take k recs) @ enc_rec (recs ! k) @ ?C (drop (Suc k) recs)"
    by (subst id_take_nth_drop [OF assms(2)]) simp
  let ?a = "length (?C (take k recs))" and ?b = "rec_size (recs ! k)" and ?c = "length (?C (drop (Suc k) recs))"
  have "win S p0 (?a + (?b + ?c)) = win S p0 ?a @ win S (p0 + ?a) ?b @ win S (p0 + ?a + ?b) ?c"
    by (simp only: win_add)
  then show ?thesis
    using assms(1) unfolding split by (simp add: rec_pos_def)
qed

lemma deliver_buf [simp]: "deliver (reader\<lparr>pr_buf := buf\<rparr>) = deliver reader"
proof
  show "deliver (reader\<lparr>pr_buf := buf\<rparr>) r = deliver reader r" for r
    by (cases r) simp_all
qed

lemma ring_sizes_buf [simp]: "ring_sizes_ok (reader\<lparr>pr_buf := buf\<rparr>) bs = ring_sizes_ok reader bs"
  by (simp add: ring_sizes_ok_def buffer_size_def)

lemma ring_at_advance:
  "ring_at S bs g p q \<Longrightarrow> p \<le> p' \<Longrightarrow> p' \<le> q \<Longrightarrow> ring_at S bs (g\<lparr>data_tail := word_of_nat p'\<rparr>) p' q"
  by (auto simp: ring_at_def)

lemma ring_at_empty_iff:
  assumes "ring_at S bs g p q" "bs < 2 ^ 64"
  shows "data_tail g = data_head g \<longleftrightarrow> p = q"
proof -
  have "p = q" if "(word_of_nat p :: u64) = word_of_nat q"
  proof -
    have "unat (word_of_nat q :: u64) = unat (word_of_nat p :: u64)"
      using that by simp
    then have "q mod 2 ^ 64 = p mod 2 ^ 64"
      by (simp add: unat_of_nat)
    moreover have le: "p \<le> q" "q - p < 2 ^ 64"
      using assms by (auto simp: ring_at_def)
    ultimately have "2 ^ 64 dvd q - p"
      by (simp add: mod_eq_dvd_iff_nat)
    then show ?thesis
      using le nat_dvd_not_less [of "q - p" "2 ^ 64"] by (cases "q = p") auto
  qed
  then show ?thesis
    using assms(1) by (auto simp: ring_at_def)
qed

text \<open>Reading one of the records that are left.\<close>

lemma read_record_step:
  assumes "ring_sizes_ok reader bs" "8 dvd p0" "list_all (rec_ok bs) recs"
    and "win S p0 (length (concat (map enc_rec recs))) = concat (map enc_rec recs)"
    and ring: "ring_at S bs g (rec_pos p0 recs j) (rec_pos p0 recs m)" and j: "j < m" "m \<le> length recs"
  shows "\<exists>buf. read_event True reader g =
      Some (reader\<lparr>pr_buf := buf\<rparr>, g\<lparr>data_tail := word_of_nat (rec_pos p0 recs (Suc j))\<rparr>, deliver reader (recs ! j))"
    and "ring_at S bs (g\<lparr>data_tail := word_of_nat (rec_pos p0 recs (Suc j))\<rparr>) (rec_pos p0 recs (Suc j)) (rec_pos p0 recs m)"
proof -
  let ?pos = "rec_pos p0 recs"
  have len: "j < length recs"
    using j by simp
  have ok: "rec_ok bs (recs ! j)"
    using assms(3) len by (simp add: list_all_length)
  have dvd: "8 dvd ?pos j"
    using rec_pos_dvd [OF assms(2,3)] len by simp
  have step: "?pos j + rec_size (recs ! j) = ?pos (Suc j)"
    using rec_pos_Suc len by simp
  have le: "?pos (Suc j) \<le> ?pos m"
    using j by (intro rec_pos_mono) simp
  show "\<exists>buf. read_event True reader g =
      Some (reader\<lparr>pr_buf := buf\<rparr>, g\<lparr>data_tail := word_of_nat (?pos (Suc j))\<rparr>, deliver reader (recs ! j))"
    using read_event_ring [OF assms(1) ring dvd ok win_rec [OF assms(4) len]] le unfolding step by blast
  show "ring_at S bs (g\<lparr>data_tail := word_of_nat (?pos (Suc j))\<rparr>) (?pos (Suc j)) (?pos m)"
    using ring le step by (intro ring_at_advance) auto
qed

lemma read_loop_drains:
  assumes "ring_sizes_ok reader bs" "bs < 2 ^ 64" "8 dvd p0" "list_all (rec_ok bs) recs"
    and "win S p0 (length (concat (map enc_rec recs))) = concat (map enc_rec recs)"
    and "kernel_ok S bs p0 recs kern"
    and "ring_at S bs g (rec_pos p0 recs j) (rec_pos p0 recs m)" "j \<le> m" "m \<le> length recs"
    and "length recs - j < fuel"
  shows "\<exists>m' buf g'. m \<le> m' \<and> m' \<le> length recs \<and>
     read_loop fuel i kern True reader g =
       Finished (reader\<lparr>pr_buf := buf\<rparr>, g', concat (map (deliver reader) (take (m' - j) (drop j recs)))) \<and>
     ring_at S bs g' (rec_pos p0 recs m') (rec_pos p0 recs m')"
  using assms
proof (induction fuel arbitrary: i j m g reader)
  case 0
  then show ?case by simp
next
  case (Suc fuel)
  let ?pos = "rec_pos p0 recs" and ?g = "kern i g"
  obtain m1 where m1: "m \<le> m1" "m1 \<le> length recs" "ring_at S bs ?g (?pos j) (?pos m1)"
    using Suc.prems(6,7,9) unfolding kernel_ok_def by blast
  have empty: "data_tail ?g = data_head ?g \<longleftrightarrow> ?pos j = ?pos m1"
    by (rule ring_at_empty_iff [OF m1(3) Suc.prems(2)])
  show ?case
  proof (cases "j = m1")
    case True
    then show ?thesis
      using m1 empty Suc.prems(8) by (intro exI [of _ m1] exI [of _ "pr_buf reader"] exI [of _ ?g]) simp
  next
    case False
    then have j: "j < m1" "j < length recs"
      using m1 Suc.prems(8) by auto
    then have ne: "data_tail ?g \<noteq> data_head ?g"
      using empty rec_pos_strict [OF m1(2) j(1), of p0] by simp
    note step = read_record_step [OF Suc.prems(1,3,4,5) m1(3) j(1) m1(2)]
    obtain buf where ev: "read_event True reader ?g =
        Some (reader\<lparr>pr_buf := buf\<rparr>, ?g\<lparr>data_tail := word_of_nat (?pos (Suc j))\<rparr>, deliver reader (recs ! j))"
      using step(1) by blast
    have fuel': "length recs - Suc j < fuel"
      using Suc.prems(10) j by simp
    obtain m' buf' g' where IH: "m1 \<le> m'" "m' \<le> length recs"
      "read_loop fuel (Suc i) kern True (reader\<lparr>pr_buf := buf\<rparr>) (?g\<lparr>data_tail := word_of_nat (?pos (Suc j))\<rparr>) =
         Finished (reader\<lparr>pr_buf := buf'\<rparr>, g',
           concat (map (deliver reader) (take (m' - Suc j) (drop (Suc j) recs))))"
      "ring_at S bs g' (?pos m') (?pos m')"
      using Suc.IH [OF _ Suc.prems(2-6) step(2) _ m1(2) fuel', of "reader\<lparr>pr_buf := buf\<rparr>" "Suc i"] Suc.prems(1) j
      by auto
    have "take (m' - j) (drop j recs) = recs ! j # take (m' - Suc j) (drop (Suc j) recs)"
      using j IH(1) by (metis Cons_nth_drop_Suc Suc_diff_Suc le_trans less_le_trans take_Suc_Cons)
    then show ?thesis
      using ne ev IH m1(1) by (intro exI [of _ m'] exI [of _ buf'] exI [of _ g']) (simp add: Let_def)
  qed
qed


text \<open>
  (C4) A call of \<^verbatim>\<open>perf_reader_event_read\<close> on an unused reader whose ring holds whole records
  terminates without an invalid access, even while the kernel publishes more records, and the
  consumer has then seen exactly the records that were published, each once, in order and
  reassembled when it wrapped around the ring: the samples through the raw callback with their
  payload, the lost counts through the lost callback.  The ring is left empty, and the reader
  unused.  One iteration per record suffices.
\<close>

theorem perf_reader_event_read_delivers:
  assumes "ring_sizes_ok reader bs" "bs < 2 ^ 64" "8 dvd p0" "list_all (rec_ok bs) recs"
    and "win S p0 (length (concat (map enc_rec recs))) = concat (map enc_rec recs)"
    and "kernel_ok S bs p0 recs kern"
    and "ring_at S bs g p0 (rec_pos p0 recs m)" "m \<le> length recs"
    and "rb_use_state reader = RB_NOT_USED"
    and "length recs < fuel"
  shows "\<exists>m' buf g'. m \<le> m' \<and> m' \<le> length recs \<and>
     perf_reader_event_read fuel kern True tid reader g =
       Finished (reader\<lparr>pr_buf := buf, rb_use_state := RB_NOT_USED, rb_read_tid := 0\<rparr>, g',
                 concat (map (deliver reader) (take m' recs))) \<and>
     ring_at S bs g' (rec_pos p0 recs m') (rec_pos p0 recs m')"
proof -
  let ?r = "reader\<lparr>rb_read_tid := tid, rb_use_state := RB_USED_IN_READ\<rparr>"
  have d: "deliver ?r = deliver reader"
  proof
    show "deliver ?r r = deliver reader r" for r
      by (cases r) simp_all
  qed
  have s: "ring_sizes_ok ?r bs"
    using assms(1) by (simp add: ring_sizes_ok_def buffer_size_def)
  have p0: "rec_pos p0 recs 0 = p0"
    by (simp add: rec_pos_def)
  obtain m' buf g' where "m \<le> m'" "m' \<le> length recs"
    "read_loop fuel 0 kern True ?r g =
       Finished (?r\<lparr>pr_buf := buf\<rparr>, g', concat (map (deliver reader) (take m' recs)))"
    "ring_at S bs g' (rec_pos p0 recs m') (rec_pos p0 recs m')"
    using read_loop_drains [OF s assms(2-6), of g 0 m fuel 0] assms(7,8,10) unfolding p0 d by auto
  then show ?thesis
    using assms(9)
    by (intro exI [of _ m'] exI [of _ buf] exI [of _ g']) (simp add: perf_reader_event_read_def Let_def)
qed


lemma ring_at_list:
  "ring_at S bs g p q \<longleftrightarrow>
     length (ring_data g) = bs \<and> data_tail g = word_of_nat p \<and> data_head g = word_of_nat q \<and>
     p \<le> q \<and> q \<le> p + bs \<and> list_all (\<lambda>i. ring_data g ! (i mod bs) = S i) [p..<q]"
  by (auto simp: ring_at_def list_all_iff)

text \<open>A sample of four bytes that wraps around a ring of 32 bytes.\<close>

theorem perf_reader_event_read_delivers_witness:
  "\<exists>buf g'. perf_reader_event_read 2 (\<lambda>_ g. g) True 7
     \<lparr>has_raw_cb = True, has_lost_cb = False, cb_cookie = 5, pr_buf = [], pr_base = True,
      rb_use_state = RB_NOT_USED, rb_read_tid = 0, page_size = 32, page_cnt = 1, pr_fd = 3\<rparr>
     \<lparr>ring_data = drop 8 (enc_rec (Sample 0 [1, 2, 3, 4])) @ replicate 16 0 @ take 8 (enc_rec (Sample 0 [1, 2, 3, 4])),
      data_head = 40, data_tail = 24\<rparr> =
   Finished (\<lparr>has_raw_cb = True, has_lost_cb = False, cb_cookie = 5, pr_buf = buf, pr_base = True,
      rb_use_state = RB_NOT_USED, rb_read_tid = 0, page_size = 32, page_cnt = 1, pr_fd = 3\<rparr>, g',
      [Raw_cb 5 [1, 2, 3, 4] 4])"
proof -
  let ?rec = "Sample 0 [1, 2, 3, 4]"
  let ?S = "\<lambda>i. enc_rec ?rec ! (i - 24)"
  let ?reader = "\<lparr>has_raw_cb = True, has_lost_cb = False, cb_cookie = 5, pr_buf = [], pr_base = True,
      rb_use_state = RB_NOT_USED, rb_read_tid = 0, page_size = 32, page_cnt = 1, pr_fd = 3\<rparr>"
  let ?g = "\<lparr>ring_data = drop 8 (enc_rec ?rec) @ replicate 16 0 @ take 8 (enc_rec ?rec),
      data_head = 40, data_tail = 24\<rparr>"
  have 1: "ring_sizes_ok ?reader 32"
    by (simp add: ring_sizes_ok_def buffer_size_def)
  have 2: "list_all (rec_ok 32) [?rec]"
    by (simp add: rec_ok_def)
  have 3: "win ?S 24 (length (concat (map enc_rec [?rec]))) = concat (map enc_rec [?rec])"
    by (rule nth_equalityI) simp_all
  have 4: "kernel_ok ?S 32 24 [?rec] (\<lambda>_ g. g)"
    by (auto simp: kernel_ok_def)
  have 5: "ring_at ?S 32 ?g 24 (rec_pos 24 [?rec] 1)"
    unfolding ring_at_list rec_pos_def by code_simp
  obtain m' buf g' where "1 \<le> m'" "m' \<le> length [?rec]"
    and "perf_reader_event_read 2 (\<lambda>_ g. g) True 7 ?reader ?g =
       Finished (?reader\<lparr>pr_buf := buf, rb_use_state := RB_NOT_USED, rb_read_tid := 0\<rparr>, g',
                 concat (map (deliver ?reader) (take m' [?rec])))"
    using perf_reader_event_read_delivers [OF 1 _ _ 2 3 4 5, of 2 7] by auto
  then show ?thesis
    by (intro exI [of _ buf] exI [of _ g']) simp
qed

end
