(* ===== verification/Perf_Sync.thy ===== *)
theory Perf_Sync
  imports Perf_Reader
begin

text \<open>
  The protocol of \<^verbatim>\<open>rb_use_state\<close> and \<^verbatim>\<open>rb_read_tid\<close> between threads that read a perf ring and
  threads that free it (src/cc/perf_reader.c).
\<close>

section \<open>Readers and the freeing thread\<close>

text \<open>
  The synchronisation of \<^verbatim>\<open>perf_reader_event_read\<close> and \<^verbatim>\<open>perf_reader_free\<close> as a step relation:
  an access to \<^verbatim>\<open>rb_use_state\<close> or \<^verbatim>\<open>rb_read_tid\<close> is one step of the thread that makes it, except that a failed
  exchange of \<^verbatim>\<open>perf_reader_free\<close> and the comparison of \<^verbatim>\<open>rb_read_tid\<close> after it are one step together.  The
  flag of \<open>Free_cas\<close> and \<open>Freeing\<close> says that the call came from a callback of the read loop, to which
  control then returns.  No step is taken on memory that was freed: a thread whose next access would
  hit it is stuck there.
\<close>

datatype rd_pc = Idle | Read_cas | Reading | Read_exit | Free_cas bool | Freeing bool | Gone

record rb_shared =
  sh_state :: rb_state
  sh_tid :: int
  sh_freed :: "int option"
  sh_pc :: "int \<Rightarrow> rd_pc"

definition rb_init :: rb_shared where
  "rb_init = \<lparr>sh_state = RB_NOT_USED, sh_tid = 0, sh_freed = None, sh_pc = (\<lambda>_. Idle)\<rparr>"

abbreviation set_pc :: "int \<Rightarrow> rd_pc \<Rightarrow> rb_shared \<Rightarrow> rb_shared" where
  "set_pc t pc s \<equiv> s\<lparr>sh_pc := (sh_pc s)(t := pc)\<rparr>"

inductive rb_step :: "int \<Rightarrow> rb_shared \<Rightarrow> rb_shared \<Rightarrow> bool" where
  read_enter: "sh_pc s t = Idle \<Longrightarrow> sh_freed s = None \<Longrightarrow> 0 < t \<Longrightarrow>
    rb_step t s (set_pc t Read_cas (s\<lparr>sh_tid := t\<rparr>))"
| read_cas_ok: "sh_pc s t = Read_cas \<Longrightarrow> sh_freed s = None \<Longrightarrow> sh_state s = RB_NOT_USED \<Longrightarrow>
    rb_step t s (set_pc t Reading (s\<lparr>sh_state := RB_USED_IN_READ\<rparr>))"
| read_cas_fail: "sh_pc s t = Read_cas \<Longrightarrow> sh_freed s = None \<Longrightarrow> sh_state s \<noteq> RB_NOT_USED \<Longrightarrow>
    rb_step t s (set_pc t Idle s)"
| read_done: "sh_pc s t = Reading \<Longrightarrow> sh_freed s = None \<Longrightarrow>
    rb_step t s (set_pc t Read_exit (s\<lparr>sh_state := RB_NOT_USED\<rparr>))"
| read_exit: "sh_pc s t = Read_exit \<Longrightarrow> sh_freed s = None \<Longrightarrow>
    rb_step t s (set_pc t Idle (s\<lparr>sh_tid := 0\<rparr>))"
| free_enter: "sh_pc s t = Idle \<Longrightarrow> 0 < t \<Longrightarrow> rb_step t s (set_pc t (Free_cas False) s)"
| free_callback: "sh_pc s t = Reading \<Longrightarrow> rb_step t s (set_pc t (Free_cas True) s)"
| free_cas_ok: "sh_pc s t = Free_cas b \<Longrightarrow> sh_freed s = None \<Longrightarrow> sh_state s = RB_NOT_USED \<Longrightarrow>
    rb_step t s (set_pc t (Freeing b) (s\<lparr>sh_state := RB_USED_IN_MUNMAP\<rparr>))"
| free_cas_same: "sh_pc s t = Free_cas b \<Longrightarrow> sh_freed s = None \<Longrightarrow> sh_state s \<noteq> RB_NOT_USED \<Longrightarrow>
    sh_tid s = t \<Longrightarrow> rb_step t s (set_pc t (Freeing b) s)"
| free_spin: "sh_pc s t = Free_cas b \<Longrightarrow> sh_freed s = None \<Longrightarrow> sh_state s \<noteq> RB_NOT_USED \<Longrightarrow>
    sh_tid s \<noteq> t \<Longrightarrow> rb_step t s s"
| free_done: "sh_pc s t = Freeing b \<Longrightarrow> sh_freed s = None \<Longrightarrow>
    rb_step t s (set_pc t (if b then Reading else Gone) (s\<lparr>sh_freed := Some t\<rparr>))"

inductive_cases rb_stepE: "rb_step t s s'"

text \<open>Executions in which only the threads of \<open>R\<close> call \<^verbatim>\<open>perf_reader_event_read\<close>.\<close>

inductive rb_reach :: "(int \<Rightarrow> bool) \<Rightarrow> rb_shared \<Rightarrow> bool" for R where
  reach_init: "rb_reach R rb_init"
| reach_step: "rb_reach R s \<Longrightarrow> rb_step t s s' \<Longrightarrow> (sh_pc s' t = Read_cas \<longrightarrow> R t) \<Longrightarrow> rb_reach R s'"

definition in_loop :: "rd_pc \<Rightarrow> bool" where
  "in_loop pc \<longleftrightarrow> pc = Reading \<or> pc = Free_cas True \<or> pc = Freeing True"

lemma in_loop_simps [simp]:
  "in_loop Reading" "\<not> in_loop Idle" "\<not> in_loop Read_cas" "\<not> in_loop Read_exit" "\<not> in_loop Gone"
  "in_loop (Free_cas b) \<longleftrightarrow> b" "in_loop (Freeing b) \<longleftrightarrow> b"
  by (auto simp: in_loop_def)

text \<open>Whatever the threads do, the loop runs in one thread at a time, and holds the state word.\<close>

definition excl_inv :: "rb_shared \<Rightarrow> bool" where
  "excl_inv s \<longleftrightarrow>
     (\<forall>t. in_loop (sh_pc s t) \<longrightarrow> sh_state s = RB_USED_IN_READ) \<and>
     (\<forall>t u. in_loop (sh_pc s t) \<longrightarrow> in_loop (sh_pc s u) \<longrightarrow> t = u)"

lemma excl_inv_step: "rb_step t s s' \<Longrightarrow> excl_inv s \<Longrightarrow> excl_inv s'"
  by (erule rb_step.cases; simp add: excl_inv_def; (metis in_loop_simps rb_state.distinct)?)

lemma excl_inv_reach: "rb_reach R s \<Longrightarrow> excl_inv s"
  by (induction rule: rb_reach.induct) (simp add: excl_inv_def rb_init_def, rule excl_inv_step)

definition single_inv :: "int \<Rightarrow> rb_shared \<Rightarrow> bool" where
  "single_inv r s \<longleftrightarrow>
     (sh_tid s = 0 \<or> sh_tid s = r) \<and>
     (\<forall>t. t \<noteq> r \<longrightarrow> sh_pc s t \<in> {Idle, Free_cas False, Freeing False, Gone}) \<and>
     (\<forall>t. sh_pc s t \<noteq> Idle \<longrightarrow> 0 < t) \<and>
     (\<forall>t. t \<noteq> r \<longrightarrow> sh_pc s t = Freeing False \<or> sh_freed s = Some t \<longrightarrow> sh_state s = RB_USED_IN_MUNMAP)"


lemma single_inv_step:
  assumes "rb_step t s s'" "sh_pc s' t = Read_cas \<longrightarrow> t = r" "excl_inv s" "single_inv r s"
  shows "single_inv r s'"
proof -
  have excl: "sh_pc s t = Reading \<Longrightarrow> sh_state s = RB_USED_IN_READ"
    using assms(3) unfolding excl_inv_def by (metis in_loop_simps(1))
  have pos: "sh_pc s t = Free_cas b \<Longrightarrow> t \<noteq> 0" for b
    using assms(4) unfolding single_inv_def by (metis less_irrefl rd_pc.distinct(7))
  show ?thesis
    using assms(1,2,4) excl pos unfolding single_inv_def by (cases rule: rb_step.cases) auto
qed

lemma single_inv_reach: "rb_reach (\<lambda>t. t = r) s \<Longrightarrow> single_inv r s"
proof (induction rule: rb_reach.induct)
  case reach_init
  show ?case by (simp add: single_inv_def rb_init_def)
next
  case (reach_step s t s')
  then show ?case
    using single_inv_step excl_inv_reach by blast
qed

text \<open>
  (C5) At most one thread is in the read loop of a reader, whatever the threads do; and when a single
  thread \<open>r\<close> calls \<^verbatim>\<open>perf_reader_event_read\<close>, no other thread is freeing, or has freed, the reader
  while \<open>r\<close> is in the loop.
\<close>

theorem reader_exclusion:
  assumes "rb_reach R s"
  shows "(in_loop (sh_pc s t) \<longrightarrow> in_loop (sh_pc s u) \<longrightarrow> t = u) \<and>
    (R = (\<lambda>t. t = r) \<longrightarrow> in_loop (sh_pc s r) \<longrightarrow> t \<noteq> r \<longrightarrow>
       (\<forall>b. sh_pc s t \<noteq> Freeing b) \<and> sh_freed s \<noteq> Some t)"
proof -
  have e: "excl_inv s"
    by (rule excl_inv_reach [OF assms])
  have "(\<forall>b. sh_pc s t \<noteq> Freeing b) \<and> sh_freed s \<noteq> Some t"
    if "R = (\<lambda>t. t = r)" "in_loop (sh_pc s r)" "t \<noteq> r"
  proof -
    have st: "sh_state s \<noteq> RB_USED_IN_MUNMAP"
      using e that(2) by (auto simp: excl_inv_def)
    have i: "single_inv r s"
      using assms that(1) single_inv_reach by simp
    then have "sh_pc s t \<in> {Idle, Free_cas False, Freeing False, Gone}"
      "\<not> (sh_pc s t = Freeing False \<or> sh_freed s = Some t)"
      using that(3) st unfolding single_inv_def by blast+
    then show ?thesis by auto
  qed
  then show ?thesis
    using e unfolding excl_inv_def by blast
qed

theorem reader_exclusion_witness:
  "in_loop (sh_pc (set_pc 1 Reading (set_pc 1 Read_cas (rb_init\<lparr>sh_tid := 1\<rparr>)\<lparr>sh_state := RB_USED_IN_READ\<rparr>)) 1) \<and>
   (\<forall>b. sh_pc (set_pc 1 Reading (set_pc 1 Read_cas (rb_init\<lparr>sh_tid := 1\<rparr>)\<lparr>sh_state := RB_USED_IN_READ\<rparr>)) 2 \<noteq> Freeing b)"
proof -
  let ?s1 = "set_pc 1 Read_cas (rb_init\<lparr>sh_tid := 1\<rparr>)"
  let ?s2 = "set_pc 1 Reading (?s1\<lparr>sh_state := RB_USED_IN_READ\<rparr>)"
  have "rb_reach (\<lambda>t. t = 1) ?s1"
    by (rule reach_step [OF reach_init read_enter]) (simp_all add: rb_init_def)
  then have "rb_reach (\<lambda>t. t = 1) ?s2"
    by (rule reach_step [OF _ read_cas_ok]) (simp_all add: rb_init_def)
  from reader_exclusion [OF this, of 2 2 1] show ?thesis
    by simp
qed

lemma race_two_readers: "\<exists>s. rb_reach (\<lambda>_. True) s \<and> sh_pc s 1 = Reading \<and> sh_freed s = Some 2"
proof -
  let ?s1 = "set_pc 1 Read_cas (rb_init\<lparr>sh_tid := 1\<rparr>)"
  let ?s2 = "set_pc 1 Reading (?s1\<lparr>sh_state := RB_USED_IN_READ\<rparr>)"
  let ?s3 = "set_pc 2 Read_cas (?s2\<lparr>sh_tid := 2\<rparr>)"
  let ?s4 = "set_pc 2 Idle ?s3"
  let ?s5 = "set_pc 2 (Free_cas False) ?s4"
  let ?s6 = "set_pc 2 (Freeing False) ?s5"
  let ?s7 = "set_pc 2 (if False then Reading else Gone) (?s6\<lparr>sh_freed := Some 2\<rparr>)"
  let ?R = "rb_reach (\<lambda>_. True)"
  have "?R ?s1" by (rule reach_step [OF reach_init read_enter]) (simp_all add: rb_init_def)
  then have "?R ?s2" by (rule reach_step [OF _ read_cas_ok]) (simp_all add: rb_init_def)
  then have "?R ?s3" by (rule reach_step [OF _ read_enter]) (simp_all add: rb_init_def)
  then have "?R ?s4" by (rule reach_step [OF _ read_cas_fail]) (simp_all add: rb_init_def)
  then have "?R ?s5" by (rule reach_step [OF _ free_enter]) (simp_all add: rb_init_def)
  then have "?R ?s6" by (rule reach_step [OF _ free_cas_same]) (simp_all add: rb_init_def)
  then have "?R ?s7" by (rule reach_step [OF _ free_done]) (simp_all add: rb_init_def)
  then show ?thesis by (intro exI [of _ ?s7]) simp
qed

lemma race_read_exit: "\<exists>s. rb_reach (\<lambda>t. t = 1) s \<and> sh_pc s 1 = Read_exit \<and> sh_freed s = Some 2"
proof -
  let ?s1 = "set_pc 1 Read_cas (rb_init\<lparr>sh_tid := 1\<rparr>)"
  let ?s2 = "set_pc 1 Reading (?s1\<lparr>sh_state := RB_USED_IN_READ\<rparr>)"
  let ?s3 = "set_pc 1 Read_exit (?s2\<lparr>sh_state := RB_NOT_USED\<rparr>)"
  let ?s4 = "set_pc 2 (Free_cas False) ?s3"
  let ?s5 = "set_pc 2 (Freeing False) (?s4\<lparr>sh_state := RB_USED_IN_MUNMAP\<rparr>)"
  let ?s6 = "set_pc 2 (if False then Reading else Gone) (?s5\<lparr>sh_freed := Some 2\<rparr>)"
  let ?R = "rb_reach (\<lambda>t. t = 1)"
  have "?R ?s1" by (rule reach_step [OF reach_init read_enter]) (simp_all add: rb_init_def)
  then have "?R ?s2" by (rule reach_step [OF _ read_cas_ok]) (simp_all add: rb_init_def)
  then have "?R ?s3" by (rule reach_step [OF _ read_done]) (simp_all add: rb_init_def)
  then have "?R ?s4" by (rule reach_step [OF _ free_enter]) (simp_all add: rb_init_def)
  then have "?R ?s5" by (rule reach_step [OF _ free_cas_ok]) (simp_all add: rb_init_def)
  then have "?R ?s6" by (rule reach_step [OF _ free_done]) (simp_all add: rb_init_def)
  then show ?thesis by (intro exI [of _ ?s6]) simp
qed

text \<open>
  (C37) The protocol does not protect a reader from \<^verbatim>\<open>perf_reader_free\<close>.  \<^verbatim>\<open>rb_read_tid\<close> is
  written before the compare-and-swap, so a second thread whose read was refused passes for the
  reading thread and frees the ring under it.  And with a single reading thread, a free that starts
  between the two stores at the end of \<^verbatim>\<open>perf_reader_event_read\<close> has released the reader before
  the second of them is made.
\<close>

theorem perf_reader_free_races:
  "(\<exists>s. rb_reach (\<lambda>_. True) s \<and> sh_pc s 1 = Reading \<and> sh_freed s = Some 2) \<and>
   (\<exists>s. rb_reach (\<lambda>t. t = 1) s \<and> sh_pc s 1 = Read_exit \<and> sh_freed s = Some 2)"
  using race_two_readers race_read_exit by blast

end
