(* ===== verification/Perf_Live.thy ===== *)
theory Perf_Live
  imports Perf_Sync
begin

text \<open>
  \<^verbatim>\<open>perf_reader_free\<close> does not wait forever (src/cc/perf_reader.c): with one reading thread, the calls
  that are in progress run into the release of the reader, in a bounded number of steps.
\<close>

section \<open>What the state word stands for\<close>

definition loop_inv :: "int \<Rightarrow> rb_shared \<Rightarrow> bool" where
  "loop_inv r s \<longleftrightarrow> sh_freed s = None \<longrightarrow>
     (sh_state s = RB_USED_IN_READ \<longrightarrow> in_loop (sh_pc s r)) \<and>
     (sh_pc s r \<in> {Read_cas, Reading, Read_exit, Free_cas True, Freeing True} \<longrightarrow> sh_tid s = r)"

definition unmap_inv :: "rb_shared \<Rightarrow> bool" where
  "unmap_inv s \<longleftrightarrow> sh_freed s = None \<longrightarrow> sh_state s = RB_USED_IN_MUNMAP \<longrightarrow> (\<exists>u b. sh_pc s u = Freeing b)"

definition live_inv :: "int \<Rightarrow> rb_shared \<Rightarrow> bool" where
  "live_inv r s \<longleftrightarrow> loop_inv r s \<and> unmap_inv s"

lemma loop_inv_step:
  assumes "rb_step t s s'" "sh_pc s' t = Read_cas \<longrightarrow> t = r" "single_inv r s" "loop_inv r s"
  shows "loop_inv r s'"
proof -
  have other: "t \<noteq> r \<Longrightarrow> sh_pc s t \<in> {Idle, Free_cas False, Freeing False, Gone}"
    using assms(3) by (simp add: single_inv_def)
  from assms(1) show ?thesis
  proof cases
    case (free_cas_same b)
    then have "sh_pc s' r = (if t = r then Freeing b else sh_pc s r)" "sh_state s' = sh_state s" "sh_tid s' = t" "sh_freed s' = None"
      by simp_all
    then show ?thesis
      using free_cas_same(2-5) assms(4) by (cases "t = r"; cases b) (simp_all add: loop_inv_def)
  next
    case (free_spin b)
    then show ?thesis
      using assms(4) by simp
  next
    case (free_done b)
    then show ?thesis
      by (simp add: loop_inv_def)
  qed (use assms(2,4) other in \<open>auto simp: loop_inv_def\<close>)
qed

lemma unmap_inv_step:
  assumes "rb_step t s s'" "unmap_inv s"
  shows "unmap_inv s'"
proof (cases "sh_freed s' = None \<and> sh_state s' = RB_USED_IN_MUNMAP \<and> (\<forall>b. sh_pc s' t \<noteq> Freeing b)")
  case True
  then have "sh_freed s = None" "sh_state s = RB_USED_IN_MUNMAP" "\<forall>b. sh_pc s t \<noteq> Freeing b" "\<forall>u. u \<noteq> t \<longrightarrow> sh_pc s' u = sh_pc s u"
    using assms(1) by (auto elim!: rb_step.cases)
  then show ?thesis
    using assms(2) by (metis unmap_inv_def)
qed (auto simp: unmap_inv_def)

lemma live_inv_step:
  "rb_step t s s' \<Longrightarrow> sh_pc s' t = Read_cas \<longrightarrow> t = r \<Longrightarrow> single_inv r s \<Longrightarrow> live_inv r s \<Longrightarrow> live_inv r s'"
  unfolding live_inv_def using loop_inv_step unmap_inv_step by blast

lemma live_inv_reach: "rb_reach (\<lambda>t. t = r) s \<Longrightarrow> live_inv r s"
proof (induction rule: rb_reach.induct)
  case reach_init
  show ?case by (simp add: live_inv_def loop_inv_def unmap_inv_def rb_init_def)
next
  case (reach_step s t s')
  then show ?case
    using live_inv_step single_inv_reach by blast
qed

section \<open>Finishing the calls in progress\<close>

text \<open>A step that takes a call in progress further: no new call, and no turn of the waiting loop.\<close>

definition fin_step :: "rb_shared \<Rightarrow> rb_shared \<Rightarrow> bool" where
  "fin_step s s' \<longleftrightarrow> (\<exists>t. rb_step t s s' \<and> sh_pc s t \<noteq> Idle \<and> s' \<noteq> s \<and> \<not> (sh_pc s t = Reading \<and> sh_pc s' t = Free_cas True))"

fun fin_run :: "nat \<Rightarrow> rb_shared \<Rightarrow> rb_shared \<Rightarrow> bool" where
  "fin_run 0 s s' \<longleftrightarrow> s' = s"
| "fin_run (Suc n) s s' \<longleftrightarrow> (\<exists>s1. fin_step s s1 \<and> fin_run n s1 s')"

fun pc_rank :: "rd_pc \<Rightarrow> nat" where
  "pc_rank Idle = 0"
| "pc_rank Gone = 0"
| "pc_rank Read_exit = 1"
| "pc_rank Reading = 2"
| "pc_rank (Freeing b) = 3"
| "pc_rank Read_cas = 3"
| "pc_rank (Free_cas b) = 4"

lemma fin_step_rank:
  assumes "rb_step t s s'" "sh_pc s t \<noteq> Idle" "s' \<noteq> s" "\<not> (sh_pc s t = Reading \<and> sh_pc s' t = Free_cas True)"
  shows "pc_rank (sh_pc s' t) < pc_rank (sh_pc s t)" "\<forall>u. u \<noteq> t \<longrightarrow> sh_pc s' u = sh_pc s u"
  using assms by (cases rule: rb_step.cases; simp)+

lemma fin_step_sum:
  assumes "fin_step s s'" "finite T" "\<forall>t. sh_pc s t \<noteq> Idle \<longrightarrow> t \<in> T"
  shows "(\<Sum>t\<in>T. pc_rank (sh_pc s' t)) < (\<Sum>t\<in>T. pc_rank (sh_pc s t)) \<and> (\<forall>t. sh_pc s' t \<noteq> Idle \<longrightarrow> t \<in> T)"
proof -
  obtain t where t: "rb_step t s s'" "sh_pc s t \<noteq> Idle" "s' \<noteq> s" "\<not> (sh_pc s t = Reading \<and> sh_pc s' t = Free_cas True)"
    using assms(1) by (auto simp: fin_step_def)
  note r = fin_step_rank [OF t]
  have "t \<in> T"
    using assms(3) t(2) by blast
  have "(\<Sum>u\<in>T. pc_rank (sh_pc s' u)) < (\<Sum>u\<in>T. pc_rank (sh_pc s u))"
    using assms(2) \<open>t \<in> T\<close> r by (intro sum_strict_mono_ex1) (auto simp: le_less)
  then show ?thesis
    using assms(3) r(2) \<open>t \<in> T\<close> by metis
qed

lemma fin_run_bound:
  "fin_run n s s' \<Longrightarrow> finite T \<Longrightarrow> \<forall>t. sh_pc s t \<noteq> Idle \<longrightarrow> t \<in> T \<Longrightarrow> n \<le> (\<Sum>t\<in>T. pc_rank (sh_pc s t))"
proof (induction n arbitrary: s)
  case (Suc n)
  then obtain s1 where s1: "fin_step s s1" "fin_run n s1 s'"
    by auto
  show ?case
    using fin_step_sum [OF s1(1) Suc.prems(2,3)] Suc.IH [OF s1(2) Suc.prems(2)] by fastforce
qed simp

lemma fin_step_reach:
  assumes "fin_step s s'" "rb_reach R s"
  shows "rb_reach R s'"
proof -
  obtain t where t: "rb_step t s s'" "sh_pc s t \<noteq> Idle"
    using assms(1) by (auto simp: fin_step_def)
  then have "sh_pc s' t \<noteq> Read_cas"
    by (cases rule: rb_step.cases) auto
  then show ?thesis
    using reach_step [OF assms(2) t(1)] by blast
qed

lemma fin_step_waits:
  assumes "fin_step s s'" "sh_pc s t \<in> {Free_cas b, Freeing b}" "sh_freed s' = None"
  shows "sh_pc s' t \<in> {Free_cas b, Freeing b}"
proof -
  obtain u where u: "rb_step u s s'"
    using assms(1) by (auto simp: fin_step_def)
  then show ?thesis
    using assms(2,3) by (cases rule: rb_step.cases) (auto split: if_splits)
qed

lemma freed_stays: "fin_step s s' \<Longrightarrow> sh_freed s' = None \<Longrightarrow> sh_freed s = None"
  unfolding fin_step_def by (auto elim!: rb_step.cases)

lemma freed_stays_run: "fin_run n s s' \<Longrightarrow> sh_freed s' = None \<Longrightarrow> sh_freed s = None"
  by (induction n arbitrary: s) (auto dest: freed_stays)

lemma fin_run_keeps:
  "fin_run n s s' \<Longrightarrow> sh_freed s' = None \<Longrightarrow> rb_reach R s \<Longrightarrow> sh_pc s t \<in> {Free_cas b, Freeing b} \<Longrightarrow>
     rb_reach R s' \<and> sh_pc s' t \<in> {Free_cas b, Freeing b}"
proof (induction n arbitrary: s)
  case (Suc n)
  then obtain s1 where s1: "fin_step s s1" "fin_run n s1 s'"
    by auto
  show ?case
    using Suc.IH [OF s1(2) Suc.prems(2) fin_step_reach [OF s1(1) Suc.prems(3)]]
      fin_step_waits [OF s1(1) Suc.prems(4) freed_stays_run [OF s1(2) Suc.prems(2)]] by blast
qed simp

lemma fin_stepI: "rb_step t s s' \<Longrightarrow> sh_pc s t \<noteq> Idle \<Longrightarrow> sh_pc s' t \<noteq> sh_pc s t \<Longrightarrow> sh_pc s' t \<noteq> Free_cas True \<Longrightarrow> \<exists>s'. fin_step s s'"
  unfolding fin_step_def by metis

lemma freeing_fin: "sh_pc s u = Freeing b \<Longrightarrow> sh_freed s = None \<Longrightarrow> \<exists>s'. fin_step s s'"
  by (rule fin_stepI [OF free_done]) auto

lemma not_stuck:
  assumes "rb_reach (\<lambda>t. t = r) s" "sh_freed s = None" "sh_pc s t \<in> {Free_cas b, Freeing b}"
  shows "\<exists>s'. fin_step s s'"
proof (cases "sh_pc s t = Free_cas b")
  case True
  note live = live_inv_reach [OF assms(1)]
  show ?thesis
  proof (cases "sh_state s")
    case RB_NOT_USED
    then show ?thesis
      using True assms(2) by (intro fin_stepI [OF free_cas_ok]) auto
  next
    case RB_USED_IN_MUNMAP
    then show ?thesis
      using live assms(2) freeing_fin by (auto simp: live_inv_def unmap_inv_def)
  next
    case RB_USED_IN_READ
    then have "in_loop (sh_pc s r)"
      using live assms(2) by (simp add: live_inv_def loop_inv_def)
    then consider "sh_pc s r = Reading" | "sh_pc s r = Free_cas True" | "sh_pc s r = Freeing True"
      by (auto simp: in_loop_def)
    then show ?thesis
    proof cases
      case 1
      then show ?thesis
        using assms(2) by (intro fin_stepI [OF read_done]) auto
    next
      case 2
      then have "sh_tid s = r"
        using live assms(2) by (simp add: live_inv_def loop_inv_def)
      then show ?thesis
        using 2 RB_USED_IN_READ assms(2) by (intro fin_stepI [OF free_cas_same]) auto
    next
      case 3
      then show ?thesis
        using assms(2) freeing_fin by blast
    qed
  qed
next
  case False
  then show ?thesis
    using assms freeing_fin by blast
qed

text \<open>
  (C28) With one reading thread, \<^verbatim>\<open>perf_reader_free\<close> does not wait forever: from any state in which a
  thread is in it, the steps that finish the calls in progress are bounded in number, whatever the
  order in which the threads take them, and as long as the reader has not been released there is a next
  one.
\<close>

theorem perf_reader_free_completes:
  assumes "rb_reach (\<lambda>t. t = r) s" "sh_pc s t = Free_cas b" "finite T" "\<forall>u. sh_pc s u \<noteq> Idle \<longrightarrow> u \<in> T"
    and "fin_run n s s'" "sh_freed s' = None"
  shows "n \<le> (\<Sum>u\<in>T. pc_rank (sh_pc s u)) \<and> (\<exists>s2. fin_step s' s2)"
  using fin_run_bound [OF assms(5,3,4)] fin_run_keeps [OF assms(5,6,1), of t b] not_stuck [of r s' t b] assms(2,6)
  by blast

theorem perf_reader_free_completes_witness:
  "let s = set_pc 2 (Free_cas False) (set_pc 1 Reading (set_pc 1 Read_cas (rb_init\<lparr>sh_tid := 1\<rparr>)\<lparr>sh_state := RB_USED_IN_READ\<rparr>))
   in (\<Sum>u\<in>{1, 2}. pc_rank (sh_pc s u)) = 6 \<and> (\<exists>s2. fin_step s s2)"
proof -
  let ?s1 = "set_pc 1 Read_cas (rb_init\<lparr>sh_tid := 1\<rparr>)"
  let ?s2 = "set_pc 1 Reading (?s1\<lparr>sh_state := RB_USED_IN_READ\<rparr>)"
  let ?s3 = "set_pc 2 (Free_cas False) ?s2"
  have "rb_reach (\<lambda>t. t = 1) ?s1"
    by (rule reach_step [OF reach_init read_enter]) (simp_all add: rb_init_def)
  then have "rb_reach (\<lambda>t. t = 1) ?s2"
    by (rule reach_step [OF _ read_cas_ok]) (simp_all add: rb_init_def)
  then have r: "rb_reach (\<lambda>t. t = 1) ?s3"
    by (rule reach_step [OF _ free_enter]) (simp_all add: rb_init_def)
  have "\<exists>s2. fin_step ?s3 s2"
    using perf_reader_free_completes [OF r, of 2 False "{1, 2}" 0 ?s3] by (simp add: rb_init_def)
  then show ?thesis
    by (simp add: Let_def rb_init_def)
qed

end
