(* ===== verification/C_Lib.thy ===== *)
theory C_Lib
  imports Bcc_Prelude "HOL-Library.Char_ord" "HOL-Library.List_Lexorder" "HOL-Library.Product_Lexorder"
begin

text \<open>
  The parts of the C library that the components use on strings: character classes, the conversions
  of \<^verbatim>\<open>scanf\<close> and \<^verbatim>\<open>printf\<close>, \<^verbatim>\<open>strtok\<close>, and the order that \<^verbatim>\<open>strcmp\<close> and \<^verbatim>\<open>qsort\<close> give.  A
  C string is a list of characters; a conversion takes the remaining input and returns the value
  and what is left, or \<^const>\<open>None\<close> when it does not match.
\<close>

named_theorems scan_simps

section \<open>Characters\<close>

definition isspace :: "char \<Rightarrow> bool" where
  "isspace c \<longleftrightarrow> c = CHR 0x20 \<or> (9 \<le> (of_char c :: nat) \<and> (of_char c :: nat) \<le> 13)"

definition isdigit :: "char \<Rightarrow> bool" where
  "isdigit c \<longleftrightarrow> 48 \<le> (of_char c :: nat) \<and> (of_char c :: nat) \<le> 57"

definition isxdigit :: "char \<Rightarrow> bool" where
  "isxdigit c \<longleftrightarrow> isdigit c \<or> (97 \<le> (of_char c :: nat) \<and> (of_char c :: nat) \<le> 102) \<or>
     (65 \<le> (of_char c :: nat) \<and> (of_char c :: nat) \<le> 70)"

definition digit_val :: "char \<Rightarrow> nat" where
  "digit_val c =
     (if isdigit c then of_char c - 48
      else if 97 \<le> (of_char c :: nat) then of_char c - 87
      else of_char c - 55)"

definition is_digit_of :: "nat \<Rightarrow> char \<Rightarrow> bool" where
  "is_digit_of b c \<longleftrightarrow> (if b = 16 then isxdigit c else isdigit c)"

definition skip_ws :: "string \<Rightarrow> string" where
  "skip_ws s = dropWhile isspace s"

text \<open>\<^verbatim>\<open>strncmp (s, prefix, strlen (prefix)) == 0\<close>.\<close>

fun starts_with :: "string \<Rightarrow> string \<Rightarrow> bool" where
  "starts_with s [] = True"
| "starts_with [] (p # ps) = False"
| "starts_with (c # s) (p # ps) = (c = p \<and> starts_with s ps)"

section \<open>Numbers\<close>

definition digits_val :: "nat \<Rightarrow> string \<Rightarrow> nat" where
  "digits_val b s = foldl (\<lambda>acc c. acc * b + digit_val c) 0 s"

definition digit_char :: "nat \<Rightarrow> char" where
  "digit_char d = (if d < 10 then char_of (48 + d) else char_of (87 + d))"

fun nat_digits :: "nat \<Rightarrow> nat \<Rightarrow> string" where
  "nat_digits b n =
     (if b < 2 \<or> n < b then [digit_char n] else nat_digits b (n div b) @ [digit_char (n mod b)])"

declare nat_digits.simps [simp del]

text \<open>
  The unsigned conversions of \<^verbatim>\<open>scanf\<close> go through \<^verbatim>\<open>strtoul\<close>: white space, a sign, for base 16 a
  prefix 0x, then at least one digit.  A value that does not fit is the largest one; a minus sign
  negates modulo \<open>2\<^sup>6\<^sup>4\<close>.
\<close>

definition strtoul_val :: "bool \<Rightarrow> nat \<Rightarrow> u64" where
  "strtoul_val neg n =
     (if n \<ge> 2 ^ 64 then - 1 else if neg then - word_of_nat n else word_of_nat n)"

fun scan_sign :: "string \<Rightarrow> bool \<times> string" where
  "scan_sign (c # s) = (if c = CHR ''-'' then (True, s) else if c = CHR ''+'' then (False, s) else (False, c # s))"
| "scan_sign [] = (False, [])"

lemma scan_sign_le: "length (snd (scan_sign s)) \<le> length s"
  by (cases s) auto

definition scan_prefix :: "nat \<Rightarrow> string \<Rightarrow> string" where
  "scan_prefix b s = (if b = 16 \<and> (starts_with s ''0x'' \<or> starts_with s ''0X'') then drop 2 s else s)"

definition scan_num :: "nat \<Rightarrow> string \<Rightarrow> (u64 \<times> string) option" where
  "scan_num b s =
     (let (neg, s) = scan_sign (skip_ws s);
          s = scan_prefix b s;
          ds = takeWhile (is_digit_of b) s
      in if ds = [] then None
         else Some (strtoul_val neg (digits_val b ds), dropWhile (is_digit_of b) s))"

text \<open>\<^verbatim>\<open>%s\<close>, \<^verbatim>\<open>%<n>s\<close>, \<^verbatim>\<open>%c\<close> and \<^verbatim>\<open>%[^\n]\<close>; a literal character.\<close>

definition scan_s :: "string \<Rightarrow> (string \<times> string) option" where
  "scan_s s =
     (let s = skip_ws s; w = takeWhile (Not \<circ> isspace) s
      in if w = [] then None else Some (w, dropWhile (Not \<circ> isspace) s))"

definition scan_sn :: "nat \<Rightarrow> string \<Rightarrow> (string \<times> string) option" where
  "scan_sn n s =
     (let s = skip_ws s; w = take n (takeWhile (Not \<circ> isspace) s)
      in if w = [] then None else Some (w, drop (length w) s))"

fun scan_c :: "string \<Rightarrow> (char \<times> string) option" where
  "scan_c [] = None"
| "scan_c (c # s) = Some (c, s)"

definition scan_line :: "string \<Rightarrow> (string \<times> string) option" where
  "scan_line s =
     (let w = takeWhile (\<lambda>c. c \<noteq> CHR 0x0A) s
      in if w = [] then None else Some (w, dropWhile (\<lambda>c. c \<noteq> CHR 0x0A) s))"

fun scan_lit :: "char \<Rightarrow> string \<Rightarrow> string option" where
  "scan_lit x [] = None"
| "scan_lit x (c # s) = (if c = x then Some s else None)"

section \<open>Round trip of numbers\<close>

lemma of_char_digit_char: "d < 16 \<Longrightarrow> (of_char (digit_char d) :: nat) = (if d < 10 then 48 + d else 87 + d)"
  by (simp add: digit_char_def)

lemma digit_val_digit_char: "d < 16 \<Longrightarrow> digit_val (digit_char d) = d"
  by (simp add: digit_val_def isdigit_def of_char_digit_char)

lemma is_digit_digit_char: "d < b \<Longrightarrow> b = 10 \<or> b = 16 \<Longrightarrow> is_digit_of b (digit_char d)"
  by (auto simp: is_digit_of_def isxdigit_def isdigit_def of_char_digit_char)

lemma digits_val_append_digit: "digits_val b (s @ [c]) = digits_val b s * b + digit_val c"
  by (simp add: digits_val_def)

lemma digits_val_nat_digits [scan_simps]: "b = 10 \<or> b = 16 \<Longrightarrow> digits_val b (nat_digits b n) = n"
proof (induction b n rule: nat_digits.induct)
  case (1 b n)
  show ?case
  proof (cases "n < b")
    case True
    then show ?thesis
      using "1.prems" by (auto simp: nat_digits.simps [of b n] digits_val_def digit_val_digit_char)
  next
    case False
    then have "digits_val b (nat_digits b (n div b)) = n div b"
      using "1.IH" "1.prems" by auto
    moreover have "n mod b < 16"
      using "1.prems" by (auto intro: less_le_trans [OF mod_less_divisor])
    ultimately show ?thesis
      using "1.prems" False
      by (auto simp: nat_digits.simps [of b n] digits_val_append_digit digit_val_digit_char)
  qed
qed

lemma nat_digits_all: "b = 10 \<or> b = 16 \<Longrightarrow> c \<in> set (nat_digits b n) \<Longrightarrow> is_digit_of b c"
proof (induction b n rule: nat_digits.induct)
  case (1 b n)
  then show ?case
    by (cases "n < b") (auto simp: nat_digits.simps [of b n] intro!: is_digit_digit_char)
qed

lemma nat_digits_ne [simp]: "nat_digits b n \<noteq> []"
  by (subst nat_digits.simps) simp


lemma digits_val_zeros [scan_simps]: "digits_val b (replicate k (CHR ''0'') @ s) = digits_val b s"
proof (induction k)
  case (Suc k)
  then show ?case
    by (simp add: digits_val_def digit_val_def isdigit_def)
qed simp

lemma takeWhile_append_stop:
  "list_all P xs \<Longrightarrow> (ys \<noteq> [] \<longrightarrow> \<not> P (hd ys)) \<Longrightarrow> takeWhile P (xs @ ys) = xs"
  by (induction xs; cases ys) auto

lemma dropWhile_append_stop:
  "list_all P xs \<Longrightarrow> (ys \<noteq> [] \<longrightarrow> \<not> P (hd ys)) \<Longrightarrow> dropWhile P (xs @ ys) = ys"
  by (induction xs; cases ys) auto

lemma isdigit_facts:
  "isdigit c \<Longrightarrow> \<not> isspace c" "isxdigit c \<Longrightarrow> \<not> isspace c"
  "isdigit c \<Longrightarrow> c \<noteq> CHR ''-'' \<and> c \<noteq> CHR ''+''" "isxdigit c \<Longrightarrow> c \<noteq> CHR ''-'' \<and> c \<noteq> CHR ''+''"
  by (auto simp: isdigit_def isxdigit_def isspace_def)

lemma is_digit_of_facts:
  "is_digit_of b c \<Longrightarrow> \<not> isspace c" "is_digit_of b c \<Longrightarrow> c \<noteq> CHR ''-''" "is_digit_of b c \<Longrightarrow> c \<noteq> CHR ''+''"
  "is_digit_of b c \<Longrightarrow> c \<noteq> CHR ''x''" "is_digit_of b c \<Longrightarrow> c \<noteq> CHR ''X''"
  unfolding is_digit_of_def using isdigit_facts [of c]
  by (auto simp: isdigit_def isxdigit_def split: if_splits)

text \<open>A number ends at the end of the input or at a character that cannot continue it.\<close>

definition num_stop :: "nat \<Rightarrow> string \<Rightarrow> bool" where
  "num_stop b s \<longleftrightarrow> (s \<noteq> [] \<longrightarrow> \<not> is_digit_of b (hd s) \<and> hd s \<noteq> CHR ''x'' \<and> hd s \<noteq> CHR ''X'')"

lemma num_stop_simps [simp]:
  "num_stop b []" "num_stop b (CHR '' '' # s)" "num_stop b (CHR ''-'' # s)" "num_stop b (CHR '':'' # s)"
  "num_stop b (CHR 0x0A # s)"
  by (auto simp: num_stop_def is_digit_of_def isxdigit_def isdigit_def)

lemma scan_prefix_digits:
  assumes "list_all (is_digit_of b) ds" "ds \<noteq> []" "num_stop b rest"
  shows "scan_prefix b (ds @ rest) = ds @ rest"
proof -
  have "\<not> starts_with (ds @ rest) ''0x'' \<and> \<not> starts_with (ds @ rest) ''0X''"
  proof (cases ds)
    case (Cons d ds')
    then show ?thesis
      using assms is_digit_of_facts(4,5)
      by (cases ds'; cases rest) (auto simp: num_stop_def)
  qed (use assms in simp)
  then show ?thesis
    by (simp add: scan_prefix_def)
qed

lemma scan_num_digits:
  assumes "list_all (is_digit_of b) ds" "ds \<noteq> []" "num_stop b rest" "digits_val b ds < 2 ^ 64"
  shows "scan_num b (ds @ rest) = Some (word_of_nat (digits_val b ds), rest)"
proof -
  obtain d ds' where ds: "ds = d # ds'" "is_digit_of b d"
    using assms(1,2) by (cases ds) auto
  have "scan_sign (skip_ws (ds @ rest)) = (False, ds @ rest)"
    using ds is_digit_of_facts [of b d] by (simp add: skip_ws_def)
  moreover have "takeWhile (is_digit_of b) (ds @ rest) = ds" "dropWhile (is_digit_of b) (ds @ rest) = rest"
    using assms(1,3) by (auto intro!: takeWhile_append_stop dropWhile_append_stop simp: num_stop_def)
  ultimately show ?thesis
    using assms(2,4) scan_prefix_digits [OF assms(1-3)] by (simp add: scan_num_def strtoul_val_def)
qed

lemma scan_num_ws: "isspace c \<Longrightarrow> scan_num b (c # s) = scan_num b s"
  by (simp add: scan_num_def skip_ws_def)

lemma scan_s_ws: "isspace c \<Longrightarrow> scan_s (c # s) = scan_s s"
  by (simp add: scan_s_def skip_ws_def)

lemma isspace_simps [simp]: "isspace (CHR '' '')" "isspace (CHR 0x0A)" "isspace (CHR 0x09)"
  by (simp_all add: isspace_def)

lemma list_all_nat_digits: "b = 10 \<or> b = 16 \<Longrightarrow> list_all (is_digit_of b) (nat_digits b n)"
  using nat_digits_all by (auto simp: list_all_iff)

lemma scan_num_nat_digits [scan_simps]:
  assumes "b = 10 \<or> b = 16" "num_stop b rest" "n < 2 ^ 64"
  shows "scan_num b (nat_digits b n @ rest) = Some (word_of_nat n, rest)"
  using scan_num_digits [OF list_all_nat_digits [OF assms(1)] nat_digits_ne assms(2)] assms
  by (simp add: digits_val_nat_digits)

lemma scan_s_word [scan_simps]:
  assumes "w \<noteq> []" "list_all (Not \<circ> isspace) w" "rest \<noteq> [] \<longrightarrow> isspace (hd rest)"
  shows "scan_s (w @ rest) = Some (w, rest)"
proof -
  have "skip_ws (w @ rest) = w @ rest"
    using assms(1,2) by (cases w) (auto simp: skip_ws_def)
  moreover have "takeWhile (Not \<circ> isspace) (w @ rest) = w" "dropWhile (Not \<circ> isspace) (w @ rest) = rest"
    using assms by (auto intro!: takeWhile_append_stop dropWhile_append_stop)
  ultimately show ?thesis
    using assms(1) by (simp add: scan_s_def)
qed

section \<open>Printing\<close>

definition show_int :: "int \<Rightarrow> string" where
  "show_int i = (if i < 0 then CHR ''-'' # nat_digits 10 (nat (- i)) else nat_digits 10 (nat i))"

text \<open>The field widths \<^verbatim>\<open>%<n>\<close> and \<^verbatim>\<open>%-<n>\<close>.\<close>

definition pad_left :: "nat \<Rightarrow> string \<Rightarrow> string" where
  "pad_left n s = replicate (n - length s) (CHR '' '') @ s"

definition pad_right :: "nat \<Rightarrow> string \<Rightarrow> string" where
  "pad_right n s = s @ replicate (n - length s) (CHR '' '')"

text \<open>\<^verbatim>\<open>snprintf (buf, size, ...)\<close> keeps what fits before the terminating zero.\<close>

definition snprintf_trunc :: "nat \<Rightarrow> string \<Rightarrow> string" where
  "snprintf_trunc sz s = take (sz - 1) s"

section \<open>\<^verbatim>\<open>strtok\<close>\<close>

definition strtok :: "string \<Rightarrow> string \<Rightarrow> (string \<times> string) option" where
  "strtok delim s =
     (let s = dropWhile (\<lambda>c. c \<in> set delim) s in
      if s = [] then None
      else Some (takeWhile (\<lambda>c. c \<notin> set delim) s, drop 1 (dropWhile (\<lambda>c. c \<notin> set delim) s)))"

lemma strtok_shorter: "strtok delim s = Some (t, rest) \<Longrightarrow> length rest < length s"
proof -
  assume "strtok delim s = Some (t, rest)"
  then have r: "rest = drop 1 (dropWhile (\<lambda>c. c \<notin> set delim) (dropWhile (\<lambda>c. c \<in> set delim) s))"
    and ne: "dropWhile (\<lambda>c. c \<in> set delim) s \<noteq> []"
    by (auto simp: strtok_def Let_def split: if_splits)
  obtain x xs where x: "dropWhile (\<lambda>c. c \<in> set delim) s = x # xs"
    using ne by (cases "dropWhile (\<lambda>c. c \<in> set delim) s") auto
  have "x \<notin> set delim"
    using x hd_dropWhile [of "\<lambda>c. c \<in> set delim" s] by simp
  then have "length rest \<le> length xs"
    using length_dropWhile_le [of "\<lambda>c. c \<notin> set delim" xs] by (simp add: r x)
  also have "\<dots> < length s"
    using x length_dropWhile_le [of "\<lambda>c. c \<in> set delim" s] by simp
  finally show ?thesis .
qed

section \<open>Lines\<close>

text \<open>\<^verbatim>\<open>fgets (buf, size, f)\<close>: at most \<open>size - 1\<close> characters, up to and with a newline.\<close>

definition line_of :: "string \<Rightarrow> string" where
  "line_of s = takeWhile (\<lambda>c. c \<noteq> CHR 0x0A) s @ take 1 (dropWhile (\<lambda>c. c \<noteq> CHR 0x0A) s)"

definition fgets :: "nat \<Rightarrow> string \<Rightarrow> (string \<times> string) option" where
  "fgets sz s = (if s = [] then None else let l = take (sz - 1) (line_of s) in Some (l, drop (length l) s))"

lemma line_of_append: "CHR 0x0A \<notin> set w \<Longrightarrow> line_of (w @ CHR 0x0A # rest) = w @ [CHR 0x0A]"
proof -
  assume "CHR 0x0A \<notin> set w"
  then have "takeWhile (\<lambda>c. c \<noteq> CHR 0x0A) (w @ CHR 0x0A # rest) = w"
    "dropWhile (\<lambda>c. c \<noteq> CHR 0x0A) (w @ CHR 0x0A # rest) = CHR 0x0A # rest"
    by (auto intro!: takeWhile_append_stop dropWhile_append_stop simp: list_all_iff)
  then show ?thesis
    by (simp add: line_of_def)
qed

lemma fgets_line:
  assumes "CHR 0x0A \<notin> set w" "length w + 1 < sz"
  shows "fgets sz (w @ CHR 0x0A # rest) = Some (w @ [CHR 0x0A], rest)"
  using assms by (simp add: fgets_def line_of_append)

lemma line_of_le: "length (line_of s) \<le> length s"
proof -
  have "length (takeWhile (\<lambda>c. c \<noteq> CHR 0x0A) s) + length (dropWhile (\<lambda>c. c \<noteq> CHR 0x0A) s) = length s"
    by (metis length_append takeWhile_dropWhile_id)
  then show ?thesis
    by (simp add: line_of_def)
qed

lemma line_of_ne: "s \<noteq> [] \<Longrightarrow> line_of s \<noteq> []"
  by (cases s) (auto simp: line_of_def)

section \<open>\<^verbatim>\<open>getline\<close>, \<^verbatim>\<open>strtoull\<close> and \<^verbatim>\<open>strrchr\<close>\<close>

text \<open>\<^verbatim>\<open>getline\<close> returns lines of any length.\<close>

definition getline :: "string \<Rightarrow> (string \<times> string) option" where
  "getline s = (if s = [] then None else Some (line_of s, drop (length (line_of s)) s))"

lemma getline_shorter: "getline s = Some (l, rest) \<Longrightarrow> length rest < length s"
  using line_of_ne [of s] line_of_le [of s] by (auto simp: getline_def split: if_splits)

lemma getline_line: "CHR 0x0A \<notin> set w \<Longrightarrow> getline (w @ CHR 0x0A # rest) = Some (w @ [CHR 0x0A], rest)"
  by (simp add: getline_def line_of_append)

definition ERANGE :: int where
  "ERANGE = 34"

text \<open>
  \<^verbatim>\<open>strtoull (s, &end, base)\<close>: the value, whether it was out of range, and the rest of the string.
  Without a digit nothing is consumed; a prefix 0x counts only before a digit.
\<close>

definition strtoull :: "nat \<Rightarrow> string \<Rightarrow> u64 \<times> bool \<times> string" where
  "strtoull b s =
     (let (neg, t) = scan_sign (skip_ws s);
          t = (if b = 16 \<and> (starts_with t ''0x'' \<or> starts_with t ''0X'') \<and> takeWhile isxdigit (drop 2 t) \<noteq> []
               then drop 2 t else t);
          ds = takeWhile (is_digit_of b) t
      in if ds = [] then (0, False, s)
         else (strtoul_val neg (digits_val b ds), digits_val b ds \<ge> 2 ^ 64, dropWhile (is_digit_of b) t))"

text \<open>\<^verbatim>\<open>strtol\<close> in base 10: the value, saturated to the type, and whether it was out of range.\<close>

definition strtol :: "string \<Rightarrow> int \<times> bool" where
  "strtol s =
     (let (neg, t) = scan_sign (skip_ws s);
          n = int (digits_val 10 (takeWhile isdigit t));
          v = (if neg then - n else n)
      in if v > 2 ^ 63 - 1 then (2 ^ 63 - 1, True)
         else if v < - (2 ^ 63) then (- (2 ^ 63), True)
         else (v, False))"

text \<open>\<^verbatim>\<open>std::stoi\<close> and \<^verbatim>\<open>std::stoull\<close> in base 10; \<^const>\<open>None\<close> is the exception.\<close>

definition stoi :: "string \<Rightarrow> int option" where
  "stoi s =
     (let (v, range) = strtol s
      in if takeWhile isdigit (snd (scan_sign (skip_ws s))) = [] \<or> range \<or> v < - (2 ^ 31) \<or> v > 2 ^ 31 - 1 then None else Some v)"

definition stoull :: "string \<Rightarrow> u64 option" where
  "stoull s = (let (v, range, rest) = strtoull 10 s in if rest = s \<or> range then None else Some v)"

text \<open>The characters from \<^verbatim>\<open>start\<close> up to \<^verbatim>\<open>stop\<close>.\<close>

definition substr :: "nat \<Rightarrow> nat \<Rightarrow> string \<Rightarrow> string" where
  "substr start stop s = take (stop - start) (drop start s)"

definition to_int32 :: "int \<Rightarrow> int" where
  "to_int32 v = sint (word_of_int v :: u32)"

fun strrchr :: "char \<Rightarrow> string \<Rightarrow> string option" where
  "strrchr c [] = None"
| "strrchr c (x # xs) = (case strrchr c xs of Some s \<Rightarrow> Some s | None \<Rightarrow> if x = c then Some (x # xs) else None)"

lemma strtoull_digits:
  assumes "list_all (is_digit_of b) ds" "ds \<noteq> []" "num_stop b rest" "digits_val b ds < 2 ^ 64"
  shows "strtoull b (ds @ rest) = (word_of_nat (digits_val b ds), False, rest)"
proof -
  obtain d ds' where ds: "ds = d # ds'" "is_digit_of b d"
    using assms(1,2) by (cases ds) auto
  have sign: "scan_sign (skip_ws (ds @ rest)) = (False, ds @ rest)"
    using ds is_digit_of_facts [of b d] by (simp add: skip_ws_def)
  have pre: "\<not> (starts_with (ds @ rest) ''0x'' \<or> starts_with (ds @ rest) ''0X'')"
  proof (cases ds')
    case Nil
    then show ?thesis
      using assms(3) by (cases rest) (auto simp: ds num_stop_def)
  next
    case (Cons d' ds'')
    then show ?thesis
      using assms(1) is_digit_of_facts(4,5) [of b d'] by (auto simp: ds)
  qed
  have tw: "takeWhile (is_digit_of b) (ds @ rest) = ds" "dropWhile (is_digit_of b) (ds @ rest) = rest"
    using assms(1,3) by (auto intro!: takeWhile_append_stop dropWhile_append_stop simp: num_stop_def)
  show ?thesis
    using assms(2,4) pre by (simp add: strtoull_def sign tw Let_def strtoul_val_def)
qed

lemma strtoull_nat_digits:
  assumes "b = 10 \<or> b = 16" "num_stop b rest" "n < 2 ^ 64"
  shows "strtoull b (nat_digits b n @ rest) = (word_of_nat n, False, rest)"
  using strtoull_digits [OF list_all_nat_digits [OF assms(1)] nat_digits_ne assms(2)] assms
  by (simp add: digits_val_nat_digits)

lemma length_nat_digits: "1 < b \<Longrightarrow> n < b ^ Suc k \<Longrightarrow> length (nat_digits b n) \<le> Suc k"
proof (induction k arbitrary: n)
  case 0
  then show ?case
    by (simp add: nat_digits.simps [of b n])
next
  case (Suc k)
  show ?case
  proof (cases "n < b")
    case True
    then show ?thesis
      by (simp add: nat_digits.simps [of b n])
  next
    case False
    have "n div b < b ^ Suc k"
      using Suc.prems by (simp add: less_mult_imp_div_less mult.commute)
    then show ?thesis
      using Suc.IH [of "n div b"] Suc.prems(1) False by (simp add: nat_digits.simps [of b n])
  qed
qed

lemma length_show_int: "0 \<le> i \<Longrightarrow> i < 2 ^ 31 \<Longrightarrow> length (show_int i) \<le> 10"
  using length_nat_digits [of 10 "nat i" 9] by (simp add: show_int_def nat_less_iff)

end
