(* ===== verification/Hist.thy ===== *)
theory Hist
  imports C_Lib
begin

text \<open>
  The logarithm that the BPF programs use to choose a histogram slot (libbpf-tools/bits.bpf.h) and
  the printing of histograms (libbpf-tools/trace_helpers.c), with the proof that the row printed for
  a slot is the row of the values counted in it.
\<close>

section \<open>Slots\<close>

definition log2_u32 :: "u32 \<Rightarrow> u64" where
  "log2_u32 v =
     (let r = push_bit 4 (of_bool (v > 0xFFFF)) :: u32; v = drop_bit (unat r) v;
          shift = push_bit 3 (of_bool (v > 0xFF)) :: u32; v = drop_bit (unat shift) v; r = r OR shift;
          shift = push_bit 2 (of_bool (v > 0xF)) :: u32; v = drop_bit (unat shift) v; r = r OR shift;
          shift = push_bit 1 (of_bool (v > 0x3)) :: u32; v = drop_bit (unat shift) v; r = r OR shift;
          r = r OR drop_bit 1 v
      in ucast r)"

definition log2l :: "u64 \<Rightarrow> u64" where
  "log2l v =
     (let hi = ucast (drop_bit 32 v) :: u32 in
      if hi \<noteq> 0 then log2_u32 hi + 32 else log2_u32 (ucast v))"

section \<open>Printing\<close>

text \<open>
  \<^verbatim>\<open>print_stars\<close> multiplies in 32 bits, without a wider type; a division by zero has no value.
\<close>

definition print_stars :: "u32 \<Rightarrow> u32 \<Rightarrow> int \<Rightarrow> string option" where
  "print_stars val val_max width =
     (if val_max = 0 then None
      else
        let num_stars = sint ((min val val_max * word_of_int width) div val_max);
            num_spaces = width - num_stars;
            need_plus = val > val_max
        in Some (replicate (nat num_stars) (CHR ''*'') @ replicate (nat num_spaces) (CHR '' '') @
                 (if need_plus then ''+'' else [])))"

text \<open>The first pass: the last index in use and the largest count.\<close>

fun hist_scan :: "u32 list \<Rightarrow> int \<Rightarrow> int \<Rightarrow> u32 \<Rightarrow> int \<times> u32" where
  "hist_scan [] i idx_max val_max = (idx_max, val_max)"
| "hist_scan (val # vals) i idx_max val_max =
     hist_scan vals (i + 1) (if val > 0 then i else idx_max) (if val > val_max then val else val_max)"

text \<open>The bounds of row \<open>i\<close>; a shift by 64 or more has no value.\<close>

definition hist_range :: "nat \<Rightarrow> (u64 \<times> u64) option" where
  "hist_range i =
     (if i + 1 \<ge> 64 then None
      else
        let low = drop_bit 1 (push_bit (i + 1) 1) :: u64;
            high = push_bit (i + 1) 1 - 1;
            low = (if low = high then low - 1 else low)
        in Some (low, high))"

definition log2_hist_row :: "int \<Rightarrow> u32 \<Rightarrow> int \<Rightarrow> nat \<Rightarrow> u32 \<Rightarrow> string option" where
  "log2_hist_row idx_max val_max stars i val = do {
     (low, high) \<leftarrow> hist_range i;
     let width = (if idx_max \<le> 32 then 10 else 20);
     bar \<leftarrow> print_stars val val_max stars;
     Some (pad_left width (show_int (sint low)) @ '' -> '' @ pad_right width (show_int (sint high)) @
           '' : '' @ pad_right 8 (show_int (sint val)) @ '' |'' @ bar @ ''|'' @ [CHR 0x0A])
   }"

fun log2_hist_rows :: "int \<Rightarrow> u32 \<Rightarrow> int \<Rightarrow> nat \<Rightarrow> u32 list \<Rightarrow> string option" where
  "log2_hist_rows idx_max val_max stars i [] = Some []"
| "log2_hist_rows idx_max val_max stars i (val # vals) =
     (if int i > idx_max then Some []
      else do {
        row \<leftarrow> log2_hist_row idx_max val_max stars i val;
        rows \<leftarrow> log2_hist_rows idx_max val_max stars (i + 1) vals;
        Some (row @ rows)
      })"

definition print_log2_hist :: "u32 list \<Rightarrow> string \<Rightarrow> string option" where
  "print_log2_hist vals val_type =
     (let stars_max = 40; (idx_max, val_max) = hist_scan vals 0 (-1) 0 in
      if idx_max < 0 then Some []
      else do {
        let header = pad_left (if idx_max \<le> 32 then 5 else 15) [] @
                     pad_right (if idx_max \<le> 32 then 19 else 29) val_type @
                     '' : count    distribution'' @ [CHR 0x0A];
        let stars = (if idx_max \<le> 32 then stars_max else stars_max div 2);
        rows \<leftarrow> log2_hist_rows idx_max val_max stars 0 vals;
        Some (header @ rows)
      })"

fun linear_hist_scan :: "u32 list \<Rightarrow> int \<Rightarrow> int \<Rightarrow> int \<Rightarrow> u32 \<Rightarrow> int \<times> int \<times> u32" where
  "linear_hist_scan [] i idx_min idx_max val_max = (idx_min, idx_max, val_max)"
| "linear_hist_scan (val # vals) i idx_min idx_max val_max =
     linear_hist_scan vals (i + 1)
       (if val > 0 \<and> idx_min < 0 then i else idx_min) (if val > 0 then i else idx_max)
       (if val > val_max then val else val_max)"

fun linear_hist_rows :: "int \<Rightarrow> int \<Rightarrow> u32 \<Rightarrow> u32 \<Rightarrow> u32 \<Rightarrow> int \<Rightarrow> u32 list \<Rightarrow> string option" where
  "linear_hist_rows idx_min idx_max val_max base step i [] = Some []"
| "linear_hist_rows idx_min idx_max val_max base step i (val # vals) =
     (if i < idx_min then linear_hist_rows idx_min idx_max val_max base step (i + 1) vals
      else if i > idx_max then Some []
      else if val = 0 then linear_hist_rows idx_min idx_max val_max base step (i + 1) vals
      else do {
        bar \<leftarrow> print_stars val val_max 40;
        rows \<leftarrow> linear_hist_rows idx_min idx_max val_max base step (i + 1) vals;
        Some (''        '' @ pad_right 10 (show_int (sint (base + word_of_int i * step))) @ '' : '' @
              pad_right 8 (show_int (sint val)) @ '' |'' @ bar @ ''|'' @ [CHR 0x0A] @ rows)
      })"

definition print_linear_hist :: "u32 list \<Rightarrow> u32 \<Rightarrow> u32 \<Rightarrow> string \<Rightarrow> string option" where
  "print_linear_hist vals base step val_type =
     (let (idx_min, idx_max, val_max) = linear_hist_scan vals 0 (-1) (-1) 0 in
      if idx_max < 0 then Some []
      else do {
        let header = ''     '' @ pad_right 13 val_type @ '' : count     distribution'' @ [CHR 0x0A];
        rows \<leftarrow> linear_hist_rows idx_min idx_max val_max base step 0 vals;
        Some (header @ rows)
      })"

section \<open>The logarithm\<close>

definition is_log2 :: "nat \<Rightarrow> nat \<Rightarrow> bool" where
  "is_log2 v r \<longleftrightarrow> 2 ^ r \<le> v \<and> v < 2 ^ Suc r"

text \<open>One halving of the search: the bits found so far are \<open>r\<close>, what is left is \<open>v\<close>.\<close>

definition log2_stage :: "nat \<Rightarrow> u32 \<times> u32 \<Rightarrow> u32 \<times> u32" where
  "log2_stage j = (\<lambda>(r, v).
     (let shift = push_bit j (of_bool (v > mask (2 ^ j))) :: u32 in (r OR shift, drop_bit (unat shift) v)))"

lemma log2_masks:
  "mask (2 ^ 4) = (0xFFFF :: u32)" "mask (2 ^ 3) = (0xFF :: u32)" "mask (2 ^ 2) = (0xF :: u32)"
  "mask (2 ^ 1) = (0x3 :: u32)"
  by (simp_all add: mask_eq_exp_minus_1)

lemma log2_u32_stages:
  "log2_u32 v =
     (let (r, v) = log2_stage 1 (log2_stage 2 (log2_stage 3 (log2_stage 4 (0, v))))
      in ucast (r OR drop_bit 1 v))"
  by (simp only: log2_u32_def log2_stage_def Let_def split_conv log2_masks or.left_neutral)

lemma unat_drop_bit: "unat (drop_bit n w) = unat (w :: 'a::len word) div 2 ^ n"
  unfolding unat_drop_bit_eq by (rule drop_bit_eq_div)

lemma or_exp_aligned:
  fixes a :: nat
  assumes "2 * 2 ^ j dvd a"
  shows "a OR 2 ^ j = a + 2 ^ j"
proof -
  obtain k where "a = 2 ^ j * (2 * k)"
    using assms by (auto elim!: dvdE)
  then have "\<not> bit a j"
    by (simp add: bit_iff_odd)
  then have "a AND 2 ^ j = 0"
    by (simp add: and_exp_eq_0_iff_not_bit)
  then show ?thesis
    by (rule disjunctive_add_eq_or [symmetric])
qed

definition log2_inv :: "nat \<Rightarrow> nat \<Rightarrow> u32 \<times> u32 \<Rightarrow> bool" where
  "log2_inv v w = (\<lambda>(r', v'). v div 2 ^ unat r' = unat v' \<and> unat v' < 2 ^ w \<and> 0 < v' \<and>
     w dvd unat r' \<and> unat r' + w \<le> 32)"

lemma log2_stage_inv:
  assumes inv: "log2_inv v (2 * 2 ^ j) (r', v')" and j: "j \<in> {1, 2, 3, 4}"
  shows "log2_inv v (2 ^ j) (log2_stage j (r', v'))"
proof -
  have m: "unat (mask (2 ^ j) :: u32) = 2 ^ (2 ^ j) - 1"
    using j by (auto simp: mask_eq_exp_minus_1)
  have less: "unat v' < 2 ^ (2 ^ j) * 2 ^ (2 ^ j)"
    using inv by (simp add: log2_inv_def mult_2 power_add)
  show ?thesis
  proof (cases "v' > mask (2 ^ j)")
    case True
    then have big: "2 ^ (2 ^ j) \<le> unat v'"
      using m by (simp add: word_less_nat_alt)
    have sh: "unat (push_bit j (1::u32)) = 2 ^ j"
      using j by (auto simp: push_bit_eq_mult)
    have sh': "unat (2 ^ j :: u32) = 2 ^ j"
      using j by auto
    have rr: "unat (r' OR push_bit j 1) = unat r' + 2 ^ j"
      using inv or_exp_aligned [of j "unat r'"] by (simp add: unsigned_or_eq sh' log2_inv_def)
    have vv: "unat (drop_bit (2 ^ j) v') = unat v' div 2 ^ (2 ^ j)"
      by (rule unat_drop_bit)
    have "0 < unat v' div 2 ^ (2 ^ j)" "unat v' div 2 ^ (2 ^ j) < 2 ^ (2 ^ j)"
      using big less by (auto simp: div_greater_zero_iff less_mult_imp_div_less)
    then show ?thesis
      using True inv vv rr
      by (auto simp: log2_inv_def log2_stage_def Let_def sh' power_add div_mult2_eq word_less_nat_alt dvd_add_left_iff
          intro: dvd_trans [of "2 ^ j" "2 * 2 ^ j"])
  next
    case False
    then have "unat v' < 2 ^ (2 ^ j)"
      using m by (simp add: word_less_nat_alt not_less) (metis Suc_pred less_Suc_eq_le zero_less_numeral zero_less_power)
    then show ?thesis
      using False inv
      by (auto simp: log2_inv_def log2_stage_def Let_def intro: dvd_trans [of "2 ^ j" "2 * 2 ^ j"])
  qed
qed

lemma log2_u32_correct:
  assumes "v \<noteq> 0"
  shows "is_log2 (unat v) (unat (log2_u32 v)) \<and> unat (log2_u32 v) < 32"
proof -
  let ?s = "log2_stage 1 (log2_stage 2 (log2_stage 3 (log2_stage 4 (0, v))))"
  have 0: "log2_inv (unat v) (2 * 2 ^ 4) (0, v)"
    using assms unat_u32_less [of v] by (simp add: log2_inv_def word_gt_0)
  have 4: "log2_inv (unat v) (2 * 2 ^ 3) (log2_stage 4 (0, v))"
    using log2_stage_inv [OF 0] by simp
  have 3: "log2_inv (unat v) (2 * 2 ^ 2) (log2_stage 3 (log2_stage 4 (0, v)))"
    using log2_stage_inv [of "unat v" 3] 4 by (cases "log2_stage 4 (0, v)") simp
  have 2: "log2_inv (unat v) (2 * 2 ^ 1) (log2_stage 2 (log2_stage 3 (log2_stage 4 (0, v))))"
    using log2_stage_inv [of "unat v" 2] 3 by (cases "log2_stage 3 (log2_stage 4 (0, v))") simp
  have 1: "log2_inv (unat v) 2 ?s"
    using log2_stage_inv [of "unat v" 1] 2 by (cases "log2_stage 2 (log2_stage 3 (log2_stage 4 (0, v)))") simp
  obtain r w where s: "?s = (r, w)"
    by (cases ?s)
  have w: "unat v div 2 ^ unat r = unat w" "0 < unat w" "unat w < 4" "even (unat r)" "unat r + 2 \<le> 32"
    using 1 unfolding s by (auto simp: log2_inv_def word_less_nat_alt)
  have d: "unat (drop_bit 1 w) = unat w div 2"
    using unat_drop_bit [of 1 w] by simp
  have "unat (r OR drop_bit 1 w) = unat r + unat w div 2"
  proof (cases "unat w div 2 = 0")
    case False
    then have "unat w div 2 = 2 ^ 0"
      using w(3) by simp
    then show ?thesis
      using or_exp_aligned [of 0 "unat r"] w(4) by (simp add: unsigned_or_eq d del: One_nat_def)
  qed (simp add: unsigned_or_eq d del: One_nat_def)
  then have u: "unat (log2_u32 v) = unat r + unat w div 2"
    unfolding log2_u32_stages s by simp
  have "2 ^ unat r * unat w \<le> unat v" "unat v < 2 ^ unat r * (unat w + 1)"
    using w(1) by (metis mult.commute div_times_less_eq_dividend, metis add.commute div_mod_decomp dividend_less_times_div mult.commute plus_1_eq_Suc mult_Suc_right zero_less_numeral zero_less_power w(1))
  moreover have "unat w = 1 \<or> unat w = 2 \<or> unat w = 3"
    using w by linarith
  ultimately show ?thesis
    using w(5) unfolding is_log2_def u by (auto simp: power_add)
qed


lemma log2l_correct:
  assumes "v \<noteq> 0"
  shows "is_log2 (unat v) (unat (log2l v)) \<and> unat (log2l v) < 64"
proof -
  let ?hi = "ucast (drop_bit 32 v) :: u32"
  have lt: "unat v < 2 ^ 64"
    using unsigned_less [of v, where ?'a = nat] by simp
  have hi: "unat ?hi = unat v div 2 ^ 32"
    using lt unat_drop_bit [of 32 v]
    by (simp add: unsigned_ucast_eq take_bit_nat_eq_self less_mult_imp_div_less del: unat_drop_bit_eq)
  show ?thesis
  proof (cases "?hi = 0")
    case True
    then have small: "unat v < 2 ^ 32"
      using hi by (simp add: div_eq_0_iff)
    then have u: "unat (ucast v :: u32) = unat v"
      by (simp add: unsigned_ucast_eq take_bit_nat_eq_self)
    then have "(ucast v :: u32) \<noteq> 0"
      using assms by (metis unat_eq_zero unsigned_0)
    from log2_u32_correct [OF this] show ?thesis
      using True u by (auto simp: log2l_def)
  next
    case False
    from log2_u32_correct [OF this] have l: "is_log2 (unat ?hi) (unat (log2_u32 ?hi))" "unat (log2_u32 ?hi) < 32"
      by auto
    have r: "unat (log2l v) = unat (log2_u32 ?hi) + 32"
      using False l(2) by (simp add: log2l_def unat_word_ariths)
    have "2 ^ 32 * unat ?hi \<le> unat v" "unat v < 2 ^ 32 * (unat ?hi + 1)"
      unfolding hi by (simp_all add: dividend_less_times_div)
    then show ?thesis
      using l unfolding r is_log2_def by (simp add: power_add)
  qed
qed

section \<open>Rows\<close>

definition row_low :: "nat \<Rightarrow> nat" where
  "row_low i = (if i = 0 then 0 else 2 ^ i)"

definition row_high :: "nat \<Rightarrow> nat" where
  "row_high i = 2 ^ (i + 1) - 1"

lemma unat_power_u64:
  assumes "k < 64"
  shows "unat ((2::u64) ^ k) = 2 ^ k"
proof -
  have "unat (word_of_nat (2 ^ k) :: u64) = 2 ^ k mod 2 ^ 64"
    by (simp only: unat_of_nat) simp
  also have "\<dots> = 2 ^ k"
    using power_strict_increasing [OF assms, of "2::nat"] by (intro mod_less) simp
  finally show ?thesis
    by simp
qed

lemma hist_range_eq:
  assumes "i < 63"
  shows "\<exists>lo hi. hist_range i = Some (lo, hi) \<and> unat lo = row_low i \<and> unat hi = row_high i"
proof -
  have p: "unat (push_bit (i + 1) 1 :: u64) = 2 ^ (i + 1)"
    using assms by (simp add: push_bit_eq_mult unat_power_u64 del: power_Suc)
  have l: "unat (drop_bit 1 (push_bit (i + 1) 1 :: u64)) = 2 ^ i"
    unfolding unat_drop_bit p by simp
  have h: "unat (push_bit (i + 1) 1 - 1 :: u64) = 2 ^ (i + 1) - 1"
    using p by (simp add: unat_sub word_le_nat_alt)
  have eq: "(drop_bit 1 (push_bit (i + 1) 1) :: u64) = push_bit (i + 1) 1 - 1 \<longleftrightarrow> i = 0"
  proof -
    have "(2::nat) ^ i = 2 ^ (i + 1) - 1 \<longleftrightarrow> i = 0"
    proof (cases i)
      case (Suc k)
      have "0 < x \<Longrightarrow> 2 * x \<noteq> 4 * x - Suc 0" for x :: nat
        by presburger
      then show ?thesis
        by (simp add: Suc)
    qed simp
    then show ?thesis
      using l h by (metis unsigned_word_eqI)
  qed
  show ?thesis
    using assms l h eq by (cases "i = 0") (auto simp: hist_range_def Let_def row_low_def row_high_def)
qed

lemma is_log2_mono:
  assumes "is_log2 v r" "is_log2 v r'"
  shows "r' \<le> r"
proof (rule ccontr)
  assume "\<not> r' \<le> r"
  then have "(2::nat) ^ Suc r \<le> 2 ^ r'"
    by (intro power_increasing) auto
  then show False
    using assms by (auto simp: is_log2_def)
qed

lemma is_log2_unique: "is_log2 v r \<Longrightarrow> is_log2 v r' \<Longrightarrow> r = r'"
  by (rule antisym; rule is_log2_mono)

lemma row_iff_log2:
  "0 < v \<Longrightarrow> row_low i \<le> v \<and> v \<le> row_high i \<longleftrightarrow> is_log2 v i"
  by (cases i) (auto simp: row_low_def row_high_def is_log2_def)

lemma log2l_0: "log2l 0 = 0"
  by (simp add: log2l_def log2_u32_def)

text \<open>
  (C6) The slot that \<^verbatim>\<open>log2l\<close> chooses for a value and the row that \<^verbatim>\<open>print_log2_hist\<close> prints for the
  slot agree: the bounds of row \<open>i\<close> contain exactly the values counted in slot \<open>i\<close>.
\<close>

theorem log2_hist_row_exact:
  assumes "i < 63" "hist_range i = Some (lo, hi)"
  shows "lo \<le> v \<and> v \<le> hi \<longleftrightarrow> log2l v = word_of_nat i"
proof -
  have b: "unat lo = row_low i" "unat hi = row_high i"
    using hist_range_eq [OF assms(1)] assms(2) by auto
  have r: "lo \<le> v \<and> v \<le> hi \<longleftrightarrow> row_low i \<le> unat v \<and> unat v \<le> row_high i"
    by (simp add: word_le_nat_alt b)
  have u: "log2l v = word_of_nat i \<longleftrightarrow> unat (log2l v) = i"
    using assms(1) by (auto simp: unat_of_nat)
  show ?thesis
  proof (cases "v = 0")
    case True
    then show ?thesis
      unfolding r u by (simp add: row_low_def log2l_0)
  next
    case False
    then show ?thesis
      unfolding r u
      using log2l_correct [OF False] is_log2_unique row_iff_log2 [of "unat v" i] unat_gt_0 [of v]
      by metis
  qed
qed

theorem log2_hist_row_exact_witness:
  "hist_range 5 = Some (32, 63) \<and> log2l 40 = 5"
proof -
  have h: "hist_range 5 = Some (32, 63)"
    by (simp add: hist_range_def)
  then show ?thesis
    using log2_hist_row_exact [of 5 32 63 40] by simp
qed

section \<open>The whole histogram\<close>

text \<open>
  The reference: the counts up to the last one in use, one row each, with exact arithmetic.
\<close>

definition trim_zeros :: "u32 list \<Rightarrow> u32 list" where
  "trim_zeros vals = rev (dropWhile (\<lambda>v. v = 0) (rev vals))"

definition bar_spec :: "nat \<Rightarrow> nat \<Rightarrow> nat \<Rightarrow> string" where
  "bar_spec v vmax stars =
     replicate (v * stars div vmax) (CHR ''*'') @ replicate (stars - v * stars div vmax) (CHR '' '')"

definition row_spec :: "nat \<Rightarrow> nat \<Rightarrow> nat \<Rightarrow> nat \<Rightarrow> nat \<Rightarrow> string" where
  "row_spec width vmax stars i v =
     pad_left width (nat_digits 10 (row_low i)) @ '' -> '' @ pad_right width (nat_digits 10 (row_high i)) @
     '' : '' @ pad_right 8 (nat_digits 10 v) @ '' |'' @ bar_spec v vmax stars @ ''|'' @ [CHR 0x0A]"

fun rows_spec :: "nat \<Rightarrow> nat \<Rightarrow> nat \<Rightarrow> nat \<Rightarrow> u32 list \<Rightarrow> string" where
  "rows_spec width vmax stars i [] = []"
| "rows_spec width vmax stars i (v # vs) =
     row_spec width vmax stars i (unat v) @ rows_spec width vmax stars (i + 1) vs"

definition log2_hist_spec :: "u32 list \<Rightarrow> string \<Rightarrow> string" where
  "log2_hist_spec used val_type =
     (let wide = length used > 33 in
      replicate (if wide then 15 else 5) (CHR '' '') @ pad_right (if wide then 29 else 19) val_type @
      '' : count    distribution'' @ [CHR 0x0A] @
      rows_spec (if wide then 20 else 10) (Max (unat ` set used)) (if wide then 20 else 40) 0 used)"

lemma sint_small_u64:
  assumes "unat (w :: u64) < 2 ^ 63"
  shows "sint w = int (unat w)"
proof -
  have "uint w < 2 ^ 63"
    using assms by (metis of_nat_less_iff of_nat_numeral of_nat_power uint_nat)
  moreover have "- (2 ^ 63) \<le> uint w"
    by (rule order_trans [of _ 0]) simp_all
  ultimately show ?thesis
    by (simp add: sint_uint signed_take_bit_int_eq_self)
qed

lemma trim_zeros_simps [simp]:
  "trim_zeros [] = []"
  "trim_zeros (v # vs) = (if trim_zeros vs = [] then (if v = 0 then [] else [v]) else v # trim_zeros vs)"
  by (auto simp: trim_zeros_def dropWhile_append)

lemma hist_scan_eq:
  "hist_scan vals i im vm =
     (if trim_zeros vals = [] then im else i + int (length (trim_zeros vals)) - 1, foldl max vm vals)"
  by (induction vals arbitrary: i im vm) (auto simp: word_gt_0 max_def not_less)

lemma print_stars_eq:
  assumes "val_max \<noteq> 0" "val \<le> val_max" "unat val_max * stars < 2 ^ 32" "stars < 2 ^ 31"
  shows "print_stars val val_max (int stars) = Some (bar_spec (unat val) (unat val_max) stars)"
proof -
  have le: "unat val * stars \<le> unat val_max * stars"
    using assms(2) by (simp add: word_le_nat_alt)
  have s: "unat (word_of_nat stars :: u32) = stars"
    using assms(4) by (simp add: unat_of_nat)
  have m: "unat (val * word_of_nat stars) = unat val * stars"
    using le_less_trans [OF le assms(3)] by (simp add: unat_word_ariths s)
  have d: "unat ((val * word_of_nat stars) div val_max) = unat val * stars div unat val_max"
    by (simp add: unat_div m)
  have b: "unat val * stars div unat val_max \<le> stars"
  proof -
    have "unat val_max * stars div unat val_max = stars"
      using assms(1) by (simp add: unat_eq_zero)
    then show ?thesis
      using div_le_mono [OF le, of "unat val_max"] by simp
  qed
  then have "sint ((val * word_of_nat stars) div val_max) = int (unat val * stars div unat val_max)"
    using assms(4) d by (subst sint_small_u32) auto
  moreover have "min val val_max = val" "\<not> val_max < val"
    using assms(2) by (auto simp: min_def)
  ultimately show ?thesis
    using assms(1) b unfolding print_stars_def bar_spec_def
    by (simp add: Let_def nat_diff_distrib del: zdiv_int of_nat_div)
qed

lemma log2_hist_row_eq:
  assumes "i < 63" "val_max \<noteq> 0" "val \<le> val_max" "unat val_max * 40 < 2 ^ 32" "stars = 40 \<or> stars = 20"
  shows "log2_hist_row idx_max val_max (int stars) i val =
    Some (row_spec (if idx_max \<le> 32 then 10 else 20) (unat val_max) stars i (unat val))"
proof -
  obtain lo hi where r: "hist_range i = Some (lo, hi)" "unat lo = row_low i" "unat hi = row_high i"
    using hist_range_eq [OF assms(1)] by blast
  have "(2::nat) ^ Suc i \<le> 2 ^ 63"
    using assms(1) by (intro power_increasing) auto
  then have "row_high i < 2 ^ 63" "row_low i < 2 ^ 63"
    by (auto simp: row_high_def row_low_def)
  then have s: "sint lo = int (row_low i)" "sint hi = int (row_high i)"
    using r sint_small_u64 by metis+
  have v: "sint val = int (unat val)"
    using assms(3,4) by (intro sint_small_u32) (simp add: word_le_nat_alt)
  have disp: "show_int (sint lo) = nat_digits 10 (row_low i)" "show_int (sint hi) = nat_digits 10 (row_high i)"
    "show_int (sint val) = nat_digits 10 (unat val)"
    using s v by (simp_all only: show_int_def nat_int of_nat_less_0_iff if_False)
  have "unat val_max * stars < 2 ^ 32"
    using assms(4,5) by auto
  then have p: "print_stars val val_max (int stars) = Some (bar_spec (unat val) (unat val_max) stars)"
    using assms by (intro print_stars_eq) auto
  show ?thesis
    unfolding log2_hist_row_def r(1) p row_spec_def by (simp add: Let_def disp)
qed

lemma log2_hist_rows_eq:
  assumes "i + length (trim_zeros vals) \<le> 63" "val_max \<noteq> 0" "\<forall>v \<in> set vals. v \<le> val_max"
    "unat val_max * 40 < 2 ^ 32" "stars = 40 \<or> stars = 20"
    "idx_max = int i + int (length (trim_zeros vals)) - 1"
  shows "log2_hist_rows idx_max val_max (int stars) i vals =
    Some (rows_spec (if idx_max \<le> 32 then 10 else 20) (unat val_max) stars i (trim_zeros vals))"
  using assms
proof (induction vals arbitrary: i)
  case (Cons v vs)
  show ?case
  proof (cases "trim_zeros (v # vs) = []")
    case False
    then have c: "trim_zeros (v # vs) = v # trim_zeros vs"
      by (auto split: if_splits)
    then have i: "i < 63" "\<not> idx_max < int i"
      using Cons.prems(1,6) by (auto simp del: trim_zeros_simps)
    have row: "log2_hist_row idx_max val_max (int stars) i v =
        Some (row_spec (if idx_max \<le> 32 then 10 else 20) (unat val_max) stars i (unat v))"
      using i(1) Cons.prems(2-5) by (intro log2_hist_row_eq) auto
    have IH: "log2_hist_rows idx_max val_max (int stars) (i + 1) vs =
        Some (rows_spec (if idx_max \<le> 32 then 10 else 20) (unat val_max) stars (i + 1) (trim_zeros vs))"
      using Cons.prems c by (intro Cons.IH) (auto simp del: trim_zeros_simps)
    show ?thesis
      unfolding c using i(2) row IH by simp
  qed (use Cons.prems in simp)
qed simp

lemma trim_zeros_set: "set vals - {0} \<subseteq> set (trim_zeros vals)" "set (trim_zeros vals) \<subseteq> set vals"
  by (induction vals) (auto split: if_splits)

lemma trim_zeros_nonzero: "trim_zeros vals \<noteq> [] \<Longrightarrow> \<exists>v \<in> set (trim_zeros vals). v \<noteq> 0"
  by (induction vals) (auto split: if_splits)

lemma foldl_max_ge: "vm \<le> foldl max vm vals \<and> (\<forall>v \<in> set vals. v \<le> foldl max vm vals)"
  for vm :: "'a::linorder"
  by (induction vals arbitrary: vm) (auto, (metis max.bounded_iff)+)

lemma foldl_max_in: "foldl max vm vals = vm \<or> foldl max vm vals \<in> set vals"
  for vm :: "'a::linorder"
  by (induction vals arbitrary: vm) (auto, (metis max_def)+)

lemma val_max_eq:
  assumes "trim_zeros vals \<noteq> []"
  shows "unat (foldl max 0 vals) = Max (unat ` set (trim_zeros vals))" "foldl max 0 vals \<noteq> 0"
proof -
  let ?m = "foldl max 0 vals"
  obtain v where v: "v \<in> set (trim_zeros vals)" "v \<noteq> 0"
    using trim_zeros_nonzero [OF assms] by blast
  have ge: "\<forall>v \<in> set vals. v \<le> ?m"
    using foldl_max_ge [of 0 vals] by blast
  then have "v \<le> ?m"
    using v trim_zeros_set(2) by blast
  then show nz: "?m \<noteq> 0"
    using v(2) by auto
  then have "?m \<in> set (trim_zeros vals)"
    using foldl_max_in [of 0 vals] trim_zeros_set(1) by blast
  then show "unat ?m = Max (unat ` set (trim_zeros vals))"
    using ge trim_zeros_set(2) [of vals] by (intro Max_eqI [symmetric]) (auto simp: word_le_nat_alt)
qed

text \<open>
  For up to 63 slots and counts below \<open>2\<^sup>3\<^sup>2 / 40\<close> \<^verbatim>\<open>print_log2_hist\<close> prints the histogram that
  exact arithmetic gives: one row for each slot up to the last one in use, with the bounds of the slot,
  its count, and a bar whose length is the count's share of the largest count.
\<close>

lemma print_log2_hist_exact:
  assumes "trim_zeros vals \<noteq> []" "length vals \<le> 63" "\<forall>v \<in> set vals. unat v * 40 < 2 ^ 32"
  shows "print_log2_hist vals val_type = Some (log2_hist_spec (trim_zeros vals) val_type)"
proof -
  let ?u = "trim_zeros vals" and ?m = "foldl max 0 vals"
  have len: "length ?u \<le> length vals"
    using length_dropWhile_le [of "\<lambda>v. v = 0" "rev vals"] by (simp add: trim_zeros_def)
  have m: "unat ?m * 40 < 2 ^ 32"
    using foldl_max_in [of 0 vals] assms(3) by auto
  have scan: "hist_scan vals 0 (-1) 0 = (int (length ?u) - 1, ?m)"
    using assms(1) by (simp add: hist_scan_eq)
  have rows: "log2_hist_rows (int (length ?u) - 1) ?m (int stars) 0 vals =
      Some (rows_spec (if int (length ?u) - 1 \<le> 32 then 10 else 20) (unat ?m) stars 0 ?u)"
    if "stars = 40 \<or> stars = 20" for stars
    using assms(2) val_max_eq(2) [OF assms(1)] foldl_max_ge [of 0 vals] m that len
    by (intro log2_hist_rows_eq) auto
  have pos: "0 < length ?u"
    using assms(1) by simp
  show ?thesis
  proof (cases "length ?u > 33")
    case True
    then show ?thesis
      using rows [of 20] pos
      by (simp add: print_log2_hist_def log2_hist_spec_def scan Let_def val_max_eq(1) [OF assms(1)] pad_left_def)
  next
    case False
    then show ?thesis
      using rows [of 40] pos
      by (simp add: print_log2_hist_def log2_hist_spec_def scan Let_def val_max_eq(1) [OF assms(1)] pad_left_def)
  qed
qed

text \<open>
  Beyond that bound the bar is wrong: the product of \<^verbatim>\<open>print_stars\<close> wraps around, and a row that
  holds the largest count, which should be full, is empty.
\<close>

lemma print_stars_overflow:
  "print_stars 107374183 107374183 40 = Some (replicate 40 (CHR '' ''))"
  by (simp add: print_stars_def)

end
