(* ===== verification/Addr_Search.thy ===== *)
theory Addr_Search
  imports C_Lib
begin

text \<open>
  Lookup of an address in a table of symbols sorted by address: the binary search of
  libbpf-tools/trace_helpers.c, and the contract that the symbol tables of the library offer
  their clients (the entry with the greatest address that is not above the one asked for).
\<close>

section \<open>Bounds-checked indexing\<close>

definition idx :: "'a list \<Rightarrow> int \<Rightarrow> 'a option" where
  "idx xs i = (if 0 \<le> i \<and> nat i < length xs then Some (xs ! nat i) else None)"

lemma idx_nat [simp]: "idx xs (int i) = (if i < length xs then Some (xs ! i) else None)"
  by (simp add: idx_def)

definition last_opt :: "'a list \<Rightarrow> 'a option" where
  "last_opt xs = (if xs = [] then None else Some (last xs))"

section \<open>The binary search\<close>

text \<open>The loop; the result is \<^const>\<open>None\<close> if it reads outside the table.\<close>

function find_le_loop :: "u64 list \<Rightarrow> u64 \<Rightarrow> int \<Rightarrow> int \<Rightarrow> (int \<times> int) option" where
  "find_le_loop keys addr start end_i =
     (if start < end_i then do {
        let mid = start + (end_i - start + 1) div 2;
        sym_addr \<leftarrow> idx keys mid;
        if sym_addr \<le> addr then find_le_loop keys addr mid end_i
        else find_le_loop keys addr start (mid - 1)
      }
      else Some (start, end_i))"
  by pat_completeness auto
termination
  by (relation "measure (\<lambda>(keys, addr, start, end_i). nat (end_i - start))") auto

declare find_le_loop.simps [simp del]

lemma find_le_loop_correct:
  assumes "sorted keys" "0 \<le> s" "s \<le> e" "e < int (length keys)"
    and "\<forall>j. e < int j \<longrightarrow> j < length keys \<longrightarrow> addr < keys ! j"
    and "s = 0 \<or> keys ! nat s \<le> addr"
  shows "\<exists>m. find_le_loop keys addr s e = Some (int m, int m) \<and> m < length keys \<and>
     (m = 0 \<or> keys ! m \<le> addr) \<and> (\<forall>j. m < j \<longrightarrow> j < length keys \<longrightarrow> addr < keys ! j)"
  using assms
proof (induction keys addr s e rule: find_le_loop.induct)
  case (1 keys addr s e)
  show ?case
  proof (cases "s < e")
    case False
    then have e: "e = s"
      using "1.prems"(3) by simp
    have "find_le_loop keys addr s e = Some (int (nat s), int (nat s))"
      using "1.prems"(2) by (subst find_le_loop.simps) (simp add: e)
    moreover have "nat s < length keys" "nat s = 0 \<or> keys ! nat s \<le> addr"
      using "1.prems"(2,4,6) by (auto simp: e)
    moreover have "addr < keys ! j" if "nat s < j" "j < length keys" for j
      using "1.prems"(2,5) that by (simp add: e)
    ultimately show ?thesis
      by blast
  next
    case True
    define mid where "mid = s + (e - s + 1) div 2"
    have mid: "s < mid" "mid \<le> e"
      using True by (auto simp: mid_def)
    then have k: "idx keys mid = Some (keys ! nat mid)"
      using "1.prems"(2,4) by (simp add: idx_def nat_less_iff)
    show ?thesis
    proof (cases "keys ! nat mid \<le> addr")
      case le: True
      have "find_le_loop keys addr s e = find_le_loop keys addr mid e"
        using True k le by (subst find_le_loop.simps) (simp add: mid_def Let_def)
      then show ?thesis
        using "1.IH"(1) [OF True mid_def k le "1.prems"(1) _ mid(2) "1.prems"(4,5)] "1.prems"(2) mid le by simp
    next
      case gt: False
      have "find_le_loop keys addr s e = find_le_loop keys addr s (mid - 1)"
        using True k gt by (subst find_le_loop.simps) (simp add: mid_def Let_def)
      moreover have above: "addr < keys ! j" if "mid - 1 < int j" "j < length keys" for j
      proof -
        have "keys ! nat mid \<le> keys ! j"
          using "1.prems"(2) mid that by (intro sorted_nth_mono [OF "1.prems"(1)]) simp_all
        then show ?thesis
          using gt by simp
      qed
      ultimately show ?thesis
        using "1.IH"(2) [OF True mid_def k gt "1.prems"(1,2) _ _ _ "1.prems"(6)] "1.prems"(4) mid by simp
    qed
  qed
qed

text \<open>Reading the loop's result as a position in the table.\<close>

lemma filter_le_take:
  assumes "\<forall>j. j \<le> m \<longrightarrow> P (xs ! j)" "\<forall>j. m < j \<longrightarrow> j < length xs \<longrightarrow> \<not> P (xs ! j)" "m < length xs"
  shows "filter P xs = take (Suc m) xs"
proof -
  have "filter P xs = filter P (take (Suc m) xs) @ filter P (drop (Suc m) xs)"
    by (metis append_take_drop_id filter_append)
  moreover have "filter P (take (Suc m) xs) = take (Suc m) xs"
    using assms(1,3) by (auto simp: filter_id_conv in_set_conv_nth)
  moreover have "filter P (drop (Suc m) xs) = []"
    using assms(2) by (auto simp: filter_empty_conv in_set_conv_nth)
  ultimately show ?thesis
    by simp
qed

lemma find_le_last:
  assumes "sorted (map key xs)" "xs \<noteq> []"
  shows "\<exists>m. find_le_loop (map key xs) addr 0 (int (length xs) - 1) = Some (int m, int m) \<and> m < length xs \<and>
    last_opt (filter (\<lambda>x. key x \<le> addr) xs) = (if key (xs ! m) \<le> addr then Some (xs ! m) else None) \<and>
    (m = 0 \<or> key (xs ! m) \<le> addr) \<and> (\<forall>j. m < j \<longrightarrow> j < length xs \<longrightarrow> addr < key (xs ! j))"
proof -
  have "0 < length xs"
    using assms(2) by simp
  then have "\<exists>m. find_le_loop (map key xs) addr 0 (int (length xs) - 1) = Some (int m, int m) \<and>
     m < length (map key xs) \<and> (m = 0 \<or> map key xs ! m \<le> addr) \<and>
     (\<forall>j. m < j \<longrightarrow> j < length (map key xs) \<longrightarrow> addr < map key xs ! j)"
    by (intro find_le_loop_correct [OF assms(1)]) auto
  then obtain m where m': "find_le_loop (map key xs) addr 0 (int (length xs) - 1) = Some (int m, int m)"
    "m < length (map key xs)" "m = 0 \<or> map key xs ! m \<le> addr"
    "\<forall>j. m < j \<longrightarrow> j < length (map key xs) \<longrightarrow> addr < map key xs ! j"
    by blast
  then have m: "find_le_loop (map key xs) addr 0 (int (length xs) - 1) = Some (int m, int m)"
    "m < length xs" "m = 0 \<or> key (xs ! m) \<le> addr" "\<forall>j. m < j \<longrightarrow> j < length xs \<longrightarrow> addr < key (xs ! j)"
    by simp_all
  have "last_opt (filter (\<lambda>x. key x \<le> addr) xs) = (if key (xs ! m) \<le> addr then Some (xs ! m) else None)"
  proof (cases "key (xs ! m) \<le> addr")
    case True
    have "key (xs ! j) \<le> addr" if "j \<le> m" for j
      using sorted_nth_mono [OF assms(1) that] m(2) that True by simp
    then have "filter (\<lambda>x. key x \<le> addr) xs = take (Suc m) xs"
      using m by (intro filter_le_take) auto
    then show ?thesis
      using True m(2) by (simp add: last_opt_def take_Suc_conv_app_nth)
  next
    case False
    then have "m = 0"
      using m(3) by simp
    then have "filter (\<lambda>x. key x \<le> addr) xs = []"
    proof -
      have "\<not> key (xs ! j) \<le> addr" if "j < length xs" for j
        using False m(4) that \<open>m = 0\<close> by (cases "j = 0") (simp_all add: not_le)
      then show ?thesis
        unfolding filter_empty_conv by (metis in_set_conv_nth)
    qed
    then show ?thesis
      using False by (simp add: last_opt_def)
  qed
  then show ?thesis
    using m by blast
qed

section \<open>The contract of an address table\<close>

locale addr_table =
  fixes entries :: "'t \<Rightarrow> 'e list"
    and key :: "'e \<Rightarrow> u64"
    and inv :: "'t \<Rightarrow> bool"
    and lookup :: "'t \<Rightarrow> u64 \<Rightarrow> 'e option"
  assumes table_sorted: "inv t \<Longrightarrow> sorted (map key (entries t))"
    and lookup_last: "inv t \<Longrightarrow> lookup t a = last_opt (filter (\<lambda>e. key e \<le> a) (entries t))"
begin

lemma lookup_Some_iff_exists:
  "inv t \<Longrightarrow> (\<exists>e. lookup t a = Some e) \<longleftrightarrow> (\<exists>e \<in> set (entries t). key e \<le> a)"
  by (auto simp: lookup_last last_opt_def filter_empty_conv)

lemma lookup_greatest:
  assumes "inv t" "lookup t a = Some e"
  shows "e \<in> set (entries t)" "key e \<le> a" "\<And>e'. e' \<in> set (entries t) \<Longrightarrow> key e' \<le> a \<Longrightarrow> key e' \<le> key e"
proof -
  define xs where "xs = filter (\<lambda>e. key e \<le> a) (entries t)"
  have e: "xs \<noteq> []" "e = last xs"
    using assms by (auto simp: lookup_last last_opt_def xs_def split: if_splits)
  have "e \<in> set xs"
    unfolding e(2) by (rule last_in_set [OF e(1)])
  then show "e \<in> set (entries t)" "key e \<le> a"
    by (simp_all add: xs_def)
  have s: "sorted (map key xs)"
    unfolding xs_def using table_sorted [OF assms(1)] by (rule sorted_filter)
  show "key e' \<le> key e" if "e' \<in> set (entries t)" "key e' \<le> a" for e'
  proof -
    have "e' \<in> set xs"
      using that by (simp add: xs_def)
    then obtain i where i: "i < length xs" "xs ! i = e'"
      unfolding in_set_conv_nth by blast
    then have "map key xs ! i \<le> map key xs ! (length xs - 1)"
      by (intro sorted_nth_mono [OF s]) auto
    then show ?thesis
      using i e by (simp add: last_conv_nth)
  qed
qed

text \<open>The same for a table whose entries represent other values.\<close>

lemma lookup_greatest_image:
  assumes "inv t" "lookup t a = Some e" "set (entries t) = rep ` X"
  shows "\<exists>x \<in> X. e = rep x \<and> key (rep x) \<le> a \<and> (\<forall>y \<in> X. key (rep y) \<le> a \<longrightarrow> key (rep y) \<le> key (rep x))"
  using lookup_greatest [OF assms(1,2)] unfolding assms(3) by blast

lemma lookup_mono:
  assumes "inv t" "a \<le> b" "lookup t a = Some e" "lookup t b = Some f"
  shows "key e \<le> key f"
proof (rule lookup_greatest(3) [OF assms(1,4)])
  show "e \<in> set (entries t)" "key e \<le> b"
    using lookup_greatest(1,2) [OF assms(1,3)] assms(2) by auto
qed

lemma lookup_hit:
  assumes "inv t" "e \<in> set (entries t)"
  shows "\<exists>f. lookup t (key e) = Some f \<and> key f = key e"
proof -
  obtain f where f: "lookup t (key e) = Some f"
    using lookup_Some_iff_exists [OF assms(1), of "key e"] assms(2) by auto
  have "key f \<le> key e" "key e \<le> key f"
    using lookup_greatest(2,3) [OF assms(1) f] assms(2) by auto
  then show ?thesis
    using f by auto
qed

text \<open>Addresses up to the next entry resolve to the same one.\<close>

lemma lookup_gap:
  assumes "inv t" "lookup t a = Some e" "a \<le> b" "\<forall>e' \<in> set (entries t). \<not> (a < key e' \<and> key e' \<le> b)"
  shows "lookup t b = Some e"
proof -
  have "filter (\<lambda>e. key e \<le> b) (entries t) = filter (\<lambda>e. key e \<le> a) (entries t)"
    using assms(3,4) by (intro filter_cong) (auto simp: not_less)
  then show ?thesis
    using assms(1,2) by (simp add: lookup_last)
qed

end

end
