(* ===== verification/Ksyms.thy ===== *)
theory Ksyms
  imports Addr_Search "HOL-Library.Multiset"
begin

text \<open>
  The kernel symbol table of libbpf-tools/trace_helpers.c: building it from the text of
  \<^verbatim>\<open>/proc/kallsyms\<close>, and looking symbols up by address and by name.
\<close>

section \<open>The table\<close>

text \<open>
  Names are offsets into the string area while the table is built, and pointers into it, that is
  the same offsets, afterwards.  The used parts of the two arrays are lists; the capacities are what
  was allocated.
\<close>

record ksym =
  ks_name :: nat
  ks_addr :: u64

record ksyms =
  ks_syms :: "ksym list"
  ks_syms_cap :: int
  ks_strs :: string
  ks_strs_cap :: int

definition ksyms_empty :: ksyms where
  "ksyms_empty = \<lparr>ks_syms = [], ks_syms_cap = 0, ks_strs = [], ks_strs_cap = 0\<rparr>"

text \<open>The C string that starts at an offset of the string area.\<close>

definition cstr_at :: "string \<Rightarrow> nat \<Rightarrow> string" where
  "cstr_at strs p = takeWhile (\<lambda>c. c \<noteq> CHR 0x00) (drop p strs)"

abbreviation ksym_str :: "ksyms \<Rightarrow> ksym \<Rightarrow> string" where
  "ksym_str ks s \<equiv> cstr_at (ks_strs ks) (ks_name s)"

definition INT_MAX :: int where
  "INT_MAX = 2147483647"

text \<open>
  Growing an array by a third; \<^const>\<open>None\<close> when the product overflows a signed \<^verbatim>\<open>int\<close>.  The second
  component of the results below tells whether memory was available.
\<close>

definition grow_cap :: "int \<Rightarrow> int option" where
  "grow_cap cap = (if cap * 4 > INT_MAX then None else Some (cap * 4 div 3))"

definition strs_new_cap :: "int \<Rightarrow> int \<Rightarrow> int \<Rightarrow> int option" where
  "strs_new_cap sz cap name_len = do {
     new_cap \<leftarrow> grow_cap cap;
     let new_cap = (if new_cap < sz + name_len then sz + name_len else new_cap);
     Some (if new_cap < 1024 then 1024 else new_cap)
   }"

definition syms_new_cap :: "int \<Rightarrow> int option" where
  "syms_new_cap cap = do {
     new_cap \<leftarrow> grow_cap cap;
     Some (if new_cap < 1024 then 1024 else new_cap)
   }"

text \<open>
  \<open>mem\<close> says which reallocations succeed, by the number of bytes asked for.  The result is
  \<^const>\<open>None\<close> on undefined behaviour, and otherwise the return value and the table: an area that
  was already grown stays grown when the call fails.
\<close>

definition ksyms__add_symbol :: "(int \<Rightarrow> bool) \<Rightarrow> ksyms \<Rightarrow> string \<Rightarrow> u64 \<Rightarrow> (int \<times> ksyms) option" where
  "ksyms__add_symbol mem ks name addr = do {
     let name_len = int (length name) + 1;
     let sz = int (length (ks_strs ks));
     strs_cap \<leftarrow> (if sz + name_len > ks_strs_cap ks then strs_new_cap sz (ks_strs_cap ks) name_len
                   else Some (ks_strs_cap ks));
     if strs_cap \<noteq> ks_strs_cap ks \<and> \<not> mem strs_cap then Some (-1, ks)
     else do {
       let ks = ks\<lparr>ks_strs_cap := strs_cap\<rparr>;
       syms_cap \<leftarrow> (if int (length (ks_syms ks)) + 1 > ks_syms_cap ks then syms_new_cap (ks_syms_cap ks)
                     else Some (ks_syms_cap ks));
       if syms_cap \<noteq> ks_syms_cap ks \<and> \<not> mem (16 * syms_cap) then Some (-1, ks)
       else if sz + name_len > INT_MAX \<or> sz + name_len > strs_cap \<or> int (length (ks_syms ks)) + 1 > syms_cap then None
       else
         Some (0, ks\<lparr>ks_syms_cap := syms_cap,
                     ks_syms := ks_syms ks @ [\<lparr>ks_name = length (ks_strs ks), ks_addr = addr\<rparr>],
                     ks_strs := ks_strs ks @ name @ [CHR 0x00]\<rparr>)
     }
   }"

text \<open>
  One \<^verbatim>\<open>fscanf (f, "%lx %c %s%*[^\n]\n")\<close>; \<^verbatim>\<open>sym_name\<close> holds 256 characters, and a longer word
  is written past its end.
\<close>

datatype 'a scan_res = Scan_eof | Scan_bad | Scan_overflow | Scan_ok 'a string

definition skip_rest_of_line :: "string \<Rightarrow> string" where
  "skip_rest_of_line s =
     (case scan_line s of None \<Rightarrow> s | Some (_, s) \<Rightarrow> skip_ws s)"

definition scan_kallsyms_line :: "string \<Rightarrow> (u64 \<times> char \<times> string) scan_res" where
  "scan_kallsyms_line s =
     (if skip_ws s = [] then Scan_eof
      else
        case scan_num 16 s of
          None \<Rightarrow> Scan_bad
        | Some (addr, s) \<Rightarrow>
            (case scan_c (skip_ws s) of
               None \<Rightarrow> Scan_bad
             | Some (ty, s) \<Rightarrow>
                 (case scan_s s of
                    None \<Rightarrow> Scan_bad
                  | Some (name, s) \<Rightarrow>
                      if length name \<ge> 256 then Scan_overflow
                      else Scan_ok (addr, ty, name) (skip_rest_of_line s))))"

datatype 'a load_res = Loaded 'a | Load_failed

text \<open>
  The loop, with one unit of fuel for each line read.  \<open>mem\<close> is asked anew for each call.
\<close>

fun ksyms_load_loop :: "nat \<Rightarrow> (int \<Rightarrow> bool) \<Rightarrow> string \<Rightarrow> ksyms \<Rightarrow> ksyms load_res loop_res" where
  "ksyms_load_loop 0 mem s ks = Timeout"
| "ksyms_load_loop (Suc fuel) mem s ks =
     (case scan_kallsyms_line s of
        Scan_eof \<Rightarrow> Finished (Loaded ks)
      | Scan_bad \<Rightarrow> Finished Load_failed
      | Scan_overflow \<Rightarrow> Fault
      | Scan_ok (addr, ty, name) s \<Rightarrow>
          (case ksyms__add_symbol mem ks name addr of
             None \<Rightarrow> Fault
           | Some (ret, ks) \<Rightarrow>
               if ret \<noteq> 0 then Finished Load_failed else ksyms_load_loop fuel mem s ks))"

text \<open>\<^verbatim>\<open>qsort\<close> with \<^verbatim>\<open>ksym_cmp\<close>: by address, then by name.\<close>

definition ksym_key :: "ksyms \<Rightarrow> ksym \<Rightarrow> u64 \<times> string" where
  "ksym_key ks s = (ks_addr s, ksym_str ks s)"

definition ksyms__load :: "nat \<Rightarrow> bool \<Rightarrow> (int \<Rightarrow> bool) \<Rightarrow> string option \<Rightarrow> ksyms load_res loop_res" where
  "ksyms__load fuel calloc_ok mem file =
     (case file of
        None \<Rightarrow> Finished Load_failed
      | Some text \<Rightarrow>
          if \<not> calloc_ok then Finished Load_failed
          else
            (case ksyms_load_loop fuel mem text ksyms_empty of
               Finished (Loaded ks) \<Rightarrow>
                 Finished (Loaded (ks\<lparr>ks_syms := sort_key (ksym_key ks) (ks_syms ks)\<rparr>))
             | r \<Rightarrow> r))"

section \<open>Lookups\<close>

definition ksyms__map_addr :: "ksyms \<Rightarrow> u64 \<Rightarrow> ksym option option" where
  "ksyms__map_addr ks addr = do {
     (start, end_i) \<leftarrow> find_le_loop (map ks_addr (ks_syms ks)) addr 0 (int (length (ks_syms ks)) - 1);
     if start = end_i then do {
       s \<leftarrow> idx (ks_syms ks) start;
       Some (if ks_addr s \<le> addr then Some s else None)
     }
     else Some None
   }"

definition ksyms__get_symbol :: "ksyms \<Rightarrow> string \<Rightarrow> ksym option" where
  "ksyms__get_symbol ks name = find (\<lambda>s. ksym_str ks s = name) (ks_syms ks)"

section \<open>Lookup by address\<close>

definition ksyms_sorted :: "ksyms \<Rightarrow> bool" where
  "ksyms_sorted ks \<longleftrightarrow> sorted (map ks_addr (ks_syms ks))"

lemma ksyms__map_addr_eq:
  assumes "ksyms_sorted ks"
  shows "ksyms__map_addr ks a = Some (last_opt (filter (\<lambda>s. ks_addr s \<le> a) (ks_syms ks)))"
proof (cases "ks_syms ks = []")
  case True
  then show ?thesis
    by (simp add: ksyms__map_addr_def last_opt_def find_le_loop.simps)
next
  case False
  obtain m where m: "find_le_loop (map ks_addr (ks_syms ks)) a 0 (int (length (ks_syms ks)) - 1) = Some (int m, int m)"
    "m < length (ks_syms ks)"
    "last_opt (filter (\<lambda>s. ks_addr s \<le> a) (ks_syms ks)) =
       (if ks_addr (ks_syms ks ! m) \<le> a then Some (ks_syms ks ! m) else None)"
    using find_le_last [OF assms [unfolded ksyms_sorted_def] False] by blast
  show ?thesis
    unfolding ksyms__map_addr_def m(1,3) using m(2) by simp
qed

definition ksyms_lookup :: "ksyms \<Rightarrow> u64 \<Rightarrow> ksym option" where
  "ksyms_lookup ks a = Option.bind (ksyms__map_addr ks a) (\<lambda>r. r)"

interpretation kt: addr_table ks_syms ks_addr ksyms_sorted ksyms_lookup
  by unfold_locales (simp_all add: ksyms_lookup_def ksyms__map_addr_eq, simp add: ksyms_sorted_def)

section \<open>Building the table\<close>

definition ksyms_wf :: "ksyms \<Rightarrow> bool" where
  "ksyms_wf ks \<longleftrightarrow>
     int (length (ks_strs ks)) \<le> ks_strs_cap ks \<and> int (length (ks_syms ks)) \<le> ks_syms_cap ks \<and>
     (ks_strs_cap ks \<le> 1024 \<or> 3 * ks_strs_cap ks \<le> 4 * int (length (ks_strs ks))) \<and>
     (ks_syms_cap ks \<le> 1024 \<or> 3 * ks_syms_cap ks \<le> 4 * int (length (ks_syms ks))) \<and>
     length (ks_syms ks) \<le> length (ks_strs ks) \<and>
     (\<forall>s \<in> set (ks_syms ks). CHR 0x00 \<in> set (drop (ks_name s) (ks_strs ks)))"

lemma ksyms_wf_empty: "ksyms_wf ksyms_empty"
  by (simp add: ksyms_wf_def ksyms_empty_def)

lemma cstr_at_append:
  assumes "CHR 0x00 \<in> set (drop p strs)"
  shows "cstr_at (strs @ ys) p = cstr_at strs p"
proof -
  have "p < length strs"
    using assms by (cases "p < length strs") auto
  then show ?thesis
    using assms by (auto simp: cstr_at_def takeWhile_append)
qed

lemma cstr_at_new: "CHR 0x00 \<notin> set name \<Longrightarrow> cstr_at (strs @ name @ [CHR 0x00]) (length strs) = name"
  unfolding cstr_at_def by simp (rule takeWhile_append_stop; auto simp: list_all_iff)

definition ksyms_abs :: "ksyms \<Rightarrow> (u64 \<times> string) list" where
  "ksyms_abs ks = map (ksym_key ks) (ks_syms ks)"

lemma grow_cap_Some:
  assumes "0 \<le> cap" "cap \<le> 2 ^ 29 - 1"
  shows "\<exists>c. grow_cap cap = Some c \<and> 0 \<le> c \<and> 3 * c \<le> 4 * cap \<and> 4 * cap < 3 * c + 3"
proof -
  have "grow_cap cap = Some (cap * 4 div 3)"
    using assms by (simp add: grow_cap_def INT_MAX_def)
  then show ?thesis
    using assms by auto
qed

lemma strs_new_cap_bounds:
  assumes "0 \<le> sz" "sz \<le> cap" "cap < sz + len" "sz + len \<le> 2 ^ 28"
  shows "\<exists>c. strs_new_cap sz cap len = Some c \<and> sz + len \<le> c \<and> (c \<le> 1024 \<or> 3 * c \<le> 4 * (sz + len))"
proof -
  obtain c where c: "grow_cap cap = Some c" "0 \<le> c" "3 * c \<le> 4 * cap"
    using grow_cap_Some [of cap] assms by auto
  let ?c1 = "if c < sz + len then sz + len else c"
  have c1: "sz + len \<le> ?c1" "3 * ?c1 \<le> 4 * (sz + len)"
    using c assms by auto
  have "strs_new_cap sz cap len = Some (if ?c1 < 1024 then 1024 else ?c1)"
    by (simp add: strs_new_cap_def c Let_def)
  then show ?thesis
    using c1 by (cases "?c1 < 1024") auto
qed

lemma syms_new_cap_bounds:
  assumes "0 \<le> n" "n \<le> cap" "cap < n + 1" "n \<le> 2 ^ 28"
  shows "\<exists>c. syms_new_cap cap = Some c \<and> n + 1 \<le> c \<and> (c \<le> 1024 \<or> 3 * c \<le> 4 * (n + 1))"
proof -
  obtain c where c: "grow_cap cap = Some c" "0 \<le> c" "3 * c \<le> 4 * cap" "4 * cap < 3 * c + 3"
    using grow_cap_Some [of cap] assms by auto
  have "syms_new_cap cap = Some (if c < 1024 then 1024 else c)"
    by (simp add: syms_new_cap_def c)
  then show ?thesis
    using c assms by (cases "c < 1024") auto
qed

lemma ksyms__add_symbol_ok:
  assumes wf: "ksyms_wf ks" and name: "CHR 0x00 \<notin> set name"
    and room: "int (length (ks_strs ks)) + int (length name) + 1 \<le> 2 ^ 28"
  shows "\<exists>ks'. ksyms__add_symbol (\<lambda>_. True) ks name addr = Some (0, ks') \<and> ksyms_wf ks' \<and>
    ksyms_abs ks' = ksyms_abs ks @ [(addr, name)] \<and>
    length (ks_strs ks') = length (ks_strs ks) + length name + 1"
proof -
  let ?sz = "int (length (ks_strs ks))" and ?len = "int (length name) + 1" and ?n = "int (length (ks_syms ks))"
  let ?cap = "if ?sz + ?len > ks_strs_cap ks then strs_new_cap ?sz (ks_strs_cap ks) ?len else Some (ks_strs_cap ks)"
  let ?cap2 = "if ?n + 1 > ks_syms_cap ks then syms_new_cap (ks_syms_cap ks) else Some (ks_syms_cap ks)"
  have w: "?sz \<le> ks_strs_cap ks" "?n \<le> ks_syms_cap ks"
    "ks_strs_cap ks \<le> 1024 \<or> 3 * ks_strs_cap ks \<le> 4 * ?sz" "ks_syms_cap ks \<le> 1024 \<or> 3 * ks_syms_cap ks \<le> 4 * ?n"
    "?n \<le> ?sz" "\<forall>s \<in> set (ks_syms ks). CHR 0x00 \<in> set (drop (ks_name s) (ks_strs ks))"
    using wf by (auto simp: ksyms_wf_def)
  obtain c where c: "?cap = Some c" "?sz + ?len \<le> c" "c \<le> 1024 \<or> 3 * c \<le> 4 * (?sz + ?len)"
    using strs_new_cap_bounds [of ?sz "ks_strs_cap ks" ?len] w room by (cases "?sz + ?len > ks_strs_cap ks") auto
  obtain d where d: "?cap2 = Some d" "?n + 1 \<le> d" "d \<le> 1024 \<or> 3 * d \<le> 4 * (?n + 1)"
    using syms_new_cap_bounds [of ?n "ks_syms_cap ks"] w room by (cases "?n + 1 > ks_syms_cap ks") auto
  let ?ks' = "ks\<lparr>ks_strs_cap := c, ks_syms_cap := d,
      ks_syms := ks_syms ks @ [\<lparr>ks_name = length (ks_strs ks), ks_addr = addr\<rparr>],
      ks_strs := ks_strs ks @ name @ [CHR 0x00]\<rparr>"
  have add: "ksyms__add_symbol (\<lambda>_. True) ks name addr = Some (0, ?ks')"
  proof (cases "?n + 1 > ks_syms_cap ks")
    case True
    then show ?thesis
      unfolding ksyms__add_symbol_def Let_def c(1) using c(2) d room by (simp add: INT_MAX_def)
  next
    case False
    then have "d = ks_syms_cap ks"
      using d(1) by simp
    then show ?thesis
      unfolding ksyms__add_symbol_def Let_def c(1) using c(2) d room False
      by (cases ks) (simp add: INT_MAX_def)
  qed
  have keep: "ksym_key ?ks' s = ksym_key ks s" if "s \<in> set (ks_syms ks)" for s
    using w(6) that by (simp add: ksym_key_def cstr_at_append)
  have "ksyms_abs ?ks' = ksyms_abs ks @ [(addr, name)]"
    using keep cstr_at_new [OF name] by (simp add: ksyms_abs_def ksym_key_def)
  moreover have "ksyms_wf ?ks'"
    using w c d by (auto simp: ksyms_wf_def)
  ultimately show ?thesis
    using add by auto
qed


section \<open>The text of \<^verbatim>\<open>/proc/kallsyms\<close>\<close>

record kallsyms_entry =
  ke_addr :: u64
  ke_type :: char
  ke_name :: string
  ke_module :: "string option"

definition kallsyms_line :: "kallsyms_entry \<Rightarrow> string" where
  "kallsyms_line e =
     (let ds = nat_digits 16 (unat (ke_addr e)) in replicate (16 - length ds) (CHR ''0'') @ ds) @
     '' '' @ [ke_type e] @ '' '' @ ke_name e @
     (case ke_module e of None \<Rightarrow> [] | Some m \<Rightarrow> [CHR 0x09] @ ''['' @ m @ '']'') @ [CHR 0x0A]"

definition kallsyms_entry_ok :: "kallsyms_entry \<Rightarrow> bool" where
  "kallsyms_entry_ok e \<longleftrightarrow>
     \<not> isspace (ke_type e) \<and> ke_name e \<noteq> [] \<and> length (ke_name e) < 256 \<and>
     list_all (\<lambda>c. \<not> isspace c \<and> c \<noteq> CHR 0x00) (ke_name e) \<and>
     (case ke_module e of None \<Rightarrow> True | Some m \<Rightarrow> CHR 0x0A \<notin> set m)"

definition entries_start :: "string \<Rightarrow> bool" where
  "entries_start s \<longleftrightarrow> (s \<noteq> [] \<longrightarrow> \<not> isspace (hd s))"

lemma is_digit_0: "b = 10 \<or> b = 16 \<Longrightarrow> is_digit_of b (CHR ''0'')"
  by (auto simp: is_digit_of_def isxdigit_def isdigit_def)

lemma skip_rest_of_line_eq:
  assumes "CHR 0x0A \<notin> set w" "entries_start rest"
  shows "skip_ws (skip_rest_of_line (w @ CHR 0x0A # rest)) = rest"
proof -
  have tw: "takeWhile (\<lambda>c. c \<noteq> CHR 0x0A) (w @ CHR 0x0A # rest) = w"
    using assms(1) by (intro takeWhile_append_stop) (auto simp: list_all_iff)
  have dw: "dropWhile (\<lambda>c. c \<noteq> CHR 0x0A) (w @ CHR 0x0A # rest) = CHR 0x0A # rest"
    using assms(1) by (intro dropWhile_append_stop) (auto simp: list_all_iff)
  have r: "dropWhile isspace rest = rest"
    using assms(2) by (cases rest) (auto simp: entries_start_def)
  show ?thesis
    unfolding skip_rest_of_line_def scan_line_def Let_def tw dw
    by (cases "w = []") (simp_all add: skip_ws_def r)
qed

lemma skip_ws_idem [simp]: "skip_ws (skip_ws s) = skip_ws s"
  by (induction s) (auto simp: skip_ws_def)

lemma scan_num_skip_ws: "scan_num b (skip_ws s) = scan_num b s"
  by (simp add: scan_num_def)

lemma scan_kallsyms_skip_ws: "scan_kallsyms_line (skip_ws s) = scan_kallsyms_line s"
  by (simp add: scan_kallsyms_line_def scan_num_skip_ws)

lemma kallsyms_line_start: "entries_start (kallsyms_line e @ rest)"
proof -
  let ?ds = "nat_digits 16 (unat (ke_addr e))"
  have "list_all (is_digit_of 16) (replicate (16 - length ?ds) (CHR ''0'') @ ?ds)"
    using nat_digits_all [of 16] is_digit_0 by (auto simp: list_all_iff)
  then show ?thesis
    using is_digit_of_facts(1)
    by (cases "replicate (16 - length ?ds) (CHR ''0'') @ ?ds")
      (auto simp: entries_start_def kallsyms_line_def Let_def)
qed

lemma concat_lines_start: "entries_start (concat (map kallsyms_line es))"
  using kallsyms_line_start by (cases es) (auto simp: entries_start_def)

lemma scan_kallsyms_line_ok:
  assumes ok: "kallsyms_entry_ok e" and rest: "entries_start rest"
  shows "\<exists>s. scan_kallsyms_line (kallsyms_line e @ rest) = Scan_ok (ke_addr e, ke_type e, ke_name e) s \<and> skip_ws s = rest"
proof -
  let ?ds = "nat_digits 16 (unat (ke_addr e))"
  let ?hex = "replicate (16 - length ?ds) (CHR ''0'') @ ?ds"
  let ?mod = "case ke_module e of None \<Rightarrow> [] | Some m \<Rightarrow> [CHR 0x09] @ ''['' @ m @ '']''"
  let ?tail = "?mod @ CHR 0x0A # rest"
  have line: "kallsyms_line e @ rest = ?hex @ CHR '' '' # ke_type e # CHR '' '' # ke_name e @ ?tail"
    by (simp add: kallsyms_line_def Let_def)
  have digits: "list_all (is_digit_of 16) ?hex"
    using nat_digits_all [of 16] is_digit_0 by (auto simp: list_all_iff)
  have val: "digits_val 16 ?hex = unat (ke_addr e)"
    by (simp add: digits_val_zeros digits_val_nat_digits)
  have bound: "unat (ke_addr e) < 2 ^ 64"
    using unsigned_less [of "ke_addr e", where ?'a = nat] by simp
  have num: "scan_num 16 (?hex @ CHR '' '' # xs) = Some (ke_addr e, CHR '' '' # xs)" for xs
  proof -
    have "?hex \<noteq> []" "digits_val 16 ?hex < 2 ^ 64"
      using bound val by auto
    then have "scan_num 16 (?hex @ CHR '' '' # xs) = Some (word_of_nat (digits_val 16 ?hex), CHR '' '' # xs)"
      using digits by (intro scan_num_digits) simp_all
    then show ?thesis
      by (simp only: val) simp
  qed
  have ty: "skip_ws (CHR '' '' # ke_type e # xs) = ke_type e # xs" for xs
    using ok by (simp add: skip_ws_def kallsyms_entry_ok_def)
  have tl: "?tail \<noteq> [] \<longrightarrow> isspace (hd ?tail)"
    by (cases "ke_module e") auto
  have name: "scan_s (CHR '' '' # ke_name e @ ?tail) = Some (ke_name e, ?tail)"
    unfolding scan_s_ws [OF isspace_simps(1)]
    using ok tl by (intro scan_s_word) (auto simp: kallsyms_entry_ok_def list_all_iff)
  have ne: "skip_ws (?hex @ CHR '' '' # ke_type e # CHR '' '' # ke_name e @ ?tail) \<noteq> []"
    using kallsyms_line_start [of e rest] unfolding line
    by (cases ?hex) (auto simp: entries_start_def skip_ws_def)
  have mod: "CHR 0x0A \<notin> set ?mod"
    using ok by (cases "ke_module e") (auto simp: kallsyms_entry_ok_def)
  have len: "\<not> length (ke_name e) \<ge> 256"
    using ok by (simp add: kallsyms_entry_ok_def)
  have "scan_kallsyms_line (kallsyms_line e @ rest) =
      Scan_ok (ke_addr e, ke_type e, ke_name e) (skip_rest_of_line ?tail)"
    unfolding line scan_kallsyms_line_def if_not_P [OF ne] num option.case prod.case ty scan_c.simps name
      if_not_P [OF len] ..
  then show ?thesis
    using skip_rest_of_line_eq [OF mod rest] by auto
qed

lemma ksyms_load_loop_ok:
  assumes "list_all kallsyms_entry_ok es" "ksyms_wf ks" "length es < fuel"
    and "int (length (ks_strs ks)) + int (\<Sum>e\<leftarrow>es. length (ke_name e) + 1) \<le> 2 ^ 28"
    and "skip_ws s = concat (map kallsyms_line es)"
  shows "\<exists>ks'. ksyms_load_loop fuel (\<lambda>_. True) s ks = Finished (Loaded ks') \<and>
    ksyms_abs ks' = ksyms_abs ks @ map (\<lambda>e. (ke_addr e, ke_name e)) es"
  using assms
proof (induction es arbitrary: fuel s ks)
  case Nil
  then obtain f where "fuel = Suc f"
    by (cases fuel) auto
  then show ?case
    using Nil by (simp add: scan_kallsyms_line_def)
next
  case (Cons e es)
  obtain f where f: "fuel = Suc f"
    using Cons.prems(3) by (cases fuel) auto
  obtain s' where s': "scan_kallsyms_line s = Scan_ok (ke_addr e, ke_type e, ke_name e) s'"
    "skip_ws s' = concat (map kallsyms_line es)"
    using scan_kallsyms_line_ok [OF _ concat_lines_start [of es], of e] Cons.prems(1,5)
      scan_kallsyms_skip_ws [of s] by auto
  have nz: "CHR 0x00 \<notin> set (ke_name e)"
    using Cons.prems(1) by (auto simp: kallsyms_entry_ok_def list_all_iff)
  have room: "int (length (ks_strs ks)) + int (length (ke_name e)) + 1 \<le> 2 ^ 28"
    using Cons.prems(4) by simp
  obtain ks1 where ks1: "ksyms__add_symbol (\<lambda>_. True) ks (ke_name e) (ke_addr e) = Some (0, ks1)" "ksyms_wf ks1"
    "ksyms_abs ks1 = ksyms_abs ks @ [(ke_addr e, ke_name e)]"
    "length (ks_strs ks1) = length (ks_strs ks) + length (ke_name e) + 1"
    using ksyms__add_symbol_ok [OF Cons.prems(2) nz room] by blast
  obtain ks' where "ksyms_load_loop f (\<lambda>_. True) s' ks1 = Finished (Loaded ks')"
    "ksyms_abs ks' = ksyms_abs ks1 @ map (\<lambda>e. (ke_addr e, ke_name e)) es"
    using Cons.IH [of ks1 f s'] Cons.prems(1,3,4) ks1(2,4) s'(2) f by auto
  then show ?case
    using s'(1) ks1(1,3) by (simp add: f)
qed

lemma map_sort_key: "map f (sort_key f xs) = sort (map f xs)"
  by (rule properties_for_sort [symmetric]) (simp_all add: mset_map)

lemma entries_start_skip_ws: "entries_start s \<Longrightarrow> skip_ws s = s"
  by (cases s) (auto simp: entries_start_def skip_ws_def)

lemma sorted_map_fst: "sorted (xs :: ('a::linorder \<times> 'b::linorder) list) \<Longrightarrow> sorted (map fst xs)"
  by (induction xs) (auto simp: less_eq_prod_def)

lemma last_opt_map: "last_opt (map f xs) = map_option f (last_opt xs)"
  by (simp add: last_opt_def last_map)

lemma find_map_option: "find P (map f xs) = map_option f (find (P \<circ> f) xs)"
  by (induction xs) auto

text \<open>
  (C7) Loading the text that the kernel writes for a list of symbols gives a table that holds exactly
  these symbols, sorted by address and name; the binary search of \<^verbatim>\<open>ksyms__map_addr\<close> then never
  reads outside the table and resolves every address to the last symbol at or below it, and
  \<^verbatim>\<open>ksyms__get_symbol\<close> returns the first symbol of a name.  One iteration per line suffices.
\<close>

theorem ksyms__load_resolves:
  assumes "list_all kallsyms_entry_ok es" "(\<Sum>e\<leftarrow>es. length (ke_name e) + 1) \<le> 2 ^ 28" "length es < fuel"
  shows "\<exists>ks. ksyms__load fuel True (\<lambda>_. True) (Some (concat (map kallsyms_line es))) = Finished (Loaded ks) \<and>
    map (ksym_key ks) (ks_syms ks) = sort (map (\<lambda>e. (ke_addr e, ke_name e)) es) \<and>
    (\<forall>a. \<exists>r. ksyms__map_addr ks a = Some r \<and>
       map_option (ksym_key ks) r = last_opt (filter (\<lambda>(addr, _). addr \<le> a) (sort (map (\<lambda>e. (ke_addr e, ke_name e)) es)))) \<and>
    (\<forall>n. map_option (ksym_key ks) (ksyms__get_symbol ks n) =
       find (\<lambda>(_, m). m = n) (sort (map (\<lambda>e. (ke_addr e, ke_name e)) es)))"
proof -
  let ?spec = "sort (map (\<lambda>e. (ke_addr e, ke_name e)) es)"
  have start: "skip_ws (concat (map kallsyms_line es)) = concat (map kallsyms_line es)"
    by (rule entries_start_skip_ws [OF concat_lines_start])
  obtain k where k: "ksyms_load_loop fuel (\<lambda>_. True) (concat (map kallsyms_line es)) ksyms_empty = Finished (Loaded k)"
    "ksyms_abs k = map (\<lambda>e. (ke_addr e, ke_name e)) es"
    using ksyms_load_loop_ok [OF assms(1) ksyms_wf_empty assms(3) _ start] assms(2)
    by (auto simp: ksyms_empty_def ksyms_abs_def)
  let ?ks = "k\<lparr>ks_syms := sort_key (ksym_key k) (ks_syms k)\<rparr>"
  have load: "ksyms__load fuel True (\<lambda>_. True) (Some (concat (map kallsyms_line es))) = Finished (Loaded ?ks)"
    by (simp add: ksyms__load_def k(1))
  have key: "ksym_key ?ks = ksym_key k"
    by (simp add: ksym_key_def fun_eq_iff)
  have abs: "map (ksym_key ?ks) (ks_syms ?ks) = ?spec"
    using k(2) by (simp add: key map_sort_key ksyms_abs_def)
  have "map ks_addr (ks_syms ?ks) = map fst (map (ksym_key ?ks) (ks_syms ?ks))"
    by (simp add: ksym_key_def)
  then have sorted: "ksyms_sorted ?ks"
    unfolding ksyms_sorted_def abs by (simp only: sorted_map_fst sorted_sort)
  have addr: "map_option (ksym_key ?ks) (last_opt (filter (\<lambda>s. ks_addr s \<le> a) (ks_syms ?ks))) =
      last_opt (filter (\<lambda>(addr, _). addr \<le> a) ?spec)" for a
    unfolding abs [symmetric] filter_map last_opt_map [symmetric]
    by (simp add: comp_def ksym_key_def)
  have name: "map_option (ksym_key ?ks) (ksyms__get_symbol ?ks n) = find (\<lambda>(_, m). m = n) ?spec" for n
    unfolding abs [symmetric] find_map_option by (simp add: ksyms__get_symbol_def comp_def ksym_key_def)
  show ?thesis
    using load abs addr name ksyms__map_addr_eq [OF sorted] by (intro exI [of _ ?ks]) auto
qed

theorem ksyms__load_resolves_witness:
  "\<exists>ks s. ksyms__load 3 True (\<lambda>_. True)
      (Some (concat (map kallsyms_line
        [\<lparr>ke_addr = 200, ke_type = CHR ''T'', ke_name = ''foo'', ke_module = None\<rparr>,
         \<lparr>ke_addr = 100, ke_type = CHR ''t'', ke_name = ''bar'', ke_module = Some ''mod''\<rparr>]))) = Finished (Loaded ks) \<and>
    ksyms__map_addr ks 150 = Some (Some s) \<and> ksym_key ks s = (100, ''bar'')"
proof -
  let ?es = "[\<lparr>ke_addr = 200, ke_type = CHR ''T'', ke_name = ''foo'', ke_module = None\<rparr>,
         \<lparr>ke_addr = 100, ke_type = CHR ''t'', ke_name = ''bar'', ke_module = Some ''mod''\<rparr>]"
  have ok: "list_all kallsyms_entry_ok ?es"
    by (simp add: kallsyms_entry_ok_def isspace_def)
  obtain ks where ks: "ksyms__load 3 True (\<lambda>_. True) (Some (concat (map kallsyms_line ?es))) = Finished (Loaded ks)"
    "\<forall>a. \<exists>r. ksyms__map_addr ks a = Some r \<and>
       map_option (ksym_key ks) r = last_opt (filter (\<lambda>(addr, _). addr \<le> a) (sort (map (\<lambda>e. (ke_addr e, ke_name e)) ?es)))"
    using ksyms__load_resolves [OF ok, of 3] by auto
  obtain r where r: "ksyms__map_addr ks 150 = Some r"
    "map_option (ksym_key ks) r = last_opt (filter (\<lambda>(addr, _). addr \<le> 150) (sort (map (\<lambda>e. (ke_addr e, ke_name e)) ?es)))"
    using ks(2) by blast
  have "sort (map (\<lambda>e. (ke_addr e, ke_name e)) ?es) = [(100, ''bar''), (200, ''foo'')]"
    by (simp add: less_eq_prod_def)
  then have "map_option (ksym_key ks) r = Some (100, ''bar'')"
    using r(2) by (simp add: last_opt_def)
  then show ?thesis
    using ks(1) r(1) by (cases r) auto
qed

text \<open>
  Resolution of kernel addresses in a sorted table: a symbol's own address resolves to a symbol
  at that address; resolution is monotone; and every address up to the next symbol resolves to the
  same symbol.
\<close>

lemma ksyms__map_addr_laws:
  assumes "ksyms_sorted ks"
  shows "(\<forall>s \<in> set (ks_syms ks). \<exists>s'. ksyms__map_addr ks (ks_addr s) = Some (Some s') \<and> ks_addr s' = ks_addr s) \<and>
    (\<forall>a b s s'. ksyms__map_addr ks a = Some (Some s) \<longrightarrow> ksyms__map_addr ks b = Some (Some s') \<longrightarrow> a \<le> b \<longrightarrow>
       ks_addr s \<le> ks_addr s') \<and>
    (\<forall>a b s. ksyms__map_addr ks a = Some (Some s) \<longrightarrow> a \<le> b \<longrightarrow>
       (\<forall>s' \<in> set (ks_syms ks). \<not> (a < ks_addr s' \<and> ks_addr s' \<le> b)) \<longrightarrow> ksyms__map_addr ks b = Some (Some s))"
proof -
  have eq: "ksyms__map_addr ks a = Some (Some s) \<longleftrightarrow> ksyms_lookup ks a = Some s" for a s
    using ksyms__map_addr_eq [OF assms, of a] by (simp add: ksyms_lookup_def)
  show ?thesis
    unfolding eq
  proof (intro conjI ballI allI impI)
    show "\<exists>s'. ksyms_lookup ks (ks_addr s) = Some s' \<and> ks_addr s' = ks_addr s" if "s \<in> set (ks_syms ks)" for s
      by (rule kt.lookup_hit [OF assms that])
    show "ks_addr s \<le> ks_addr s'" if "ksyms_lookup ks a = Some s" "ksyms_lookup ks b = Some s'" "a \<le> b" for a b s s'
      by (rule kt.lookup_mono [OF assms that(3,1,2)])
    show "ksyms_lookup ks b = Some s" if "ksyms_lookup ks a = Some s" "a \<le> b"
      "\<forall>s' \<in> set (ks_syms ks). \<not> (a < ks_addr s' \<and> ks_addr s' \<le> b)" for a b s
      by (rule kt.lookup_gap [OF assms that])
  qed
qed

end
