(* ===== verification/Dso_Syms.thy ===== *)
theory Dso_Syms
  imports Ksyms
begin

text \<open>
  The symbol tables of processes in libbpf-tools/trace_helpers.c: the mappings of
  \<^verbatim>\<open>/proc/<pid>/maps\<close>, the symbols of the object files behind them, the resolution of addresses, and
  the cache of tables by process.
\<close>

section \<open>What libelf reports\<close>

text \<open>
  The answers of libelf for an opened object file, as the loops of the source see them: the file's
  type, its sections with their headers, and their symbols, each \<^const>\<open>None\<close> where the library call
  fails.
\<close>

record elf_sym =
  st_name :: "string option"
  st_value :: u64
  st_size :: u64

record elf_data =
  d_size :: nat
  d_syms :: "elf_sym option list"

record elf_shdr =
  sh_type :: nat
  sh_name :: "string option"
  sh_addr_hdr :: u64
  sh_offset_hdr :: u64
  sh_entsize :: nat

record elf_scn =
  scn_hdr :: "elf_shdr option"
  scn_data :: "elf_data list"

record elf_img =
  e_type :: "nat option"
  shstrndx_ok :: bool
  scns :: "elf_scn list"

definition ET_EXEC :: nat where "ET_EXEC = 2"
definition ET_DYN :: nat where "ET_DYN = 3"
definition SHT_SYMTAB :: nat where "SHT_SYMTAB = 2"
definition SHT_DYNSYM :: nat where "SHT_DYNSYM = 11"

text \<open>
  The rest of the environment: libbpf's string table (\<open>'b\<close>), the process's own memory map and
  memory, and which allocations and file operations succeed.
\<close>

record 'b sys_env =
  open_elf :: "string \<Rightarrow> elf_img option"
  open_elf_image :: "bytes \<Rightarrow> elf_img option"
  btf_new :: 'b
  btf_add_str :: "'b \<Rightarrow> string \<Rightarrow> int \<times> 'b"
  btf_name_by_offset :: "'b \<Rightarrow> int \<Rightarrow> string"
  mem_ok :: "int \<Rightarrow> bool"
  own_maps :: "string option"
  own_mem :: "u64 \<Rightarrow> nat \<Rightarrow> bytes"
  tmpfile_ok :: bool
  write_ok :: bool

section \<open>Data\<close>

record load_range =
  lr_start :: u64
  lr_end :: u64
  lr_file_off :: u64

datatype elf_type = EXEC | DYN | PERF_MAP | VDSO | UNKNOWN

text \<open>A name is an offset into the string table until the table is complete.\<close>

datatype name_ref = Name_off int | Name_str string

record sym =
  sy_name :: name_ref
  sy_start :: u64
  sy_size :: u64
  sy_offset :: u64

text \<open>
  \<open>dso_freed\<close> records that \<^verbatim>\<open>dso__free_fields\<close> released the fields; reading one afterwards is a
  fault.  The pointer \<^verbatim>\<open>syms\<close> is null as long as the capacity is zero.
\<close>

record 'b dso =
  dso_name :: string
  dso_ranges :: "load_range list"
  dso_sh_addr :: u64
  dso_sh_offset :: u64
  dso_type :: elf_type
  dso_syms :: "sym list"
  dso_syms_cap :: int
  dso_btf :: 'b
  dso_freed :: bool

record map_entry =
  me_start_addr :: u64
  me_end_addr :: u64
  me_file_off :: u64
  me_dev_major :: u64
  me_dev_minor :: u64
  me_inode :: u64

type_synonym 'b syms = "'b dso list"

section \<open>Mappings\<close>

definition is_file_backed :: "string \<Rightarrow> bool" where
  "is_file_backed mapname \<longleftrightarrow>
     mapname \<noteq> [] \<and>
     \<not> (starts_with mapname ''//anon'' \<or> starts_with mapname ''/dev/zero'' \<or>
        starts_with mapname ''/anon_hugepage'' \<or> starts_with mapname ''[stack'' \<or>
        starts_with mapname ''/SYSV'' \<or> starts_with mapname ''[heap]'' \<or>
        starts_with mapname ''[uprobes]'' \<or> starts_with mapname ''[vsyscall]'')"

definition is_perf_map :: "string \<Rightarrow> bool" where
  "is_perf_map path = False"

definition is_vdso :: "string \<Rightarrow> bool" where
  "is_vdso path \<longleftrightarrow> path = ''[vdso]''"

definition is_uprobes :: "string \<Rightarrow> bool" where
  "is_uprobes path \<longleftrightarrow> path = ''[uprobes]''"

definition get_elf_type :: "'b sys_env \<Rightarrow> string \<Rightarrow> int" where
  "get_elf_type env path =
     (if is_vdso path then -1
      else if is_uprobes path then -1
      else (case open_elf env path of
              None \<Rightarrow> -1
            | Some e \<Rightarrow> (case e_type e of None \<Rightarrow> -1 | Some t \<Rightarrow> int t)))"

fun find_text_scn :: "elf_scn list \<Rightarrow> (u64 \<times> u64) option" where
  "find_text_scn [] = None"
| "find_text_scn (s # ss) =
     (case scn_hdr s of
        None \<Rightarrow> find_text_scn ss
      | Some header \<Rightarrow>
          if sh_name header = Some ''.text'' then Some (sh_addr_hdr header, sh_offset_hdr header)
          else find_text_scn ss)"

definition get_elf_text_scn_info :: "'b sys_env \<Rightarrow> string \<Rightarrow> (u64 \<times> u64) option" where
  "get_elf_text_scn_info env path = do {
     e \<leftarrow> open_elf env path;
     if \<not> shstrndx_ok e then None else find_text_scn (scns e)
   }"

definition new_dso :: "'b sys_env \<Rightarrow> string \<Rightarrow> 'b dso" where
  "new_dso env name =
     \<lparr>dso_name = name, dso_ranges = [], dso_sh_addr = 0, dso_sh_offset = 0, dso_type = EXEC,
      dso_syms = [], dso_syms_cap = 0, dso_btf = btf_new env, dso_freed = False\<rparr>"

text \<open>
  The index of the object with a name, and its update.  \<^verbatim>\<open>strdup\<close> and \<^verbatim>\<open>btf__new_empty\<close> are taken
  to succeed; 72 and 24 are the sizes of the two structures.
\<close>

fun find_dso_index :: "string \<Rightarrow> 'b dso list \<Rightarrow> nat option" where
  "find_dso_index name [] = None"
| "find_dso_index name (d # ds) =
     (if dso_name d = name then Some 0 else map_option Suc (find_dso_index name ds))"

definition dso_set_type :: "'b sys_env \<Rightarrow> string \<Rightarrow> 'b dso \<Rightarrow> int \<times> 'b dso" where
  "dso_set_type env name d =
     (let ty = get_elf_type env name in
      if ty = int ET_EXEC then (0, d\<lparr>dso_type := EXEC\<rparr>)
      else if ty = int ET_DYN then
        (case get_elf_text_scn_info env name of
           None \<Rightarrow> (-1, d\<lparr>dso_type := DYN\<rparr>)
         | Some (addr, off) \<Rightarrow> (0, d\<lparr>dso_type := DYN, dso_sh_addr := addr, dso_sh_offset := off\<rparr>))
      else if is_perf_map name then (0, d\<lparr>dso_type := PERF_MAP\<rparr>)
      else if is_vdso name then (0, d\<lparr>dso_type := VDSO\<rparr>)
      else (0, d\<lparr>dso_type := UNKNOWN\<rparr>))"

definition dso_add_range :: "'b sys_env \<Rightarrow> map_entry \<Rightarrow> string \<Rightarrow> nat \<Rightarrow> 'b syms \<Rightarrow> int \<times> 'b syms" where
  "dso_add_range env m name i dsos =
     (let d = dsos ! i in
      if \<not> mem_ok env (24 * (int (length (dso_ranges d)) + 1)) then (-1, dsos)
      else
        let d = d\<lparr>dso_ranges := dso_ranges d @
               [\<lparr>lr_start = me_start_addr m, lr_end = me_end_addr m, lr_file_off = me_file_off m\<rparr>]\<rparr>;
            (ret, d) = dso_set_type env name d
        in (ret, dsos[i := d]))"

definition syms__add_dso :: "'b sys_env \<Rightarrow> 'b syms \<Rightarrow> map_entry \<Rightarrow> string \<Rightarrow> int \<times> 'b syms" where
  "syms__add_dso env dsos m name =
     (case find_dso_index name dsos of
        None \<Rightarrow>
          if \<not> mem_ok env (72 * (int (length dsos) + 1)) then (-1, dsos)
          else dso_add_range env m name (length dsos) (dsos @ [new_dso env name])
      | Some i \<Rightarrow> dso_add_range env m name i dsos)"

text \<open>
  The object and offset of an address.  The result is \<^const>\<open>None\<close> when the fields of an object
  that is examined were freed.
\<close>

fun find_range :: "load_range list \<Rightarrow> u64 \<Rightarrow> load_range option" where
  "find_range [] addr = None"
| "find_range (r # rs) addr =
     (if addr \<le> lr_start r \<or> addr \<ge> lr_end r then find_range rs addr else Some r)"

definition dso_offset :: "'b dso \<Rightarrow> load_range \<Rightarrow> u64 \<Rightarrow> u64" where
  "dso_offset d r addr =
     (if dso_type d = DYN \<or> dso_type d = VDSO
      then (addr - lr_start r + lr_file_off r) + (dso_sh_addr d - dso_sh_offset d)
      else addr)"

fun find_dso_from :: "nat \<Rightarrow> 'b dso list \<Rightarrow> u64 \<Rightarrow> (nat \<times> u64) option option" where
  "find_dso_from i [] addr = Some None"
| "find_dso_from i (d # ds) addr =
     (if dso_freed d then None
      else
        case find_range (dso_ranges d) addr of
          Some r \<Rightarrow> Some (Some (i, dso_offset d r addr))
        | None \<Rightarrow> find_dso_from (Suc i) ds addr)"

definition syms__find_dso :: "'b syms \<Rightarrow> u64 \<Rightarrow> (nat \<times> u64) option option" where
  "syms__find_dso dsos addr = find_dso_from 0 dsos addr"

section \<open>Symbols of an object\<close>

definition dso__load_sym_table_from_perf_map :: "'b dso \<Rightarrow> int" where
  "dso__load_sym_table_from_perf_map d = -1"

definition dso__add_sym :: "'b sys_env \<Rightarrow> 'b dso \<Rightarrow> string \<Rightarrow> u64 \<Rightarrow> u64 \<Rightarrow> (int \<times> 'b dso) option" where
  "dso__add_sym env d name start sz = do {
     let (off, btf) = btf_add_str env (dso_btf d) name;
     let d = d\<lparr>dso_btf := btf\<rparr>;
     if off < 0 then Some (off, d)
     else do {
       cap \<leftarrow> (if int (length (dso_syms d)) + 1 > dso_syms_cap d then syms_new_cap (dso_syms_cap d)
                else Some (dso_syms_cap d));
       if cap \<noteq> dso_syms_cap d \<and> \<not> mem_ok env (32 * cap) then Some (-1, d)
       else if int (length (dso_syms d)) + 1 > cap then None
       else
         Some (0, d\<lparr>dso_syms_cap := cap,
                    dso_syms := dso_syms d @
                      [\<lparr>sy_name = Name_off off, sy_start = start, sy_size = sz, sy_offset = 0\<rparr>]\<rparr>)
     }
   }"

text \<open>The loops of \<^verbatim>\<open>dso__add_syms\<close>; a section whose entry size is zero divides by zero.\<close>

fun add_data_syms :: "'b sys_env \<Rightarrow> 'b dso \<Rightarrow> elf_sym option list \<Rightarrow> (int \<times> 'b dso) option" where
  "add_data_syms env d [] = Some (0, d)"
| "add_data_syms env d (s # ss) =
     (case s of
        None \<Rightarrow> add_data_syms env d ss
      | Some es \<Rightarrow>
          (case st_name es of
             None \<Rightarrow> add_data_syms env d ss
           | Some name \<Rightarrow>
               if name = [] then add_data_syms env d ss
               else if st_value es = 0 then add_data_syms env d ss
               else do {
                 (ret, d) \<leftarrow> dso__add_sym env d name (st_value es) (st_size es);
                 if ret \<noteq> 0 then Some (-1, d) else add_data_syms env d ss
               }))"

fun dso__add_syms :: "'b sys_env \<Rightarrow> 'b dso \<Rightarrow> elf_data list \<Rightarrow> nat \<Rightarrow> (int \<times> 'b dso) option" where
  "dso__add_syms env d [] symsize = Some (0, d)"
| "dso__add_syms env d (data # rest) symsize =
     (if symsize = 0 then None
      else if d_size data mod symsize \<noteq> 0 then Some (-1, d)
      else do {
        let symcount = d_size data div symsize;
        (ret, d) \<leftarrow> add_data_syms env d (take symcount (d_syms data));
        if ret \<noteq> 0 then Some (-1, d) else dso__add_syms env d rest symsize
      })"

fun load_sections :: "'b sys_env \<Rightarrow> 'b dso \<Rightarrow> elf_scn list \<Rightarrow> (int \<times> 'b dso) option" where
  "load_sections env d [] = Some (0, d)"
| "load_sections env d (s # ss) =
     (case scn_hdr s of
        None \<Rightarrow> load_sections env d ss
      | Some header \<Rightarrow>
          if sh_type header \<noteq> SHT_SYMTAB \<and> sh_type header \<noteq> SHT_DYNSYM then load_sections env d ss
          else do {
            (ret, d) \<leftarrow> dso__add_syms env d (scn_data s) (sh_entsize header);
            if ret \<noteq> 0 then Some (-1, d) else load_sections env d ss
          })"

definition finalize_name :: "'b sys_env \<Rightarrow> 'b \<Rightarrow> sym \<Rightarrow> sym" where
  "finalize_name env btf s =
     (case sy_name s of
        Name_off off \<Rightarrow> s\<lparr>sy_name := Name_str (btf_name_by_offset env btf off)\<rparr>
      | Name_str _ \<Rightarrow> s)"

fun name_str :: "name_ref \<Rightarrow> string" where
  "name_str (Name_str n) = n"
| "name_str (Name_off _) = []"

text \<open>\<^verbatim>\<open>qsort\<close> with \<^verbatim>\<open>sym_cmp\<close>: by start, then by name.\<close>

definition sym_key :: "sym \<Rightarrow> u64 \<times> string" where
  "sym_key s = (sy_start s, name_str (sy_name s))"

definition dso__free_fields :: "'b dso \<Rightarrow> 'b dso" where
  "dso__free_fields d = d\<lparr>dso_freed := True\<rparr>"

definition dso__load_sym_table_from_elf ::
  "'b sys_env \<Rightarrow> 'b dso \<Rightarrow> bytes option \<Rightarrow> (int \<times> 'b dso) option" where
  "dso__load_sym_table_from_elf env d img =
     (case (case img of None \<Rightarrow> open_elf env (dso_name d) | Some bs \<Rightarrow> open_elf_image env bs) of
        None \<Rightarrow> Some (-1, d)
      | Some e \<Rightarrow> do {
          (ret, d) \<leftarrow> load_sections env d (scns e);
          if ret \<noteq> 0 then Some (-1, dso__free_fields d)
          else
            Some (0, d\<lparr>dso_syms := sort_key sym_key (map (finalize_name env (dso_btf d)) (dso_syms d))\<rparr>)
        })"

section \<open>The vDSO\<close>

text \<open>
  The image is copied out of the process's own memory, at the mapping that its own map names
  \<^verbatim>\<open>[vdso]\<close>.  \<open>scan_own_map\<close> is one \<^verbatim>\<open>fscanf (f, "%llx-%llx %*s %*x %*x:%*x %*u%[^\n]")\<close> with its
  buffer of \<^const>\<open>PATH_MAX\<close> characters.
\<close>

definition scan_own_map :: "string \<Rightarrow> (u64 \<times> u64 \<times> string) scan_res" where
  "scan_own_map s =
     (if skip_ws s = [] then Scan_eof
      else
        case (do {
          (start_addr, s) \<leftarrow> scan_num 16 s;
          s \<leftarrow> scan_lit (CHR ''-'') s;
          (end_addr, s) \<leftarrow> scan_num 16 s;
          (_, s) \<leftarrow> scan_s s;
          (_, s) \<leftarrow> scan_num 16 s;
          (_, s) \<leftarrow> scan_num 16 s;
          s \<leftarrow> scan_lit (CHR '':'') s;
          (_, s) \<leftarrow> scan_num 16 s;
          (_, s) \<leftarrow> scan_num 10 s;
          (buf, s) \<leftarrow> scan_line s;
          Some (start_addr, end_addr, buf, s)
        }) of
          None \<Rightarrow> Scan_bad
        | Some (start_addr, end_addr, buf, s) \<Rightarrow>
            if length buf \<ge> PATH_MAX then Scan_overflow else Scan_ok (start_addr, end_addr, buf) s)"

text \<open>
  The loop ends at the vDSO or at the end of the file; in both cases the bounds of the last line
  read are used, which are not set when the file is empty.
\<close>

fun vdso_map_loop :: "nat \<Rightarrow> string \<Rightarrow> (u64 \<times> u64) option \<Rightarrow> (u64 \<times> u64) option loop_res" where
  "vdso_map_loop 0 s last_map = Timeout"
| "vdso_map_loop (Suc fuel) s last_map =
     (case scan_own_map s of
        Scan_eof \<Rightarrow> (case last_map of None \<Rightarrow> Fault | Some m \<Rightarrow> Finished (Some m))
      | Scan_bad \<Rightarrow> Finished None
      | Scan_overflow \<Rightarrow> Fault
      | Scan_ok (start_addr, end_addr, buf) s \<Rightarrow>
          let name = skip_ws buf in
          if \<not> is_file_backed name then vdso_map_loop fuel s (Some (start_addr, end_addr))
          else if is_vdso name then Finished (Some (start_addr, end_addr))
          else vdso_map_loop fuel s (Some (start_addr, end_addr)))"

definition create_tmp_vdso_image :: "nat \<Rightarrow> 'b sys_env \<Rightarrow> bytes option loop_res" where
  "create_tmp_vdso_image fuel env =
     (case own_maps env of
        None \<Rightarrow> Finished None
      | Some text \<Rightarrow>
          (case vdso_map_loop fuel text None of
             Finished None \<Rightarrow> Finished None
           | Finished (Some (start_addr, end_addr)) \<Rightarrow>
               let sz = end_addr - start_addr in
               if \<not> mem_ok env (uint sz) then Finished None
               else if \<not> tmpfile_ok env then Finished None
               else if \<not> write_ok env then Finished None
               else Finished (Some (own_mem env start_addr (unat sz)))
           | Timeout \<Rightarrow> Timeout
           | Fault \<Rightarrow> Fault))"

definition opt_loop :: "'a option \<Rightarrow> 'a loop_res" where
  "opt_loop r = (case r of None \<Rightarrow> Fault | Some x \<Rightarrow> Finished x)"

definition dso__load_sym_table_from_vdso_image ::
  "nat \<Rightarrow> 'b sys_env \<Rightarrow> 'b dso \<Rightarrow> (int \<times> 'b dso) loop_res" where
  "dso__load_sym_table_from_vdso_image fuel env d =
     (case create_tmp_vdso_image fuel env of
        Finished None \<Rightarrow> Finished (-1, d)
      | Finished (Some img) \<Rightarrow> opt_loop (dso__load_sym_table_from_elf env d (Some img))
      | Timeout \<Rightarrow> Timeout
      | Fault \<Rightarrow> Fault)"

definition dso__load_sym_table :: "nat \<Rightarrow> 'b sys_env \<Rightarrow> 'b dso \<Rightarrow> (int \<times> 'b dso) loop_res" where
  "dso__load_sym_table fuel env d =
     (case dso_type d of
        UNKNOWN \<Rightarrow> Finished (-1, d)
      | PERF_MAP \<Rightarrow> Finished (dso__load_sym_table_from_perf_map d, d)
      | EXEC \<Rightarrow> opt_loop (dso__load_sym_table_from_elf env d None)
      | DYN \<Rightarrow> opt_loop (dso__load_sym_table_from_elf env d None)
      | VDSO \<Rightarrow> dso__load_sym_table_from_vdso_image fuel env d)"

section \<open>Resolution\<close>

text \<open>
  The symbol found is returned by its index; its field \<^verbatim>\<open>offset\<close> is set.
\<close>

definition dso_search :: "'b dso \<Rightarrow> u64 \<Rightarrow> (nat option \<times> 'b dso) option" where
  "dso_search d off = do {
     (start, end_i) \<leftarrow> find_le_loop (map sy_start (dso_syms d)) off 0 (int (length (dso_syms d)) - 1);
     if start = end_i then do {
       s \<leftarrow> idx (dso_syms d) start;
       if sy_start s \<le> off \<and> off < sy_start s + sy_size s
       then Some (Some (nat start), d\<lparr>dso_syms := (dso_syms d)[nat start := s\<lparr>sy_offset := off - sy_start s\<rparr>]\<rparr>)
       else Some (None, d)
     }
     else Some (None, d)
   }"

definition dso__find_sym :: "nat \<Rightarrow> 'b sys_env \<Rightarrow> 'b dso \<Rightarrow> u64 \<Rightarrow> (nat option \<times> 'b dso) loop_res" where
  "dso__find_sym fuel env d off =
     (if dso_freed d then Fault
      else
        case (if dso_syms_cap d = 0 then dso__load_sym_table fuel env d else Finished (0, d)) of
          Finished (ret, d) \<Rightarrow>
            if ret \<noteq> 0 then Finished (None, d) else opt_loop (dso_search d off)
        | Timeout \<Rightarrow> Timeout
        | Fault \<Rightarrow> Fault)"

definition syms__map_addr :: "nat \<Rightarrow> 'b sys_env \<Rightarrow> 'b syms \<Rightarrow> u64 \<Rightarrow> (sym option \<times> 'b syms) loop_res" where
  "syms__map_addr fuel env dsos addr =
     (case syms__find_dso dsos addr of
        None \<Rightarrow> Fault
      | Some None \<Rightarrow> Finished (None, dsos)
      | Some (Some (i, off)) \<Rightarrow>
          (case dso__find_sym fuel env (dsos ! i) off of
             Finished (r, d) \<Rightarrow> Finished (map_option (\<lambda>k. dso_syms d ! k) r, dsos[i := d])
           | Timeout \<Rightarrow> Timeout
           | Fault \<Rightarrow> Fault))"

record sym_info =
  si_dso_name :: "string option"
  si_dso_offset :: u64
  si_sym_name :: "string option"
  si_sym_offset :: u64

definition sym_info_zero :: sym_info where
  "sym_info_zero = \<lparr>si_dso_name = None, si_dso_offset = 0, si_sym_name = None, si_sym_offset = 0\<rparr>"

definition syms__map_addr_dso ::
  "nat \<Rightarrow> 'b sys_env \<Rightarrow> 'b syms \<Rightarrow> u64 \<Rightarrow> (int \<times> sym_info \<times> 'b syms) loop_res" where
  "syms__map_addr_dso fuel env dsos addr =
     (case syms__find_dso dsos addr of
        None \<Rightarrow> Fault
      | Some None \<Rightarrow> Finished (-1, sym_info_zero, dsos)
      | Some (Some (i, off)) \<Rightarrow>
          let sinfo = sym_info_zero\<lparr>si_dso_name := Some (dso_name (dsos ! i)), si_dso_offset := off\<rparr> in
          (case dso__find_sym fuel env (dsos ! i) off of
             Finished (None, d) \<Rightarrow> Finished (0, sinfo, dsos[i := d])
           | Finished (Some k, d) \<Rightarrow>
               Finished (0, sinfo\<lparr>si_sym_name := Some (name_str (sy_name (dso_syms d ! k))),
                                  si_sym_offset := sy_offset (dso_syms d ! k)\<rparr>, dsos[i := d])
           | Timeout \<Rightarrow> Timeout
           | Fault \<Rightarrow> Fault))"

section \<open>Loading the mappings\<close>

text \<open>One \<^verbatim>\<open>fscanf (f, "%llx-%llx %4s %llx %llx:%llx %llu%[^\n]")\<close>.\<close>

definition scan_map_fields :: "string \<Rightarrow> (map_entry \<times> string \<times> string \<times> string) option" where
  "scan_map_fields s = do {
     (start_addr, s) \<leftarrow> scan_num 16 s;
     s \<leftarrow> scan_lit (CHR ''-'') s;
     (end_addr, s) \<leftarrow> scan_num 16 s;
     (perm, s) \<leftarrow> scan_sn 4 s;
     (file_off, s) \<leftarrow> scan_num 16 s;
     (dev_major, s) \<leftarrow> scan_num 16 s;
     s \<leftarrow> scan_lit (CHR '':'') s;
     (dev_minor, s) \<leftarrow> scan_num 16 s;
     (inode, s) \<leftarrow> scan_num 10 s;
     (buf, s) \<leftarrow> scan_line s;
     Some (\<lparr>me_start_addr = start_addr, me_end_addr = end_addr, me_file_off = file_off,
            me_dev_major = dev_major, me_dev_minor = dev_minor, me_inode = inode\<rparr>, perm, buf, s)
   }"

definition scan_map_line :: "string \<Rightarrow> (map_entry \<times> string \<times> string) scan_res" where
  "scan_map_line s =
     (if skip_ws s = [] then Scan_eof
      else
        case scan_map_fields s of
          None \<Rightarrow> Scan_bad
        | Some (m, perm, buf, s) \<Rightarrow>
            if length buf \<ge> PATH_MAX \<or> length perm < 2 then Scan_overflow else Scan_ok (m, perm, buf) s)"

text \<open>The third character of the permissions; a permission of two characters ends in a zero there.\<close>

definition perm_exec :: "string \<Rightarrow> bool" where
  "perm_exec perm \<longleftrightarrow> length perm > 2 \<and> perm ! 2 = CHR ''x''"

fun syms_load_loop :: "nat \<Rightarrow> 'b sys_env \<Rightarrow> string \<Rightarrow> 'b syms \<Rightarrow> 'b syms load_res loop_res" where
  "syms_load_loop 0 env s dsos = Timeout"
| "syms_load_loop (Suc fuel) env s dsos =
     (case scan_map_line s of
        Scan_eof \<Rightarrow> Finished (Loaded dsos)
      | Scan_bad \<Rightarrow> Finished Load_failed
      | Scan_overflow \<Rightarrow> Fault
      | Scan_ok (m, perm, buf) s \<Rightarrow>
          if \<not> perm_exec perm then syms_load_loop fuel env s dsos
          else
            let name = skip_ws buf in
            if \<not> is_file_backed name then syms_load_loop fuel env s dsos
            else
              let (ret, dsos) = syms__add_dso env dsos m name in
              if ret \<noteq> 0 then Finished Load_failed else syms_load_loop fuel env s dsos)"

definition syms__load_file :: "nat \<Rightarrow> 'b sys_env \<Rightarrow> string option \<Rightarrow> 'b syms load_res loop_res" where
  "syms__load_file fuel env file =
     (case file of
        None \<Rightarrow> Finished Load_failed
      | Some text \<Rightarrow>
          if \<not> mem_ok env 16 then Finished Load_failed else syms_load_loop fuel env text [])"

definition syms__load_pid :: "nat \<Rightarrow> 'b sys_env \<Rightarrow> (string \<Rightarrow> string option) \<Rightarrow> int \<Rightarrow> 'b syms load_res loop_res" where
  "syms__load_pid fuel env files tgid =
     syms__load_file fuel env (files (snprintf_trunc 128 (''/proc/'' @ show_int tgid @ ''/maps'')))"

section \<open>The cache\<close>

record 'b cache_entry =
  ce_syms :: "'b syms option"
  ce_tgid :: int

type_synonym 'b syms_cache = "'b cache_entry list"

text \<open>\<^verbatim>\<open>syms_cache__new\<close> reserves \<open>nr\<close> entries, of which none is in use.\<close>

definition syms_cache__new :: "bool \<Rightarrow> int \<Rightarrow> 'b syms_cache option" where
  "syms_cache__new calloc_ok nr = (if calloc_ok then Some [] else None)"

text \<open>A table is loaded, even unsuccessfully, once for each process; the result is a position.\<close>

fun cache_index :: "int \<Rightarrow> 'b syms_cache \<Rightarrow> nat option" where
  "cache_index tgid [] = None"
| "cache_index tgid (e # es) = (if ce_tgid e = tgid then Some 0 else map_option Suc (cache_index tgid es))"

definition syms_cache__get_syms ::
  "nat \<Rightarrow> 'b sys_env \<Rightarrow> (string \<Rightarrow> string option) \<Rightarrow> 'b syms_cache \<Rightarrow> int \<Rightarrow> (nat option \<times> 'b syms_cache) loop_res" where
  "syms_cache__get_syms fuel env files cache tgid =
     (case cache_index tgid cache of
        Some i \<Rightarrow> Finished (Some i, cache)
      | None \<Rightarrow>
          if \<not> mem_ok env (16 * (int (length cache) + 1)) then Finished (None, cache)
          else
            (case syms__load_pid fuel env files tgid of
               Finished (Loaded dsos) \<Rightarrow>
                 Finished (Some (length cache), cache @ [\<lparr>ce_syms = Some dsos, ce_tgid = tgid\<rparr>])
             | Finished Load_failed \<Rightarrow>
                 Finished (Some (length cache), cache @ [\<lparr>ce_syms = None, ce_tgid = tgid\<rparr>])
             | Timeout \<Rightarrow> Timeout
             | Fault \<Rightarrow> Fault))"

end
