(* ===== verification/Dso_Lookup.thy ===== *)
theory Dso_Lookup
  imports Dso_Syms
begin

text \<open>
  Resolution of addresses in the symbol tables of processes: what \<^verbatim>\<open>dso__find_sym\<close>,
  \<^verbatim>\<open>syms__find_dso\<close> and the cache of libbpf-tools/trace_helpers.c return, and what happens after a
  failed load.
\<close>

section \<open>Symbols within an object\<close>

text \<open>
  The symbols of an object are well placed when they are sorted, none runs past the end of the
  address space, and each ends before the next begins.
\<close>

definition sym_end :: "sym \<Rightarrow> nat" where
  "sym_end s = unat (sy_start s) + unat (sy_size s)"

definition syms_disjoint :: "sym list \<Rightarrow> bool" where
  "syms_disjoint ss \<longleftrightarrow>
     (\<forall>i j. i < j \<longrightarrow> j < length ss \<longrightarrow> sym_end (ss ! i) \<le> unat (sy_start (ss ! j))) \<and>
     (\<forall>s \<in> set ss. sym_end s < 2 ^ 64)"

lemma syms_disjoint_sorted: "syms_disjoint ss \<Longrightarrow> sorted (map sy_start ss)"
  unfolding sorted_wrt_iff_nth_less
  by (auto simp: syms_disjoint_def word_le_nat_alt sym_end_def) (metis add_leD1)

lemma in_sym_iff:
  assumes "sym_end s < 2 ^ 64"
  shows "sy_start s \<le> off \<and> off < sy_start s + sy_size s \<longleftrightarrow>
    unat (sy_start s) \<le> unat off \<and> unat off < sym_end s"
proof -
  have "unat (sy_start s + sy_size s) = sym_end s"
    using assms unat_add_lem [of "sy_start s" "sy_size s"] by (simp add: sym_end_def)
  then show ?thesis
    by (simp add: word_le_nat_alt word_less_nat_alt)
qed

lemma dso_search_at:
  assumes "find_le_loop (map sy_start (dso_syms d)) off 0 (int (length (dso_syms d)) - 1) = Some (int m, int m)"
    and "m < length (dso_syms d)"
  shows "dso_search d off =
    (if sy_start (dso_syms d ! m) \<le> off \<and> off < sy_start (dso_syms d ! m) + sy_size (dso_syms d ! m)
     then Some (Some m, d\<lparr>dso_syms := (dso_syms d)[m := (dso_syms d ! m)\<lparr>sy_offset := off - sy_start (dso_syms d ! m)\<rparr>]\<rparr>)
     else Some (None, d))"
  using assms(2) unfolding dso_search_def assms(1) by simp

lemma disjoint_unique:
  assumes disj: "syms_disjoint ss" and m: "m < length ss" "m = 0 \<or> sy_start (ss ! m) \<le> off"
    "\<forall>j. m < j \<longrightarrow> j < length ss \<longrightarrow> off < sy_start (ss ! j)"
    and k: "k < length ss" "unat (sy_start (ss ! k)) \<le> unat off" "unat off < sym_end (ss ! k)"
  shows "k = m"
proof (rule ccontr)
  assume "k \<noteq> m"
  moreover have "\<not> m < k"
    using m(3) k by (auto simp: word_less_nat_alt)
  ultimately have "k < m" "0 < m"
    by auto
  then have "sym_end (ss ! k) \<le> unat (sy_start (ss ! m))" "unat (sy_start (ss ! m)) \<le> unat off"
    using disj m(1,2) by (simp_all add: syms_disjoint_def word_le_nat_alt)
  then show False
    using k(3) by simp
qed

lemma dso_search_disjoint:
  assumes disj: "syms_disjoint (dso_syms d)"
  shows "\<exists>r d'. dso_search d off = Some (r, d') \<and>
    (\<forall>k. r = Some k \<longleftrightarrow> k < length (dso_syms d) \<and>
       unat (sy_start (dso_syms d ! k)) \<le> unat off \<and> unat off < sym_end (dso_syms d ! k)) \<and>
    d' = (case r of None \<Rightarrow> d
          | Some k \<Rightarrow> d\<lparr>dso_syms := (dso_syms d)[k := (dso_syms d ! k)\<lparr>sy_offset := off - sy_start (dso_syms d ! k)\<rparr>]\<rparr>)"
proof (cases "dso_syms d = []")
  case True
  then show ?thesis
    by (simp add: dso_search_def find_le_loop.simps)
next
  case False
  let ?ss = "dso_syms d"
  obtain m where m: "find_le_loop (map sy_start ?ss) off 0 (int (length ?ss) - 1) = Some (int m, int m)"
    "m < length ?ss"
    "m = 0 \<or> sy_start (?ss ! m) \<le> off" "\<forall>j. m < j \<longrightarrow> j < length ?ss \<longrightarrow> off < sy_start (?ss ! j)"
    using find_le_last [OF syms_disjoint_sorted [OF disj] False] by blast
  let ?hit = "\<lambda>k. unat (sy_start (?ss ! k)) \<le> unat off \<and> unat off < sym_end (?ss ! k)"
  have ends: "sym_end (?ss ! k) < 2 ^ 64" if "k < length ?ss" for k
    using disj that by (auto simp: syms_disjoint_def)
  have uniq: "k = m" if "k < length ?ss" "?hit k" for k
    using disjoint_unique [OF disj m(2-4)] that by simp
  have hit: "sy_start (?ss ! m) \<le> off \<and> off < sy_start (?ss ! m) + sy_size (?ss ! m) \<longleftrightarrow> ?hit m"
    by (rule in_sym_iff [OF ends [OF m(2)]])
  show ?thesis
  proof (cases "?hit m")
    case True
    have "dso_search d off =
        Some (Some m, d\<lparr>dso_syms := ?ss[m := (?ss ! m)\<lparr>sy_offset := off - sy_start (?ss ! m)\<rparr>]\<rparr>)"
      unfolding dso_search_at [OF m(1,2)] hit by (rule if_P [OF True])
    moreover have "Some m = Some k \<longleftrightarrow> k < length ?ss \<and> ?hit k" for k
      using uniq m(2) True by blast
    ultimately show ?thesis
      by (intro exI [of _ "Some m"] exI conjI allI) (assumption, assumption, simp only: option.case)
  next
    case False
    have "dso_search d off = Some (None, d)"
      unfolding dso_search_at [OF m(1,2)] hit by (rule if_not_P [OF False])
    moreover have "None = Some k \<longleftrightarrow> k < length ?ss \<and> ?hit k" for k
      using uniq False by blast
    ultimately show ?thesis
      by (intro exI [of _ None] exI conjI allI) (assumption, assumption, simp only: option.case)
  qed
qed

text \<open>
  (C8) In an object whose symbols are loaded and do not overlap, \<^verbatim>\<open>dso__find_sym\<close> never reads
  outside the table, and finds the symbol that contains the offset: there is at most one, it is
  returned with the distance from its start, and no symbol is returned exactly when none contains
  the offset.
\<close>

theorem dso__find_sym_exact:
  assumes "\<not> dso_freed d" "dso_syms_cap d \<noteq> 0" "syms_disjoint (dso_syms d)"
  shows "\<exists>r d'. dso__find_sym fuel env d off = Finished (r, d') \<and>
    (\<forall>k. r = Some k \<longleftrightarrow> k < length (dso_syms d) \<and>
       unat (sy_start (dso_syms d ! k)) \<le> unat off \<and> unat off < sym_end (dso_syms d ! k)) \<and>
    (\<forall>k. r = Some k \<longrightarrow> sy_offset (dso_syms d' ! k) = off - sy_start (dso_syms d ! k))"
proof -
  obtain r d' where r: "dso_search d off = Some (r, d')"
    "\<forall>k. r = Some k \<longleftrightarrow> k < length (dso_syms d) \<and>
       unat (sy_start (dso_syms d ! k)) \<le> unat off \<and> unat off < sym_end (dso_syms d ! k)"
    "d' = (case r of None \<Rightarrow> d
          | Some k \<Rightarrow> d\<lparr>dso_syms := (dso_syms d)[k := (dso_syms d ! k)\<lparr>sy_offset := off - sy_start (dso_syms d ! k)\<rparr>]\<rparr>)"
    using dso_search_disjoint [OF assms(3)] by blast
  have "dso__find_sym fuel env d off = Finished (r, d')"
    using assms(1,2) r(1) by (simp add: dso__find_sym_def opt_loop_def)
  moreover have "sy_offset (dso_syms d' ! k) = off - sy_start (dso_syms d ! k)" if "r = Some k" for k
  proof -
    have "k < length (dso_syms d)"
      using r(2) that by blast
    then show ?thesis
      unfolding r(3) that by simp
  qed
  ultimately show ?thesis
    using r(2) by blast
qed

definition two_syms :: "nat dso" where
  "two_syms = \<lparr>dso_name = ''lib'', dso_ranges = [], dso_sh_addr = 0, dso_sh_offset = 0, dso_type = DYN,
     dso_syms = [\<lparr>sy_name = Name_str ''a'', sy_start = 16, sy_size = 16, sy_offset = 0\<rparr>,
                 \<lparr>sy_name = Name_str ''b'', sy_start = 64, sy_size = 8, sy_offset = 0\<rparr>],
     dso_syms_cap = 1024, dso_btf = 0, dso_freed = False\<rparr>"

theorem dso__find_sym_exact_witness:
  "\<forall>env. \<exists>d'. dso__find_sym 0 env two_syms 20 = Finished (Some 0, d') \<and> sy_offset (dso_syms d' ! 0) = 4"
proof
  fix env :: "nat sys_env"
  have "syms_disjoint (dso_syms two_syms)"
    by (auto simp: syms_disjoint_def two_syms_def sym_end_def less_Suc_eq)
  then obtain r d' where r: "dso__find_sym 0 env two_syms 20 = Finished (r, d')"
    "\<forall>k. r = Some k \<longleftrightarrow> k < length (dso_syms two_syms) \<and>
       unat (sy_start (dso_syms two_syms ! k)) \<le> unat (20 :: u64) \<and> unat (20 :: u64) < sym_end (dso_syms two_syms ! k)"
    "\<forall>k. r = Some k \<longrightarrow> sy_offset (dso_syms d' ! k) = 20 - sy_start (dso_syms two_syms ! k)"
    using dso__find_sym_exact [of two_syms 0 env 20] by (auto simp: two_syms_def)
  have "r = Some 0"
    using r(2) by (simp add: two_syms_def sym_end_def)
  then show "\<exists>d'. dso__find_sym 0 env two_syms 20 = Finished (Some 0, d') \<and> sy_offset (dso_syms d' ! 0) = 4"
    using r(1,3) by (simp add: two_syms_def)
qed

section \<open>Boundaries of a mapping\<close>

text \<open>
  The first address of a mapping is not attributed to it: with a single mapping,
  \<^verbatim>\<open>syms__find_dso\<close> finds every later address of the mapping, with the offset in the file, but not
  its start.
\<close>

lemma syms__find_dso_misses_start:
  assumes "\<not> dso_freed d" "dso_ranges d = [r]" "lr_start r < lr_end r"
  shows "syms__find_dso [d] (lr_start r) = Some None \<and>
    (\<forall>addr. lr_start r < addr \<longrightarrow> addr < lr_end r \<longrightarrow> syms__find_dso [d] addr = Some (Some (0, dso_offset d r addr)))"
  using assms by (auto simp: syms__find_dso_def)

section \<open>A malformed symbol table\<close>

text \<open>A section of symbols with a block whose size is not a multiple of that of an entry.\<close>

definition malformed_scn :: "elf_scn \<Rightarrow> bool" where
  "malformed_scn s \<longleftrightarrow>
     (\<exists>h. scn_hdr s = Some h \<and> (sh_type h = SHT_SYMTAB \<or> sh_type h = SHT_DYNSYM) \<and>
        (\<exists>data \<in> set (scn_data s). d_size data mod sh_entsize h \<noteq> 0))"

lemma add_syms_malformed:
  "dso__add_syms env d ds symsize = Some (ret, d') \<Longrightarrow> \<exists>data \<in> set ds. d_size data mod symsize \<noteq> 0 \<Longrightarrow> ret \<noteq> 0"
  by (induction ds arbitrary: d) (auto simp: Let_def split: if_splits bind_splits)

lemma load_sections_malformed:
  "load_sections env d ss = Some (ret, d') \<Longrightarrow> \<exists>s \<in> set ss. malformed_scn s \<Longrightarrow> ret \<noteq> 0"
proof (induction ss arbitrary: d)
  case (Cons s ss)
  show ?case
  proof (cases "malformed_scn s")
    case True
    then obtain h where h: "scn_hdr s = Some h" "sh_type h = SHT_SYMTAB \<or> sh_type h = SHT_DYNSYM"
      "\<exists>data \<in> set (scn_data s). d_size data mod sh_entsize h \<noteq> 0"
      by (auto simp: malformed_scn_def)
    then show ?thesis
      using Cons.prems(1) add_syms_malformed [OF _ h(3), of env d 0] by (auto split: bind_splits if_splits)
  next
    case False
    then show ?thesis
      using Cons by (auto split: option.splits bind_splits if_splits)
  qed
qed simp

lemma find_dso_from_found:
  "find_dso_from n dsos addr = Some (Some (i, off)) \<Longrightarrow> n \<le> i \<and> i < n + length dsos \<and> \<not> dso_freed (dsos ! (i - n))"
  by (induction n dsos addr rule: find_dso_from.induct) (force split: if_splits option.splits simp: nth_Cons')+

lemma find_dso_from_freed:
  "find_dso_from n dsos addr = Some (Some (i, off)) \<Longrightarrow> dso_freed d \<Longrightarrow> find_dso_from n (dsos[i - n := d]) addr = None"
proof (induction n dsos addr rule: find_dso_from.induct)
  case (2 n x dsos addr)
  then show ?case
    using find_dso_from_found [of "Suc n" dsos addr i off]
    by (cases "i - n") (auto split: if_splits option.splits simp: Suc_diff_Suc [symmetric])
qed simp

text \<open>
  (C38) If the file of an executable or library has a malformed section of symbols, loading its symbols fails, which frees the
  object's fields but leaves the object in the table.  The lookup of an address that causes the load reports no symbol; the
  next one reads freed memory, whatever the system then answers.  Before the malformed section there is no undefined
  behaviour, such as the division by an entry size of zero.
\<close>

theorem syms__map_addr_use_after_free:
  assumes "syms__find_dso dsos addr = Some (Some (i, off))" "dso_syms_cap (dsos ! i) = 0" "dso_type (dsos ! i) \<in> {EXEC, DYN}"
    and "open_elf env (dso_name (dsos ! i)) = Some e" "\<exists>s \<in> set (scns e). malformed_scn s"
    and "load_sections env (dsos ! i) (scns e) \<noteq> None"
  shows "\<exists>dsos'. syms__map_addr fuel env dsos addr = Finished (None, dsos') \<and>
    (\<forall>fuel' env'. syms__map_addr fuel' env' dsos' addr = Fault)"
proof -
  obtain ret d' where l: "load_sections env (dsos ! i) (scns e) = Some (ret, d')"
    using assms(6) by auto
  have "ret \<noteq> 0"
    using load_sections_malformed [OF l assms(5)] .
  then have "dso__load_sym_table fuel env (dsos ! i) = Finished (- 1, dso__free_fields d')"
    using assms(3,4) l by (auto simp: dso__load_sym_table_def dso__load_sym_table_from_elf_def opt_loop_def)
  moreover have "\<not> dso_freed (dsos ! i)"
    using find_dso_from_found assms(1) unfolding syms__find_dso_def by fastforce
  ultimately have "syms__map_addr fuel env dsos addr = Finished (None, dsos[i := dso__free_fields d'])"
    using assms(1,2) by (simp add: syms__map_addr_def dso__find_sym_def)
  moreover have "syms__find_dso (dsos[i := dso__free_fields d']) addr = None"
    using find_dso_from_freed [of 0 dsos addr i off "dso__free_fields d'"] assms(1)
    by (simp add: syms__find_dso_def dso__free_fields_def)
  ultimately show ?thesis
    by (simp add: syms__map_addr_def)
qed

text \<open>An executable whose symbol section has 25 bytes and entries of 24, mapped once.\<close>

definition bad_env :: "nat sys_env" where
  "bad_env = \<lparr>open_elf = (\<lambda>_. Some \<lparr>e_type = Some ET_EXEC, shstrndx_ok = True,
       scns = [\<lparr>scn_hdr = Some \<lparr>sh_type = SHT_SYMTAB, sh_name = None, sh_addr_hdr = 0, sh_offset_hdr = 0, sh_entsize = 24\<rparr>,
                scn_data = [\<lparr>d_size = 25, d_syms = []\<rparr>]\<rparr>]\<rparr>),
     open_elf_image = (\<lambda>_. None), btf_new = 0, btf_add_str = (\<lambda>b s. (int b, b + 1)),
     btf_name_by_offset = (\<lambda>_ _. []), mem_ok = (\<lambda>_. True), own_maps = None, own_mem = (\<lambda>_ _. []),
     tmpfile_ok = True, write_ok = True\<rparr>"

definition bad_dso :: "nat dso" where
  "bad_dso = (new_dso bad_env ''/bin/prog'')\<lparr>dso_ranges := [\<lparr>lr_start = 0x1000, lr_end = 0x2000, lr_file_off = 0\<rparr>]\<rparr>"

theorem syms__map_addr_use_after_free_witness:
  "\<exists>dsos. syms__map_addr 0 bad_env [bad_dso] 0x1800 = Finished (None, dsos) \<and> syms__map_addr 0 bad_env dsos 0x1800 = Fault"
  using syms__map_addr_use_after_free [where dsos = "[bad_dso]" and addr = "0x1800" and i = 0 and off = "0x1800" and env = bad_env and fuel = 0]
  by (fastforce simp: syms__find_dso_def bad_dso_def new_dso_def bad_env_def malformed_scn_def dso_offset_def)

section \<open>The cache of tables\<close>

definition cache_inv :: "'b syms_cache \<Rightarrow> bool" where
  "cache_inv cache \<longleftrightarrow> distinct (map ce_tgid cache)"

lemma cache_index_None: "cache_index tgid cache = None \<longleftrightarrow> tgid \<notin> ce_tgid ` set cache"
  by (induction cache) auto

lemma cache_index_Some: "cache_index tgid cache = Some i \<Longrightarrow> i < length cache \<and> ce_tgid (cache ! i) = tgid"
  by (induction cache arbitrary: i) (auto split: if_splits)

lemma cache_index_append: "cache_index tgid (cache @ [e]) =
    (case cache_index tgid cache of Some i \<Rightarrow> Some i | None \<Rightarrow> if ce_tgid e = tgid then Some (length cache) else None)"
  by (induction cache) (auto split: option.splits)

text \<open>
  (C11) A cache holds each process at most once.  A lookup that returns an entry returns one of the
  process asked for, keeps every entry at its place, and makes every later lookup of the process
  return the same entry without loading anything, whatever the files then contain.
\<close>

theorem syms_cache__get_syms_caches:
  assumes "cache_inv cache" "syms_cache__get_syms fuel env files cache tgid = Finished (Some i, cache')"
  shows "cache_inv cache' \<and> i < length cache' \<and> ce_tgid (cache' ! i) = tgid \<and>
    take (length cache) cache' = cache \<and>
    syms_cache__get_syms fuel' env' files' cache' tgid = Finished (Some i, cache')"
proof (cases "cache_index tgid cache")
  case (Some j)
  then show ?thesis
    using assms cache_index_Some [OF Some] by (simp add: syms_cache__get_syms_def)
next
  case None
  then obtain e where e: "cache' = cache @ [e]" "ce_tgid e = tgid" "i = length cache"
    using assms(2) by (auto simp: syms_cache__get_syms_def split: if_splits loop_res.splits load_res.splits)
  have "cache_index tgid cache' = Some i"
    by (simp add: e cache_index_append None)
  then show ?thesis
    using assms(1) e None by (simp add: cache_inv_def cache_index_None syms_cache__get_syms_def)
qed

theorem syms_cache__get_syms_caches_witness:
  "syms_cache__get_syms 1 bad_env (\<lambda>_. Some []) [] 7 = Finished (Some 0, [\<lparr>ce_syms = Some [], ce_tgid = 7\<rparr>]) \<and>
   syms_cache__get_syms 0 bad_env (\<lambda>_. None) [\<lparr>ce_syms = Some [], ce_tgid = 7\<rparr>] 7 =
     Finished (Some 0, [\<lparr>ce_syms = Some [], ce_tgid = 7\<rparr>])"
proof -
  have 1: "syms_cache__get_syms 1 bad_env (\<lambda>_. Some []) [] 7 = Finished (Some 0, [\<lparr>ce_syms = Some [], ce_tgid = 7\<rparr>])"
    by (simp add: syms_cache__get_syms_def syms__load_pid_def syms__load_file_def bad_env_def scan_map_line_def skip_ws_def)
  have 2: "cache_inv ([] :: nat syms_cache)"
    by (simp add: cache_inv_def)
  show ?thesis
    using 1 syms_cache__get_syms_caches [OF 2 1] by blast
qed

end
