(* ===== verification/Dso_Load.thy ===== *)
theory Dso_Load
  imports Dso_Lookup
begin

text \<open>
  Loading: the symbols of an object file, and the mappings of a process, of
  libbpf-tools/trace_helpers.c, against what the file and the memory map contain.
\<close>

section \<open>Loading the symbols of an object file\<close>

text \<open>The symbols that a file offers, in the order of its sections.\<close>

definition sym_entry :: "elf_sym option \<Rightarrow> (u64 \<times> string \<times> u64) list" where
  "sym_entry s =
     (case s of None \<Rightarrow> []
      | Some es \<Rightarrow> (case st_name es of None \<Rightarrow> []
                   | Some n \<Rightarrow> if n = [] \<or> st_value es = 0 then [] else [(st_value es, n, st_size es)]))"

definition data_symbols :: "nat \<Rightarrow> elf_data \<Rightarrow> (u64 \<times> string \<times> u64) list" where
  "data_symbols symsize data = concat (map sym_entry (take (d_size data div symsize) (d_syms data)))"

definition scn_symbols :: "elf_scn \<Rightarrow> (u64 \<times> string \<times> u64) list" where
  "scn_symbols s =
     (case scn_hdr s of None \<Rightarrow> []
      | Some h \<Rightarrow> if sh_type h \<noteq> SHT_SYMTAB \<and> sh_type h \<noteq> SHT_DYNSYM then []
                 else concat (map (data_symbols (sh_entsize h)) (scn_data s)))"

definition scn_ok :: "elf_scn \<Rightarrow> bool" where
  "scn_ok s \<longleftrightarrow>
     (case scn_hdr s of None \<Rightarrow> True
      | Some h \<Rightarrow> (sh_type h = SHT_SYMTAB \<or> sh_type h = SHT_DYNSYM) \<longrightarrow>
          0 < sh_entsize h \<and> (\<forall>data \<in> set (scn_data s). d_size data mod sh_entsize h = 0))"

text \<open>
  What the source relies on of libbpf's string table: a string that was added is found at the
  offset that was returned, and stays there.
\<close>

definition btf_laws :: "'b sys_env \<Rightarrow> bool" where
  "btf_laws env \<longleftrightarrow>
     (\<forall>b s. s \<noteq> [] \<longrightarrow> 0 \<le> fst (btf_add_str env b s) \<and>
        btf_name_by_offset env (snd (btf_add_str env b s)) (fst (btf_add_str env b s)) = s) \<and>
     (\<forall>b s off. btf_name_by_offset env b off \<noteq> [] \<longrightarrow>
        btf_name_by_offset env (snd (btf_add_str env b s)) off = btf_name_by_offset env b off)"

definition raw_name :: "'b sys_env \<Rightarrow> 'b \<Rightarrow> sym \<Rightarrow> string" where
  "raw_name env b s = (case sy_name s of Name_off off \<Rightarrow> btf_name_by_offset env b off | Name_str n \<Rightarrow> [])"

definition dso_abs :: "'b sys_env \<Rightarrow> 'b dso \<Rightarrow> (u64 \<times> string \<times> u64) list" where
  "dso_abs env d = map (\<lambda>s. (sy_start s, raw_name env (dso_btf d) s, sy_size s)) (dso_syms d)"

definition dso_wf :: "'b sys_env \<Rightarrow> 'b dso \<Rightarrow> bool" where
  "dso_wf env d \<longleftrightarrow>
     \<not> dso_freed d \<and> int (length (dso_syms d)) \<le> dso_syms_cap d \<and>
     (\<forall>s \<in> set (dso_syms d). raw_name env (dso_btf d) s \<noteq> [])"

lemma raw_name_off: "raw_name env b s \<noteq> [] \<Longrightarrow> \<exists>off. sy_name s = Name_off off"
  by (cases "sy_name s") (auto simp: raw_name_def)

lemma raw_name_add:
  assumes "btf_laws env" "raw_name env b s \<noteq> []"
  shows "raw_name env (snd (btf_add_str env b n)) s = raw_name env b s"
proof -
  obtain off where off: "sy_name s = Name_off off"
    using raw_name_off [OF assms(2)] by blast
  then show ?thesis
    using assms unfolding btf_laws_def raw_name_def by simp
qed

lemma dso__add_sym_ok:
  assumes laws: "btf_laws env" and mem: "mem_ok env = (\<lambda>_. True)" and wf: "dso_wf env d" and "n \<noteq> []"
    and room: "length (dso_syms d) < 2 ^ 28"
  shows "\<exists>d'. dso__add_sym env d n start sz = Some (0, d') \<and> dso_wf env d' \<and>
    dso_abs env d' = dso_abs env d @ [(start, n, sz)]"
proof -
  define off b where "off = fst (btf_add_str env (dso_btf d) n)" and "b = snd (btf_add_str env (dso_btf d) n)"
  have add: "btf_add_str env (dso_btf d) n = (off, b)"
    by (simp add: off_def b_def)
  have off: "0 \<le> off" "btf_name_by_offset env b off = n"
    using laws \<open>n \<noteq> []\<close> by (simp_all add: btf_laws_def off_def b_def)
  let ?n = "int (length (dso_syms d))"
  have le: "?n \<le> dso_syms_cap d"
    using wf by (simp add: dso_wf_def)
  obtain c where c: "(if ?n + 1 > dso_syms_cap d then syms_new_cap (dso_syms_cap d) else Some (dso_syms_cap d)) = Some c"
    "?n + 1 \<le> c"
    using syms_new_cap_bounds [of ?n "dso_syms_cap d"] le room by (cases "?n + 1 > dso_syms_cap d") auto
  let ?s = "\<lparr>sy_name = Name_off off, sy_start = start, sy_size = sz, sy_offset = 0\<rparr>"
  let ?d = "d\<lparr>dso_btf := b, dso_syms_cap := c, dso_syms := dso_syms d @ [?s]\<rparr>"
  have eq: "dso__add_sym env d n start sz = Some (0, ?d)"
  proof (cases "?n + 1 > dso_syms_cap d")
    case True
    then show ?thesis
      using c off by (simp add: dso__add_sym_def add mem)
  next
    case False
    then show ?thesis
      using c off add by (cases d) (simp add: dso__add_sym_def mem)
  qed
  have keep: "raw_name env b s = raw_name env (dso_btf d) s" if "s \<in> set (dso_syms d)" for s
    unfolding b_def using wf that by (intro raw_name_add [OF laws]) (simp add: dso_wf_def)
  have new: "raw_name env b ?s = n"
    using off by (simp add: raw_name_def)
  have "dso_abs env ?d = dso_abs env d @ [(start, n, sz)]"
    using keep new by (simp add: dso_abs_def)
  moreover have "dso_wf env ?d"
    using wf keep new c(2) \<open>n \<noteq> []\<close> by (auto simp: dso_wf_def)
  ultimately show ?thesis
    using eq by blast
qed

lemma dso_abs_length [simp]: "length (dso_abs env d) = length (dso_syms d)"
  by (simp add: dso_abs_def)

lemma add_data_syms_ok:
  assumes "btf_laws env" "mem_ok env = (\<lambda>_. True)" "dso_wf env d"
    and "length (dso_syms d) + length (concat (map sym_entry ss)) \<le> 2 ^ 28"
  shows "\<exists>d'. add_data_syms env d ss = Some (0, d') \<and> dso_wf env d' \<and>
    dso_abs env d' = dso_abs env d @ concat (map sym_entry ss)"
  using assms
proof (induction ss arbitrary: d)
  case (Cons s ss)
  show ?case
  proof (cases "sym_entry s = []")
    case True
    then have "add_data_syms env d (s # ss) = add_data_syms env d ss"
      by (auto simp: sym_entry_def split: option.splits if_splits)
    then show ?thesis
      using Cons.IH [OF Cons.prems(1-3)] Cons.prems(4) True by simp
  next
    case False
    then obtain es n where s: "s = Some es" "st_name es = Some n" "n \<noteq> []" "st_value es \<noteq> 0"
      "sym_entry s = [(st_value es, n, st_size es)]"
      by (auto simp: sym_entry_def split: option.splits if_splits)
    obtain d1 where d1: "dso__add_sym env d n (st_value es) (st_size es) = Some (0, d1)" "dso_wf env d1"
      "dso_abs env d1 = dso_abs env d @ [(st_value es, n, st_size es)]"
      using dso__add_sym_ok [OF Cons.prems(1-3) s(3)] Cons.prems(4) s(5) by fastforce
    have "length (dso_syms d1) = length (dso_syms d) + 1"
      using d1(3) by (metis dso_abs_length length_append_singleton Suc_eq_plus1)
    then obtain d' where "add_data_syms env d1 ss = Some (0, d')" "dso_wf env d'"
      "dso_abs env d' = dso_abs env d1 @ concat (map sym_entry ss)"
      using Cons.IH [OF Cons.prems(1,2) d1(2)] Cons.prems(4) s(5) by auto
    then show ?thesis
      using s d1 by simp
  qed
qed simp


lemma dso__add_syms_ok:
  assumes "btf_laws env" "mem_ok env = (\<lambda>_. True)" "dso_wf env d" "0 < symsize"
    and "\<forall>data \<in> set ds. d_size data mod symsize = 0"
    and "length (dso_syms d) + length (concat (map (data_symbols symsize) ds)) \<le> 2 ^ 28"
  shows "\<exists>d'. dso__add_syms env d ds symsize = Some (0, d') \<and> dso_wf env d' \<and>
    dso_abs env d' = dso_abs env d @ concat (map (data_symbols symsize) ds)"
  using assms
proof (induction ds arbitrary: d)
  case (Cons x ds)
  let ?ss = "take (d_size x div symsize) (d_syms x)"
  obtain d1 where d1: "add_data_syms env d ?ss = Some (0, d1)" "dso_wf env d1"
    "dso_abs env d1 = dso_abs env d @ data_symbols symsize x"
    using add_data_syms_ok [OF Cons.prems(1-3), of ?ss] Cons.prems(6) by (auto simp: data_symbols_def)
  have "length (dso_syms d1) = length (dso_syms d) + length (data_symbols symsize x)"
    using d1(3) by (metis dso_abs_length length_append)
  then obtain d' where "dso__add_syms env d1 ds symsize = Some (0, d')" "dso_wf env d'"
    "dso_abs env d' = dso_abs env d1 @ concat (map (data_symbols symsize) ds)"
    using Cons.IH [OF Cons.prems(1,2) d1(2) Cons.prems(4)] Cons.prems(5,6) by auto
  then show ?case
    using d1 Cons.prems(4,5) by simp
qed simp

lemma load_sections_ok:
  assumes "btf_laws env" "mem_ok env = (\<lambda>_. True)" "dso_wf env d" "list_all scn_ok ss"
    and "length (dso_syms d) + length (concat (map scn_symbols ss)) \<le> 2 ^ 28"
  shows "\<exists>d'. load_sections env d ss = Some (0, d') \<and> dso_wf env d' \<and>
    dso_abs env d' = dso_abs env d @ concat (map scn_symbols ss)"
  using assms
proof (induction ss arbitrary: d)
  case (Cons s ss)
  show ?case
  proof (cases "\<exists>h. scn_hdr s = Some h \<and> (sh_type h = SHT_SYMTAB \<or> sh_type h = SHT_DYNSYM)")
    case False
    then have "load_sections env d (s # ss) = load_sections env d ss" "scn_symbols s = []"
      by (auto simp: scn_symbols_def split: option.splits)
    then show ?thesis
      using Cons.IH [OF Cons.prems(1-3)] Cons.prems(4,5) by simp
  next
    case True
    then obtain h where h: "scn_hdr s = Some h" "sh_type h = SHT_SYMTAB \<or> sh_type h = SHT_DYNSYM"
      by blast
    have sy: "scn_symbols s = concat (map (data_symbols (sh_entsize h)) (scn_data s))"
      using h by (auto simp: scn_symbols_def)
    have ok: "0 < sh_entsize h" "\<forall>data \<in> set (scn_data s). d_size data mod sh_entsize h = 0"
      using Cons.prems(4) h by (auto simp: scn_ok_def)
    obtain d1 where d1: "dso__add_syms env d (scn_data s) (sh_entsize h) = Some (0, d1)" "dso_wf env d1"
      "dso_abs env d1 = dso_abs env d @ scn_symbols s"
      using dso__add_syms_ok [OF Cons.prems(1-3) ok] Cons.prems(5) by (auto simp: sy)
    have "length (dso_syms d1) = length (dso_syms d) + length (scn_symbols s)"
      using d1(3) by (metis dso_abs_length length_append)
    then obtain d' where "load_sections env d1 ss = Some (0, d')" "dso_wf env d'"
      "dso_abs env d' = dso_abs env d1 @ concat (map scn_symbols ss)"
      using Cons.IH [OF Cons.prems(1,2) d1(2)] Cons.prems(4,5) by auto
    then show ?thesis
      using h d1 by auto
  qed
qed simp

definition sym_triple :: "sym \<Rightarrow> u64 \<times> string \<times> u64" where
  "sym_triple s = (sy_start s, name_str (sy_name s), sy_size s)"

lemma finalize_triple:
  "raw_name env b s \<noteq> [] \<Longrightarrow> sym_triple (finalize_name env b s) = (sy_start s, raw_name env b s, sy_size s)"
  by (cases "sy_name s") (auto simp: raw_name_def finalize_name_def sym_triple_def)

text \<open>
  (C9) Loading the symbols of an object file whose symbol sections are well formed succeeds, keeps the
  object alive, and leaves in it exactly the named symbols with a non-zero value of all its symbol
  sections, sorted by address and name.
\<close>

theorem dso__load_sym_table_from_elf_loads:
  assumes "btf_laws env" "mem_ok env = (\<lambda>_. True)" "\<not> dso_freed d" "dso_syms d = []" "dso_syms_cap d = 0"
    and "open_elf env (dso_name d) = Some e" "list_all scn_ok (scns e)"
    and "length (concat (map scn_symbols (scns e))) \<le> 2 ^ 28"
  shows "\<exists>d'. dso__load_sym_table_from_elf env d None = Some (0, d') \<and> \<not> dso_freed d' \<and>
    sorted (map sym_key (dso_syms d')) \<and>
    mset (map sym_triple (dso_syms d')) = mset (concat (map scn_symbols (scns e)))"
proof -
  have wf: "dso_wf env d"
    using assms(3-5) by (simp add: dso_wf_def)
  obtain d1 where d1: "load_sections env d (scns e) = Some (0, d1)" "dso_wf env d1"
    "dso_abs env d1 = concat (map scn_symbols (scns e))"
    using load_sections_ok [OF assms(1,2) wf assms(7)] assms(4,8) by (auto simp: dso_abs_def)
  let ?fin = "map (finalize_name env (dso_btf d1)) (dso_syms d1)"
  let ?d = "d1\<lparr>dso_syms := sort_key sym_key ?fin\<rparr>"
  have load: "dso__load_sym_table_from_elf env d None = Some (0, ?d)"
    by (simp add: dso__load_sym_table_from_elf_def assms(6) d1(1))
  have "map sym_triple ?fin = dso_abs env d1"
    using d1(2) by (auto simp: dso_abs_def dso_wf_def finalize_triple)
  then have m: "mset (map sym_triple ?fin) = mset (concat (map scn_symbols (scns e)))"
    by (simp only: d1(3))
  have "mset (map sym_triple (dso_syms ?d)) = mset (map sym_triple ?fin)"
    by (simp add: mset_map image_mset.compositionality)
  then show ?thesis
    using load d1(2) m by (intro exI [of _ ?d]) (simp add: dso_wf_def)
qed

text \<open>A string table that keeps its strings in a list, and a file with two symbols out of order.\<close>

definition list_env :: "string list sys_env" where
  "list_env = \<lparr>open_elf = (\<lambda>_. Some \<lparr>e_type = Some ET_EXEC, shstrndx_ok = True,
       scns = [\<lparr>scn_hdr = Some \<lparr>sh_type = SHT_SYMTAB, sh_name = None, sh_addr_hdr = 0, sh_offset_hdr = 0, sh_entsize = 24\<rparr>,
                scn_data = [\<lparr>d_size = 48, d_syms = [Some \<lparr>st_name = Some ''b'', st_value = 64, st_size = 8\<rparr>,
                                                   Some \<lparr>st_name = Some ''a'', st_value = 16, st_size = 16\<rparr>]\<rparr>]\<rparr>]\<rparr>),
     open_elf_image = (\<lambda>_. None), btf_new = [],
     btf_add_str = (\<lambda>b s. (int (length b), b @ [s])),
     btf_name_by_offset = (\<lambda>b off. if 0 \<le> off \<and> nat off < length b then b ! nat off else []),
     mem_ok = (\<lambda>_. True), own_maps = None, own_mem = (\<lambda>_ _. []), tmpfile_ok = True, write_ok = True\<rparr>"

lemma list_env_laws: "btf_laws list_env"
  by (auto simp: btf_laws_def list_env_def nth_append split: if_splits)

theorem dso__load_sym_table_from_elf_loads_witness:
  "\<exists>d'. dso__load_sym_table_from_elf list_env (new_dso list_env ''/bin/prog'') None = Some (0, d') \<and> \<not> dso_freed d' \<and>
    mset (map sym_triple (dso_syms d')) = {#(64, ''b'', 8), (16, ''a'', 16)#}"
proof -
  let ?d = "new_dso list_env ''/bin/prog''"
  obtain e where e: "open_elf list_env (dso_name ?d) = Some e" "list_all scn_ok (scns e)"
    "concat (map scn_symbols (scns e)) = [(64, ''b'', 8), (16, ''a'', 16)]"
    by (simp add: list_env_def scn_ok_def scn_symbols_def data_symbols_def sym_entry_def SHT_SYMTAB_def)
  have 1: "mem_ok list_env = (\<lambda>_. True)" "\<not> dso_freed ?d" "dso_syms ?d = []" "dso_syms_cap ?d = 0"
    by (simp_all add: list_env_def new_dso_def)
  have 2: "length (concat (map scn_symbols (scns e))) \<le> 2 ^ 28"
    by (simp add: e(3))
  obtain d' where d': "dso__load_sym_table_from_elf list_env ?d None = Some (0, d')" "\<not> dso_freed d'"
    "mset (map sym_triple (dso_syms d')) = mset (concat (map scn_symbols (scns e)))"
    using dso__load_sym_table_from_elf_loads [OF list_env_laws 1 e(1,2) 2] by blast
  then show ?thesis
    unfolding e(3) by (intro exI [of _ d']) simp
qed

section \<open>Numbers with leading zeros\<close>

definition zpad :: "nat \<Rightarrow> nat \<Rightarrow> nat \<Rightarrow> string" where
  "zpad w b n = (let ds = nat_digits b n in replicate (w - length ds) (CHR ''0'') @ ds)"

lemma zpad_ne [simp]: "zpad w b n \<noteq> []"
  by (simp add: zpad_def Let_def)

lemma zpad_digits: "b = 10 \<or> b = 16 \<Longrightarrow> list_all (is_digit_of b) (zpad w b n)"
  using nat_digits_all [of b] is_digit_0 [of b] by (auto simp: zpad_def Let_def list_all_iff)

lemma scan_num_zpad:
  assumes "b = 10 \<or> b = 16" "num_stop b rest"
  shows "scan_num b (zpad w b (unat (v :: u64)) @ rest) = Some (v, rest)"
proof -
  have val: "digits_val b (zpad w b (unat v)) = unat v"
    using assms(1) by (simp add: zpad_def Let_def digits_val_zeros digits_val_nat_digits)
  have "unat v < 2 ^ 64"
    using unsigned_less [of v, where ?'a = nat] by simp
  then have "scan_num b (zpad w b (unat v) @ rest) = Some (word_of_nat (digits_val b (zpad w b (unat v))), rest)"
    using zpad_digits [OF assms(1)] assms(2) val by (intro scan_num_digits) simp_all
  then show ?thesis
    by (simp only: val) simp
qed

lemma scan_num_space: "scan_num b (CHR '' '' # s) = scan_num b s"
  by (rule scan_num_ws) simp

section \<open>The text of \<^verbatim>\<open>/proc/<pid>/maps\<close>\<close>

record proc_map =
  pm_map :: map_entry
  pm_perm :: string
  pm_pad :: nat
  pm_name :: string

definition map_line :: "proc_map \<Rightarrow> string" where
  "map_line p =
     (let m = pm_map p in
      zpad 8 16 (unat (me_start_addr m)) @ ''-'' @ zpad 8 16 (unat (me_end_addr m)) @ '' '' @ pm_perm p @ '' '' @
      zpad 8 16 (unat (me_file_off m)) @ '' '' @ zpad 2 16 (unat (me_dev_major m)) @ '':'' @
      zpad 2 16 (unat (me_dev_minor m)) @ '' '' @ zpad 1 10 (unat (me_inode m)) @
      replicate (Suc (pm_pad p)) (CHR '' '') @ pm_name p @ [CHR 0x0A])"

definition proc_map_ok :: "proc_map \<Rightarrow> bool" where
  "proc_map_ok p \<longleftrightarrow>
     length (pm_perm p) = 4 \<and> list_all (Not \<circ> isspace) (pm_perm p) \<and>
     CHR 0x0A \<notin> set (pm_name p) \<and> (pm_name p \<noteq> [] \<longrightarrow> \<not> isspace (hd (pm_name p))) \<and>
     pm_pad p + 1 + length (pm_name p) < PATH_MAX"

lemma scan_sn_word:
  assumes "length w = n" "w \<noteq> []" "list_all (Not \<circ> isspace) w" "rest \<noteq> [] \<longrightarrow> isspace (hd rest)"
  shows "scan_sn n (CHR '' '' # w @ rest) = Some (w, rest)"
proof -
  have "skip_ws (CHR '' '' # w @ rest) = w @ rest"
    using assms(2,3) by (cases w) (auto simp: skip_ws_def)
  moreover have "takeWhile (Not \<circ> isspace) (w @ rest) = w"
    using assms by (auto intro!: takeWhile_append_stop)
  ultimately show ?thesis
    using assms(1,2) by (auto simp: scan_sn_def)
qed

lemma scan_line_word:
  assumes "w \<noteq> []" "CHR 0x0A \<notin> set w"
  shows "scan_line (w @ CHR 0x0A # rest) = Some (w, CHR 0x0A # rest)"
proof -
  have "takeWhile (\<lambda>c. c \<noteq> CHR 0x0A) (w @ CHR 0x0A # rest) = w"
    "dropWhile (\<lambda>c. c \<noteq> CHR 0x0A) (w @ CHR 0x0A # rest) = CHR 0x0A # rest"
    using assms(2) by (auto intro!: takeWhile_append_stop dropWhile_append_stop simp: list_all_iff)
  then show ?thesis
    using assms(1) by (simp add: scan_line_def)
qed

lemma scan_map_skip_ws: "scan_map_line (skip_ws s) = scan_map_line s"
  by (simp add: scan_map_line_def scan_map_fields_def scan_num_skip_ws)

lemma zpad_start: "entries_start (zpad w 16 n @ rest)"
  using zpad_digits [of 16 w n] is_digit_of_facts(1)
  by (cases "zpad w 16 n") (auto simp: entries_start_def)

lemma map_line_start: "entries_start (map_line p @ rest)"
  unfolding map_line_def Let_def append_assoc by (rule zpad_start)

lemma scan_map_fields_ok:
  assumes "proc_map_ok p"
  shows "scan_map_fields (map_line p @ rest) =
    Some (pm_map p, pm_perm p, replicate (Suc (pm_pad p)) (CHR '' '') @ pm_name p, CHR 0x0A # rest)"
proof -
  let ?buf = "replicate (Suc (pm_pad p)) (CHR '' '') @ pm_name p"
  have perm: "scan_sn 4 (CHR '' '' # pm_perm p @ CHR '' '' # xs) = Some (pm_perm p, CHR '' '' # xs)" for xs
    using assms by (intro scan_sn_word) (auto simp: proc_map_ok_def)
  have line: "scan_line (CHR '' '' # replicate (pm_pad p) (CHR '' '') @ pm_name p @ CHR 0x0A # rest) = Some (?buf, CHR 0x0A # rest)"
    using assms scan_line_word [of ?buf rest] by (auto simp: proc_map_ok_def)
  show ?thesis
    by (simp add: scan_map_fields_def map_line_def Let_def scan_num_zpad scan_num_space perm line)
qed

lemma map_line_ne: "skip_ws (map_line p @ rest) \<noteq> []"
  using entries_start_skip_ws [OF map_line_start [of p rest]] by (simp add: map_line_def Let_def)

lemma scan_map_line_ok:
  assumes "proc_map_ok p"
  shows "scan_map_line (map_line p @ rest) =
    Scan_ok (pm_map p, pm_perm p, replicate (Suc (pm_pad p)) (CHR '' '') @ pm_name p) (CHR 0x0A # rest)"
  using assms map_line_ne [of p rest]
  by (simp add: scan_map_line_def scan_map_fields_ok [OF assms] proc_map_ok_def del: replicate_Suc)

section \<open>Loading the mappings of a process\<close>

definition pm_wanted :: "proc_map \<Rightarrow> bool" where
  "pm_wanted p \<longleftrightarrow> pm_perm p ! 2 = CHR ''x'' \<and> is_file_backed (pm_name p)"

definition pm_range :: "proc_map \<Rightarrow> load_range" where
  "pm_range p = \<lparr>lr_start = me_start_addr (pm_map p), lr_end = me_end_addr (pm_map p), lr_file_off = me_file_off (pm_map p)\<rparr>"

text \<open>The abstraction: the ranges recorded for each file name.\<close>

definition ranges_of :: "'b syms \<Rightarrow> string \<Rightarrow> load_range list" where
  "ranges_of dsos n = concat (map dso_ranges (filter (\<lambda>d. dso_name d = n) dsos))"

definition syms_inv :: "'b syms \<Rightarrow> bool" where
  "syms_inv dsos \<longleftrightarrow> distinct (map dso_name dsos) \<and> (\<forall>d \<in> set dsos. \<not> dso_freed d)"

definition elf_ok :: "'b sys_env \<Rightarrow> bool" where
  "elf_ok env \<longleftrightarrow> mem_ok env = (\<lambda>_. True) \<and>
     (\<forall>n. get_elf_type env n = int ET_DYN \<longrightarrow> get_elf_text_scn_info env n \<noteq> None)"

lemma find_dso_index_None: "find_dso_index n dsos = None \<longleftrightarrow> n \<notin> dso_name ` set dsos"
  by (induction dsos) auto

lemma find_dso_index_Some: "find_dso_index n dsos = Some i \<Longrightarrow> i < length dsos \<and> dso_name (dsos ! i) = n"
  by (induction dsos arbitrary: i) (auto split: if_splits)

lemma dso_set_type_ok:
  assumes "elf_ok env"
  shows "\<exists>d'. dso_set_type env n d = (0, d') \<and> dso_name d' = dso_name d \<and> dso_ranges d' = dso_ranges d \<and> dso_freed d' = dso_freed d"
  using assms by (auto simp: dso_set_type_def elf_ok_def Let_def split: option.splits)

lemma filter_distinct_key:
  "distinct (map f xs) \<Longrightarrow> i < length xs \<Longrightarrow> filter (\<lambda>x. f x = f (xs ! i)) xs = [xs ! i]"
proof (induction xs arbitrary: i)
  case (Cons x xs)
  show ?case
  proof (cases i)
    case 0
    then show ?thesis
      using Cons.prems by (auto simp: filter_empty_conv image_iff) 
  next
    case (Suc j)
    then have "f x \<noteq> f (xs ! j)"
      using Cons.prems by auto
    then show ?thesis
      using Cons Suc by simp
  qed
qed simp

lemma ranges_of_update:
  assumes "distinct (map dso_name dsos)" "i < length dsos" "dso_name d = dso_name (dsos ! i)"
  shows "ranges_of (dsos[i := d]) n = (if n = dso_name d then dso_ranges d else ranges_of dsos n)"
proof -
  have names: "map dso_name (dsos[i := d]) = map dso_name dsos"
    using assms(2,3) by (simp add: map_update list_update_same_conv)
  show ?thesis
  proof (cases "n = dso_name d")
    case True
    have "filter (\<lambda>x. dso_name x = dso_name (dsos[i := d] ! i)) (dsos[i := d]) = [dsos[i := d] ! i]"
      using assms names by (intro filter_distinct_key) auto
    then show ?thesis
      using True assms(2) by (simp add: ranges_of_def)
  next
    case False
    have "filter (\<lambda>x. dso_name x = n) (dsos[i := d]) = filter (\<lambda>x. dso_name x = n) dsos"
      using assms(2,3) False by (subst (2) id_take_nth_drop [OF assms(2)]) (simp add: upd_conv_take_nth_drop)
    then show ?thesis
      using False by (simp add: ranges_of_def)
  qed
qed

lemma ranges_of_hit:
  assumes "distinct (map dso_name dsos)" "i < length dsos"
  shows "ranges_of dsos (dso_name (dsos ! i)) = dso_ranges (dsos ! i)"
  using filter_distinct_key [OF assms] by (simp add: ranges_of_def)

lemma dso_add_range_ok:
  assumes "elf_ok env" "syms_inv dsos" "i < length dsos" "dso_name (dsos ! i) = n"
  shows "\<exists>dsos'. dso_add_range env m n i dsos = (0, dsos') \<and> syms_inv dsos' \<and>
    (\<forall>n'. ranges_of dsos' n' = ranges_of dsos n' @
       (if n' = n then [\<lparr>lr_start = me_start_addr m, lr_end = me_end_addr m, lr_file_off = me_file_off m\<rparr>] else []))"
proof -
  let ?r = "\<lparr>lr_start = me_start_addr m, lr_end = me_end_addr m, lr_file_off = me_file_off m\<rparr>"
  let ?d = "(dsos ! i)\<lparr>dso_ranges := dso_ranges (dsos ! i) @ [?r]\<rparr>"
  obtain d' where d': "dso_set_type env n ?d = (0, d')" "dso_name d' = n" "dso_ranges d' = dso_ranges (dsos ! i) @ [?r]"
    "dso_freed d' = dso_freed (dsos ! i)"
    using dso_set_type_ok [OF assms(1), of n ?d] assms(4) by auto
  have eq: "dso_add_range env m n i dsos = (0, dsos[i := d'])"
    using assms(1) d'(1) by (simp add: dso_add_range_def elf_ok_def Let_def)
  have dist: "distinct (map dso_name dsos)"
    using assms(2) by (simp add: syms_inv_def)
  have names: "map dso_name (dsos[i := d']) = map dso_name dsos"
    using assms(3,4) d'(2) by (simp add: map_update list_update_same_conv)
  have inv: "syms_inv (dsos[i := d'])"
    using assms(2,3) d'(4) names unfolding syms_inv_def
    by (auto dest!: set_update_subset_insert [THEN subsetD])
  have "ranges_of (dsos[i := d']) n' = ranges_of dsos n' @ (if n' = n then [?r] else [])" for n'
    using ranges_of_update [OF dist assms(3), of d' n'] ranges_of_hit [OF dist assms(3)] d' assms(4) by simp
  then show ?thesis
    using eq inv by blast
qed

lemma syms__add_dso_ok:
  assumes "elf_ok env" "syms_inv dsos"
  shows "\<exists>dsos'. syms__add_dso env dsos m n = (0, dsos') \<and> syms_inv dsos' \<and>
    (\<forall>n'. ranges_of dsos' n' = ranges_of dsos n' @
       (if n' = n then [\<lparr>lr_start = me_start_addr m, lr_end = me_end_addr m, lr_file_off = me_file_off m\<rparr>] else []))"
proof (cases "find_dso_index n dsos")
  case None
  let ?ds = "dsos @ [new_dso env n]"
  have "syms_inv ?ds"
    using assms(2) None by (auto simp: syms_inv_def new_dso_def find_dso_index_None)
  moreover have "ranges_of ?ds n' = ranges_of dsos n'" for n'
    by (simp add: ranges_of_def new_dso_def)
  ultimately show ?thesis
    using dso_add_range_ok [OF assms(1), of ?ds "length dsos" n m] None assms(1)
    by (simp add: syms__add_dso_def new_dso_def elf_ok_def)
next
  case (Some i)
  then show ?thesis
    using dso_add_range_ok [OF assms] find_dso_index_Some [OF Some] by (simp add: syms__add_dso_def)
qed

lemma skip_ws_buf:
  "proc_map_ok p \<Longrightarrow> skip_ws (replicate (Suc (pm_pad p)) (CHR '' '') @ pm_name p) = pm_name p"
proof -
  assume ok: "proc_map_ok p"
  have "skip_ws (replicate k (CHR '' '') @ s) = skip_ws s" for k s
    by (induction k) (simp_all add: skip_ws_def)
  then show ?thesis
    using ok by (cases "pm_name p") (auto simp: proc_map_ok_def skip_ws_def simp del: replicate_Suc)
qed

lemma maps_start: "entries_start (concat (map map_line ps))"
  using map_line_start by (cases ps) (auto simp: entries_start_def)

lemma skip_ws_newline: "skip_ws (CHR 0x0A # concat (map map_line ps)) = concat (map map_line ps)"
  using entries_start_skip_ws [OF maps_start [of ps]] by (simp add: skip_ws_def)

lemma syms_load_loop_ok:
  assumes "elf_ok env" "list_all proc_map_ok ps" "syms_inv dsos" "length ps < fuel"
    and "skip_ws s = concat (map map_line ps)"
  shows "\<exists>dsos'. syms_load_loop fuel env s dsos = Finished (Loaded dsos') \<and> syms_inv dsos' \<and>
    (\<forall>n. ranges_of dsos' n = ranges_of dsos n @ map pm_range (filter (\<lambda>p. pm_wanted p \<and> pm_name p = n) ps))"
  using assms
proof (induction ps arbitrary: fuel s dsos)
  case Nil
  then obtain f where "fuel = Suc f"
    by (cases fuel) auto
  then show ?case
    using Nil by (simp add: scan_map_line_def)
next
  case (Cons p ps)
  obtain f where f: "fuel = Suc f" "length ps < f"
    using Cons.prems(4) by (cases fuel) auto
  have ok: "proc_map_ok p" "list_all proc_map_ok ps"
    using Cons.prems(2) by auto
  let ?buf = "replicate (Suc (pm_pad p)) (CHR '' '') @ pm_name p"
  have scan: "scan_map_line s = Scan_ok (pm_map p, pm_perm p, ?buf) (CHR 0x0A # concat (map map_line ps))"
    using scan_map_line_ok [OF ok(1), of "concat (map map_line ps)"] Cons.prems(5) scan_map_skip_ws [of s] by simp
  have exec: "perm_exec (pm_perm p) \<longleftrightarrow> pm_perm p ! 2 = CHR ''x''"
    using ok(1) by (simp add: perm_exec_def proc_map_ok_def)
  have step: "syms_load_loop fuel env s dsos =
    (if \<not> pm_wanted p then syms_load_loop f env (CHR 0x0A # concat (map map_line ps)) dsos
     else let (ret, dsos) = syms__add_dso env dsos (pm_map p) (pm_name p) in
       if ret \<noteq> 0 then Finished Load_failed else syms_load_loop f env (CHR 0x0A # concat (map map_line ps)) dsos)"
    by (simp add: f scan exec skip_ws_buf [OF ok(1)] pm_wanted_def Let_def del: replicate_Suc)
  show ?case
  proof (cases "pm_wanted p")
    case False
    then show ?thesis
      using Cons.IH [OF Cons.prems(1) ok(2) Cons.prems(3) f(2) skip_ws_newline] unfolding step by simp
  next
    case True
    obtain dsos1 where d1: "syms__add_dso env dsos (pm_map p) (pm_name p) = (0, dsos1)" "syms_inv dsos1"
      "\<forall>n'. ranges_of dsos1 n' = ranges_of dsos n' @ (if n' = pm_name p then [pm_range p] else [])"
      using syms__add_dso_ok [OF Cons.prems(1,3), of "pm_map p" "pm_name p"] unfolding pm_range_def by blast
    obtain dsos' where "syms_load_loop f env (CHR 0x0A # concat (map map_line ps)) dsos1 = Finished (Loaded dsos')" "syms_inv dsos'"
      "\<forall>n. ranges_of dsos' n = ranges_of dsos1 n @ map pm_range (filter (\<lambda>p. pm_wanted p \<and> pm_name p = n) ps)"
      using Cons.IH [OF Cons.prems(1) ok(2) d1(2) f(2) skip_ws_newline] by blast
    then show ?thesis
      unfolding step using True d1 by auto
  qed
qed

text \<open>
  (C10) Loading the memory map of a process refines the list of its mappings: every file name occurs at
  most once among the objects, and the ranges recorded for it are those of its executable mappings,
  in the order of the file.  One iteration per line suffices.
\<close>

theorem syms__load_file_refines:
  assumes "elf_ok env" "list_all proc_map_ok ps" "length ps < fuel"
  shows "\<exists>dsos. syms__load_file fuel env (Some (concat (map map_line ps))) = Finished (Loaded dsos) \<and> syms_inv dsos \<and>
    (\<forall>n. ranges_of dsos n = map pm_range (filter (\<lambda>p. pm_wanted p \<and> pm_name p = n) ps))"
proof -
  have inv: "syms_inv []"
    by (simp add: syms_inv_def)
  obtain dsos where "syms_load_loop fuel env (concat (map map_line ps)) [] = Finished (Loaded dsos)" "syms_inv dsos"
    "\<forall>n. ranges_of dsos n = map pm_range (filter (\<lambda>p. pm_wanted p \<and> pm_name p = n) ps)"
    using syms_load_loop_ok [OF assms(1,2) inv assms(3) entries_start_skip_ws [OF maps_start]] by (auto simp: ranges_of_def)
  then show ?thesis
    using assms(1) by (simp add: syms__load_file_def elf_ok_def)
qed

definition sample_map :: "string \<Rightarrow> u64 \<Rightarrow> string \<Rightarrow> proc_map" where
  "sample_map perm start name =
     \<lparr>pm_map = \<lparr>me_start_addr = start, me_end_addr = start + 0x1000, me_file_off = 0, me_dev_major = 8, me_dev_minor = 1, me_inode = 77\<rparr>,
      pm_perm = perm, pm_pad = 3, pm_name = name\<rparr>"

theorem syms__load_file_refines_witness:
  "\<exists>dsos. syms__load_file 4 list_env
      (Some (concat (map map_line [sample_map ''r-xp'' 0x1000 ''/bin/a'', sample_map ''rw-p'' 0x2000 ''/bin/a'', sample_map ''r-xp'' 0x3000 ''/bin/a'']))) =
      Finished (Loaded dsos) \<and> map lr_start (ranges_of dsos ''/bin/a'') = [0x1000, 0x3000]"
proof -
  let ?ps = "[sample_map ''r-xp'' 0x1000 ''/bin/a'', sample_map ''rw-p'' 0x2000 ''/bin/a'', sample_map ''r-xp'' 0x3000 ''/bin/a'']"
  have 1: "elf_ok list_env"
    by (simp add: elf_ok_def list_env_def get_elf_type_def ET_EXEC_def ET_DYN_def)
  have 2: "list_all proc_map_ok ?ps"
    by (simp add: proc_map_ok_def sample_map_def isspace_def PATH_MAX_def)
  obtain dsos where d: "syms__load_file 4 list_env (Some (concat (map map_line ?ps))) = Finished (Loaded dsos)"
    "\<forall>n. ranges_of dsos n = map pm_range (filter (\<lambda>p. pm_wanted p \<and> pm_name p = n) ?ps)"
    using syms__load_file_refines [OF 1 2, of 4] by auto
  have "ranges_of dsos ''/bin/a'' = map pm_range [sample_map ''r-xp'' 0x1000 ''/bin/a'', sample_map ''r-xp'' 0x3000 ''/bin/a'']"
    unfolding d(2) [rule_format] by (simp add: pm_wanted_def sample_map_def is_file_backed_def)
  then show ?thesis
    using d(1) by (intro exI [of _ dsos]) (simp add: pm_range_def sample_map_def)
qed

end
