(* ===== verification/Trace_Misc.thy ===== *)
theory Trace_Misc
  imports Dso_Load
begin

text \<open>
  The remaining helpers of libbpf-tools/trace_helpers.c: the table of block devices, the probes for
  kernel modules, kernel functions, tracepoints and BPF features, and the conversion of option
  strings.
\<close>

section \<open>Partitions\<close>

definition DISK_NAME_LEN :: nat where "DISK_NAME_LEN = 32"
definition MINORBITS :: nat where "MINORBITS = 20"
definition MINORMASK :: u32 where "MINORMASK = push_bit MINORBITS 1 - 1"

definition MKDEV :: "u32 \<Rightarrow> u32 \<Rightarrow> u32" where
  "MKDEV ma mi = push_bit MINORBITS ma OR mi"

record partition =
  pt_name :: string
  pt_dev :: u32

type_synonym partitions = "partition list"

definition partitions__add_partition :: "(int \<Rightarrow> bool) \<Rightarrow> partitions \<Rightarrow> string \<Rightarrow> u32 \<Rightarrow> int \<times> partitions" where
  "partitions__add_partition mem parts name dev =
     (if \<not> mem (16 * (int (length parts) + 1)) then (-1, parts)
      else (0, parts @ [\<lparr>pt_name = name, pt_dev = dev\<rparr>]))"

text \<open>\<^verbatim>\<open>sscanf (buf, "%u %u %llu %s")\<close>; \<^verbatim>\<open>%u\<close> keeps the low 32 bits.\<close>

definition scan_partition :: "string \<Rightarrow> (u32 \<times> u32 \<times> string) scan_res" where
  "scan_partition buf =
     (case (do {
        (devmaj, s) \<leftarrow> scan_num 10 buf;
        (devmin, s) \<leftarrow> scan_num 10 s;
        (nop, s) \<leftarrow> scan_num 10 s;
        (part_name, s) \<leftarrow> scan_s s;
        Some (ucast devmaj, ucast devmin, part_name, s)
      }) of
        None \<Rightarrow> Scan_bad
      | Some (devmaj, devmin, part_name, s) \<Rightarrow>
          if length part_name \<ge> DISK_NAME_LEN then Scan_overflow else Scan_ok (devmaj, devmin, part_name) s)"

fun partitions_load_loop :: "nat \<Rightarrow> (int \<Rightarrow> bool) \<Rightarrow> string \<Rightarrow> partitions \<Rightarrow> partitions load_res loop_res" where
  "partitions_load_loop 0 mem s parts = Timeout"
| "partitions_load_loop (Suc fuel) mem s parts =
     (case fgets 64 s of
        None \<Rightarrow> Finished (Loaded parts)
      | Some (buf, s) \<Rightarrow>
          if hd buf \<noteq> CHR '' '' \<or> hd buf = CHR 0x0A then partitions_load_loop fuel mem s parts
          else
            (case scan_partition buf of
               Scan_ok (devmaj, devmin, part_name) _ \<Rightarrow>
                 let (ret, parts) = partitions__add_partition mem parts part_name (MKDEV devmaj devmin) in
                 if ret \<noteq> 0 then Finished Load_failed else partitions_load_loop fuel mem s parts
             | Scan_overflow \<Rightarrow> Fault
             | _ \<Rightarrow> Finished Load_failed))"

definition partitions__load :: "nat \<Rightarrow> bool \<Rightarrow> (int \<Rightarrow> bool) \<Rightarrow> string option \<Rightarrow> partitions load_res loop_res" where
  "partitions__load fuel calloc_ok mem file =
     (case file of
        None \<Rightarrow> Finished Load_failed
      | Some text \<Rightarrow> if \<not> calloc_ok then Finished Load_failed else partitions_load_loop fuel mem text [])"

definition partitions__get_by_dev :: "partitions \<Rightarrow> u32 \<Rightarrow> partition option" where
  "partitions__get_by_dev parts dev = find (\<lambda>p. pt_dev p = dev) parts"

definition partitions__get_by_name :: "partitions \<Rightarrow> string \<Rightarrow> partition option" where
  "partitions__get_by_name parts name = find (\<lambda>p. pt_name p = name) parts"

section \<open>Time\<close>

definition NSEC_PER_SEC :: u64 where "NSEC_PER_SEC = 1000000000"

definition get_ktime_ns :: "u64 \<times> u64 \<Rightarrow> u64" where
  "get_ktime_ns ts = fst ts * NSEC_PER_SEC + snd ts"

section \<open>Probes\<close>

text \<open>
  \<^verbatim>\<open>is_kernel_module\<close> scans each line into the buffer it was read into; a line without a word ends
  the search.
\<close>

fun module_loop :: "nat \<Rightarrow> string \<Rightarrow> string \<Rightarrow> bool loop_res" where
  "module_loop 0 name s = Timeout"
| "module_loop (Suc fuel) name s =
     (case fgets 64 s of
        None \<Rightarrow> Finished False
      | Some (buf, s) \<Rightarrow>
          (case scan_s buf of
             None \<Rightarrow> Finished False
           | Some (w, _) \<Rightarrow> if w = name then Finished True else module_loop fuel name s))"

definition is_kernel_module :: "nat \<Rightarrow> string option \<Rightarrow> string \<Rightarrow> bool loop_res" where
  "is_kernel_module fuel modules name =
     (case modules of None \<Rightarrow> Finished False | Some s \<Rightarrow> module_loop fuel name s)"

text \<open>The answers of libbpf and the kernel that the feature probes ask for.\<close>

record bpf_env =
  vmlinux_btf :: "int option"
  module_btf :: "string \<Rightarrow> int option"
  btf_func_id :: "int \<Rightarrow> string \<Rightarrow> int"
  fentry_prog_load :: "int \<Rightarrow> int"
  raw_tp_open :: "int \<Rightarrow> int"
  tp_btf_prog_load :: "string \<Rightarrow> int"
  ringbuf_create :: int
  ns_prog_load :: int
  path_accessible :: "string \<Rightarrow> bool"

definition fentry_try_attach :: "bpf_env \<Rightarrow> int \<Rightarrow> bool" where
  "fentry_try_attach env bid =
     (let prog_fd = fentry_prog_load env bid in
      if prog_fd < 0 then False else raw_tp_open env prog_fd \<ge> 0)"

definition fentry_can_attach :: "bpf_env \<Rightarrow> string \<Rightarrow> string option \<Rightarrow> bool" where
  "fentry_can_attach env name module_name =
     (case vmlinux_btf env of
        None \<Rightarrow> False
      | Some vmlinux \<Rightarrow>
          let btf = (case module_name of
                       None \<Rightarrow> vmlinux
                     | Some m \<Rightarrow> (case module_btf env m of None \<Rightarrow> vmlinux | Some b \<Rightarrow> b));
              bid = btf_func_id env btf name
          in bid > 0 \<and> fentry_try_attach env bid)"

definition DEBUGFS :: string where "DEBUGFS = ''/sys/kernel/debug/tracing''"
definition TRACEFS :: string where "TRACEFS = ''/sys/kernel/tracing''"

text \<open>The static variable \<^verbatim>\<open>has_debugfs\<close> of \<^verbatim>\<open>use_debugfs\<close> is negative until the first call.\<close>

definition use_debugfs :: "bpf_env \<Rightarrow> int \<Rightarrow> bool \<times> int" where
  "use_debugfs env has_debugfs =
     (let has_debugfs = (if has_debugfs < 0 then (if path_accessible env DEBUGFS then 1 else 0) else has_debugfs)
      in (has_debugfs = 1, has_debugfs))"

definition tracefs_path :: "bpf_env \<Rightarrow> int \<Rightarrow> string \<times> int" where
  "tracefs_path env st = (let (u, st) = use_debugfs env st in (if u then DEBUGFS else TRACEFS, st))"

definition tracefs_available_filter_functions :: "bpf_env \<Rightarrow> int \<Rightarrow> string \<times> int" where
  "tracefs_available_filter_functions env st =
     (let (u, st) = use_debugfs env st in
      ((if u then DEBUGFS else TRACEFS) @ ''/available_filter_functions'', st))"

text \<open>
  The loops of \<^verbatim>\<open>kprobe_exists\<close> over a file whose lines hold the name in the last of the fields that
  \<open>scan\<close> reads: found, not found (the end of the file or an unreadable line), or a word that does
  not fit the buffers of 256 characters.
\<close>

fun name_loop :: "nat \<Rightarrow> (string \<Rightarrow> string scan_res) \<Rightarrow> string \<Rightarrow> string \<Rightarrow> bool loop_res" where
  "name_loop 0 scan name s = Timeout"
| "name_loop (Suc fuel) scan name s =
     (case scan s of
        Scan_eof \<Rightarrow> Finished False
      | Scan_bad \<Rightarrow> Finished False
      | Scan_overflow \<Rightarrow> Fault
      | Scan_ok sym_name s \<Rightarrow> if name = sym_name then Finished True else name_loop fuel scan name s)"

definition scan_blacklist :: "string \<Rightarrow> string scan_res" where
  "scan_blacklist s =
     (if skip_ws s = [] then Scan_eof
      else
        case (do { (rng, s) \<leftarrow> scan_s s; (name, s) \<leftarrow> scan_s s; Some (rng, name, s) }) of
          None \<Rightarrow> Scan_bad
        | Some (rng, name, s) \<Rightarrow>
            if length rng \<ge> 256 \<or> length name \<ge> 256 then Scan_overflow
            else Scan_ok name (skip_rest_of_line s))"

definition scan_avail :: "string \<Rightarrow> string scan_res" where
  "scan_avail s =
     (case scan_s s of
        None \<Rightarrow> Scan_eof
      | Some (name, s) \<Rightarrow> if length name \<ge> 256 then Scan_overflow else Scan_ok name (skip_rest_of_line s))"

definition scan_ksym_name :: "string \<Rightarrow> string scan_res" where
  "scan_ksym_name s =
     (case scan_kallsyms_line s of
        Scan_eof \<Rightarrow> Scan_eof
      | Scan_bad \<Rightarrow> Scan_bad
      | Scan_overflow \<Rightarrow> Scan_overflow
      | Scan_ok (addr, ty, name) s \<Rightarrow> Scan_ok name s)"

definition kprobe_exists ::
  "nat \<Rightarrow> bpf_env \<Rightarrow> (string \<Rightarrow> string option) \<Rightarrow> int \<Rightarrow> string \<Rightarrow> (bool \<times> int) loop_res" where
  "kprobe_exists fuel env files st name =
     (case (case files ''/sys/kernel/debug/kprobes/blacklist'' of
              None \<Rightarrow> Finished False
            | Some s \<Rightarrow> name_loop fuel scan_blacklist name s) of
        Timeout \<Rightarrow> Timeout
      | Fault \<Rightarrow> Fault
      | Finished True \<Rightarrow> Finished (False, st)
      | Finished False \<Rightarrow>
          let (path, st) = tracefs_available_filter_functions env st in
          (case (case files path of
                   Some s \<Rightarrow> name_loop fuel scan_avail name s
                 | None \<Rightarrow>
                     (case files ''/proc/kallsyms'' of
                        None \<Rightarrow> Finished False
                      | Some s \<Rightarrow> name_loop fuel scan_ksym_name name s)) of
             Finished found \<Rightarrow> Finished (found, st)
           | Timeout \<Rightarrow> Timeout
           | Fault \<Rightarrow> Fault))"

definition tracepoint_exists :: "bpf_env \<Rightarrow> int \<Rightarrow> string \<Rightarrow> string \<Rightarrow> bool \<times> int" where
  "tracepoint_exists env st category event =
     (let (path, st) = tracefs_path env st in
      (path_accessible env (snprintf_trunc PATH_MAX
         (path @ ''/events/'' @ category @ ''/'' @ event @ ''/format'')), st))"

definition vmlinux_btf_exists :: "bpf_env \<Rightarrow> bool" where
  "vmlinux_btf_exists env = (vmlinux_btf env \<noteq> None)"

definition module_btf_exists :: "bpf_env \<Rightarrow> string option \<Rightarrow> bool" where
  "module_btf_exists env m =
     (case m of
        None \<Rightarrow> False
      | Some m \<Rightarrow> path_accessible env (snprintf_trunc 80 (''/sys/kernel/btf/'' @ m)))"

definition probe_tp_btf :: "bpf_env \<Rightarrow> string \<Rightarrow> bool" where
  "probe_tp_btf env name = (tp_btf_prog_load env name \<ge> 0)"

definition probe_ringbuf :: "bpf_env \<Rightarrow> bool" where
  "probe_ringbuf env = (\<not> ringbuf_create env < 0)"

definition probe_bpf_ns_current_pid_tgid :: "bpf_env \<Rightarrow> bool" where
  "probe_bpf_ns_current_pid_tgid env = (ns_prog_load env \<ge> 0)"

section \<open>Option strings\<close>

definition EINVAL :: int where "EINVAL = 22"
definition ENOBUFS :: int where "ENOBUFS = 105"

text \<open>
  \<^verbatim>\<open>split_convert\<close>: the elements written, in order, and the return value.  \<open>convert\<close> returns its
  error code and the element it stored.
\<close>

function split_loop :: "string \<Rightarrow> nat \<Rightarrow> nat \<Rightarrow> (string \<Rightarrow> int \<times> 'a) \<Rightarrow> string \<Rightarrow> 'a list \<Rightarrow> int \<times> 'a list" where
  "split_loop delim elems_size elem_size convert s elems =
     (case strtok delim s of
        None \<Rightarrow> (0, elems)
      | Some (token, rest) \<Rightarrow>
          if (length elems + 1) * elem_size > elems_size then (- ENOBUFS, elems)
          else
            let (ret, e) = convert token in
            if ret \<noteq> 0 then (- ret, elems @ [e])
            else split_loop delim elems_size elem_size convert rest (elems @ [e]))"
  by pat_completeness auto
termination
  by (relation "measure (\<lambda>(delim, elems_size, elem_size, convert, s, elems). length s)") (auto dest: strtok_shorter)

declare split_loop.simps [simp del]

definition split_convert ::
  "string option \<Rightarrow> string option \<Rightarrow> bool \<Rightarrow> nat \<Rightarrow> nat \<Rightarrow> (string \<Rightarrow> int \<times> 'a) \<Rightarrow> int \<times> 'a list" where
  "split_convert s delim elems_ok elems_size elem_size convert =
     (case (s, delim) of
        (Some s, Some delim) \<Rightarrow>
          if \<not> elems_ok then (- EINVAL, []) else split_loop delim elems_size elem_size convert s []
      | _ \<Rightarrow> (- EINVAL, []))"

text \<open>\<^verbatim>\<open>errno\<close> and the element stored.\<close>

definition str_to_int :: "string \<Rightarrow> int \<times> int" where
  "str_to_int src = (let (v, range_err) = strtol src in (if range_err then ERANGE else 0, to_int32 v))"

definition str_to_long :: "string \<Rightarrow> int \<times> int" where
  "str_to_long src = (let (v, range_err) = strtol src in (if range_err then ERANGE else 0, v))"

text \<open>
  \<^verbatim>\<open>str_loadavg\<close>: \<open>file\<close> is the contents of \<^verbatim>\<open>/proc/loadavg\<close> or the error of opening it, \<open>rerr\<close> the
  error of reading it; the second component is what is left in \<^verbatim>\<open>buf\<close>.
\<close>

definition str_loadavg :: "bool \<Rightarrow> nat \<Rightarrow> int + string \<Rightarrow> int \<Rightarrow> int \<times> string" where
  "str_loadavg buf_ok buf_len file rerr =
     (if \<not> buf_ok \<or> buf_len = 0 then (- EINVAL, [])
      else
        case file of
          Inl err \<Rightarrow> (- err, [])
        | Inr text \<Rightarrow>
            let avg = take 63 text in
            if avg = [] then (if rerr \<noteq> 0 then - rerr else 0, [])
            else
              let s = ''loadavg: '' @ takeWhile (\<lambda>c. c \<noteq> CHR 0x00) avg; n = int (length s)
              in (if n \<ge> int buf_len then - ERANGE else n, snprintf_trunc buf_len s))"

end
