(* ===== verification/Trace_Files.thy ===== *)
theory Trace_Files
  imports Trace_Misc
begin

text \<open>
  What the helpers of libbpf-tools/trace_helpers.c make of the files they read and the strings they
  split: \<^verbatim>\<open>kprobe_exists\<close>, \<^verbatim>\<open>split_convert\<close> and \<^verbatim>\<open>partitions__load\<close>.
\<close>

section \<open>Files of lines\<close>

text \<open>
  The contract between the text of a file, one line for each entry, and the conversion that reads
  it: a line yields its entry and leaves the rest of the file, apart from white space before it.
\<close>

locale line_scanner =
  fixes scan :: "string \<Rightarrow> 'a scan_res"
    and render :: "'e \<Rightarrow> string"
    and ok :: "'e \<Rightarrow> bool"
    and val :: "'e \<Rightarrow> 'a"
  assumes scan_ws: "scan (skip_ws s) = scan s"
    and scan_end: "skip_ws s = [] \<Longrightarrow> scan s = Scan_eof"
    and render_start: "ok e \<Longrightarrow> entries_start (render e @ rest)"
    and scan_entry: "ok e \<Longrightarrow> entries_start rest \<Longrightarrow> \<exists>s'. scan (render e @ rest) = Scan_ok (val e) s' \<and> skip_ws s' = rest"
begin

lemma file_start: "list_all ok es \<Longrightarrow> entries_start (concat (map render es))"
  using render_start by (cases es) (auto simp: entries_start_def)

lemma scan_file:
  assumes "list_all ok (e # es)" "skip_ws s = concat (map render (e # es))"
  shows "\<exists>s'. scan s = Scan_ok (val e) s' \<and> skip_ws s' = concat (map render es)"
proof -
  have "entries_start (concat (map render es))" "ok e"
    using assms(1) file_start by auto
  then show ?thesis
    using scan_entry [of e "concat (map render es)"] assms(2) scan_ws [of s] by auto
qed

end

locale name_scanner = line_scanner scan render ok val
  for scan :: "string \<Rightarrow> string scan_res" and render :: "'e \<Rightarrow> string" and ok and val
begin

lemma name_loop_finds:
  assumes "list_all ok es" "skip_ws s = concat (map render es)" "length es < fuel"
  shows "name_loop fuel scan name s = Finished (name \<in> val ` set es)"
  using assms
proof (induction es arbitrary: s fuel)
  case Nil
  then obtain f where "fuel = Suc f"
    by (cases fuel) auto
  then show ?case
    using scan_end Nil by simp
next
  case (Cons e es)
  obtain f where f: "fuel = Suc f" "length es < f"
    using Cons.prems(3) by (cases fuel) auto
  obtain s' where s': "scan s = Scan_ok (val e) s'" "skip_ws s' = concat (map render es)"
    using scan_file [OF Cons.prems(1,2)] by blast
  have "name_loop f scan name s' = Finished (name \<in> val ` set es)"
    using Cons.IH [OF _ s'(2) f(2)] Cons.prems(1) by simp
  then show ?case
    using s'(1) f(1) by auto
qed

lemma name_file_finds:
  assumes "list_all ok es" "length es < fuel"
  shows "name_loop fuel scan name (concat (map render es)) = Finished (name \<in> val ` set es)"
  by (rule name_loop_finds [OF assms(1) entries_start_skip_ws [OF file_start [OF assms(1)]] assms(2)])

end

text \<open>
  The files that \<^verbatim>\<open>kprobe_exists\<close> reads: a word, or an address range and a word, and the rest of the line.  Usually the line
  ends with the word, and the conversion of the rest of the line fails; the name of a module may follow.
\<close>

definition word_ok :: "string \<Rightarrow> bool" where
  "word_ok w \<longleftrightarrow> w \<noteq> [] \<and> length w < 256 \<and> list_all (Not \<circ> isspace) w"

definition avail_line :: "string \<times> string \<Rightarrow> string" where
  "avail_line e = fst e @ snd e @ [CHR 0x0A]"

definition avail_ok :: "string \<times> string \<Rightarrow> bool" where
  "avail_ok e \<longleftrightarrow> word_ok (fst e) \<and> CHR 0x0A \<notin> set (snd e) \<and> (snd e \<noteq> [] \<longrightarrow> isspace (hd (snd e)))"

definition blacklist_line :: "string \<times> string \<times> string \<Rightarrow> string" where
  "blacklist_line e = fst e @ CHR 0x09 # avail_line (snd e)"

definition blacklist_ok :: "string \<times> string \<times> string \<Rightarrow> bool" where
  "blacklist_ok e \<longleftrightarrow> word_ok (fst e) \<and> avail_ok (snd e)"

lemma word_start: "word_ok w \<Longrightarrow> entries_start (w @ rest)"
  by (cases w) (auto simp: word_ok_def entries_start_def)

lemma scan_s_ws_idem: "scan_s (skip_ws s) = scan_s s"
  by (simp add: scan_s_def)

lemma scan_s_end: "skip_ws s = [] \<Longrightarrow> scan_s s = None"
  by (simp add: scan_s_def)

lemma scan_s_word_ok: "word_ok w \<Longrightarrow> isspace c \<Longrightarrow> scan_s (w @ c # rest) = Some (w, c # rest)"
  by (intro scan_s_word) (auto simp: word_ok_def)

lemma avail_line_append: "avail_line e @ rest = fst e @ snd e @ CHR 0x0A # rest"
  by (simp add: avail_line_def)

lemma scan_s_avail:
  assumes "avail_ok e"
  shows "scan_s (avail_line e @ rest) = Some (fst e, snd e @ CHR 0x0A # rest)"
  unfolding avail_line_append using assms by (intro scan_s_word) (auto simp: avail_ok_def word_ok_def hd_append)

lemma blacklist_line_append: "blacklist_line e @ rest = fst e @ CHR 0x09 # avail_line (snd e) @ rest"
  by (simp add: blacklist_line_def)

interpretation av: name_scanner scan_avail avail_line avail_ok fst
proof
  show "scan_avail (skip_ws s) = scan_avail s" for s
    by (simp add: scan_avail_def scan_s_ws_idem)
  show "scan_avail s = Scan_eof" if "skip_ws s = []" for s
    using that by (simp add: scan_avail_def scan_s_end)
  show "entries_start (avail_line e @ rest)" if "avail_ok e" for e rest
    unfolding avail_line_append using that by (intro word_start) (simp add: avail_ok_def)
  show "\<exists>s'. scan_avail (avail_line e @ rest) = Scan_ok (fst e) s' \<and> skip_ws s' = rest"
    if "avail_ok e" "entries_start rest" for e rest
    using that skip_rest_of_line_eq [of "snd e" rest] by (simp add: scan_avail_def scan_s_avail) (simp add: avail_ok_def word_ok_def)
qed

interpretation bl: name_scanner scan_blacklist blacklist_line blacklist_ok "fst \<circ> snd"
proof
  show "scan_blacklist (skip_ws s) = scan_blacklist s" for s
    by (simp add: scan_blacklist_def scan_s_ws_idem)
  show "scan_blacklist s = Scan_eof" if "skip_ws s = []" for s
    using that by (simp add: scan_blacklist_def)
  show "entries_start (blacklist_line e @ rest)" if "blacklist_ok e" for e rest
    unfolding blacklist_line_append using that by (intro word_start) (simp add: blacklist_ok_def)
  show "\<exists>s'. scan_blacklist (blacklist_line e @ rest) = Scan_ok ((fst \<circ> snd) e) s' \<and> skip_ws s' = rest"
    if ok: "blacklist_ok e" and rest: "entries_start rest" for e rest
  proof -
    have w: "word_ok (fst e)" "avail_ok (snd e)" "word_ok (fst (snd e))" "CHR 0x0A \<notin> set (snd (snd e))"
      using ok by (auto simp: blacklist_ok_def avail_ok_def)
    have "scan_s (blacklist_line e @ rest) = Some (fst e, CHR 0x09 # avail_line (snd e) @ rest)"
      unfolding blacklist_line_append by (rule scan_s_word_ok [OF w(1)]) simp
    moreover have "scan_s (CHR 0x09 # avail_line (snd e) @ rest) = Some (fst (snd e), snd (snd e) @ CHR 0x0A # rest)"
      by (subst scan_s_ws) (simp_all add: scan_s_avail [OF w(2)])
    moreover have "skip_ws (blacklist_line e @ rest) \<noteq> []"
      using calculation(1) scan_s_end by fastforce
    ultimately show ?thesis
      using w(1,3) skip_rest_of_line_eq [OF w(4) rest] by (simp add: scan_blacklist_def word_ok_def)
  qed
qed

interpretation ka: name_scanner scan_ksym_name kallsyms_line kallsyms_entry_ok ke_name
proof
  show "scan_ksym_name (skip_ws s) = scan_ksym_name s" for s
    by (simp add: scan_ksym_name_def scan_kallsyms_skip_ws)
  show "scan_ksym_name s = Scan_eof" if "skip_ws s = []" for s
    using that by (simp add: scan_ksym_name_def scan_kallsyms_line_def)
  show "entries_start (kallsyms_line e @ rest)" for e rest
    by (rule kallsyms_line_start)
  show "\<exists>s'. scan_ksym_name (kallsyms_line e @ rest) = Scan_ok (ke_name e) s' \<and> skip_ws s' = rest"
    if "kallsyms_entry_ok e" "entries_start rest" for e rest
    using scan_kallsyms_line_ok [OF that] by (auto simp: scan_ksym_name_def)
qed

text \<open>
  (C12) \<^verbatim>\<open>kprobe_exists\<close> on well-formed files, whose lines end with the name or have more text behind it: a function can be probed
  if it is not on the blacklist and occurs in the list of functions that can be traced or, where the kernel does not offer
  that list, among the kernel's symbols.
\<close>

theorem kprobe_exists_spec:
  assumes "list_all blacklist_ok bs" "list_all avail_ok as" "list_all kallsyms_entry_ok ks"
    and "length bs < fuel" "length as < fuel" "length ks < fuel"
    and "files ''/sys/kernel/debug/kprobes/blacklist'' = Some (concat (map blacklist_line bs))"
    and "files (fst (tracefs_available_filter_functions env st)) =
           (if has_avail then Some (concat (map avail_line as)) else None)"
    and "files ''/proc/kallsyms'' = Some (concat (map kallsyms_line ks))"
  shows "\<exists>st'. kprobe_exists fuel env files st name =
    Finished (name \<notin> (fst \<circ> snd) ` set bs \<and> name \<in> (if has_avail then fst ` set as else ke_name ` set ks), st')"
proof -
  have b: "name_loop fuel scan_blacklist name (concat (map blacklist_line bs)) = Finished (name \<in> (fst \<circ> snd) ` set bs)"
    by (rule bl.name_file_finds [OF assms(1,4)])
  have a: "name_loop fuel scan_avail name (concat (map avail_line as)) = Finished (name \<in> fst ` set as)"
    by (rule av.name_file_finds [OF assms(2,5)])
  have k: "name_loop fuel scan_ksym_name name (concat (map kallsyms_line ks)) = Finished (name \<in> ke_name ` set ks)"
    by (rule ka.name_file_finds [OF assms(3,6)])
  obtain path st1 where p: "tracefs_available_filter_functions env st = (path, st1)"
    by (cases "tracefs_available_filter_functions env st")
  show ?thesis
    using assms(8) unfolding kprobe_exists_def assms(7,9) option.case b p
    by (cases "name \<in> (fst \<circ> snd) ` set bs"; cases has_avail) (simp_all add: a k)
qed

definition no_env :: bpf_env where
  "no_env = \<lparr>vmlinux_btf = None, module_btf = (\<lambda>_. None), btf_func_id = (\<lambda>_ _. -1), fentry_prog_load = (\<lambda>_. -1),
     raw_tp_open = (\<lambda>_. -1), tp_btf_prog_load = (\<lambda>_. -1), ringbuf_create = -1, ns_prog_load = -1,
     path_accessible = (\<lambda>_. False)\<rparr>"

definition probe_files :: "string \<Rightarrow> string option" where
  "probe_files p =
     (if p = ''/sys/kernel/debug/kprobes/blacklist'' then Some (blacklist_line (''0xc0de-0xc0ff'', ''bad'', []))
      else if p = TRACEFS @ ''/available_filter_functions'' then Some (avail_line (''good'', []) @ avail_line (''other'', '' [mod]''))
      else if p = ''/proc/kallsyms'' then Some [] else None)"

theorem kprobe_exists_spec_witness:
  "\<exists>st'. kprobe_exists 3 no_env probe_files (-1) ''other'' = Finished (True, st')"
proof -
  have 1: "list_all blacklist_ok [(''0xc0de-0xc0ff'', ''bad'', [])]" "list_all avail_ok [(''good'', []), (''other'', '' [mod]'')]"
    "list_all kallsyms_entry_ok []"
    by (simp_all add: blacklist_ok_def avail_ok_def word_ok_def isspace_def)
  have 2: "fst (tracefs_available_filter_functions no_env (-1)) = TRACEFS @ ''/available_filter_functions''"
    by (simp add: tracefs_available_filter_functions_def use_debugfs_def no_env_def)
  have 3: "probe_files ''/sys/kernel/debug/kprobes/blacklist'' = Some (concat (map blacklist_line [(''0xc0de-0xc0ff'', ''bad'', [])]))"
    "probe_files (fst (tracefs_available_filter_functions no_env (-1))) =
      (if True then Some (concat (map avail_line [(''good'', []), (''other'', '' [mod]'')])) else None)"
    "probe_files ''/proc/kallsyms'' = Some (concat (map kallsyms_line []))"
    unfolding 2 by (simp_all add: probe_files_def TRACEFS_def)
  show ?thesis
    using kprobe_exists_spec [OF 1 _ _ _ 3, of 3 "''other''"] by simp
qed

section \<open>Splitting option strings\<close>

text \<open>The tokens of a string: its maximal pieces without a delimiter.\<close>

fun pieces :: "string \<Rightarrow> string \<Rightarrow> string list" where
  "pieces delim [] = [[]]"
| "pieces delim (c # s) =
     (if c \<in> set delim then [] # pieces delim s
      else (c # hd (pieces delim s)) # tl (pieces delim s))"

definition tokens :: "string \<Rightarrow> string \<Rightarrow> string list" where
  "tokens delim s = filter (\<lambda>t. t \<noteq> []) (pieces delim s)"

lemma pieces_ne [simp]: "pieces delim s \<noteq> []"
  by (cases s) auto

lemma tokens_delim: "c \<in> set delim \<Longrightarrow> tokens delim (c # s) = tokens delim s"
  by (simp add: tokens_def)

lemma tokens_dropWhile: "tokens delim (dropWhile (\<lambda>c. c \<in> set delim) s) = tokens delim s"
  by (induction s) (auto simp: tokens_delim)

lemma pieces_word:
  "list_all (\<lambda>c. c \<notin> set delim) w \<Longrightarrow> pieces delim (w @ s) = (w @ hd (pieces delim s)) # tl (pieces delim s)"
  by (induction w) auto

lemma tokens_word:
  assumes "w \<noteq> []" "list_all (\<lambda>c. c \<notin> set delim) w" "s \<noteq> [] \<longrightarrow> hd s \<in> set delim"
  shows "tokens delim (w @ s) = w # tokens delim (drop 1 s)"
  using assms pieces_word [OF assms(2), of s] by (cases s) (auto simp: tokens_def)

lemma tokens_strtok:
  "tokens delim s = (case strtok delim s of None \<Rightarrow> [] | Some (t, rest) \<Rightarrow> t # tokens delim rest)"
proof -
  let ?u = "dropWhile (\<lambda>c. c \<in> set delim) s"
  have u: "tokens delim s = tokens delim ?u"
    by (simp add: tokens_dropWhile)
  show ?thesis
  proof (cases "?u = []")
    case True
    show ?thesis
      unfolding u strtok_def Let_def True by (simp add: tokens_def)
  next
    case False
    let ?w = "takeWhile (\<lambda>c. c \<notin> set delim) ?u" and ?r = "dropWhile (\<lambda>c. c \<notin> set delim) ?u"
    have "hd ?u \<notin> set delim"
      using hd_dropWhile [OF False] by simp
    then have "?w \<noteq> []"
      using False by (cases ?u) auto
    moreover have "list_all (\<lambda>c. c \<notin> set delim) ?w"
      by (auto simp: list_all_iff dest: set_takeWhileD)
    moreover have "?r \<noteq> [] \<longrightarrow> hd ?r \<in> set delim"
      using hd_dropWhile [of "\<lambda>c. c \<notin> set delim" ?u] by auto
    ultimately have "tokens delim (?w @ ?r) = ?w # tokens delim (drop 1 ?r)"
      by (rule tokens_word)
    then show ?thesis
      using False unfolding u strtok_def Let_def by simp
  qed
qed

lemma split_loop_ok:
  assumes "\<forall>t \<in> set (tokens delim s). fst (convert t) = 0" "0 < elem_size" "length elems * elem_size \<le> elems_size"
  shows "split_loop delim elems_size elem_size convert s elems =
    (let ts = tokens delim s; room = elems_size div elem_size - length elems in
     (if length ts \<le> room then 0 else - ENOBUFS, elems @ map (snd \<circ> convert) (take room ts)))"
  using assms
proof (induction delim elems_size elem_size convert s elems rule: split_loop.induct)
  case (1 delim elems_size elem_size convert s elems)
  have le: "length elems \<le> elems_size div elem_size"
    using "1.prems"(2,3) by (simp add: less_eq_div_iff_mult_less_eq)
  show ?case
  proof (cases "strtok delim s")
    case None
    then show ?thesis
      by (subst split_loop.simps) (simp add: tokens_strtok [of delim s])
  next
    case (Some p)
    obtain t rest where p: "p = (t, rest)"
      by (cases p)
    have ts: "tokens delim s = t # tokens delim rest"
      by (simp add: tokens_strtok [of delim s] Some p)
    have full: "(length elems + 1) * elem_size > elems_size \<longleftrightarrow> elems_size div elem_size = length elems"
      using le "1.prems"(2) by (metis Suc_eq_plus1 div_less_iff_less_mult le_antisym less_Suc_eq_le)
    show ?thesis
    proof (cases "elems_size div elem_size = length elems")
      case True
      then show ?thesis
        using Some p full ts by (subst split_loop.simps) simp
    next
      case False
      then have room: "\<not> (length elems + 1) * elem_size > elems_size"
        using full by simp
      obtain e where e: "convert t = (0, e)"
        using "1.prems"(1) ts by (cases "convert t") auto
      have IH: "split_loop delim elems_size elem_size convert rest (elems @ [e]) =
        (let ts = tokens delim rest; room = elems_size div elem_size - length (elems @ [e]) in
         (if length ts \<le> room then 0 else - ENOBUFS, (elems @ [e]) @ map (snd \<circ> convert) (take room ts)))"
        using "1.IH" [OF Some p [symmetric] room refl e [symmetric]] "1.prems"(1,2) ts room by (simp add: comp_def)
      have r: "elems_size div elem_size - length elems = Suc (elems_size div elem_size - Suc (length elems))"
        using le False by simp
      show ?thesis
        using room IH by (subst split_loop.simps) (simp add: Some p e ts r Let_def comp_def)
    qed
  qed
qed

text \<open>
  (C13) \<^verbatim>\<open>split_convert\<close> converts the tokens of the string in order and never writes past the buffer: when
  all tokens convert it stores as many elements as fit, and returns success exactly when all of them
  did.
\<close>

theorem split_convert_tokens:
  assumes "\<forall>t \<in> set (tokens delim s). fst (convert t) = 0" "0 < elem_size"
  shows "split_convert (Some s) (Some delim) True elems_size elem_size convert =
    (if length (tokens delim s) * elem_size \<le> elems_size then (0, map (snd \<circ> convert) (tokens delim s))
     else (- ENOBUFS, map (snd \<circ> convert) (take (elems_size div elem_size) (tokens delim s))))"
  using split_loop_ok [OF assms, of "[]" elems_size] assms(2)
  by (simp add: split_convert_def Let_def less_eq_div_iff_mult_less_eq)

theorem split_convert_tokens_witness:
  "split_convert (Some ''1,2,,3'') (Some '','') True 8 4 (\<lambda>t. (0, t)) = (- ENOBUFS, [''1'', ''2''])"
  using split_convert_tokens [of "'',''" "''1,2,,3''" "\<lambda>t. (0, t)" 4 8] by (simp add: tokens_def)

section \<open>Device numbers and partitions\<close>

lemma MKDEV_inj:
  assumes "ma < 4096" "ma' < 4096" "mi < 1048576" "mi' < 1048576" "MKDEV ma mi = MKDEV ma' mi'"
  shows "ma = ma' \<and> mi = mi'"
proof -
  have u: "unat (MKDEV a b) = unat a * 1048576 + unat b" if "a < 4096" "b < 1048576" for a b
  proof -
    have a: "unat a < 4096" and b: "unat b < 1048576"
      using that by (simp_all add: word_less_nat_alt)
    have p: "unat (push_bit 20 a) = unat a * 1048576"
      using a by (simp add: push_bit_eq_mult unat_word_ariths)
    have "(push_bit 20 (unat a)) AND unat b = 0"
    proof (rule bit_eqI)
      fix n
      show "bit (push_bit 20 (unat a) AND unat b) n \<longleftrightarrow> bit (0::nat) n"
      proof (cases "n < 20")
        case False
        then have "unat b < 2 ^ n"
          using b power_increasing [of 20 n "2::nat"] by simp
        then have "\<not> bit (unat b) n"
          by (simp add: bit_iff_odd)
        then show ?thesis
          by (simp add: bit_and_iff)
      qed (simp add: bit_and_iff bit_push_bit_iff)
    qed
    then have "push_bit 20 (unat a) OR unat b = push_bit 20 (unat a) + unat b"
      by (rule disjunctive_add_eq_or [symmetric])
    then show ?thesis
      unfolding MKDEV_def MINORBITS_def unsigned_or_eq p by (simp add: push_bit_eq_mult)
  qed
  have b: "unat mi < 1048576" "unat mi' < 1048576"
    using assms(3,4) by (simp_all add: word_less_nat_alt)
  have "unat ma * 1048576 + unat mi = unat ma' * 1048576 + unat mi'"
    using u [OF assms(1,3)] u [OF assms(2,4)] assms(5) by simp
  moreover have "(x * 1048576 + y) div 1048576 = x \<and> (x * 1048576 + y) mod 1048576 = y" if "y < 1048576" for x y :: nat
    using that by simp
  ultimately have "unat ma = unat ma' \<and> unat mi = unat mi'"
    using b by metis
  then show ?thesis
    by (auto intro: unsigned_word_eqI)
qed

text \<open>The text of \<^verbatim>\<open>/proc/partitions\<close>: two heading lines, then a line for each partition.\<close>

record part_entry =
  pe_major :: u32
  pe_minor :: u32
  pe_blocks :: u64
  pe_name :: string

definition part_line :: "part_entry \<Rightarrow> string" where
  "part_line e =
     CHR '' '' # pad_left 4 (nat_digits 10 (unat (pe_major e))) @ CHR '' '' # pad_left 8 (nat_digits 10 (unat (pe_minor e))) @
     CHR '' '' # pad_left 10 (nat_digits 10 (unat (pe_blocks e))) @ CHR '' '' # pe_name e @ [CHR 0x0A]"

definition part_heading :: string where
  "part_heading = ''major minor  #blocks  name'' @ [CHR 0x0A, CHR 0x0A]"

definition part_ok :: "part_entry \<Rightarrow> bool" where
  "part_ok e \<longleftrightarrow> pe_major e < 4096 \<and> pe_minor e < 1048576 \<and>
     pe_name e \<noteq> [] \<and> length (pe_name e) < 32 \<and> list_all (Not \<circ> isspace) (pe_name e) \<and>
     length (part_line e) \<le> 63"

lemma scan_num_pad:
  assumes "num_stop 10 rest" "n < 2 ^ 64"
  shows "scan_num 10 (pad_left k (nat_digits 10 n) @ rest) = Some (word_of_nat n, rest)"
proof -
  have "scan_num 10 (replicate j (CHR '' '') @ s) = scan_num 10 s" for j s
    by (induction j) (simp_all add: scan_num_space)
  then show ?thesis
    using scan_num_nat_digits [OF _ assms] by (simp add: pad_left_def)
qed

lemma no_newline_digits: "CHR 0x0A \<notin> set (pad_left k (nat_digits 10 n))"
  using nat_digits_all [of 10 "CHR 0x0A" n] is_digit_of_facts(1) [of 10 "CHR 0x0A"]
  by (auto simp: pad_left_def)

lemma scan_partition_ok:
  assumes "part_ok e"
  shows "scan_partition (part_line e) = Scan_ok (pe_major e, pe_minor e, pe_name e) [CHR 0x0A]"
proof -
  have lt: "unat (pe_major e) < 2 ^ 64" "unat (pe_minor e) < 2 ^ 64" "unat (pe_blocks e) < 2 ^ 64"
    using unsigned_less [of "pe_major e", where ?'a = nat] unsigned_less [of "pe_minor e", where ?'a = nat]
      unsigned_less [of "pe_blocks e", where ?'a = nat] by simp_all
  have name: "scan_s (CHR '' '' # pe_name e @ [CHR 0x0A]) = Some (pe_name e, [CHR 0x0A])"
    unfolding scan_s_ws [OF isspace_simps(1)]
    using assms by (intro scan_s_word) (auto simp: part_ok_def)
  have cast: "(ucast (ucast w :: u64) :: u32) = w" for w :: u32
    by (rule unsigned_word_eqI [where ?'a = nat]) (simp add: unsigned_ucast_eq unat_of_nat take_bit_nat_eq_self take_bit_word_eq_self)
  show ?thesis
    using assms lt name
    by (simp add: scan_partition_def part_line_def scan_num_space scan_num_pad cast part_ok_def DISK_NAME_LEN_def)
qed


lemma find_unique: "x \<in> set xs \<Longrightarrow> P x \<Longrightarrow> \<forall>y \<in> set xs. P y \<longrightarrow> y = x \<Longrightarrow> find P xs = Some x"
proof (induction xs)
  case (Cons a xs)
  show ?case
  proof (cases "P a")
    case True
    then have "a = x"
      using Cons.prems(3) by (meson list.set_intros(1))
    then show ?thesis
      using True by (simp only: find.simps if_True)
  next
    case False
    then have "x \<in> set xs"
      using Cons.prems(1,2) by auto
    moreover have "\<forall>y \<in> set xs. P y \<longrightarrow> y = x"
      using Cons.prems(3) by (meson list.set_intros(2))
    ultimately have "find P xs = Some x"
      by (rule Cons.IH [OF _ Cons.prems(2)])
    then show ?thesis
      using False by (simp only: find.simps if_False)
  qed
qed simp

lemma part_line_split:
  "part_line e @ rest = (CHR '' '' # pad_left 4 (nat_digits 10 (unat (pe_major e))) @ CHR '' '' # pad_left 8 (nat_digits 10 (unat (pe_minor e))) @
     CHR '' '' # pad_left 10 (nat_digits 10 (unat (pe_blocks e))) @ CHR '' '' # pe_name e) @ CHR 0x0A # rest"
  by (simp add: part_line_def)

lemma fgets_part_line:
  assumes "part_ok e"
  shows "fgets 64 (part_line e @ rest) = Some (part_line e, rest)"
proof -
  have "CHR 0x0A \<notin> set (pe_name e)"
    using assms isspace_simps(2) by (auto simp: part_ok_def list_all_iff)
  then show ?thesis
    using assms no_newline_digits
    unfolding part_line_split by (subst fgets_line) (auto simp: part_ok_def part_line_def)
qed

definition part_of :: "part_entry \<Rightarrow> partition" where
  "part_of e = \<lparr>pt_name = pe_name e, pt_dev = MKDEV (pe_major e) (pe_minor e)\<rparr>"

lemma partitions_load_loop_ok:
  assumes "list_all part_ok es" "length es < fuel"
  shows "partitions_load_loop fuel (\<lambda>_. True) (concat (map part_line es)) parts = Finished (Loaded (parts @ map part_of es))"
  using assms
proof (induction es arbitrary: fuel parts)
  case Nil
  then obtain f where "fuel = Suc f"
    by (cases fuel) auto
  then show ?case
    by (simp add: fgets_def)
next
  case (Cons e es)
  obtain f where f: "fuel = Suc f" "length es < f"
    using Cons.prems(2) by (cases fuel) auto
  have ok: "part_ok e" "list_all part_ok es"
    using Cons.prems(1) by auto
  have h: "hd (part_line e) = CHR '' ''"
    by (simp add: part_line_def)
  show ?case
    using Cons.IH [OF ok(2) f(2), of "parts @ [part_of e]"]
    by (simp add: f(1) fgets_part_line [OF ok(1)] h scan_partition_ok [OF ok(1)] partitions__add_partition_def part_of_def)
qed

text \<open>
  \<^verbatim>\<open>partitions__load\<close> reads the kernel's list of partitions in order, and a partition is then found
  by the number of its device, which no other device shares.
\<close>

lemma partitions__load_finds:
  assumes "list_all part_ok es" "length es + 2 < fuel" "distinct (map (\<lambda>e. (pe_major e, pe_minor e)) es)"
  shows "\<exists>parts. partitions__load fuel True (\<lambda>_. True) (Some (part_heading @ concat (map part_line es))) = Finished (Loaded parts) \<and>
    map pt_name parts = map pe_name es \<and>
    (\<forall>e \<in> set es. partitions__get_by_dev parts (MKDEV (pe_major e) (pe_minor e)) = Some (part_of e))"
proof -
  let ?parts = "map part_of es"
  obtain f where f: "fuel = Suc (Suc f)" "length es < f"
    using assms(2) by (metis Suc_lessE add_2_eq_Suc' less_antisym not_less_eq)
  have h: "fgets 64 (part_heading @ s) = Some (''major minor  #blocks  name'' @ [CHR 0x0A], CHR 0x0A # s)" for s
    using fgets_line [of "''major minor  #blocks  name''" 64 "CHR 0x0A # s"] by (simp add: part_heading_def)
  have n: "fgets 64 (CHR 0x0A # s) = Some ([CHR 0x0A], s)" for s
    using fgets_line [of "[]" 64 s] by simp
  have load: "partitions__load fuel True (\<lambda>_. True) (Some (part_heading @ concat (map part_line es))) = Finished (Loaded ?parts)"
    using partitions_load_loop_ok [OF assms(1) f(2), of "[]"] by (simp add: partitions__load_def f(1) h n)
  have inj: "e' = e" if "e \<in> set es" "e' \<in> set es" "MKDEV (pe_major e') (pe_minor e') = MKDEV (pe_major e) (pe_minor e)" for e e'
  proof -
    have "part_ok e" "part_ok e'"
      using assms(1) that by (auto simp: list_all_iff)
    then have "pe_major e' = pe_major e \<and> pe_minor e' = pe_minor e"
      using that(3) by (intro MKDEV_inj) (auto simp: part_ok_def)
    then show ?thesis
      using assms(3) that(1,2) by (auto simp: distinct_map inj_on_def)
  qed
  have "find (\<lambda>p. pt_dev p = MKDEV (pe_major e) (pe_minor e)) ?parts = Some (part_of e)" if "e \<in> set es" for e
  proof -
    have "find (\<lambda>e'. MKDEV (pe_major e') (pe_minor e') = MKDEV (pe_major e) (pe_minor e)) es = Some e"
      using that inj by (intro find_unique) auto
    then show ?thesis
      by (simp add: find_map_option comp_def part_of_def)
  qed
  then show ?thesis
    using load by (intro exI [of _ ?parts]) (simp add: partitions__get_by_dev_def part_of_def comp_def)
qed

end
