(* ===== verification/Perf_Map.thy ===== *)
theory Perf_Map
  imports C_Lib
begin

text \<open>
  The symbol maps that run-time compilers leave for \<^verbatim>\<open>perf\<close>, src/cc/bcc_perf_map.c: which path a
  process writes its map to, seen from its own mount and PID namespaces, and the parser of the map
  itself.  A callback is a function on the caller's state; a call through a null pointer has no
  value (\<^const>\<open>None\<close>).
\<close>

section \<open>The path of the map\<close>

text \<open>What the system answers: the contents of the files that can be opened, \<^verbatim>\<open>access\<close> and \<^verbatim>\<open>readlink\<close>.\<close>

record perf_env =
  pe_fopen :: "string \<Rightarrow> string option"
  pe_access :: "string \<Rightarrow> bool"
  pe_readlink :: "string \<Rightarrow> string option"

definition cstr :: "string \<Rightarrow> string" where
  "cstr s = takeWhile (\<lambda>c. c \<noteq> CHR 0x00) s"

definition bcc_is_perf_map :: "string \<Rightarrow> bool" where
  "bcc_is_perf_map path =
     (case strstr path ''.map'' of None \<Rightarrow> False | Some pos \<Rightarrow> drop (pos + 4) path = [])"

definition bcc_is_valid_perf_map :: "('e) perf_env_scheme \<Rightarrow> string \<Rightarrow> bool" where
  "bcc_is_valid_perf_map env path \<longleftrightarrow> bcc_is_perf_map path \<and> pe_access env path"

definition strtol_last_tab :: "string \<Rightarrow> int option" where
  "strtol_last_tab line = map_option (\<lambda>s. to_int32 (fst (strtol s))) (strrchr (CHR 0x09) line)"

definition nstgid_line :: "string \<Rightarrow> int \<Rightarrow> int option" where
  "nstgid_line line nstgid = do {
     nstgid \<leftarrow> (if strstr line ''Tgid:'' \<noteq> None then strtol_last_tab line else Some nstgid);
     if strstr line ''NStgid:'' \<noteq> None then strtol_last_tab line else Some nstgid
   }"

function nstgid_loop :: "string \<Rightarrow> int \<Rightarrow> int option" where
  "nstgid_loop status nstgid =
     (case getline status of
        None \<Rightarrow> Some nstgid
      | Some (line, rest) \<Rightarrow>
          (case nstgid_line (cstr line) nstgid of
             None \<Rightarrow> None
           | Some nstgid \<Rightarrow> nstgid_loop rest nstgid))"
  by pat_completeness auto
termination
  by (relation "measure (\<lambda>(s, _). length s)") (auto dest: getline_shorter)

declare nstgid_loop.simps [simp del]

definition bcc_perf_map_nstgid :: "('e) perf_env_scheme \<Rightarrow> int \<Rightarrow> int option" where
  "bcc_perf_map_nstgid env pid =
     (case pe_fopen env (snprintf_trunc 64 (''/proc/'' @ show_int pid @ ''/status'')) of
        None \<Rightarrow> Some (-1)
      | Some status \<Rightarrow> nstgid_loop status pid)"

text \<open>The inner \<^const>\<open>None\<close> is the result false.\<close>

definition bcc_perf_map_path :: "('e) perf_env_scheme \<Rightarrow> nat \<Rightarrow> int \<Rightarrow> string option option" where
  "bcc_perf_map_path env map_len pid =
     (case pe_readlink env (snprintf_trunc 64 (''/proc/'' @ show_int pid @ ''/root'')) of
        None \<Rightarrow> Some None
      | Some target \<Rightarrow>
          (let target = cstr (take 4095 target);
               target = (if target = ''/'' then [] else target)
           in map_option (\<lambda>nstgid.
                Some (snprintf_trunc map_len (target @ ''/tmp/perf-'' @ show_int nstgid @ ''.map'')))
                (bcc_perf_map_nstgid env pid)))"

section \<open>The symbols of the map\<close>

text \<open>
  One line.  The flag is \<^verbatim>\<open>errno == ERANGE\<close>, which \<^verbatim>\<open>strtoull\<close> sets and the function never clears.
\<close>

definition perf_map_line :: "bool \<Rightarrow> string \<Rightarrow> bool \<times> (string \<times> u64 \<times> u64) option" where
  "perf_map_line erange line =
     (let (begin_addr, r, sep) = strtoull 16 line; erange = (erange \<or> r) in
      if begin_addr = 0 \<or> take 1 sep \<noteq> '' '' \<or> (begin_addr = - 1 \<and> erange) then (erange, None)
      else
        (let cursor = skip_ws sep;
             (len, r, sep) = strtoull 16 cursor; erange = (erange \<or> r) in
         if take 1 sep \<noteq> '' '' \<or> (sep = cursor \<and> len = 0) \<or> (len = - 1 \<and> erange) then (erange, None)
         else (erange, Some (takeWhile (\<lambda>c. c \<noteq> CHR 0x0A) (skip_ws sep), begin_addr, len))))"

function perf_map_loop ::
  "(string \<Rightarrow> u64 \<Rightarrow> u64 \<Rightarrow> 's \<Rightarrow> 's) \<Rightarrow> bool \<Rightarrow> string \<Rightarrow> 's \<Rightarrow> 's" where
  "perf_map_loop callback erange file payload =
     (case getline file of
        None \<Rightarrow> payload
      | Some (line, rest) \<Rightarrow>
          (case perf_map_line erange (cstr line) of
             (erange, None) \<Rightarrow> perf_map_loop callback erange rest payload
           | (erange, Some (name, begin_addr, len)) \<Rightarrow>
               perf_map_loop callback erange rest (callback name begin_addr len payload)))"
  by pat_completeness auto
termination
  by (relation "measure (\<lambda>(c, e, s, p). length s)") (auto dest: getline_shorter)

declare perf_map_loop.simps [simp del]

definition bcc_perf_map_foreach_sym ::
  "('e) perf_env_scheme \<Rightarrow> bool \<Rightarrow> string \<Rightarrow> (string \<Rightarrow> u64 \<Rightarrow> u64 \<Rightarrow> 's \<Rightarrow> 's) \<Rightarrow> 's \<Rightarrow> int \<times> 's" where
  "bcc_perf_map_foreach_sym env erange path callback payload =
     (case pe_fopen env path of
        None \<Rightarrow> (- 1, payload)
      | Some file \<Rightarrow> (0, perf_map_loop callback erange file payload))"

section \<open>The map of a run-time compiler\<close>

text \<open>The writer's side of the format: start address, length and name, one symbol per line.\<close>

definition perf_sym_line :: "string \<times> u64 \<times> u64 \<Rightarrow> string" where
  "perf_sym_line e =
     (case e of (name, begin_addr, len) \<Rightarrow>
        nat_digits 16 (unat begin_addr) @ '' '' @ nat_digits 16 (unat len) @ '' '' @ name @ [CHR 0x0A])"

definition perf_sym_ok :: "string \<times> u64 \<times> u64 \<Rightarrow> bool" where
  "perf_sym_ok e \<longleftrightarrow>
     (case e of (name, begin_addr, len) \<Rightarrow>
        begin_addr \<noteq> 0 \<and> name \<noteq> [] \<and> \<not> isspace (hd name) \<and> CHR 0x0A \<notin> set name \<and> CHR 0x00 \<notin> set name)"

lemma nat_digits_no_ctl: "b = 10 \<or> b = 16 \<Longrightarrow> CHR 0x0A \<notin> set (nat_digits b n) \<and> CHR 0x00 \<notin> set (nat_digits b n)"
  using nat_digits_all [of b "CHR 0x0A" n] nat_digits_all [of b "CHR 0x00" n]
  by (auto simp: is_digit_of_def isxdigit_def isdigit_def)

lemma skip_ws_nat_digits: "b = 10 \<or> b = 16 \<Longrightarrow> skip_ws (nat_digits b n @ rest) = nat_digits b n @ rest"
  using nat_digits_all [of b "hd (nat_digits b n)" n] is_digit_of_facts(1) nat_digits_ne [of b n]
  by (cases "nat_digits b n") (auto simp: skip_ws_def)

lemma perf_map_line_ok:
  assumes "perf_sym_ok (name, begin_addr, len)"
  shows "perf_map_line False (perf_sym_line (name, begin_addr, len)) = (False, Some (name, begin_addr, len))"
proof -
  have b: "(2::nat) ^ 64 = 18446744073709551616"
    by simp
  have st: "strtoull 16 (nat_digits 16 (unat x) @ CHR '' '' # s) = (x, False, CHR '' '' # s)" for x :: u64 and s
    using strtoull_nat_digits [of 16 "CHR '' '' # s" "unat x"] unsigned_less [of x] by simp
  have sk: "skip_ws (CHR '' '' # name @ [CHR 0x0A]) = name @ [CHR 0x0A]"
    using assms by (cases name) (auto simp: perf_sym_ok_def skip_ws_def)
  have sd: "skip_ws (CHR '' '' # nat_digits 16 (unat x) @ s) = nat_digits 16 (unat x) @ s" for x :: u64 and s
    using skip_ws_nat_digits [of 16 "unat x" s] by (simp add: skip_ws_def)
  have ne: "nat_digits 16 (unat len) @ CHR '' '' # s \<noteq> CHR '' '' # s" for s
    by simp
  have tw: "takeWhile (\<lambda>c. c \<noteq> CHR 0x0A) (name @ [CHR 0x0A]) = name"
    using assms by (auto intro!: takeWhile_append_stop simp: perf_sym_ok_def list_all_iff)
  show ?thesis
    using assms by (simp add: perf_map_line_def perf_sym_line_def st sk sd ne tw Let_def perf_sym_ok_def)
qed

lemma cstr_id: "CHR 0x00 \<notin> set s \<Longrightarrow> cstr s = s"
  by (auto simp: cstr_def takeWhile_eq_all_conv)

lemma getline_perf_sym:
  assumes "perf_sym_ok e"
  shows "getline (perf_sym_line e @ rest) = Some (perf_sym_line e, rest)" "cstr (perf_sym_line e) = perf_sym_line e"
proof -
  obtain name a l where e: "e = (name, a, l)"
    by (cases e)
  let ?w = "nat_digits 16 (unat a) @ '' '' @ nat_digits 16 (unat l) @ '' '' @ name"
  have "CHR 0x0A \<notin> set ?w" "CHR 0x00 \<notin> set (perf_sym_line e)"
    using assms nat_digits_no_ctl by (auto simp: e perf_sym_ok_def perf_sym_line_def)
  then show "getline (perf_sym_line e @ rest) = Some (perf_sym_line e, rest)" "cstr (perf_sym_line e) = perf_sym_line e"
    using getline_line [of ?w rest] by (simp_all add: e perf_sym_line_def cstr_id)
qed

lemma perf_map_loop_lines:
  "list_all perf_sym_ok es \<Longrightarrow>
   perf_map_loop callback False (concat (map perf_sym_line es)) payload =
     fold (\<lambda>(name, a, l). callback name a l) es payload"
proof (induction es arbitrary: payload)
  case Nil
  then show ?case
    by (subst perf_map_loop.simps) (simp add: getline_def)
next
  case (Cons e es)
  obtain name a l where e: "e = (name, a, l)"
    by (cases e)
  show ?case
    using Cons perf_map_line_ok [of name a l] getline_perf_sym [of e]
    by (subst perf_map_loop.simps) (simp add: e)
qed

text \<open>
  (C14) A map in the format that run-time compilers write is delivered whole and in order: the
  callback is called once per symbol, with the symbol's name, start address and length.
\<close>

theorem perf_map_foreach_sym_roundtrip:
  assumes "pe_fopen env path = Some (concat (map perf_sym_line es))" "list_all perf_sym_ok es"
  shows "bcc_perf_map_foreach_sym env False path callback payload =
    (0, fold (\<lambda>(name, begin_addr, len). callback name begin_addr len) es payload)"
  using assms by (simp add: bcc_perf_map_foreach_sym_def perf_map_loop_lines)

theorem perf_map_foreach_sym_roundtrip_witness:
  "let es = [(''Foo::bar'', 0x7f00, 0x20), (''baz'', 0x8000, 0)];
       env = \<lparr>pe_fopen = (\<lambda>_. Some (concat (map perf_sym_line es))), pe_access = (\<lambda>_. True), pe_readlink = (\<lambda>_. None)\<rparr>
   in bcc_perf_map_foreach_sym env False ''/tmp/perf-1.map'' (\<lambda>n a l st. (n, a, l) # st) [] =
        (0, [(''baz'', 0x8000, 0), (''Foo::bar'', 0x7f00, 0x20)])"
  using perf_map_foreach_sym_roundtrip
    [where es = "[(''Foo::bar'', 0x7f00, 0x20), (''baz'', 0x8000, 0)]" and path = "''/tmp/perf-1.map''" and payload = "[]"
       and env = "\<lparr>pe_fopen = (\<lambda>_. Some (concat (map perf_sym_line [(''Foo::bar'', 0x7f00, 0x20), (''baz'', 0x8000, 0)]))),
         pe_access = (\<lambda>_. True), pe_readlink = (\<lambda>_. None)\<rparr>" and callback = "\<lambda>n a l st. (n, a, l) # st"]
  by (simp add: Let_def perf_sym_ok_def isspace_def)

section \<open>The innermost process id\<close>

lemma strrchr_append: "c \<notin> set t \<Longrightarrow> strrchr c (s @ c # t) = Some (c # t)"
proof (induction s)
  case Nil
  then have "strrchr c t = None"
    by (induction t) auto
  then show ?case
    by simp
qed simp

lemma strtol_tab_number:
  assumes "n < 2 ^ 31"
  shows "fst (strtol (CHR 0x09 # nat_digits 10 n @ [CHR 0x0A])) = int n"
proof -
  have "takeWhile isdigit (nat_digits 10 n @ [CHR 0x0A]) = nat_digits 10 n"
    using list_all_nat_digits [of 10 n]
    by (intro takeWhile_append_stop) (auto simp: is_digit_of_def list_all_iff isdigit_def)
  moreover have "scan_sign (skip_ws (CHR 0x09 # nat_digits 10 n @ [CHR 0x0A])) = (False, nat_digits 10 n @ [CHR 0x0A])"
    using nat_digits_all [of 10 "hd (nat_digits 10 n)" n] is_digit_of_facts [of 10 "hd (nat_digits 10 n)"]
      nat_digits_ne [of 10 n]
    by (cases "nat_digits 10 n") (auto simp: skip_ws_def)
  ultimately show ?thesis
    using assms by (simp add: strtol_def digits_val_nat_digits)
qed

lemma to_int32_nat: "n < 2 ^ 31 \<Longrightarrow> to_int32 (int n) = int n"
  using sint_small_u32 [of "word_of_nat n"] by (simp add: to_int32_def unat_of_nat take_bit_nat_eq_self)

lemma nstgid_line_other:
  "strstr line ''Tgid:'' = None \<Longrightarrow> strstr line ''NStgid:'' = None \<Longrightarrow> nstgid_line line v = Some v"
  by (simp add: nstgid_line_def)

lemma nstgid_loop_others:
  assumes "list_all (\<lambda>l. CHR 0x0A \<notin> set l \<and> CHR 0x00 \<notin> set l \<and>
     strstr (l @ [CHR 0x0A]) ''Tgid:'' = None \<and> strstr (l @ [CHR 0x0A]) ''NStgid:'' = None) ls"
  shows "nstgid_loop (concat (map (\<lambda>l. l @ [CHR 0x0A]) ls) @ rest) v = nstgid_loop rest v"
  using assms
proof (induction ls)
  case (Cons l ls)
  then have "getline ((l @ [CHR 0x0A]) @ concat (map (\<lambda>l. l @ [CHR 0x0A]) ls) @ rest) =
      Some (l @ [CHR 0x0A], concat (map (\<lambda>l. l @ [CHR 0x0A]) ls) @ rest)"
    using getline_line [of l] by simp
  moreover have "cstr (l @ [CHR 0x0A]) = l @ [CHR 0x0A]"
    using Cons.prems by (intro cstr_id) auto
  ultimately show ?case
    using Cons by (subst nstgid_loop.simps) (simp add: nstgid_line_other)
qed simp

definition tab_numbers :: "nat list \<Rightarrow> string" where
  "tab_numbers ns = concat (map (\<lambda>n. CHR 0x09 # nat_digits 10 n) ns)"

definition plain_status_line :: "string \<Rightarrow> bool" where
  "plain_status_line l \<longleftrightarrow> CHR 0x0A \<notin> set l \<and> CHR 0x00 \<notin> set l \<and>
     strstr (l @ [CHR 0x0A]) ''Tgid:'' = None \<and> strstr (l @ [CHR 0x0A]) ''NStgid:'' = None"

definition status_file :: "string list \<Rightarrow> nat \<Rightarrow> string list \<Rightarrow> nat list \<Rightarrow> string list \<Rightarrow> string" where
  "status_file pre tgid mid nstgids post =
     concat (map (\<lambda>l. l @ [CHR 0x0A]) pre) @ (''Tgid:'' @ tab_numbers [tgid]) @ [CHR 0x0A] @
     concat (map (\<lambda>l. l @ [CHR 0x0A]) mid) @ (''NStgid:'' @ tab_numbers nstgids) @ [CHR 0x0A] @
     concat (map (\<lambda>l. l @ [CHR 0x0A]) post)"

lemma nstgid_loop_plain:
  "list_all plain_status_line ls \<Longrightarrow>
   nstgid_loop (concat (map (\<lambda>l. l @ [CHR 0x0A]) ls) @ rest) v = nstgid_loop rest v"
  using nstgid_loop_others [of ls rest v] by (simp add: plain_status_line_def [abs_def])

lemma tab_numbers_ctl: "CHR 0x0A \<notin> set (tab_numbers ns) \<and> CHR 0x00 \<notin> set (tab_numbers ns)"
  using nat_digits_no_ctl [of 10] by (auto simp: tab_numbers_def)

lemma strtol_last_tab_numbers:
  assumes "ns \<noteq> []" "last ns < 2 ^ 31"
  shows "strtol_last_tab (key @ tab_numbers ns @ [CHR 0x0A]) = Some (int (last ns))"
proof -
  have "CHR 0x09 \<notin> set (nat_digits 10 (last ns) @ [CHR 0x0A])"
    using nat_digits_all [of 10 "CHR 0x09" "last ns"] by (auto simp: is_digit_of_def isdigit_def)
  then have "strrchr (CHR 0x09) ((key @ tab_numbers (butlast ns)) @ CHR 0x09 # nat_digits 10 (last ns) @ [CHR 0x0A]) =
      Some (CHR 0x09 # nat_digits 10 (last ns) @ [CHR 0x0A])"
    by (rule strrchr_append)
  moreover have "tab_numbers ns = tab_numbers (butlast ns) @ CHR 0x09 # nat_digits 10 (last ns)"
    using assms(1) by (cases ns rule: rev_cases) (auto simp: tab_numbers_def)
  ultimately show ?thesis
    using assms(2) by (simp add: strtol_last_tab_def strtol_tab_number to_int32_nat)
qed

lemma nstgid_loop_line:
  assumes "ns \<noteq> []" "last ns < 2 ^ 31" "key = ''Tgid:'' \<or> key = ''NStgid:''"
  shows "nstgid_loop (key @ tab_numbers ns @ CHR 0x0A # rest) v = nstgid_loop rest (int (last ns))"
proof -
  have k: "CHR 0x0A \<notin> set (key @ tab_numbers ns)" "CHR 0x00 \<notin> set (key @ tab_numbers ns @ [CHR 0x0A])"
    using assms(3) tab_numbers_ctl [of ns] by auto
  have l: "nstgid_line (key @ tab_numbers ns @ [CHR 0x0A]) v = Some (int (last ns))"
    using assms(3)
  proof
    assume "key = ''Tgid:''"
    then show ?thesis
      using strtol_last_tab_numbers [OF assms(1,2), of key]
      by (simp add: nstgid_line_def split: if_splits)
  next
    assume "key = ''NStgid:''"
    then show ?thesis
      using strtol_last_tab_numbers [OF assms(1,2), of key]
      by (simp add: nstgid_line_def split: if_splits)
  qed
  have g: "getline (key @ tab_numbers ns @ CHR 0x0A # rest) = Some (key @ tab_numbers ns @ [CHR 0x0A], rest)"
    using getline_line [OF k(1), of rest] by simp
  show ?thesis
    by (subst nstgid_loop.simps) (simp add: g cstr_id [OF k(2)] l)
qed

lemma nstgid_loop_status_file:
  assumes "list_all plain_status_line (pre @ mid @ post)" "tgid < 2 ^ 31" "nstgids \<noteq> []" "last nstgids < 2 ^ 31"
  shows "nstgid_loop (status_file pre tgid mid nstgids post) v = Some (int (last nstgids))"
proof -
  have e: "nstgid_loop [] v = Some v" for v
    by (subst nstgid_loop.simps) (simp add: getline_def)
  show ?thesis
    using assms nstgid_loop_line [of "[tgid]" "''Tgid:''"] nstgid_loop_line [of nstgids "''NStgid:''"]
      nstgid_loop_plain [of post "[]"]
    by (simp add: status_file_def nstgid_loop_plain e)
qed

text \<open>
  A process in a PID namespace is looked up under the name it uses itself: the path of its map
  is below its own root directory and carries the last, innermost, id of the NStgid line.
\<close>

lemma perf_map_path_innermost:
  assumes "0 \<le> pid" "pid < 2 ^ 31"
    and "pe_readlink env (''/proc/'' @ show_int pid @ ''/root'') = Some root" "length root < 4096" "CHR 0x00 \<notin> set root"
    and "pe_fopen env (''/proc/'' @ show_int pid @ ''/status'') = Some (status_file pre tgid mid nstgids post)"
    and "list_all plain_status_line (pre @ mid @ post)" "tgid < 2 ^ 31" "nstgids \<noteq> []" "last nstgids < 2 ^ 31"
    and "length root + 25 < map_len"
  shows "bcc_perf_map_path env map_len pid =
    Some (Some ((if root = ''/'' then [] else root) @ ''/tmp/perf-'' @ show_int (int (last nstgids)) @ ''.map''))"
proof -
  have len: "length (show_int pid) \<le> 10" "length (show_int (int (last nstgids))) \<le> 10"
    using assms length_show_int by auto
  have "bcc_perf_map_nstgid env pid = Some (int (last nstgids))"
    using len(1) assms by (simp add: bcc_perf_map_nstgid_def snprintf_trunc_def nstgid_loop_status_file)
  then show ?thesis
    using len assms(3-5,11) by (simp add: bcc_perf_map_path_def snprintf_trunc_def cstr_id)
qed

lemma bcc_is_perf_map_suffix: "bcc_is_perf_map path \<Longrightarrow> \<exists>d. path = d @ ''.map''"
proof -
  assume "bcc_is_perf_map path"
  then obtain i where "strstr path ''.map'' = Some i" "drop (i + 4) path = []"
    by (auto simp: bcc_is_perf_map_def split: option.splits)
  then have "path = take i path @ ''.map''"
    using strstr_Some_decomp [of path "''.map''" i] by simp
  then show ?thesis
    by blast
qed

end
