(* ===== verification/Proc.thy ===== *)
theory Proc
  imports Perf_Map Zip_Roundtrip Dso_Load
begin

text \<open>
  Process utilities, src/cc/bcc_proc.c: finding an executable on the search path, the modules that a
  process has mapped (memory-backed files and members of ZIP archives included) and the symbols of
  the running kernel.  \<^const>\<open>None\<close> is an access outside a buffer or to a byte that was never written.
  ELF files are read by a library, so the type of a file is a parameter.
\<close>

section \<open>The environment\<close>

record proc_env = perf_env +
  pr_getenv_PATH :: "string option"
  pr_elf_type :: "string \<Rightarrow> int"
  pr_access_x :: "string \<Rightarrow> bool"
  pr_readdir :: "string \<Rightarrow> string list option"
  pr_stat_ino :: "string \<Rightarrow> u64 option"
  pr_zip :: zip_env
  pr_malloc :: "nat \<Rightarrow> bool"
  pr_realpath :: "string \<Rightarrow> string option"
  pr_mmap_file :: "string \<Rightarrow> bytes option"

definition bcc_elf_is_exe :: "('e) proc_env_scheme \<Rightarrow> string \<Rightarrow> bool" where
  "bcc_elf_is_exe env path \<longleftrightarrow> pr_elf_type env path \<noteq> - 1 \<and> pr_access_x env path"

section \<open>The search path\<close>

function which_loop :: "('e) proc_env_scheme \<Rightarrow> string \<Rightarrow> string \<Rightarrow> string option" where
  "which_loop env binpath PATH =
     (let dir = takeWhile (\<lambda>c. c \<noteq> CHR '':'') PATH;
          next_pos = dropWhile (\<lambda>c. c \<noteq> CHR '':'') PATH;
          buffer = dir @ ''/'' @ binpath
      in if dir \<noteq> [] \<and> length buffer \<ge> PATH_MAX then None
         else if dir \<noteq> [] \<and> bcc_elf_is_exe env buffer then Some buffer
         else (case next_pos of [] \<Rightarrow> None | _ # PATH' \<Rightarrow> which_loop env binpath PATH'))"
  by pat_completeness auto
termination
proof (relation "measure (\<lambda>(_, _, PATH). length PATH)", goal_cases)
  case (2 env binpath PATH x xa xb x21 x22)
  then have "length (x21 # x22) \<le> length PATH"
    using length_dropWhile_le [of "\<lambda>c. c \<noteq> CHR '':''" PATH] by simp
  then show ?case
    by simp
qed simp

declare which_loop.simps [simp del]

definition bcc_procutils_which :: "('e) proc_env_scheme \<Rightarrow> string \<Rightarrow> string option" where
  "bcc_procutils_which env binpath =
     (if CHR ''/'' \<in> set binpath then (if bcc_elf_is_exe env binpath then Some binpath else None)
      else (case pr_getenv_PATH env of None \<Rightarrow> None | Some PATH \<Rightarrow> which_loop env binpath PATH))"

section \<open>Mapped modules\<close>

definition bcc_mapping_is_file_backed :: "string \<Rightarrow> bool" where
  "bcc_mapping_is_file_backed mapname \<longleftrightarrow> mapname \<noteq> [] \<and>
     \<not> (starts_with mapname ''//anon'' \<or> starts_with mapname ''/dev/zero'' \<or>
        starts_with mapname ''/anon_hugepage'' \<or> starts_with mapname ''[stack'' \<or>
        starts_with mapname ''/SYSV'' \<or> starts_with mapname ''[heap]'' \<or>
        starts_with mapname ''[vsyscall]'')"

text \<open>
  The two allocations of \<^verbatim>\<open>_procutils_memfd_path\<close> are not checked: copying into a null pointer is undefined.  A path that is returned has been
  allocated for the caller; the directory counts as an open file.
\<close>

fun memfd_loop :: "('e) proc_env_scheme \<Rightarrow> os_res \<Rightarrow> string \<Rightarrow> u64 \<Rightarrow> string list \<Rightarrow> (string option \<times> os_res) option" where
  "memfd_loop env os dirstr inum [] = Some (None, os)"
| "memfd_loop env os dirstr inum (d_name # dents) =
     (let path_buffer = snprintf_trunc (PATH_MAX + 1) (dirstr @ ''/'' @ d_name)
      in if pr_stat_ino env path_buffer = Some inum
         then if pr_malloc env (length path_buffer + 1) then Some (Some path_buffer, os_malloc os) else None
         else memfd_loop env os dirstr inum dents)"

definition procutils_memfd_path :: "('e) proc_env_scheme \<Rightarrow> os_res \<Rightarrow> int \<Rightarrow> u64 \<Rightarrow> (string option \<times> os_res) option" where
  "procutils_memfd_path env os pid inum =
     (let dirstr = snprintf_trunc (PATH_MAX + 1) (''/proc/'' @ show_int pid @ ''/fd'')
      in if \<not> pr_malloc env (length dirstr + 1) then None
         else
           (let os = os_malloc os in
            case pr_readdir env dirstr of
              None \<Rightarrow> Some (None, os_free os)
            | Some dents \<Rightarrow> do {
                (path, os) \<leftarrow> memfd_loop env (os_open_fd os) dirstr inum dents;
                Some (path, os_free (os_close_fd os))
              }))"

definition procfs_might_be_zip_path :: "string \<Rightarrow> bool" where
  "procfs_might_be_zip_path path \<longleftrightarrow> strstr path ''.zip'' \<noteq> None \<or> strstr path ''.apk'' \<noteq> None"

definition bytes_of :: "string \<Rightarrow> bytes" where
  "bytes_of s = map (\<lambda>c. word_of_nat (of_char c)) s"

definition string_of :: "bytes \<Rightarrow> string" where
  "string_of bs = map (\<lambda>b. char_of (unat b)) bs"

text \<open>
  The entry on the stack is uninitialised before the call; \<open>junk\<close> is what it holds.  The result is the
  new name with the new offset, allocated on the heap, or NULL.
\<close>

definition procfs_find_zip_entry ::
  "('e) proc_env_scheme \<Rightarrow> os_res \<Rightarrow> bcc_zip_entry \<Rightarrow> string \<Rightarrow> int \<Rightarrow> u32 \<Rightarrow> ((string \<times> u32) option \<times> os_res) option" where
  "procfs_find_zip_entry env os junk path pid offset =
     (let ns_relative_path = ''/proc/'' @ show_int pid @ ''/root'' @ path in
      if length ns_relative_path \<ge> PATH_MAX then Some (None, os)
      else do {
        (archive, os) \<leftarrow> bcc_zip_archive_open (pr_zip env) os (bytes_of ns_relative_path);
        case archive of
          None \<Rightarrow> Some (None, os)
        | Some archive \<Rightarrow> do {
            (rc, entry) \<leftarrow> bcc_zip_archive_find_entry_at_offset archive offset junk;
            if rc \<noteq> 0 \<or> ze_compression entry \<noteq> 0 then Some (None, bcc_zip_archive_close os archive)
            else if \<not> pr_malloc env (length path + unat (ze_name_length entry) + 3)
            then Some (None, bcc_zip_archive_close os archive)
            else do {
              name \<leftarrow> rd (za_data archive) (unat (ze_name entry)) (unat (ze_name_length entry));
              let os = os_malloc os;
              Some (Some (path @ ''!/'' @ cstr (string_of name), offset - ze_data_offset entry),
                    bcc_zip_archive_close os archive)
            }
          }
      })"

record mod_info =
  mi_name :: string
  mi_start_addr :: u64
  mi_end_addr :: u64
  mi_file_offset :: u64
  mi_dev_major :: u64
  mi_dev_minor :: u64
  mi_inode :: u64

definition mod_of_map :: "map_entry \<Rightarrow> string \<Rightarrow> mod_info" where
  "mod_of_map m name = \<lparr>mi_name = name, mi_start_addr = me_start_addr m, mi_end_addr = me_end_addr m,
     mi_file_offset = me_file_off m, mi_dev_major = me_dev_major m, mi_dev_minor = me_dev_minor m,
     mi_inode = me_inode m\<rparr>"

text \<open>
  The part of the loop that replaces the name of a memory-backed file or of a member of an archive;
  the flag is \<^verbatim>\<open>enter_ns\<close>.  The resolved name is copied into the buffer and freed.
\<close>

definition resolve_module ::
  "('e) proc_env_scheme \<Rightarrow> os_res \<Rightarrow> bcc_zip_entry \<Rightarrow> int \<Rightarrow> mod_info \<Rightarrow> (mod_info \<times> bool \<times> os_res) option" where
  "resolve_module env os junk pid m =
     (if strstr (mi_name m) ''/memfd:'' \<noteq> None
      then do {
        (r, os) \<leftarrow> procutils_memfd_path env os pid (mi_inode m);
        Some (case r of
           None \<Rightarrow> (m, True, os)
         | Some p \<Rightarrow> (m\<lparr>mi_name := take PATH_MAX p\<rparr>, False, os_free os))
      }
      else if procfs_might_be_zip_path (mi_name m)
      then do {
        (r, os) \<leftarrow> procfs_find_zip_entry env os junk (mi_name m) pid (ucast (mi_file_offset m));
        Some (case r of
           None \<Rightarrow> (m, True, os)
         | Some (p, off) \<Rightarrow> (m\<lparr>mi_name := take PATH_MAX p, mi_file_offset := ucast off\<rparr>, True, os_free os))
      }
      else Some (m, True, os))"

lemma scan_num_le: "scan_num b s = Some (v, t) \<Longrightarrow> length t \<le> length s"
proof -
  assume a: "scan_num b s = Some (v, t)"
  obtain neg u where u: "scan_sign (skip_ws s) = (neg, u)"
    by (cases "scan_sign (skip_ws s)")
  have "length u \<le> length (skip_ws s)"
    using scan_sign_le [of "skip_ws s"] by (simp add: u)
  moreover have "length (skip_ws s) \<le> length s"
    by (simp add: skip_ws_def length_dropWhile_le)
  moreover have "length (scan_prefix b u) \<le> length u"
    by (simp add: scan_prefix_def)
  moreover have "t = dropWhile (is_digit_of b) (scan_prefix b u)"
    using a u by (auto simp: scan_num_def Let_def split: if_splits)
  then have "length t \<le> length (scan_prefix b u)"
    by (simp add: length_dropWhile_le)
  ultimately show ?thesis
    by linarith
qed

lemma scan_lit_le: "scan_lit c s = Some t \<Longrightarrow> length t \<le> length s"
  by (cases s) (auto split: if_splits)

lemma scan_sn_le: "scan_sn n s = Some (w, t) \<Longrightarrow> length t \<le> length s"
  using length_dropWhile_le [of isspace s] by (auto simp: scan_sn_def skip_ws_def Let_def split: if_splits)

lemma scan_line_less: "scan_line s = Some (w, t) \<Longrightarrow> length t < length s"
proof -
  assume a: "scan_line s = Some (w, t)"
  have "length w + length t = length s" "w \<noteq> []"
    using a by (auto simp: scan_line_def Let_def split: if_splits simp flip: length_append)
  then show ?thesis
    by (cases w) auto
qed

lemma scan_map_fields_shorter: "scan_map_fields s = Some (m, perm, buf, t) \<Longrightarrow> length t < length s"
  unfolding scan_map_fields_def
  by (auto split: Option.bind_splits dest!: scan_num_le scan_lit_le scan_sn_le scan_line_less)

function procfs_maps_each_module ::
  "('e) proc_env_scheme \<Rightarrow> os_res \<Rightarrow> bcc_zip_entry \<Rightarrow> string \<Rightarrow> int \<Rightarrow>
   (mod_info \<Rightarrow> bool \<Rightarrow> 's \<Rightarrow> int \<times> 's) \<Rightarrow> 's \<Rightarrow> (int \<times> os_res \<times> 's) option" where
  "procfs_maps_each_module env os junk procmap pid callback payload =
     (case scan_map_fields procmap of
        None \<Rightarrow> Some (- 1, os, payload)
      | Some (m, perm, buf, rest) \<Rightarrow>
          if length buf > PATH_MAX \<or> length perm < 2 then None
          else if drop 2 (take 3 perm) \<noteq> ''x'' then procfs_maps_each_module env os junk rest pid callback payload
          else
            (let name = skip_ws buf in
             if \<not> bcc_mapping_is_file_backed name
             then procfs_maps_each_module env os junk rest pid callback payload
             else
               (case resolve_module env os junk pid (mod_of_map m name) of
                  None \<Rightarrow> None
                | Some (md, enter_ns, os) \<Rightarrow>
                    (let (r, payload) = callback md enter_ns payload in
                     if r < 0 then Some (0, os, payload)
                     else procfs_maps_each_module env os junk rest pid callback payload))))"
  by pat_completeness auto
termination
  by (relation "measure (\<lambda>(env, os, junk, s, pid, cb, p). length s)") (auto dest: scan_map_fields_shorter)

declare procfs_maps_each_module.simps [simp del]

definition perf_module :: "string \<Rightarrow> mod_info" where
  "perf_module map_path = \<lparr>mi_name = map_path, mi_start_addr = 0, mi_end_addr = - 1, mi_file_offset = 0,
     mi_dev_major = 0, mi_dev_minor = 0, mi_inode = 0\<rparr>"

definition bcc_procutils_each_module ::
  "('e) proc_env_scheme \<Rightarrow> os_res \<Rightarrow> bcc_zip_entry \<Rightarrow> int \<Rightarrow>
   (mod_info \<Rightarrow> bool \<Rightarrow> 's \<Rightarrow> int \<times> 's) \<Rightarrow> 's \<Rightarrow> (int \<times> os_res \<times> 's) option" where
  "bcc_procutils_each_module env os junk pid callback payload =
     (case pe_fopen env (snprintf_trunc 128 (''/proc/'' @ show_int pid @ ''/maps'')) of
        None \<Rightarrow> Some (- 1, os, payload)
      | Some procmap \<Rightarrow> do {
          (_, os, payload) \<leftarrow> procfs_maps_each_module env os junk procmap pid callback payload;
          map_path \<leftarrow> bcc_perf_map_path env 4096 pid;
          let (r, payload) = (case map_path of None \<Rightarrow> (0, payload) | Some p \<Rightarrow> callback (perf_module p) True payload);
          if r < 0 then Some (0, os, payload)
          else
            (let map_path = ''/tmp/perf-'' @ show_int pid @ ''.map'' in
             if length map_path < 4096
             then Some (0, os, snd (callback (perf_module map_path) False payload))
             else Some (0, os, payload))
        })"

section \<open>Kernel symbols\<close>

definition kernelAddrSpace :: u64 where
  "kernelAddrSpace = 0x00ffffffffffffff"

text \<open>
  One line of \<^verbatim>\<open>/proc/kallsyms\<close> in its buffer.  The flag is \<^verbatim>\<open>endmod != NULL\<close>, which the loop carries
  from line to line.  The loop that should skip blanks before the module tests \<^verbatim>\<open>*endsym\<close>, which has
  just been set to the terminating zero, so it never moves.
\<close>

definition ksym_line :: "bool \<Rightarrow> string \<Rightarrow> (bool \<times> (string \<times> string \<times> u64) option) option" where
  "ksym_line endmod line =
     (let (addr, _, symname) = strtoull 16 line in
      if addr = 0 \<or> addr = - 1 then Some (endmod, None)
      else if addr < kernelAddrSpace then Some (endmod, None)
      else if symname = [] then None
      else
        (let symname = tl symname in
         if symname \<noteq> [] \<and> hd symname \<in> set ''bBdDrR'' then Some (endmod, None)
         else if length symname < 2 then None
         else
           (let symname = drop 2 symname;
                sym_s = takeWhile (Not \<circ> isspace) symname;
                endsym = dropWhile (Not \<circ> isspace) symname in
            if endsym = [] then None
            else
              (let modname = tl endsym;
                   (endmod, modname) =
                     (if modname \<noteq> [] \<and> hd modname = CHR ''[''
                      then (CHR '']'' \<in> set (tl modname), takeWhile (\<lambda>c. c \<noteq> CHR '']'') (tl modname))
                      else (endmod, modname));
                   modname = (if \<not> endmod then ''kernel'' else modname)
               in Some (endmod, Some (sym_s, modname, addr))))))"

lemma fgets_shorter: "1 < sz \<Longrightarrow> fgets sz s = Some (l, rest) \<Longrightarrow> length rest < length s"
  using line_of_ne [of s] by (auto simp: fgets_def Let_def split: if_splits)

function each_ksym_loop ::
  "bool \<Rightarrow> string \<Rightarrow> (string \<Rightarrow> string \<Rightarrow> u64 \<Rightarrow> 's \<Rightarrow> 's) \<Rightarrow> 's \<Rightarrow> 's option" where
  "each_ksym_loop endmod kallsyms callback payload =
     (case fgets 2048 kallsyms of
        None \<Rightarrow> Some payload
      | Some (line, rest) \<Rightarrow>
          (case ksym_line endmod line of
             None \<Rightarrow> None
           | Some (endmod, None) \<Rightarrow> each_ksym_loop endmod rest callback payload
           | Some (endmod, Some (name, modname, addr)) \<Rightarrow>
               each_ksym_loop endmod rest callback (callback name modname addr payload)))"
  by pat_completeness auto
termination
  by (relation "measure (\<lambda>(e, s, cb, p). length s)") (auto dest!: fgets_shorter [rotated])

declare each_ksym_loop.simps [simp del]

definition bcc_procutils_each_ksym ::
  "('e) proc_env_scheme \<Rightarrow> (string \<Rightarrow> string \<Rightarrow> u64 \<Rightarrow> 's \<Rightarrow> 's) \<Rightarrow> 's \<Rightarrow> (int \<times> 's) option" where
  "bcc_procutils_each_ksym env callback payload =
     (case pe_fopen env ''/proc/kallsyms'' of
        None \<Rightarrow> Some (- 1, payload)
      | Some kallsyms \<Rightarrow> map_option (Pair 0) (each_ksym_loop False kallsyms callback payload))"

end
