(* ===== verification/Ld_Cache.thy ===== *)
theory Ld_Cache
  imports Proc
begin

text \<open>
  Finding a shared library and the language of a process, the second half of src/cc/bcc_proc.c: the
  cache of the dynamic linker in its old and new format, the libraries that a process has mapped, and
  the hints in the path and the mappings of a process.  The cache file is mapped, so it is a list of
  bytes; reading outside it has no value.  The strings that are copied out of it are allocated
  successfully.
\<close>

section \<open>The cache of the dynamic linker\<close>

definition CACHE1_HEADER :: string where
  "CACHE1_HEADER = ''ld.so-1.7.0''"

definition CACHE2_HEADER :: string where
  "CACHE2_HEADER = ''glibc-ld.so.cache''"

record ld_lib =
  ll_libname :: string
  ll_path :: string
  ll_flags :: u32

record ld_state =
  lib_cache_count :: int
  lib_cache :: "ld_lib list"

definition ld32 :: "bytes \<Rightarrow> nat \<Rightarrow> u32 option" where
  "ld32 m p = map_option unaligned_uint32_read (rd m p 4)"

definition ld_cstr_at :: "bytes \<Rightarrow> nat \<Rightarrow> string option" where
  "ld_cstr_at m p =
     (if 0 \<in> set (drop p m) then Some (string_of (takeWhile (\<lambda>b. b \<noteq> 0) (drop p m))) else None)"

text \<open>Entry \<open>i\<close> and the \<open>n\<close> entries from it on: flags, key and value come first in both formats.\<close>

fun read_entries :: "bytes \<Rightarrow> nat \<Rightarrow> nat \<Rightarrow> nat \<Rightarrow> nat \<Rightarrow> nat \<Rightarrow> ld_lib list option" where
  "read_entries m entries entry_size ldstrings i 0 = Some []"
| "read_entries m entries entry_size ldstrings i (Suc n) = do {
     flags \<leftarrow> ld32 m (entries + i * entry_size);
     key \<leftarrow> ld32 m (entries + i * entry_size + 4);
     val \<leftarrow> ld32 m (entries + i * entry_size + 8);
     libname \<leftarrow> ld_cstr_at m (ldstrings + unat key);
     path \<leftarrow> ld_cstr_at m (ldstrings + unat val);
     libs \<leftarrow> read_entries m entries entry_size ldstrings (i + 1) n;
     Some (\<lparr>ll_libname = libname, ll_path = path, ll_flags = flags\<rparr> # libs)
   }"

definition read_cache1 :: "('e) proc_env_scheme \<Rightarrow> bytes \<Rightarrow> ld_state \<Rightarrow> (int \<times> ld_state) option" where
  "read_cache1 env ld_map st = do {
     entry_count \<leftarrow> ld32 ld_map 12;
     let ldstrings = 16 + 12 * unat entry_count;
     if \<not> pr_malloc env (24 * unat entry_count) \<and> entry_count \<noteq> 0 then None
     else do {
       libs \<leftarrow> read_entries ld_map 16 12 ldstrings 0 (unat entry_count);
       Some (0, \<lparr>lib_cache_count = sint entry_count, lib_cache = libs\<rparr>)
     }
   }"

definition read_cache2 :: "('e) proc_env_scheme \<Rightarrow> bytes \<Rightarrow> ld_state \<Rightarrow> (int \<times> ld_state) option" where
  "read_cache2 env ld_map st = do {
     header \<leftarrow> rd ld_map 0 17;
     if header \<noteq> bytes_of CACHE2_HEADER then Some (- 1, st)
     else do {
       entry_count \<leftarrow> ld32 ld_map 20;
       if \<not> pr_malloc env (24 * unat entry_count) \<and> entry_count \<noteq> 0 then None
       else do {
         libs \<leftarrow> read_entries ld_map 48 24 0 0 (unat entry_count);
         Some (0, \<lparr>lib_cache_count = sint entry_count, lib_cache = libs\<rparr>)
       }
     }
   }"

text \<open>\<^verbatim>\<open>pr_mmap_file\<close> has the contents when opening, \<^verbatim>\<open>fstat\<close> and mapping the file all succeed.\<close>

definition load_ld_cache :: "('e) proc_env_scheme \<Rightarrow> string \<Rightarrow> ld_state \<Rightarrow> (int \<times> ld_state) option" where
  "load_ld_cache env cache_path st =
     (case pr_mmap_file env cache_path of
        None \<Rightarrow> Some (- 1, st)
      | Some ld_map \<Rightarrow>
          if length ld_map < 16 then Some (- 1, st)
          else do {
            header \<leftarrow> rd ld_map 0 11;
            if header = bytes_of CACHE1_HEADER
            then do {
              entry_count \<leftarrow> ld32 ld_map 12;
              let cache1_len = (16 + 12 * unat entry_count + 7) div 8 * 8;
              if length ld_map > cache1_len + 48 then read_cache2 env (drop cache1_len ld_map) st
              else read_cache1 env ld_map st
            }
            else read_cache2 env ld_map st
          })"

definition LD_SO_CACHE :: string where
  "LD_SO_CACHE = ''/etc/ld.so.cache''"

definition match_so_flags :: "u32 \<Rightarrow> bool" where
  "match_so_flags flags =
     (if flags AND 0x00ff \<noteq> 0x0003 then False
      else flags AND 0xff00 \<in> {0x0100, 0x0200, 0x0300, 0x0400, 0x0500, 0x0a00, 0x1100, 0x1200})"

fun ldconfig_loop :: "string \<Rightarrow> ld_lib list \<Rightarrow> string option" where
  "ldconfig_loop soname [] = None"
| "ldconfig_loop soname (l # ls) =
     (if starts_with (ll_libname l) soname \<and> match_so_flags (ll_flags l)
      then (if length (ll_path l) \<ge> PATH_MAX then None else Some (ll_path l))
      else ldconfig_loop soname ls)"

definition which_so_in_ldconfig_cache ::
  "('e) proc_env_scheme \<Rightarrow> ld_state \<Rightarrow> string \<Rightarrow> (string option \<times> ld_state) option" where
  "which_so_in_ldconfig_cache env st libname =
     (let has_so = strstr libname ''.so'' \<noteq> None;
          soname = (if has_so then ''lib'' @ libname else ''lib'' @ libname @ ''.so'') in
      if lib_cache_count st < 0 then Some (None, st)
      else do {
        (r, st) \<leftarrow> (if lib_cache_count st = 0 then load_ld_cache env LD_SO_CACHE st else Some (0, st));
        if r < 0 then Some (None, st\<lparr>lib_cache_count := - 1\<rparr>)
        else Some (ldconfig_loop soname (take (nat (lib_cache_count st)) (lib_cache st)), st)
      })"

section \<open>Scanning the fields of a mapping\<close>

text \<open>
  A \<^verbatim>\<open>scanf\<close> format as a list of directives: a hexadecimal or decimal number, a word, a character.
  The result counts the conversions that succeeded, lists the words and has the rest of the input;
  a conversion that fails has consumed the blanks and the sign or prefix it has seen.
\<close>

datatype scan_dir = Dir_x | Dir_d | Dir_s | Dir_lit char

definition scan_num_fail :: "nat \<Rightarrow> string \<Rightarrow> string" where
  "scan_num_fail b s = scan_prefix b (snd (scan_sign (skip_ws s)))"

fun scan_dirs :: "scan_dir list \<Rightarrow> string \<Rightarrow> nat \<times> string list \<times> string" where
  "scan_dirs [] s = (0, [], s)"
| "scan_dirs (Dir_x # ds) s =
     (case scan_num 16 s of
        None \<Rightarrow> (0, [], scan_num_fail 16 s)
      | Some (_, s) \<Rightarrow> (let (n, ws, s) = scan_dirs ds s in (n + 1, ws, s)))"
| "scan_dirs (Dir_d # ds) s =
     (case scan_num 10 s of
        None \<Rightarrow> (0, [], scan_num_fail 10 s)
      | Some (_, s) \<Rightarrow> (let (n, ws, s) = scan_dirs ds s in (n + 1, ws, s)))"
| "scan_dirs (Dir_s # ds) s =
     (case scan_s s of
        None \<Rightarrow> (0, [], skip_ws s)
      | Some (w, s) \<Rightarrow> (let (n, ws, s) = scan_dirs ds s in (n + 1, w # ws, s)))"
| "scan_dirs (Dir_lit c # ds) s =
     (case scan_lit c s of
        None \<Rightarrow> (0, [], s)
      | Some s \<Rightarrow> scan_dirs ds s)"

definition scan_map_dirs :: "string \<Rightarrow> nat \<times> string list \<times> string" where
  "scan_map_dirs = scan_dirs [Dir_x, Dir_lit (CHR ''-''), Dir_x, Dir_s, Dir_x, Dir_s, Dir_d]"

lemma scan_num_fail_le: "length (scan_num_fail b s) \<le> length s"
proof -
  have "length (scan_num_fail b s) \<le> length (snd (scan_sign (skip_ws s)))"
    by (simp add: scan_num_fail_def scan_prefix_def)
  also have "\<dots> \<le> length (skip_ws s)"
    by (rule scan_sign_le)
  also have "\<dots> \<le> length s"
    by (simp add: skip_ws_def length_dropWhile_le)
  finally show ?thesis .
qed

lemma scan_s_le: "scan_s s = Some (w, t) \<Longrightarrow> length t \<le> length s"
proof -
  assume "scan_s s = Some (w, t)"
  then have "length t \<le> length (skip_ws s)"
    by (auto simp: scan_s_def Let_def length_dropWhile_le split: if_splits)
  then show ?thesis
    using length_dropWhile_le [of isspace s] by (simp add: skip_ws_def)
qed

lemma scan_dirs_le: "scan_dirs ds s = (n, ws, t) \<Longrightarrow> length t \<le> length s"
proof (induction ds s arbitrary: n ws t rule: scan_dirs.induct)
  case (4 ds s)
  then show ?case
    by (force simp: skip_ws_def length_dropWhile_le dest: scan_s_le split: option.splits prod.splits)
qed (force simp: scan_num_fail_le dest: scan_num_le scan_lit_le split: option.splits prod.splits)+

lemma scan_map_dirs_le: "scan_map_dirs s = (n, ws, t) \<Longrightarrow> length t \<le> length s"
  unfolding scan_map_dirs_def by (rule scan_dirs_le)

section \<open>The libraries of a process\<close>

text \<open>
  The format of \<^verbatim>\<open>which_so_in_process\<close> stores nothing, so \<^verbatim>\<open>fscanf\<close> returns 0, or EOF at the end of the
  input, where \<^verbatim>\<open>fgets\<close> then fails as well.
\<close>

definition map_name :: "string \<Rightarrow> string" where
  "map_name line = skip_ws (takeWhile (\<lambda>c. c \<noteq> CHR 0x0A) line)"

function which_so_loop :: "bool \<Rightarrow> string \<Rightarrow> string \<Rightarrow> string \<Rightarrow> string option" where
  "which_so_loop has_so search1 search2 fp =
     (case fgets 4096 (snd (snd (scan_map_dirs fp))) of
        None \<Rightarrow> None
      | Some (endline, rest) \<Rightarrow>
          (let mapname = map_name endline in
           if strstr mapname ''.so'' \<noteq> None \<and>
              (strstr mapname search1 \<noteq> None \<or> (\<not> has_so \<and> strstr mapname search2 \<noteq> None))
           then (if length mapname \<ge> PATH_MAX then None else Some mapname)
           else which_so_loop has_so search1 search2 rest))"
  by pat_completeness auto
termination
proof (relation "measure (\<lambda>(h, s1, s2, s). length s)", goal_cases)
  case (2 has_so search1 search2 fp x l rest xa)
  have "length rest < length (snd (snd (scan_map_dirs fp)))"
    using 2 by (intro fgets_shorter [of 4096 _ l]) simp_all
  also have "\<dots> \<le> length fp"
    using scan_map_dirs_le [of fp] by (cases "scan_map_dirs fp") auto
  finally show ?case
    by simp
qed simp

declare which_so_loop.simps [simp del]

definition which_so_in_process :: "('e) proc_env_scheme \<Rightarrow> string \<Rightarrow> int \<Rightarrow> string option" where
  "which_so_in_process env libname pid =
     (let has_so = strstr libname ''.so'' \<noteq> None in
      case pe_fopen env (snprintf_trunc 128 (''/proc/'' @ show_int pid @ ''/maps'')) of
        None \<Rightarrow> None
      | Some fp \<Rightarrow>
          if has_so then which_so_loop has_so (''/lib'' @ libname) [] fp
          else which_so_loop has_so (''/lib'' @ libname @ ''.'') (''/lib'' @ libname @ ''-'') fp)"

definition bcc_procutils_which_so ::
  "('e) proc_env_scheme \<Rightarrow> ld_state \<Rightarrow> string \<Rightarrow> int \<Rightarrow> (string option \<times> ld_state) option" where
  "bcc_procutils_which_so env st libname pid =
     (if CHR ''/'' \<in> set libname then Some (Some libname, st)
      else
        (case (if pid \<noteq> 0 then which_so_in_process env libname pid else None) of
           Some libpath \<Rightarrow> Some (Some libpath, st)
         | None \<Rightarrow> which_so_in_ldconfig_cache env st libname))"

definition bcc_procutils_which_so_in_process :: "('e) proc_env_scheme \<Rightarrow> string \<Rightarrow> int \<Rightarrow> string option" where
  "bcc_procutils_which_so_in_process env libname pid =
     (if pid \<noteq> 0 then which_so_in_process env libname pid else None)"

section \<open>The language of a process\<close>

definition languages :: "string list" where
  "languages = [''java'', ''node'', ''perl'', ''php'', ''python'', ''ruby'']"

definition language_c :: string where
  "language_c = ''c''"

definition is_libc :: "string \<Rightarrow> bool" where
  "is_libc mapname =
     (case strstr mapname ''libc'' of
        None \<Rightarrow> False
      | Some i \<Rightarrow> take 1 (drop (i + 4) mapname) = ''-'' \<or> take 1 (drop (i + 4) mapname) = ''.'')"

text \<open>
  The two words go into buffers of eight bytes.  The test for the C library is inside the loop over
  the languages but does not depend on the language.
\<close>

function language_loop :: "bool \<Rightarrow> string \<Rightarrow> string option option" where
  "language_loop libc procfile =
     (case scan_map_dirs procfile of
        (ret, ws, s) \<Rightarrow>
          if list_ex (\<lambda>w. length w \<ge> 8) ws then None
          else
            (case fgets 4096 s of
               None \<Rightarrow> Some (if libc then Some language_c else None)
             | Some (line, rest) \<Rightarrow>
                 if ret = 6
                 then
                   (let mapname = map_name line in
                    case find (\<lambda>l. strstr mapname (''/lib'' @ l) \<noteq> None) languages of
                      Some l \<Rightarrow> Some (Some l)
                    | None \<Rightarrow> language_loop (libc \<or> is_libc mapname) rest)
                 else if ret = 0 then Some (if libc then Some language_c else None)
                 else language_loop libc rest))"
  by pat_completeness auto
termination
  by (relation "measure (\<lambda>(b, s). length s)")
    (auto dest!: scan_map_dirs_le [OF HOL.sym] fgets_shorter [rotated])

declare language_loop.simps [simp del]

definition bcc_procutils_language :: "('e) proc_env_scheme \<Rightarrow> int \<Rightarrow> string option option" where
  "bcc_procutils_language env pid =
     (case (case pr_realpath env (snprintf_trunc 24 (''/proc/'' @ show_int pid @ ''/exe'')) of
              None \<Rightarrow> None
            | Some line \<Rightarrow> find (\<lambda>l. strstr line l \<noteq> None) languages) of
        Some l \<Rightarrow> Some (Some l)
      | None \<Rightarrow>
          (case pe_fopen env (snprintf_trunc 24 (''/proc/'' @ show_int pid @ ''/maps'')) of
             None \<Rightarrow> Some None
           | Some procfile \<Rightarrow> language_loop False procfile))"

section \<open>Reading back a cache\<close>

text \<open>The new format as the dynamic linker's configurator writes it.\<close>

fun ld_entries :: "nat \<Rightarrow> ld_lib list \<Rightarrow> bytes" where
  "ld_entries off [] = []"
| "ld_entries off (l # ls) =
     (enc_le 4 (unat (ll_flags l)) @ enc_le 4 off @ enc_le 4 (off + length (ll_libname l) + 1) @
      enc_le 4 0 @ enc_le 8 0) @ ld_entries (off + length (ll_libname l) + length (ll_path l) + 2) ls"

definition ld_strings :: "ld_lib list \<Rightarrow> bytes" where
  "ld_strings ls = concat (map (\<lambda>l. bytes_of (ll_libname l) @ [0] @ bytes_of (ll_path l) @ [0]) ls)"

definition ld_cache2_bytes :: "ld_lib list \<Rightarrow> bytes" where
  "ld_cache2_bytes ls =
     bytes_of CACHE2_HEADER @ bytes_of ''1.1'' @ enc_le 4 (length ls) @ enc_le 4 (length (ld_strings ls)) @
     replicate 20 0 @ ld_entries (48 + 24 * length ls) ls @ ld_strings ls"

text \<open>The compatible layout: an old cache, padded to eight bytes, in front of the new one.\<close>

definition ld_compat_bytes :: "bytes list \<Rightarrow> ld_lib list \<Rightarrow> bytes" where
  "ld_compat_bytes old ls =
     bytes_of CACHE1_HEADER @ [0] @ enc_le 4 (length old) @ concat old @
     replicate ((16 + 12 * length old + 7) div 8 * 8 - (16 + 12 * length old)) 0 @ ld_cache2_bytes ls"

definition ld_lib_ok :: "ld_lib \<Rightarrow> bool" where
  "ld_lib_ok l \<longleftrightarrow> CHR 0x00 \<notin> set (ll_libname l) \<and> CHR 0x00 \<notin> set (ll_path l) \<and> length (ll_path l) < PATH_MAX"

lemma length_ld_entries [simp]: "length (ld_entries off ls) = 24 * length ls"
  by (induction ls arbitrary: off) simp_all

lemma length_bytes_of [simp]: "length (bytes_of s) = length s"
  by (simp add: bytes_of_def)

lemma string_of_bytes_of: "string_of (bytes_of s) = s"
proof -
  have "char_of (unat (word_of_nat (of_char c) :: u8)) = c" for c
    by (simp add: unat_of_nat take_bit_nat_eq_self of_char_mod_256 flip: take_bit_eq_mod)
  then show ?thesis
    by (simp add: string_of_def bytes_of_def comp_def)
qed

lemma bytes_of_no_zero: "CHR 0x00 \<notin> set s \<Longrightarrow> 0 \<notin> set (bytes_of s)"
proof
  assume nz: "CHR 0x00 \<notin> set s" and z: "0 \<in> set (bytes_of s)"
  then obtain c where "c \<in> set s" "(0 :: u8) = word_of_nat (of_char c)"
    by (auto simp: bytes_of_def)
  then have "CHR 0x00 \<in> set s"
    using string_of_bytes_of [of "[c]"] by (simp add: string_of_def bytes_of_def char_of_def)
  then show False
    using nz by simp
qed

lemma ld_cstr_at_append:
  assumes "CHR 0x00 \<notin> set s" "n = length pre"
  shows "ld_cstr_at (pre @ bytes_of s @ 0 # post) n = Some s"
proof -
  have "takeWhile (\<lambda>b. b \<noteq> 0) (bytes_of s @ 0 # post) = bytes_of s"
    using bytes_of_no_zero [OF assms(1)] by (intro takeWhile_append_stop) (auto simp: list_all_iff)
  then show ?thesis
    by (simp add: ld_cstr_at_def assms(2) string_of_bytes_of)
qed

lemma ld32_append: "n = length pre \<Longrightarrow> v < 2 ^ 32 \<Longrightarrow> ld32 (pre @ enc_le 4 v @ post) n = Some (word_of_nat v)"
  by (simp add: ld32_def rd_def unaligned_uint32_read_def le_nat_enc_le)

lemma read_entries_enc:
  assumes "m = A @ ld_entries off ls @ B @ ld_strings ls @ C" "length A = 48 + 24 * i"
    and "off = length (A @ ld_entries off ls @ B)" "list_all ld_lib_ok ls" "length m < 2 ^ 32"
  shows "read_entries m 48 24 0 i (length ls) = Some ls"
  using assms
proof (induction ls arbitrary: A B off i)
  case (Cons l ls)
  let ?e = "enc_le 4 (unat (ll_flags l)) @ enc_le 4 off @ enc_le 4 (off + length (ll_libname l) + 1) @ enc_le 4 0 @ enc_le 8 0"
  let ?s = "bytes_of (ll_libname l) @ [0] @ bytes_of (ll_path l) @ [0]"
  let ?off = "off + length (ll_libname l) + length (ll_path l) + 2"
  let ?T = "ld_entries ?off ls @ B @ ?s @ ld_strings ls @ C"
  have m: "m = A @ ?e @ ?T"
    using Cons.prems(1) by (simp add: ld_strings_def)
  have offl: "off = length A + 24 + 24 * length ls + length B"
    using Cons.prems(3) by simp
  have small: "off + length (ll_libname l) + 1 < 2 ^ 32"
    using Cons.prems(5) offl by (simp add: m)
  have "ld32 m (48 + i * 24) = Some (ll_flags l)"
    using ld32_append [of "48 + i * 24" A "unat (ll_flags l)" "enc_le 4 off @ enc_le 4 (off + length (ll_libname l) + 1) @ enc_le 4 0 @ enc_le 8 0 @ ?T"]
      Cons.prems(2) unsigned_less [of "ll_flags l"] by (simp add: m)
  moreover have "ld32 m (48 + i * 24 + 4) = Some (word_of_nat off)"
    using ld32_append [of "48 + i * 24 + 4" "A @ enc_le 4 (unat (ll_flags l))" off "enc_le 4 (off + length (ll_libname l) + 1) @ enc_le 4 0 @ enc_le 8 0 @ ?T"]
      Cons.prems(2) small by (simp add: m)
  moreover have "ld32 m (48 + i * 24 + 8) = Some (word_of_nat (off + length (ll_libname l) + 1))"
    using ld32_append [of "48 + i * 24 + 8" "A @ enc_le 4 (unat (ll_flags l)) @ enc_le 4 off" "off + length (ll_libname l) + 1" "enc_le 4 0 @ enc_le 8 0 @ ?T"]
      Cons.prems(2) small by (simp add: m)
  moreover have "unat (word_of_nat off :: u32) = off" "unat (word_of_nat (off + length (ll_libname l) + 1) :: u32) = off + length (ll_libname l) + 1"
    using small by (simp_all add: unat_of_nat take_bit_nat_eq_self del: of_nat_add of_nat_Suc)
  moreover have "ld_cstr_at m off = Some (ll_libname l)"
    using ld_cstr_at_append [of "ll_libname l" off "A @ ?e @ ld_entries ?off ls @ B" "bytes_of (ll_path l) @ [0] @ ld_strings ls @ C"]
      Cons.prems(4) offl by (simp add: m ld_lib_ok_def)
  moreover have "ld_cstr_at m (off + length (ll_libname l) + 1) = Some (ll_path l)"
    using ld_cstr_at_append [of "ll_path l" "off + length (ll_libname l) + 1" "A @ ?e @ ld_entries ?off ls @ B @ bytes_of (ll_libname l) @ [0]" "ld_strings ls @ C"]
      Cons.prems(4) offl by (simp add: m ld_lib_ok_def)
  moreover have "read_entries m 48 24 0 (i + 1) (length ls) = Some ls"
    by (rule Cons.IH [of "A @ ?e" ?off "B @ ?s"]) (use Cons.prems(2,4,5) m offl in simp_all)
  ultimately show ?case
    by simp
qed simp

lemma read_cache2_bytes:
  assumes "list_all ld_lib_ok ls" "length (ld_cache2_bytes ls) < 2 ^ 31" "\<forall>n. pr_malloc env n"
  shows "read_cache2 env (ld_cache2_bytes ls) st = Some (0, \<lparr>lib_cache_count = int (length ls), lib_cache = ls\<rparr>)"
proof -
  let ?A = "bytes_of CACHE2_HEADER @ bytes_of ''1.1'' @ enc_le 4 (length ls) @ enc_le 4 (length (ld_strings ls)) @ replicate 20 0"
  have hdr: "length CACHE2_HEADER = 17"
    by (simp add: CACHE2_HEADER_def)
  have m: "ld_cache2_bytes ls = ?A @ ld_entries (48 + 24 * length ls) ls @ [] @ ld_strings ls @ []"
    by (simp add: ld_cache2_bytes_def)
  have len: "length ls < 2 ^ 31"
    using assms(2) unfolding m by simp
  then have count: "unat (word_of_nat (length ls) :: u32) = length ls"
    by (simp add: unat_of_nat take_bit_nat_eq_self)
  then have scount: "sint (word_of_nat (length ls) :: u32) = int (length ls)"
    using len sint_small_u32 [of "word_of_nat (length ls)"] by simp
  have "read_entries (ld_cache2_bytes ls) 48 24 0 0 (length ls) = Some ls"
    by (rule read_entries_enc [OF m]) (use hdr assms in simp_all)
  moreover have "rd (ld_cache2_bytes ls) 0 17 = Some (bytes_of CACHE2_HEADER)"
    using rd_middle [of "[]" "bytes_of CACHE2_HEADER"] by (simp add: ld_cache2_bytes_def hdr)
  moreover have "ld32 (ld_cache2_bytes ls) 20 = Some (word_of_nat (length ls))"
    using ld32_append [of 20 "bytes_of CACHE2_HEADER @ bytes_of ''1.1''" "length ls"] len
    by (simp add: ld_cache2_bytes_def hdr)
  ultimately show ?thesis
    using assms(3) by (simp add: read_cache2_def count scount)
qed

lemma bytes_of_header_ne: "rd (ld_cache2_bytes ls) 0 11 \<noteq> Some (bytes_of CACHE1_HEADER)"
  by (simp add: rd_def ld_cache2_bytes_def bytes_of_def CACHE1_HEADER_def CACHE2_HEADER_def)

lemma load_ld_cache_new:
  assumes "pr_mmap_file env path = Some (ld_cache2_bytes ls)" "list_all ld_lib_ok ls"
    "length (ld_cache2_bytes ls) < 2 ^ 31" "\<forall>n. pr_malloc env n"
  shows "load_ld_cache env path st = Some (0, \<lparr>lib_cache_count = int (length ls), lib_cache = ls\<rparr>)"
proof -
  have len: "48 \<le> length (ld_cache2_bytes ls)"
    by (simp add: ld_cache2_bytes_def CACHE2_HEADER_def)
  then obtain h where h: "rd (ld_cache2_bytes ls) 0 11 = Some h" "h \<noteq> bytes_of CACHE1_HEADER"
    using bytes_of_header_ne [of ls] by (cases "rd (ld_cache2_bytes ls) 0 11") auto
  show ?thesis
    using len read_cache2_bytes [OF assms(2-4), of st] by (simp add: load_ld_cache_def assms(1) h)
qed

lemma load_ld_cache_compat:
  assumes "pr_mmap_file env path = Some (ld_compat_bytes old ls)" "list_all ld_lib_ok ls" "ls \<noteq> []"
    "list_all (\<lambda>e. length e = 12) old" "length (ld_compat_bytes old ls) < 2 ^ 31" "\<forall>n. pr_malloc env n"
  shows "load_ld_cache env path st = Some (0, \<lparr>lib_cache_count = int (length ls), lib_cache = ls\<rparr>)"
proof -
  let ?n = "16 + 12 * length old"
  let ?c = "(?n + 7) div 8 * 8"
  let ?A = "bytes_of CACHE1_HEADER @ [0] @ enc_le 4 (length old) @ concat old @ replicate (?c - ?n) 0"
  have m: "ld_compat_bytes old ls = ?A @ ld_cache2_bytes ls"
    by (simp add: ld_compat_bytes_def)
  have hdr: "length CACHE1_HEADER = 11"
    by (simp add: CACHE1_HEADER_def)
  have "length (concat old) = 12 * length old"
    using assms(4) by (induction old) simp_all
  moreover have "?n \<le> ?c"
    by presburger
  ultimately have lenA: "length ?A = ?c"
    by (simp only: length_append length_bytes_of hdr length_enc_le length_replicate list.size)
  have len2: "48 < length (ld_cache2_bytes ls)"
    using assms(3) by (cases ls) (simp_all add: ld_cache2_bytes_def CACHE2_HEADER_def)
  have dropA: "drop c (A @ x) = x" "length (A @ x) = c + length x" if "length A = c" for A x :: bytes and c
    using that by auto
  have "length ?A + length (ld_cache2_bytes ls) < 2 ^ 31"
    using assms(5) unfolding m length_append .
  then have "?n + length (ld_cache2_bytes ls) < 2 ^ 31"
    using lenA \<open>?n \<le> ?c\<close> by linarith
  then have small: "length (ld_cache2_bytes ls) < 2 ^ 31" "length old < 2 ^ 32"
    by simp_all
  have "rd (ld_compat_bytes old ls) 0 11 = Some (bytes_of CACHE1_HEADER)"
    using rd_middle [of "[]" "bytes_of CACHE1_HEADER"] by (simp add: m hdr)
  moreover have "ld32 (ld_compat_bytes old ls) 12 = Some (word_of_nat (length old))"
    using ld32_append [of 12 "bytes_of CACHE1_HEADER @ [0]" "length old"] small(2) by (simp add: m hdr)
  moreover have "unat (word_of_nat (length old) :: u32) = length old"
    using small(2) by (simp add: unat_of_nat take_bit_nat_eq_self)
  moreover have "drop ?c (ld_compat_bytes old ls) = ld_cache2_bytes ls"
    unfolding m by (rule dropA(1) [OF lenA])
  moreover have "length (ld_compat_bytes old ls) = ?c + length (ld_cache2_bytes ls)"
    unfolding m by (rule dropA(2) [OF lenA])
  ultimately show ?thesis
    using len2 read_cache2_bytes [OF assms(2) small(1) assms(6), of st]
    by (simp add: load_ld_cache_def assms(1))
qed

lemma ldconfig_loop_find:
  "list_all ld_lib_ok ls \<Longrightarrow>
   ldconfig_loop soname ls = map_option ll_path (find (\<lambda>l. starts_with (ll_libname l) soname \<and> match_so_flags (ll_flags l)) ls)"
  by (induction ls) (auto simp: ld_lib_ok_def)

text \<open>
  (C18) A library is found through the dynamic linker's cache: for a cache file in the new format, or
  in the compatible one that has an old cache in front, the first search for a library that no process
  constrains yields the path of the first entry whose name begins with the library's and whose flags
  match the machine, loads the whole table, and touches no byte outside the file.
\<close>

theorem which_so_from_cache:
  assumes "pr_mmap_file env LD_SO_CACHE = Some (if with_old then ld_compat_bytes old ls else ld_cache2_bytes ls)"
    and "list_all ld_lib_ok ls" "ls \<noteq> []" "list_all (\<lambda>e. length e = 12) old"
    and "length (if with_old then ld_compat_bytes old ls else ld_cache2_bytes ls) < 2 ^ 31" "\<forall>n. pr_malloc env n"
    and "CHR ''/'' \<notin> set libname" "strstr libname ''.so'' = None"
  shows "bcc_procutils_which_so env \<lparr>lib_cache_count = 0, lib_cache = []\<rparr> libname 0 =
    Some (map_option ll_path
            (find (\<lambda>l. starts_with (ll_libname l) (''lib'' @ libname @ ''.so'') \<and> match_so_flags (ll_flags l)) ls),
          \<lparr>lib_cache_count = int (length ls), lib_cache = ls\<rparr>)"
proof -
  have "load_ld_cache env LD_SO_CACHE \<lparr>lib_cache_count = 0, lib_cache = []\<rparr> =
      Some (0, \<lparr>lib_cache_count = int (length ls), lib_cache = ls\<rparr>)"
    using assms load_ld_cache_new [of env LD_SO_CACHE ls] load_ld_cache_compat [of env LD_SO_CACHE old ls]
    by (cases with_old) simp_all
  then show ?thesis
    using assms(7,8) ldconfig_loop_find [OF assms(2)]
    by (simp add: bcc_procutils_which_so_def which_so_in_ldconfig_cache_def Let_def)
qed

definition wit_libs :: "ld_lib list" where
  "wit_libs = [\<lparr>ll_libname = ''libc.so.6'', ll_path = ''/lib32/libc.so.6'', ll_flags = 0x0803\<rparr>,
     \<lparr>ll_libname = ''libc.so.6'', ll_path = ''/lib64/libc.so.6'', ll_flags = 0x0303\<rparr>]"

definition wit_cache_env :: proc_env where
  "wit_cache_env = \<lparr>pe_fopen = (\<lambda>_. None), pe_access = (\<lambda>_. True), pe_readlink = (\<lambda>_. None),
     pr_getenv_PATH = None, pr_elf_type = (\<lambda>p. - 1), pr_access_x = (\<lambda>_. True),
     pr_readdir = (\<lambda>_. None), pr_stat_ino = (\<lambda>_. None), pr_zip = wit_env, pr_malloc = (\<lambda>_. True),
     pr_realpath = (\<lambda>_. None), pr_mmap_file = (\<lambda>_. Some (ld_cache2_bytes wit_libs))\<rparr>"

theorem which_so_from_cache_witness:
  "bcc_procutils_which_so wit_cache_env \<lparr>lib_cache_count = 0, lib_cache = []\<rparr> ''c'' 0 =
     Some (Some ''/lib64/libc.so.6'', \<lparr>lib_cache_count = 2, lib_cache = wit_libs\<rparr>)"
  using which_so_from_cache [of wit_cache_env False "[]" wit_libs "''c''"]
  by (simp add: wit_cache_env_def) (simp add: wit_libs_def ld_lib_ok_def PATH_MAX_def ld_cache2_bytes_def
      CACHE2_HEADER_def ld_strings_def match_so_flags_def)

end
