(* ===== verification/Sym_Cache.thy ===== *)
theory Sym_Cache
  imports Proc "HOL-Library.AList"
begin

text \<open>
  The symbol caches of src/cc/bcc_syms.cc and src/cc/syms.h: the kernel's symbols (\<^verbatim>\<open>KSyms\<close>), the
  modules of a process (\<^verbatim>\<open>ProcSyms\<close>) and modules by build id (\<^verbatim>\<open>BuildSyms\<close>), with the operations that
  the C interface exports.  An object is a record and a method returns the updated one; every method
  takes the state of the system at the time of the call.  What src/cc/bcc_elf.c reads out of an object
  file through libelf is a parameter: the symbols in the order in which it reports them, in one listing
  for the file with the debug information, if there is one, and one for the file itself.

  \<^verbatim>\<open>std::sort\<close> leaves the order of equal elements open, so it is a parameter as well, a function that
  sorts by address.  \<^verbatim>\<open>std::upper_bound\<close> is the position of the first greater element.
\<close>

section \<open>The environment\<close>

record bcc_symbol_option =
  so_use_debug_file :: bool
  so_check_debug_file_crc :: bool
  so_lazy_symbolize :: bool
  so_use_symbol_type :: u32

definition default_symbol_option :: bcc_symbol_option where
  "default_symbol_option = \<lparr>so_use_debug_file = True, so_check_debug_file_crc = True,
     so_lazy_symbolize = True, so_use_symbol_type = push_bit 2 1 OR push_bit 10 1\<rparr>"

record bcc_symbol =
  bs_name :: "string option"
  bs_demangle_name :: "string option"
  bs_module :: "string option"
  bs_offset :: u64

definition zero_symbol :: bcc_symbol where
  "zero_symbol = \<lparr>bs_name = None, bs_demangle_name = None, bs_module = None, bs_offset = 0\<rparr>"

record name_idx =
  ni_section_idx :: nat
  ni_str_table_idx :: nat
  ni_str_len :: nat
  ni_debugfile :: bool

text \<open>
  \<^verbatim>\<open>se_stack\<close> and \<^verbatim>\<open>se_junk\<close> stand for uninitialised memory, \<^verbatim>\<open>se_erange\<close> for \<^verbatim>\<open>errno\<close>; \<^verbatim>\<open>se_stat\<close> has the
  inode and the device numbers.
\<close>

record sym_env = proc_env +
  se_list_syms :: "string \<Rightarrow> bcc_symbol_option \<Rightarrow> (string \<times> u64 \<times> u64) list list \<times> bool"
  se_list_syms_lazy :: "string \<Rightarrow> bcc_symbol_option \<Rightarrow> (name_idx \<times> u64 \<times> u64) list list \<times> bool"
  se_list_vdso :: "(string \<times> u64 \<times> u64) list list \<times> bool"
  se_symbol_str :: "string \<Rightarrow> name_idx \<Rightarrow> string option"
  se_text_scn :: "string \<Rightarrow> (u64 \<times> u64) option"
  se_load_sections :: "string \<Rightarrow> (u64 \<times> u64 \<times> u64) list option"
  se_buildid :: "string \<Rightarrow> string option"
  se_demangle :: "string \<Rightarrow> string option"
  se_stat :: "string \<Rightarrow> (u64 \<times> u64 \<times> u64) option"
  se_exists :: "string \<Rightarrow> bool"
  se_open :: "string \<Rightarrow> int"
  se_openat :: "int \<Rightarrow> string \<Rightarrow> int"
  se_stack :: "string \<Rightarrow> string"
  se_junk :: "u64 \<times> u64"
  se_erange :: bool
  se_os :: os_res
  se_zip_entry :: bcc_zip_entry

definition upper_bound :: "('a \<Rightarrow> u64) \<Rightarrow> 'a list \<Rightarrow> u64 \<Rightarrow> nat" where
  "upper_bound key xs a = length (takeWhile (\<lambda>x. key x \<le> a) xs)"

definition std_sort :: "('a \<Rightarrow> u64) \<Rightarrow> ('a list \<Rightarrow> 'a list) \<Rightarrow> bool" where
  "std_sort key srt \<longleftrightarrow> (\<forall>xs. mset (srt xs) = mset xs \<and> sorted (map key (srt xs)))"

section \<open>Enumerating the symbols of an object file\<close>

text \<open>
  A listing ends when the callback returns a negative number, which does not keep the next listing
  from being started.  The flag says that the last listing fails at its end; the result is negative
  exactly if that end is reached.
\<close>

fun list_syms :: "('n \<Rightarrow> u64 \<Rightarrow> u64 \<Rightarrow> 's \<Rightarrow> int \<times> 's) \<Rightarrow> ('n \<times> u64 \<times> u64) list \<Rightarrow> 's \<Rightarrow> bool \<times> 's" where
  "list_syms callback [] payload = (False, payload)"
| "list_syms callback ((name, start, sz) # syms) payload =
     (let (ret, payload) = callback name start sz payload in
      if ret < 0 then (True, payload) else list_syms callback syms payload)"

definition foreach_sym_core ::
  "('n \<Rightarrow> u64 \<Rightarrow> u64 \<Rightarrow> 's \<Rightarrow> int \<times> 's) \<Rightarrow> ('n \<times> u64 \<times> u64) list list \<times> bool \<Rightarrow> 's \<Rightarrow> int \<times> 's" where
  "foreach_sym_core callback ls payload =
     (let (stopped, payload) = fold (\<lambda>syms (_, payload). list_syms callback syms payload) (fst ls) (False, payload)
      in (if snd ls \<and> \<not> stopped then - 1 else 0, payload))"

text \<open>Both functions write to the options of the caller.\<close>

definition bcc_elf_foreach_sym ::
  "('e) sym_env_scheme \<Rightarrow> string \<Rightarrow> (string \<Rightarrow> u64 \<Rightarrow> u64 \<Rightarrow> 's \<Rightarrow> int \<times> 's) \<Rightarrow> bcc_symbol_option \<Rightarrow> 's \<Rightarrow>
   int \<times> bcc_symbol_option \<times> 's" where
  "bcc_elf_foreach_sym env path callback opt payload =
     (let opt = opt\<lparr>so_lazy_symbolize := False\<rparr>;
          (ret, payload) = foreach_sym_core callback (se_list_syms env path opt) payload
      in (ret, opt, payload))"

definition bcc_elf_foreach_sym_lazy ::
  "('e) sym_env_scheme \<Rightarrow> string \<Rightarrow> (name_idx \<Rightarrow> u64 \<Rightarrow> u64 \<Rightarrow> 's \<Rightarrow> int \<times> 's) \<Rightarrow> bcc_symbol_option \<Rightarrow> 's \<Rightarrow>
   int \<times> bcc_symbol_option \<times> 's" where
  "bcc_elf_foreach_sym_lazy env path callback opt payload =
     (let opt = opt\<lparr>so_lazy_symbolize := True\<rparr>;
          (ret, payload) = foreach_sym_core callback (se_list_syms_lazy env path opt) payload
      in (ret, opt, payload))"

section \<open>Symbols of the kernel\<close>

record kc_symbol =
  kcs_name :: string
  kcs_mod :: string
  kcs_addr :: u64

record KSyms =
  kc_syms :: "kc_symbol list"
  kc_symnames :: "(string \<times> u64) list"

definition KSyms_add_symbol :: "string \<Rightarrow> string \<Rightarrow> u64 \<Rightarrow> KSyms \<Rightarrow> KSyms" where
  "KSyms_add_symbol symname modname addr ks =
     ks\<lparr>kc_syms := kc_syms ks @ [\<lparr>kcs_name = symname, kcs_mod = modname, kcs_addr = addr\<rparr>]\<rparr>"

definition KSyms_refresh ::
  "(kc_symbol list \<Rightarrow> kc_symbol list) \<Rightarrow> ('e) proc_env_scheme \<Rightarrow> KSyms \<Rightarrow> KSyms option" where
  "KSyms_refresh srt env ks =
     (if kc_syms ks = []
      then map_option (\<lambda>(_, ks). ks\<lparr>kc_syms := srt (kc_syms ks)\<rparr>) (bcc_procutils_each_ksym env KSyms_add_symbol ks)
      else Some ks)"

definition KSyms_lookup :: "KSyms \<Rightarrow> u64 \<Rightarrow> kc_symbol option" where
  "KSyms_lookup ks addr =
     (let it = upper_bound kcs_addr (kc_syms ks) addr in
      if it \<noteq> 0 then Some (kc_syms ks ! (it - 1)) else None)"

definition KSyms_resolve_addr ::
  "(kc_symbol list \<Rightarrow> kc_symbol list) \<Rightarrow> ('e) proc_env_scheme \<Rightarrow> KSyms \<Rightarrow> u64 \<Rightarrow> bcc_symbol \<Rightarrow> bool \<Rightarrow>
   (bool \<times> bcc_symbol \<times> KSyms) option" where
  "KSyms_resolve_addr srt env ks addr s demangle = do {
     ks \<leftarrow> KSyms_refresh srt env ks;
     Some (if kc_syms ks = [] then (False, zero_symbol, ks)
           else
             (case KSyms_lookup ks addr of
                None \<Rightarrow> (False, zero_symbol, ks)
              | Some it \<Rightarrow>
                  (True, s\<lparr>bs_name := Some (kcs_name it),
                           bs_demangle_name := (if demangle then Some (kcs_name it) else bs_demangle_name s),
                           bs_module := Some (kcs_mod it), bs_offset := addr - kcs_addr it\<rparr>, ks)))
   }"

definition KSyms_resolve_name ::
  "(kc_symbol list \<Rightarrow> kc_symbol list) \<Rightarrow> ('e) proc_env_scheme \<Rightarrow> KSyms \<Rightarrow> string \<Rightarrow> (u64 option \<times> KSyms) option" where
  "KSyms_resolve_name srt env ks name = do {
     ks \<leftarrow> KSyms_refresh srt env ks;
     let ks = (if length (kc_syms ks) \<noteq> length (kc_symnames ks)
               then ks\<lparr>kc_symnames := fold (\<lambda>s m. AList.update (kcs_name s) (kcs_addr s) m) (kc_syms ks) []\<rparr>
               else ks);
     Some (map_of (kc_symnames ks) name, ks)
   }"

section \<open>The state of a process\<close>

record ProcStat =
  pst_procfs :: string
  pst_root_symlink :: string
  pst_mount_ns_symlink :: string
  pst_root_fd :: int
  pst_root :: string
  pst_mount_ns :: string
  pst_inode :: u64

definition getinode :: "('e) sym_env_scheme \<Rightarrow> ProcStat \<Rightarrow> u64 option" where
  "getinode env ps = map_option fst (se_stat env (pst_procfs ps))"

text \<open>\<^verbatim>\<open>readlink\<close> does not terminate the buffer: what follows the target on the stack becomes part of the string.\<close>

definition readlink_buf :: "('e) sym_env_scheme \<Rightarrow> string \<Rightarrow> string option" where
  "readlink_buf env path =
     map_option (\<lambda>target. cstr (take PATH_MAX target @ drop (length target) (se_stack env path))) (pe_readlink env path)"

definition refresh_root :: "('e) sym_env_scheme \<Rightarrow> ProcStat \<Rightarrow> bool \<times> ProcStat" where
  "refresh_root env ps =
     (case (readlink_buf env (pst_root_symlink ps), readlink_buf env (pst_mount_ns_symlink ps)) of
        (Some current_root, Some current_mount_ns) \<Rightarrow>
          if pst_root_fd ps \<noteq> - 1 \<and> current_root = pst_root ps \<and> current_mount_ns = pst_mount_ns ps
          then (False, ps)
          else
            (let original_root_fd = pst_root_fd ps;
                 root_fd = se_open env (pst_root_symlink ps)
             in (original_root_fd \<noteq> root_fd,
                 ps\<lparr>pst_root := current_root, pst_mount_ns := current_mount_ns, pst_root_fd := root_fd\<rparr>))
      | _ \<Rightarrow> (False, ps))"

definition is_stale :: "('e) sym_env_scheme \<Rightarrow> ProcStat \<Rightarrow> bool \<times> ProcStat" where
  "is_stale env ps =
     (case getinode env ps of
        None \<Rightarrow> (False, ps)
      | Some cur_inode \<Rightarrow> if cur_inode \<noteq> pst_inode ps then refresh_root env ps else (False, ps))"

definition ProcStat_reset :: "('e) sym_env_scheme \<Rightarrow> ProcStat \<Rightarrow> ProcStat" where
  "ProcStat_reset env ps = (case getinode env ps of None \<Rightarrow> ps | Some i \<Rightarrow> ps\<lparr>pst_inode := i\<rparr>)"

definition ProcStat_new :: "('e) sym_env_scheme \<Rightarrow> int \<Rightarrow> ProcStat" where
  "ProcStat_new env pid =
     (let ps = \<lparr>pst_procfs = ''/proc/'' @ show_int pid @ ''/exe'', pst_root_symlink = ''/proc/'' @ show_int pid @ ''/root'',
                pst_mount_ns_symlink = ''/proc/'' @ show_int pid @ ''/ns/mnt'', pst_root_fd = - 1,
                pst_root = [], pst_mount_ns = [], pst_inode = fst (se_junk env)\<rparr>
      in snd (refresh_root env (ProcStat_reset env ps)))"

section \<open>Modules of a process\<close>

datatype ModuleType = UNKNOWN | EXEC | SO | PERF_MAP | VDSO

datatype sym_name = Sym_name string | Sym_idx name_idx

record pc_symbol =
  pcs_name :: sym_name
  pcs_start :: u64
  pcs_size :: u64

record ModulePath =
  mp_fd :: int
  mp_proc_root_path :: string
  mp_path :: string

record Range =
  rng_start :: u64
  rng_end :: u64
  rng_file_offset :: u64

record Module =
  md_name :: string
  md_path :: ModulePath
  md_ranges :: "Range list"
  md_loaded :: bool
  md_type :: ModuleType
  md_elf_so_offset :: u64
  md_elf_so_addr :: u64
  md_syms :: "pc_symbol list"

definition ModulePath_new :: "('e) sym_env_scheme \<Rightarrow> string \<Rightarrow> int \<Rightarrow> int \<Rightarrow> bool \<Rightarrow> ModulePath" where
  "ModulePath_new env ns_path root_fd pid enter_ns =
     (if \<not> enter_ns then \<lparr>mp_fd = - 1, mp_proc_root_path = ns_path, mp_path = ns_path\<rparr>
      else
        (let proc_root_path = ''/proc/'' @ show_int pid @ ''/root'' @ ns_path;
             trimmed_path = dropWhile (\<lambda>c. c = CHR ''/'') ns_path;
             fd = se_openat env root_fd trimmed_path
         in \<lparr>mp_fd = fd, mp_proc_root_path = proc_root_path,
             mp_path = (if fd > 0 then ''/proc/self/fd/'' @ show_int fd else proc_root_path)\<rparr>))"

definition path_of :: "('e) sym_env_scheme \<Rightarrow> ModulePath \<Rightarrow> string" where
  "path_of env mp =
     (if mp_path mp = mp_proc_root_path mp \<or> \<not> se_exists env (mp_proc_root_path mp) then mp_path mp
      else mp_proc_root_path mp)"

definition bcc_elf_is_vdso :: "string \<Rightarrow> bool" where
  "bcc_elf_is_vdso name \<longleftrightarrow> name = ''[vdso]''"

text \<open>For an ELF file the constructor returns before it sets the two offsets.\<close>

definition Module_new :: "('e) sym_env_scheme \<Rightarrow> string \<Rightarrow> ModulePath \<Rightarrow> Module" where
  "Module_new env name path =
     (let m = \<lparr>md_name = name, md_path = path, md_ranges = [], md_loaded = False,
               md_type = UNKNOWN, md_elf_so_offset = fst (se_junk env), md_elf_so_addr = snd (se_junk env), md_syms = []\<rparr>;
          elf_type = pr_elf_type env (path_of env path)
      in if elf_type \<ge> 0
         then m\<lparr>md_type := (if elf_type = 2 then EXEC else if elf_type = 3 then SO else UNKNOWN)\<rparr>
         else m\<lparr>md_type := (if bcc_is_valid_perf_map env (path_of env path) then PERF_MAP
                             else if bcc_elf_is_vdso (path_of env path) then VDSO else UNKNOWN),
                md_elf_so_offset := 0, md_elf_so_addr := 0\<rparr>)"

definition Module_add_symbol :: "string \<Rightarrow> u64 \<Rightarrow> u64 \<Rightarrow> Module \<Rightarrow> Module" where
  "Module_add_symbol symname start sz m =
     m\<lparr>md_syms := md_syms m @ [\<lparr>pcs_name = Sym_name symname, pcs_start = start, pcs_size = sz\<rparr>]\<rparr>"

definition Module_add_symbol_lazy :: "name_idx \<Rightarrow> u64 \<Rightarrow> u64 \<Rightarrow> Module \<Rightarrow> Module" where
  "Module_add_symbol_lazy ni start sz m =
     m\<lparr>md_syms := md_syms m @ [\<lparr>pcs_name = Sym_idx ni, pcs_start = start, pcs_size = sz\<rparr>]\<rparr>"

text \<open>
  A module holds a pointer to the options of its \<^verbatim>\<open>ProcSyms\<close>, so the functions below take and return
  them.
\<close>

definition load_sym_table ::
  "(pc_symbol list \<Rightarrow> pc_symbol list) \<Rightarrow> ('e) sym_env_scheme \<Rightarrow> bcc_symbol_option \<Rightarrow> Module \<Rightarrow> bcc_symbol_option \<times> Module" where
  "load_sym_table srt env opt m =
     (if md_loaded m then (opt, m)
      else
        (let m = m\<lparr>md_loaded := True\<rparr>; p = path_of env (md_path m) in
         if md_type m = UNKNOWN then (opt, m)
         else
           (let (opt, m) =
              (case md_type m of
                 PERF_MAP \<Rightarrow> (opt, snd (bcc_perf_map_foreach_sym env (se_erange env) p Module_add_symbol m))
               | VDSO \<Rightarrow> (opt, snd (foreach_sym_core (\<lambda>n a l m. (0, Module_add_symbol n a l m)) (se_list_vdso env) m))
               | _ \<Rightarrow>
                   if so_lazy_symbolize opt
                   then snd (bcc_elf_foreach_sym_lazy env p (\<lambda>n a l m. (0, Module_add_symbol_lazy n a l m)) opt m)
                   else snd (bcc_elf_foreach_sym env p (\<lambda>n a l m. (0, Module_add_symbol n a l m)) opt m))
            in (opt, m\<lparr>md_syms := srt (md_syms m)\<rparr>))))"

definition so_calc_global_addr :: "u64 \<Rightarrow> u64 \<Rightarrow> u64 \<Rightarrow> u64 \<Rightarrow> u64 \<Rightarrow> u64" where
  "so_calc_global_addr mod_start_addr mod_file_offset elf_sec_start_addr elf_sec_file_offset offset =
     offset + (mod_start_addr - mod_file_offset) - (elf_sec_start_addr - elf_sec_file_offset)"

definition so_calc_mod_offset :: "u64 \<Rightarrow> u64 \<Rightarrow> u64 \<Rightarrow> u64 \<Rightarrow> u64 \<Rightarrow> u64" where
  "so_calc_mod_offset mod_start_addr mod_file_offset elf_sec_start_addr elf_sec_file_offset global_addr =
     global_addr - (mod_start_addr - mod_file_offset) + (elf_sec_start_addr - elf_sec_file_offset)"

text \<open>The offset, if one of the ranges contains the address.\<close>

definition Module_contains :: "Module \<Rightarrow> u64 \<Rightarrow> u64 option" where
  "Module_contains m addr =
     map_option (\<lambda>range.
       if md_type m = SO \<or> md_type m = VDSO
       then so_calc_mod_offset (rng_start range) (rng_file_offset range) (md_elf_so_addr m) (md_elf_so_offset m) addr
       else addr)
     (find (\<lambda>range. rng_start range \<le> addr \<and> addr < rng_end range) (md_ranges m))"

text \<open>The callback of \<^verbatim>\<open>find_name\<close> stops a listing at the first match.\<close>

definition find_name_cb :: "string \<Rightarrow> string \<Rightarrow> u64 \<Rightarrow> u64 \<Rightarrow> u64 option \<Rightarrow> int \<times> u64 option" where
  "find_name_cb symname name start sz found = (if symname = name then (- 1, Some start) else (0, found))"

text \<open>
  The two paths are compared as pointers: they are equal exactly if \<^verbatim>\<open>path ()\<close> returns the buffer that
  \<^verbatim>\<open>alt_path ()\<close> returns.  The outer \<^const>\<open>None\<close> is a read of the first of no ranges.
\<close>

definition Module_find_name ::
  "('e) sym_env_scheme \<Rightarrow> bcc_symbol_option \<Rightarrow> Module \<Rightarrow> string \<Rightarrow> (u64 option \<times> bcc_symbol_option) option" where
  "Module_find_name env opt m symname =
     (let mp = md_path m; p = path_of env mp;
          same_pointer = \<not> (mp_path mp = mp_proc_root_path mp \<or> \<not> se_exists env (mp_proc_root_path mp));
          (opt, found) =
            (case md_type m of
               UNKNOWN \<Rightarrow> (opt, None)
             | PERF_MAP \<Rightarrow>
                 (opt, snd (bcc_perf_map_foreach_sym env (se_erange env) p
                         (\<lambda>n a l found. snd (find_name_cb symname n a l found)) None))
             | VDSO \<Rightarrow> (opt, snd (foreach_sym_core (find_name_cb symname) (se_list_vdso env) None))
             | _ \<Rightarrow>
                 (let (_, opt, found) = bcc_elf_foreach_sym env p (find_name_cb symname) opt None in
                  if same_pointer then (opt, found)
                  else snd (bcc_elf_foreach_sym env (mp_proc_root_path mp) (find_name_cb symname) opt found)))
      in case found of
           None \<Rightarrow> Some (None, opt)
         | Some out \<Rightarrow>
             if md_type m = SO
             then (case md_ranges m of [] \<Rightarrow> None | r # _ \<Rightarrow> Some (Some (out + rng_start r), opt))
             else Some (Some out, opt))"

text \<open>
  The walk backwards from the symbol before the upper bound; the list has that symbol first and the
  beginning of the table last.  The result is the number of steps back and the name.
\<close>

fun find_back :: "(pc_symbol \<Rightarrow> string option) \<Rightarrow> u64 \<Rightarrow> u64 \<Rightarrow> pc_symbol list \<Rightarrow> (nat \<times> string) option" where
  "find_back resolve offset limit [] = None"
| "find_back resolve offset limit (it # before) =
     (if \<not> pcs_start it \<le> offset then None
      else if offset < pcs_start it + pcs_size it
      then (case resolve it of None \<Rightarrow> None | Some name \<Rightarrow> Some (0, name))
      else if limit > pcs_start it + pcs_size it then None
      else map_option (\<lambda>(k, name). (Suc k, name)) (find_back resolve offset limit before))"

definition resolve_sym_name :: "('e) sym_env_scheme \<Rightarrow> string \<Rightarrow> pc_symbol \<Rightarrow> string option" where
  "resolve_sym_name env path it =
     (case pcs_name it of Sym_name n \<Rightarrow> Some n | Sym_idx ni \<Rightarrow> se_symbol_str env path ni)"

definition Module_find_addr ::
  "(pc_symbol list \<Rightarrow> pc_symbol list) \<Rightarrow> ('e) sym_env_scheme \<Rightarrow> bcc_symbol_option \<Rightarrow> Module \<Rightarrow> u64 \<Rightarrow> bcc_symbol \<Rightarrow>
   bool \<times> bcc_symbol \<times> bcc_symbol_option \<times> Module" where
  "Module_find_addr srt env opt m offset s =
     (let (opt, m) = load_sym_table srt env opt m;
          s = s\<lparr>bs_module := Some (md_name m), bs_offset := offset\<rparr>;
          it = upper_bound pcs_start (md_syms m) offset
      in if it = 0 then (False, s, opt, m)
         else
           (case find_back (resolve_sym_name env (path_of env (md_path m))) offset
                   (pcs_start (md_syms m ! (it - 1))) (rev (take it (md_syms m))) of
              None \<Rightarrow> (False, s, opt, m)
            | Some (k, name) \<Rightarrow>
                (let i = it - 1 - k; sy = md_syms m ! i
                 in (True, s\<lparr>bs_name := Some name, bs_offset := offset - pcs_start sy\<rparr>, opt,
                     m\<lparr>md_syms := (md_syms m)[i := sy\<lparr>pcs_name := Sym_name name\<rparr>]\<rparr>))))"

section \<open>Processes\<close>

record ProcSyms =
  psy_pid :: int
  psy_modules :: "Module list"
  psy_procstat :: ProcStat
  psy_option :: bcc_symbol_option

definition module_index :: "string \<Rightarrow> Module list \<Rightarrow> nat option" where
  "module_index name ms = (let i = length (takeWhile (\<lambda>m. md_name m \<noteq> name) ms) in if i < length ms then Some i else None)"

definition add_range :: "mod_info \<Rightarrow> Module \<Rightarrow> Module" where
  "add_range md m = m\<lparr>md_ranges := md_ranges m @ [\<lparr>rng_start = mi_start_addr md, rng_end = mi_end_addr md,
     rng_file_offset = mi_file_offset md\<rparr>]\<rparr>"

definition ProcSyms_add_module :: "('e) sym_env_scheme \<Rightarrow> mod_info \<Rightarrow> bool \<Rightarrow> ProcSyms \<Rightarrow> int \<times> ProcSyms" where
  "ProcSyms_add_module env md enter_ns ps =
     (let modpath = ModulePath_new env (mi_name md) (pst_root_fd (psy_procstat ps)) (psy_pid ps) (enter_ns \<and> psy_pid ps \<noteq> - 1) in
      case module_index (mi_name md) (psy_modules ps) of
        Some i \<Rightarrow>
          (let m = add_range md (psy_modules ps ! i)
           in (if md_type m = PERF_MAP then - 1 else 0, ps\<lparr>psy_modules := (psy_modules ps)[i := m]\<rparr>))
      | None \<Rightarrow>
          (let m = Module_new env (mi_name md) modpath;
               m = (if md_type m = SO
                    then (case se_text_scn env (path_of env modpath) of
                            None \<Rightarrow> m
                          | Some (a, off) \<Rightarrow> m\<lparr>md_elf_so_addr := a, md_elf_so_offset := off\<rparr>)
                    else m)
           in if \<not> bcc_is_perf_map (path_of env modpath) \<or> md_type m \<noteq> UNKNOWN
              then (let m = add_range md m
                    in (if md_type m = PERF_MAP then - 1 else 0, ps\<lparr>psy_modules := psy_modules ps @ [m]\<rparr>))
              else (0, ps)))"

definition ProcSyms_load_modules :: "('e) sym_env_scheme \<Rightarrow> ProcSyms \<Rightarrow> ProcSyms option" where
  "ProcSyms_load_modules env ps =
     map_option (\<lambda>(_, _, ps). ps)
       (bcc_procutils_each_module env (se_os env) (se_zip_entry env) (psy_pid ps) (ProcSyms_add_module env) ps)"

definition ProcSyms_refresh :: "('e) sym_env_scheme \<Rightarrow> ProcSyms \<Rightarrow> ProcSyms option" where
  "ProcSyms_refresh env ps =
     map_option (\<lambda>ps. ps\<lparr>psy_procstat := ProcStat_reset env (psy_procstat ps)\<rparr>)
       (ProcSyms_load_modules env (ps\<lparr>psy_modules := []\<rparr>))"

definition ProcSyms_new :: "('e) sym_env_scheme \<Rightarrow> int \<Rightarrow> bcc_symbol_option option \<Rightarrow> ProcSyms option" where
  "ProcSyms_new env pid opt =
     ProcSyms_load_modules env
       \<lparr>psy_pid = pid, psy_modules = [], psy_procstat = ProcStat_new env pid,
        psy_option = (case opt of None \<Rightarrow> default_symbol_option | Some opt \<Rightarrow> opt)\<rparr>"

definition refresh_if_stale :: "('e) sym_env_scheme \<Rightarrow> ProcSyms \<Rightarrow> ProcSyms option" where
  "refresh_if_stale env ps =
     (let (stale, st) = is_stale env (psy_procstat ps); ps = ps\<lparr>psy_procstat := st\<rparr>
      in if stale then ProcSyms_refresh env ps else Some ps)"

definition demangled :: "('e) sym_env_scheme \<Rightarrow> bcc_symbol \<Rightarrow> string option" where
  "demangled env s =
     (let d = (case bs_name s of
                 None \<Rightarrow> None
               | Some n \<Rightarrow> if starts_with n ''_Z'' \<or> starts_with n ''___Z'' then se_demangle env n else bs_demangle_name s)
      in case d of None \<Rightarrow> bs_name s | Some x \<Rightarrow> Some x)"

text \<open>The loop over the modules; the modules before the current one come back as they were left.\<close>

fun resolve_loop ::
  "(pc_symbol list \<Rightarrow> pc_symbol list) \<Rightarrow> ('e) sym_env_scheme \<Rightarrow> u64 \<Rightarrow> bool \<Rightarrow> string option \<Rightarrow> bool \<Rightarrow>
   bcc_symbol_option \<Rightarrow> Module list \<Rightarrow> bcc_symbol \<Rightarrow> bool \<times> bcc_symbol \<times> bcc_symbol_option \<times> Module list" where
  "resolve_loop srt env addr demangle original_module only_perf_map opt [] s =
     (False, (if original_module \<noteq> None then s\<lparr>bs_module := original_module\<rparr> else s), opt, [])"
| "resolve_loop srt env addr demangle original_module only_perf_map opt (m # ms) s =
     (if only_perf_map \<and> md_type m \<noteq> PERF_MAP
      then (let (r, s, opt, ms) = resolve_loop srt env addr demangle original_module only_perf_map opt ms s in (r, s, opt, m # ms))
      else
        (case Module_contains m addr of
           None \<Rightarrow>
             (let (r, s, opt, ms) = resolve_loop srt env addr demangle original_module only_perf_map opt ms s in (r, s, opt, m # ms))
         | Some offset \<Rightarrow>
             (let (found, s, opt, m) = Module_find_addr srt env opt m offset s in
              if found
              then (True, (if demangle then s\<lparr>bs_demangle_name := demangled env s\<rparr> else s), opt, m # ms)
              else if md_type m \<noteq> PERF_MAP
              then (let (r, s, opt, ms) = resolve_loop srt env addr demangle (Some (md_name m)) True opt ms s in (r, s, opt, m # ms))
              else (let (r, s, opt, ms) = resolve_loop srt env addr demangle original_module only_perf_map opt ms s
                    in (r, s, opt, m # ms)))))"

definition ProcSyms_resolve_addr ::
  "(pc_symbol list \<Rightarrow> pc_symbol list) \<Rightarrow> ('e) sym_env_scheme \<Rightarrow> ProcSyms \<Rightarrow> u64 \<Rightarrow> bool \<Rightarrow> (bool \<times> bcc_symbol \<times> ProcSyms) option" where
  "ProcSyms_resolve_addr srt env ps addr demangle = do {
     ps \<leftarrow> refresh_if_stale env ps;
     let (r, s, opt, ms) = resolve_loop srt env addr demangle None False (psy_option ps) (psy_modules ps) zero_symbol;
     Some (r, s, ps\<lparr>psy_modules := ms, psy_option := opt\<rparr>)
   }"

definition ProcSyms_resolve_name ::
  "('e) sym_env_scheme \<Rightarrow> ProcSyms \<Rightarrow> string \<Rightarrow> string \<Rightarrow> (u64 option \<times> ProcSyms) option" where
  "ProcSyms_resolve_name env ps module_s name = do {
     ps \<leftarrow> refresh_if_stale env ps;
     (r, opt) \<leftarrow> (case find (\<lambda>m. md_name m = module_s) (psy_modules ps) of
             None \<Rightarrow> Some (None, psy_option ps)
           | Some m \<Rightarrow> Module_find_name env (psy_option ps) m name);
     Some (r, ps\<lparr>psy_option := opt\<rparr>)
   }"

section \<open>Modules by build id\<close>

record b_symbol =
  bsy_name :: string
  bsy_start :: u64
  bsy_size :: u64

record BuildModule =
  bm_module_name :: string
  bm_loaded :: bool
  bm_syms :: "b_symbol list"

definition BuildModule_add_symbol :: "string \<Rightarrow> u64 \<Rightarrow> u64 \<Rightarrow> BuildModule \<Rightarrow> BuildModule" where
  "BuildModule_add_symbol symname start sz m =
     m\<lparr>bm_syms := bm_syms m @ [\<lparr>bsy_name = symname, bsy_start = start, bsy_size = sz\<rparr>]\<rparr>"

definition BuildModule_load_sym_table ::
  "(b_symbol list \<Rightarrow> b_symbol list) \<Rightarrow> ('e) sym_env_scheme \<Rightarrow> BuildModule \<Rightarrow> BuildModule" where
  "BuildModule_load_sym_table srt env m =
     (if bm_loaded m then m
      else
        (let m = snd (snd (bcc_elf_foreach_sym env (bm_module_name m) (\<lambda>n a l m. (0, BuildModule_add_symbol n a l m))
                   default_symbol_option m))
         in m\<lparr>bm_syms := srt (bm_syms m), bm_loaded := True\<rparr>))"

definition BuildModule_lookup :: "BuildModule \<Rightarrow> u64 \<Rightarrow> b_symbol option" where
  "BuildModule_lookup m offset =
     (let it = upper_bound bsy_start (bm_syms m) offset in
      if it \<noteq> 0 then Some (bm_syms m ! (it - 1)) else None)"

definition BuildModule_resolve_addr ::
  "(b_symbol list \<Rightarrow> b_symbol list) \<Rightarrow> ('e) sym_env_scheme \<Rightarrow> BuildModule \<Rightarrow> u64 \<Rightarrow> bcc_symbol \<Rightarrow> bool \<Rightarrow> bool \<times> bcc_symbol \<times> BuildModule" where
  "BuildModule_resolve_addr srt env m offset s demangle =
     (let m = BuildModule_load_sym_table srt env m in
      if bm_syms m = [] then (False, zero_symbol, m)
      else
        (case BuildModule_lookup m offset of
           None \<Rightarrow> (False, zero_symbol, m)
         | Some it \<Rightarrow>
             (True, s\<lparr>bs_name := Some (bsy_name it),
                      bs_demangle_name := (if demangle then Some (bsy_name it) else bs_demangle_name s),
                      bs_offset := offset - bsy_start it, bs_module := Some (bm_module_name m)\<rparr>, m)))"

type_synonym BuildSyms = "(string \<times> BuildModule) list"

definition BuildSyms_add_module :: "('e) sym_env_scheme \<Rightarrow> BuildSyms \<Rightarrow> string \<Rightarrow> bool \<times> BuildSyms" where
  "BuildSyms_add_module env buildmap module_name =
     (if se_stat env module_name = None then (False, buildmap)
      else
        (case se_buildid env module_name of
           None \<Rightarrow> (False, buildmap)
         | Some buildid \<Rightarrow>
             (True, AList.update buildid \<lparr>bm_module_name = module_name, bm_loaded = False, bm_syms = []\<rparr> buildmap)))"

definition BuildSyms_resolve_addr ::
  "(b_symbol list \<Rightarrow> b_symbol list) \<Rightarrow> ('e) sym_env_scheme \<Rightarrow> BuildSyms \<Rightarrow> string \<Rightarrow> u64 \<Rightarrow> bcc_symbol \<Rightarrow> bool \<Rightarrow> bool \<times> bcc_symbol \<times> BuildSyms" where
  "BuildSyms_resolve_addr srt env buildmap build_id offset s demangle =
     (case map_of buildmap build_id of
        None \<Rightarrow> (False, s, buildmap)
      | Some m \<Rightarrow>
          (let (r, s, m) = BuildModule_resolve_addr srt env m offset s demangle
           in (r, s, AList.update build_id m buildmap)))"

section \<open>The C interface\<close>

datatype symcache = Kernel_cache KSyms | Process_cache ProcSyms

definition bcc_symcache_new :: "('e) sym_env_scheme \<Rightarrow> int \<Rightarrow> bcc_symbol_option option \<Rightarrow> symcache option" where
  "bcc_symcache_new env pid opt =
     (if pid < 0 then Some (Kernel_cache \<lparr>kc_syms = [], kc_symnames = []\<rparr>)
      else map_option Process_cache (ProcSyms_new env pid opt))"

definition symcache_resolve_addr ::
  "(kc_symbol list \<Rightarrow> kc_symbol list) \<Rightarrow> (pc_symbol list \<Rightarrow> pc_symbol list) \<Rightarrow> ('e) sym_env_scheme \<Rightarrow> symcache \<Rightarrow> u64 \<Rightarrow>
   bcc_symbol \<Rightarrow> bool \<Rightarrow> (bool \<times> bcc_symbol \<times> symcache) option" where
  "symcache_resolve_addr ksrt psrt env cache addr s demangle =
     (case cache of
        Kernel_cache ks \<Rightarrow> map_option (\<lambda>(r, s, ks). (r, s, Kernel_cache ks)) (KSyms_resolve_addr ksrt env ks addr s demangle)
      | Process_cache ps \<Rightarrow> map_option (\<lambda>(r, s, ps). (r, s, Process_cache ps)) (ProcSyms_resolve_addr psrt env ps addr demangle))"

definition bcc_symcache_resolve ::
  "(kc_symbol list \<Rightarrow> kc_symbol list) \<Rightarrow> (pc_symbol list \<Rightarrow> pc_symbol list) \<Rightarrow> ('e) sym_env_scheme \<Rightarrow> symcache \<Rightarrow> u64 \<Rightarrow>
   bcc_symbol \<Rightarrow> (int \<times> bcc_symbol \<times> symcache) option" where
  "bcc_symcache_resolve ksrt psrt env cache addr s =
     map_option (\<lambda>(r, s, c). (if r then 0 else - 1, s, c)) (symcache_resolve_addr ksrt psrt env cache addr s True)"

definition bcc_symcache_resolve_no_demangle ::
  "(kc_symbol list \<Rightarrow> kc_symbol list) \<Rightarrow> (pc_symbol list \<Rightarrow> pc_symbol list) \<Rightarrow> ('e) sym_env_scheme \<Rightarrow> symcache \<Rightarrow> u64 \<Rightarrow>
   bcc_symbol \<Rightarrow> (int \<times> bcc_symbol \<times> symcache) option" where
  "bcc_symcache_resolve_no_demangle ksrt psrt env cache addr s =
     map_option (\<lambda>(r, s, c). (if r then 0 else - 1, s, c)) (symcache_resolve_addr ksrt psrt env cache addr s False)"

definition bcc_symcache_resolve_name ::
  "(kc_symbol list \<Rightarrow> kc_symbol list) \<Rightarrow> ('e) sym_env_scheme \<Rightarrow> symcache \<Rightarrow> string \<Rightarrow> string \<Rightarrow> (int \<times> u64 option \<times> symcache) option" where
  "bcc_symcache_resolve_name ksrt env cache module_s name =
     map_option (\<lambda>(r, c). (if r \<noteq> None then 0 else - 1, r, c))
       (case cache of
          Kernel_cache ks \<Rightarrow> map_option (\<lambda>(r, ks). (r, Kernel_cache ks)) (KSyms_resolve_name ksrt env ks name)
        | Process_cache ps \<Rightarrow> map_option (\<lambda>(r, ps). (r, Process_cache ps)) (ProcSyms_resolve_name env ps module_s name))"

definition bcc_symcache_refresh :: "(kc_symbol list \<Rightarrow> kc_symbol list) \<Rightarrow> ('e) sym_env_scheme \<Rightarrow> symcache \<Rightarrow> symcache option" where
  "bcc_symcache_refresh ksrt env cache =
     (case cache of
        Kernel_cache ks \<Rightarrow> map_option Kernel_cache (KSyms_refresh ksrt env ks)
      | Process_cache ps \<Rightarrow> map_option Process_cache (ProcSyms_refresh env ps))"

definition bcc_buildsymcache_add_module :: "('e) sym_env_scheme \<Rightarrow> BuildSyms \<Rightarrow> string \<Rightarrow> int \<times> BuildSyms" where
  "bcc_buildsymcache_add_module env resolver module_name =
     (let (r, b) = BuildSyms_add_module env resolver module_name in (if r then 0 else - 1, b))"

record bpf_stack_build_id =
  sbi_status :: int
  sbi_build_id :: bytes
  sbi_offset :: u64

definition hex_char :: "u8 \<Rightarrow> char" where
  "hex_char n = ''0123456789abcdef'' ! unat n"

definition build_id_string :: "bytes \<Rightarrow> string" where
  "build_id_string bs = concat (map (\<lambda>c. [hex_char (drop_bit 4 (c AND 0xf0)), hex_char (c AND 0x0f)]) (take 20 bs))"

text \<open>A trace without a build id returns 0 without touching the symbol.\<close>

definition bcc_buildsymcache_resolve ::
  "(b_symbol list \<Rightarrow> b_symbol list) \<Rightarrow> ('e) sym_env_scheme \<Rightarrow> BuildSyms \<Rightarrow> bpf_stack_build_id \<Rightarrow> bcc_symbol \<Rightarrow> int \<times> bcc_symbol \<times> BuildSyms" where
  "bcc_buildsymcache_resolve srt env resolver trace s =
     (if sbi_status trace = 0 \<or> sbi_status trace = 2 then (0, s, resolver)
      else
        (let (r, s, b) = BuildSyms_resolve_addr srt env resolver (build_id_string (sbi_build_id trace)) (sbi_offset trace) s True
         in (if r then 0 else - 1, s, b)))"

section \<open>Addresses of probes\<close>

record mod_search =
  ms_name :: string
  ms_inode :: u64
  ms_dev_major :: u64
  ms_dev_minor :: u64
  ms_addr :: u64
  ms_inode_match_only :: bool
  ms_start :: u64
  ms_file_offset :: u64

definition bcc_syms_find_module :: "mod_info \<Rightarrow> bool \<Rightarrow> mod_search \<Rightarrow> int \<times> mod_search" where
  "bcc_syms_find_module info enter_ns md =
     (let file_match = (- 1, md\<lparr>ms_start := mi_start_addr info, ms_file_offset := mi_file_offset info\<rparr>) in
      if ms_inode md \<noteq> 0
      then if ms_inode md \<noteq> mi_inode info then (0, md)
           else if ms_inode_match_only md then file_match
           else if ms_dev_major md = mi_dev_major info \<and> ms_dev_minor md = mi_dev_minor info then file_match
           else (0, md)
      else if mi_name info = ms_name md then file_match
      else (0, md))"

definition bcc_resolve_global_addr ::
  "('e) sym_env_scheme \<Rightarrow> int \<Rightarrow> string \<Rightarrow> u64 \<Rightarrow> bool \<Rightarrow> u64 option option" where
  "bcc_resolve_global_addr env pid module_s address inode_match_only =
     (case se_stat env module_s of
        None \<Rightarrow> Some None
      | Some (ino, dev_major, dev_minor) \<Rightarrow> do {
          (r, _, md) \<leftarrow> bcc_procutils_each_module env (se_os env) (se_zip_entry env) pid bcc_syms_find_module
             \<lparr>ms_name = module_s, ms_inode = ino, ms_dev_major = dev_major, ms_dev_minor = dev_minor, ms_addr = address,
              ms_inode_match_only = inode_match_only, ms_start = 0, ms_file_offset = 0\<rparr>;
          Some (if r < 0 \<or> ms_start md = 0 then None
                else
                  (case se_text_scn env module_s of
                     None \<Rightarrow> None
                   | Some (elf_so_addr, elf_so_offset) \<Rightarrow>
                       Some (so_calc_global_addr (ms_start md) (ms_file_offset md) elf_so_addr elf_so_offset address)))
        })"

definition find_load :: "u64 \<times> u64 \<times> u64 \<Rightarrow> u64 \<Rightarrow> u64 option" where
  "find_load seg target_addr =
     (case seg of (v_addr, mem_sz, file_offset) \<Rightarrow>
        if v_addr \<le> target_addr \<and> target_addr < v_addr + mem_sz then Some (target_addr - v_addr + file_offset) else None)"

text \<open>The segments are visited until \<^verbatim>\<open>_find_load\<close> stops; the binary address stays 0 without a match.\<close>

fun find_loads :: "(u64 \<times> u64 \<times> u64) list \<Rightarrow> u64 \<Rightarrow> u64" where
  "find_loads [] target_addr = 0"
| "find_loads (seg # segs) target_addr =
     (case find_load seg target_addr of Some a \<Rightarrow> a | None \<Rightarrow> find_loads segs target_addr)"

definition find_sym :: "string option \<Rightarrow> string \<Rightarrow> u64 \<Rightarrow> u64 \<Rightarrow> u64 \<Rightarrow> int \<times> u64" where
  "find_sym name symname addr sz offset = (if name = Some symname then (- 1, addr) else (0, offset))"

text \<open>
  The module that the caller must free is in \<^verbatim>\<open>bs_module\<close>, and the options come back as they were left.
  A library without a path is looked up by \<^verbatim>\<open>bcc_procutils_which_so\<close>, which is the parameter \<open>which_so\<close>,
  since it has a state of its own.
\<close>

definition bcc_resolve_symname ::
  "(string \<Rightarrow> int \<Rightarrow> string option) \<Rightarrow> ('e) sym_env_scheme \<Rightarrow> string option \<Rightarrow> string option \<Rightarrow> u64 \<Rightarrow> int \<Rightarrow>
   bcc_symbol_option option \<Rightarrow> bcc_symbol \<Rightarrow> int \<times> bcc_symbol \<times> bcc_symbol_option option" where
  "bcc_resolve_symname which_so env module_s symname addr pid option s =
     (case module_s of
        None \<Rightarrow> (- 1, s, option)
      | Some module_s \<Rightarrow>
          (case (if CHR ''/'' \<in> set module_s then Some module_s else which_so module_s pid) of
             None \<Rightarrow> (- 1, zero_symbol, option)
           | Some path \<Rightarrow>
               (let path = (if pid \<noteq> 0 \<and> pid \<noteq> - 1 \<and> strstr path ''/proc'' \<noteq> Some 0
                            then ''/proc/'' @ show_int pid @ ''/root'' @ path else path);
                    s = \<lparr>bs_name = symname, bs_demangle_name = None, bs_module = Some path, bs_offset = addr\<rparr>;
                    opt = (case option of
                             None \<Rightarrow> \<lparr>so_use_debug_file = True, so_check_debug_file_crc = True,
                                      so_lazy_symbolize = True, so_use_symbol_type = 65535\<rparr>
                           | Some opt \<Rightarrow> opt);
                    (ret, opt, off) =
                      (if symname \<noteq> None \<and> addr = 0 then bcc_elf_foreach_sym env path (find_sym symname) opt addr
                       else (0, opt, addr));
                    option = map_option (\<lambda>_. opt) option;
                    s = s\<lparr>bs_offset := off\<rparr>;
                    invalid_module = (- 1, s\<lparr>bs_module := None\<rparr>, option)
                in if ret < 0 \<or> off = 0 then invalid_module
                   else if pr_elf_type env path = 2 \<or> pr_elf_type env path = 3
                   then (case se_load_sections env path of
                           None \<Rightarrow> invalid_module
                         | Some segs \<Rightarrow>
                             if find_loads segs off = 0 then invalid_module
                             else (0, s\<lparr>bs_offset := find_loads segs off\<rparr>, option))
                   else (0, s, option))))"

definition bcc_foreach_function_symbol ::
  "('e) sym_env_scheme \<Rightarrow> string option \<Rightarrow> (string \<Rightarrow> u64 \<Rightarrow> 's \<Rightarrow> int \<times> 's) option \<Rightarrow> 's \<Rightarrow> int \<times> 's" where
  "bcc_foreach_function_symbol env module_s cb st =
     (case (module_s, cb) of
        (Some module_s, Some cb) \<Rightarrow>
          (let (ret, _, st) = bcc_elf_foreach_sym env module_s (\<lambda>n a _. cb n a) default_symbol_option st in (ret, st))
      | _ \<Rightarrow> (- 1, st))"

end
