(* ===== verification/Proc_Props.thy ===== *)
theory Proc_Props
  imports Proc
begin

text \<open>
  What the process utilities of theory \<^verbatim>\<open>Proc\<close> guarantee: the search path is tried in order, the
  walk over the mapped modules touches no memory outside its buffers, leaks nothing and reports every
  executable file mapping once, a library inside an archive is reported under its own name and
  offset, and the kernel's symbols are delivered with their modules.
\<close>

section \<open>States of the caller\<close>

text \<open>A property of the caller's state that the callback keeps holds after the walk.\<close>

lemma maps_each_module_keeps:
  assumes keep: "\<And>md en st. P st \<Longrightarrow> P (snd (callback md en st))"
  shows "procfs_maps_each_module env os junk s pid callback st = Some (r, os', st') \<Longrightarrow> P st \<Longrightarrow> P st'"
proof (induction "length s" arbitrary: s os st rule: less_induct)
  case less
  show ?case
  proof (cases "scan_map_fields s")
    case None
    then show ?thesis
      using less.prems by (simp add: procfs_maps_each_module.simps [of env os junk s])
  next
    case (Some x)
    obtain m perm buf rest where f: "scan_map_fields s = Some (m, perm, buf, rest)"
      using Some by (cases x) auto
    note shorter = scan_map_fields_shorter [OF f]
    have keep': "P st2" if "P st1" "callback md en st1 = (k, st2)" for md en st1 k st2
      using keep [OF that(1), of md en] that(2) by simp
    show ?thesis
      using less.prems less.hyps [OF shorter] keep'
      unfolding procfs_maps_each_module.simps [of env os junk s] f
      by (fastforce simp: Let_def split: if_splits option.splits prod.splits)
  qed
qed

lemma each_module_keeps:
  assumes keep: "\<And>md en st. P st \<Longrightarrow> P (snd (callback md en st))"
    and "bcc_procutils_each_module env os junk pid callback st = Some (r, os', st')" "P st"
  shows "P st'"
proof -
  have keep': "P st2" if "P st1" "callback md en st1 = (k, st2)" for md en st1 k st2
    using keep [OF that(1), of md en] that(2) by simp
  show ?thesis
    using assms(2,3) maps_each_module_keeps [where P = P and callback = callback, OF keep]
    by (fastforce simp: bcc_procutils_each_module_def Let_def intro: keep keep'
        split: option.splits Option.bind_splits prod.splits if_splits)
qed

section \<open>The search path\<close>

definition join_path :: "string list \<Rightarrow> string" where
  "join_path ds = concat (map (\<lambda>d. CHR '':'' # d) ds)"

lemma which_loop_join:
  assumes "list_all (\<lambda>d. CHR '':'' \<notin> set d \<and> length d + length binpath + 1 < PATH_MAX) (d # ds)"
  shows "which_loop env binpath (d @ join_path ds) =
    find (bcc_elf_is_exe env) (map (\<lambda>d. d @ ''/'' @ binpath) (filter (\<lambda>d. d \<noteq> []) (d # ds)))"
  using assms
proof (induction ds arbitrary: d)
  case Nil
  then have tw: "takeWhile (\<lambda>c. c \<noteq> CHR '':'') d = d" "dropWhile (\<lambda>c. c \<noteq> CHR '':'') d = []"
    by (auto simp: takeWhile_eq_all_conv)
  show ?case
    using Nil by (subst which_loop.simps) (simp add: join_path_def Let_def tw)
next
  case (Cons e ds)
  have "takeWhile (\<lambda>c. c \<noteq> CHR '':'') (d @ join_path (e # ds)) = d"
    "dropWhile (\<lambda>c. c \<noteq> CHR '':'') (d @ join_path (e # ds)) = join_path (e # ds)"
    using Cons.prems by (auto intro!: takeWhile_append_stop dropWhile_append_stop simp: join_path_def list_all_iff)
  moreover have "join_path (e # ds) = CHR '':'' # e @ join_path ds"
    by (simp add: join_path_def)
  ultimately show ?case
    using Cons by (subst which_loop.simps) (simp add: Let_def)
qed

text \<open>
  A command without a slash is looked up in the directories of the search path in their order:
  the result is the first candidate that is an executable ELF file, and empty entries of the path
  are skipped.
\<close>

lemma which_searches_path:
  assumes "CHR ''/'' \<notin> set binpath" "pr_getenv_PATH env = Some (d @ join_path ds)"
    and "list_all (\<lambda>d. CHR '':'' \<notin> set d \<and> length d + length binpath + 1 < PATH_MAX) (d # ds)"
  shows "bcc_procutils_which env binpath =
    find (bcc_elf_is_exe env) (map (\<lambda>d. d @ ''/'' @ binpath) (filter (\<lambda>d. d \<noteq> []) (d # ds)))"
  using assms by (simp add: bcc_procutils_which_def which_loop_join del: list.pred_inject filter.simps)

definition wit_proc_env :: proc_env where
  "wit_proc_env = \<lparr>pe_fopen = (\<lambda>_. None), pe_access = (\<lambda>_. True), pe_readlink = (\<lambda>_. None),
     pr_getenv_PATH = Some (''/bin'' @ join_path [[], ''/usr/bin'']),
     pr_elf_type = (\<lambda>p. if p = ''/usr/bin/ld'' then 3 else - 1), pr_access_x = (\<lambda>_. True),
     pr_readdir = (\<lambda>_. None), pr_stat_ino = (\<lambda>_. None), pr_zip = wit_env, pr_malloc = (\<lambda>_. True),
     pr_realpath = (\<lambda>_. None), pr_mmap_file = (\<lambda>_. None)\<rparr>"

section \<open>Resolving a module\<close>

lemma find_zip_entry_neutral:
  "\<exists>r. procfs_find_zip_entry env os junk path pid offset =
     Some (r, case r of None \<Rightarrow> os | Some _ \<Rightarrow> os_malloc os)"
proof (cases "length (''/proc/'' @ show_int pid @ ''/root'' @ path) \<ge> PATH_MAX")
  case False
  let ?p = "bytes_of (''/proc/'' @ show_int pid @ ''/root'' @ path)"
  obtain r os' where op: "bcc_zip_archive_open (pr_zip env) os ?p = Some (r, os')"
    and post: "case r of None \<Rightarrow> os' = os
      | Some a \<Rightarrow> wf_archive a \<and> env_open (pr_zip env) ?p = Some (za_data a) \<and> os' = os_malloc (os_mmap os)"
    using bcc_zip_archive_open_post [of "pr_zip env" os ?p] by blast
  show ?thesis
  proof (cases r)
    case None
    then show ?thesis
      using False op post by (auto simp: procfs_find_zip_entry_def Let_def)
  next
    case (Some a)
    then have wf: "wf_archive a" and os': "os' = os_malloc (os_mmap os)"
      using post by auto
    obtain rc e where fe: "bcc_zip_archive_find_entry_at_offset a offset junk = Some (rc, e)"
      and en: "rc = -1 \<or> rc = 0 \<and> entry_in_bounds a e"
      using find_entry_at_offset_loop_post [OF wf] unfolding bcc_zip_archive_find_entry_at_offset_def by blast
    show ?thesis
    proof (cases "rc = 0 \<and> ze_compression e = 0 \<and> pr_malloc env (length path + unat (ze_name_length e) + 3)")
      case True
      then obtain name where "rd (za_data a) (unat (ze_name e)) (unat (ze_name_length e)) = Some name"
        using en by (cases "rd (za_data a) (unat (ze_name e)) (unat (ze_name_length e))") (auto simp: entry_in_bounds_def)
      then show ?thesis
        using False op Some fe os' True
        by (auto simp: procfs_find_zip_entry_def Let_def bcc_zip_archive_close_def)
    next
      case c: False
      then show ?thesis
        using False op Some fe os' by (auto simp: procfs_find_zip_entry_def Let_def bcc_zip_archive_close_def)
    qed
  qed
qed (auto simp: procfs_find_zip_entry_def Let_def)

lemma mod_of_map_simps [simp]: "mi_name (mod_of_map m n) = n" "mi_inode (mod_of_map m n) = me_inode m"
  by (simp_all add: mod_of_map_def)

text \<open>The first descriptor of the process that refers to the inode.\<close>

definition memfd_target :: "('e) proc_env_scheme \<Rightarrow> int \<Rightarrow> u64 \<Rightarrow> string option" where
  "memfd_target env pid inum =
     (let dir = snprintf_trunc (PATH_MAX + 1) (''/proc/'' @ show_int pid @ ''/fd'') in
      case pr_readdir env dir of
        None \<Rightarrow> None
      | Some dents \<Rightarrow>
          find (\<lambda>p. pr_stat_ino env p = Some inum) (map (\<lambda>d. snprintf_trunc (PATH_MAX + 1) (dir @ ''/'' @ d)) dents))"

lemma memfd_loop_find:
  assumes "\<forall>n. pr_malloc env n"
  shows "memfd_loop env os dirstr inum dents =
    (let r = find (\<lambda>p. pr_stat_ino env p = Some inum) (map (\<lambda>d. snprintf_trunc (PATH_MAX + 1) (dirstr @ ''/'' @ d)) dents)
     in Some (r, case r of None \<Rightarrow> os | Some _ \<Rightarrow> os_malloc os))"
  using assms by (induction dents) (simp_all add: Let_def)

lemma memfd_path_target:
  assumes "\<forall>n. pr_malloc env n"
  shows "procutils_memfd_path env os pid inum =
    Some (memfd_target env pid inum, case memfd_target env pid inum of None \<Rightarrow> os | Some _ \<Rightarrow> os_malloc os)"
  using assms
  by (auto simp: procutils_memfd_path_def memfd_target_def memfd_loop_find [OF assms] Let_def os_malloc_def os_free_def
      os_open_fd_def os_close_fd_def split: option.split)

text \<open>The code for memory-backed files needs its allocations to succeed.\<close>

definition memfd_safe :: "('e) proc_env_scheme \<Rightarrow> string \<Rightarrow> bool" where
  "memfd_safe env name \<longleftrightarrow> strstr name ''/memfd:'' \<noteq> None \<longrightarrow> (\<forall>n. pr_malloc env n)"

lemma resolve_module_memfd:
  assumes "strstr (mi_name m) ''/memfd:'' \<noteq> None" "\<forall>n. pr_malloc env n"
  shows "resolve_module env os junk pid m =
    Some (case memfd_target env pid (mi_inode m) of
            None \<Rightarrow> (m, True, os) | Some p \<Rightarrow> (m\<lparr>mi_name := take PATH_MAX p\<rparr>, False, os))"
  using assms by (simp add: resolve_module_def memfd_path_target split: option.split)

lemma resolve_module_neutral:
  assumes "memfd_safe env (mi_name m)"
  shows "\<exists>m' enter_ns. resolve_module env os junk pid m = Some (m', enter_ns, os)"
proof (cases "strstr (mi_name m) ''/memfd:'' = None")
  case False
  then show ?thesis
    using assms by (auto simp: resolve_module_memfd memfd_safe_def split: option.split)
next
  case True
  obtain r where "procfs_find_zip_entry env os junk (mi_name m) pid (ucast (mi_file_offset m)) =
      Some (r, case r of None \<Rightarrow> os | Some _ \<Rightarrow> os_malloc os)"
    using find_zip_entry_neutral by blast
  then show ?thesis
    using True by (cases r) (auto simp: resolve_module_def split: option.splits)
qed

text \<open>
  (C16) A library that is mapped straight out of an archive, which no other member hides, is reported
  as \<^verbatim>\<open>archive!/member\<close> with the offset inside the member, and every descriptor, mapping and
  allocation made on the way is released.
\<close>

theorem resolve_module_in_archive:
  assumes "env_open (pr_zip env) (bytes_of (''/proc/'' @ show_int pid @ ''/root'' @ mi_name m)) =
      Some (zip_bytes (fs1 @ f # fs2))"
    and "env_lseek_ok (pr_zip env)" "env_mmap_ok (pr_zip env)" "env_malloc_ok (pr_zip env)" "\<forall>n. pr_malloc env n"
    and "length (fs1 @ f # fs2) < 65536" "\<forall>g\<in>set (fs1 @ f # fs2). zip_file_ok g"
    and "length (zip_bytes (fs1 @ f # fs2)) < 4294967296"
    and "zf_compression f = 0" "j < length (zf_data f)"
    and "mi_file_offset m = word_of_nat (length (concat (map enc_local fs1)) + 30 + length (zf_name f) + length (zf_extra f) + j)"
    and "strstr (mi_name m) ''/memfd:'' = None" "procfs_might_be_zip_path (mi_name m)"
    and "length (mi_name m) + length (zf_name f) + 2 \<le> PATH_MAX" "length (show_int pid) + length (mi_name m) + 11 < PATH_MAX"
  shows "resolve_module env os junk pid m =
    Some (m\<lparr>mi_name := mi_name m @ ''!/'' @ cstr (string_of (zf_name f)), mi_file_offset := word_of_nat j\<rparr>, True, os)"
proof -
  let ?fs = "fs1 @ f # fs2"
  let ?a = "archive_of (zip_bytes ?fs) (word_of_nat (length (concat (map enc_local ?fs))), word_of_nat (length ?fs))"
  let ?n = "length (concat (map enc_local fs1)) + 30 + length (zf_name f) + length (zf_extra f) + j"
  have le: "?n < 4294967296"
  proof -
    have "?n < length (concat (map enc_local ?fs))"
      using assms(10) by (simp add: enc_local_def)
    also have "\<dots> \<le> length (zip_bytes ?fs)"
      by (simp add: zip_bytes_def Let_def)
    finally show ?thesis
      using assms(8) by simp
  qed
  then have target: "unat (ucast (mi_file_offset m) :: u32) = ?n"
    unfolding assms(11) by (simp add: unsigned_ucast_eq unat_of_nat take_bit_nat_eq_self del: of_nat_add)
  obtain e where fe: "bcc_zip_archive_find_entry_at_offset ?a (ucast (mi_file_offset m)) junk = Some (0, e)"
    and e: "entry_for (zip_bytes ?fs) f e" "ucast (mi_file_offset m) - ze_data_offset e = word_of_nat j"
    using find_at_offset_of_enc [OF assms(7,6,8,10) refl target] by blast
  have op: "bcc_zip_archive_open (pr_zip env) os (bytes_of (''/proc/'' @ show_int pid @ ''/root'' @ mi_name m)) =
      Some (Some ?a, os_malloc (os_mmap os))"
    using assms by (intro open_of_enc) auto
  have nm: "rd (za_data ?a) (unat (ze_name e)) (unat (ze_name_length e)) = Some (zf_name f)" "ze_compression e = 0"
    using e(1) assms(9) by (auto simp: entry_for_def archive_of_def)
  have r: "procfs_find_zip_entry env os junk (mi_name m) pid (ucast (mi_file_offset m)) =
      Some (Some (mi_name m @ ''!/'' @ cstr (string_of (zf_name f)), word_of_nat j), os_malloc os)"
    using op fe nm e(2) assms(5,15) by (simp add: procfs_find_zip_entry_def Let_def bcc_zip_archive_close_def)
  have "length (cstr (string_of (zf_name f))) \<le> length (zf_name f)"
    using length_takeWhile_le [of _ "string_of (zf_name f)"] by (simp add: cstr_def string_of_def)
  moreover have "ucast (word_of_nat j :: u32) = (word_of_nat j :: u64)"
  proof (rule unsigned_word_eqI [where ?'a = nat])
    show "unat (ucast (word_of_nat j :: u32) :: u64) = unat (word_of_nat j :: u64)"
      using le by (simp add: unsigned_ucast_eq unat_of_nat take_bit_nat_eq_self)
  qed
  ultimately show ?thesis
    using r assms(12-14) by (simp add: resolve_module_def)
qed

theorem resolve_module_in_archive_witness:
  "\<forall>os. resolve_module wit_proc_env os wit_entry 7
       \<lparr>mi_name = ''/data/a.apk'', mi_start_addr = 0x1000, mi_end_addr = 0x2000, mi_file_offset = 34,
        mi_dev_major = 8, mi_dev_minor = 1, mi_inode = 5\<rparr> =
     Some (\<lparr>mi_name = ''/data/a.apk!/a'', mi_start_addr = 0x1000, mi_end_addr = 0x2000, mi_file_offset = 1,
        mi_dev_major = 8, mi_dev_minor = 1, mi_inode = 5\<rparr>, True, os)"
proof
  fix os
  have z: "length (zip_bytes [wit_file]) = 106" "zip_file_ok wit_file"
    by (simp_all add: zip_bytes_def Let_def enc_local_def enc_cd1_def wit_file_def zip_file_ok_def)
  have n: "string_of (zf_name wit_file) = ''a''"
    by (simp add: string_of_def wit_file_def char_of_def bit_0)
  show "resolve_module wit_proc_env os wit_entry 7
       \<lparr>mi_name = ''/data/a.apk'', mi_start_addr = 0x1000, mi_end_addr = 0x2000, mi_file_offset = 34,
        mi_dev_major = 8, mi_dev_minor = 1, mi_inode = 5\<rparr> =
     Some (\<lparr>mi_name = ''/data/a.apk!/a'', mi_start_addr = 0x1000, mi_end_addr = 0x2000, mi_file_offset = 1,
        mi_dev_major = 8, mi_dev_minor = 1, mi_inode = 5\<rparr>, True, os)"
    using z n resolve_module_in_archive [of wit_proc_env 7
        "\<lparr>mi_name = ''/data/a.apk'', mi_start_addr = 0x1000, mi_end_addr = 0x2000, mi_file_offset = 34,
          mi_dev_major = 8, mi_dev_minor = 1, mi_inode = 5\<rparr>" "[]" wit_file "[]" 1 os wit_entry]
    by (simp add: wit_proc_env_def wit_env_def procfs_might_be_zip_path_def PATH_MAX_def cstr_def
        show_int_def nat_digits.simps [of 10 7]) (simp add: wit_file_def)
qed

section \<open>The walk over the mappings\<close>

fun call_each :: "('m \<Rightarrow> 's \<Rightarrow> int \<times> 's) \<Rightarrow> 'm list \<Rightarrow> 's \<Rightarrow> int \<times> 's" where
  "call_each callback [] st = (- 1, st)"
| "call_each callback (m # ms) st =
     (let (r, st) = callback m st in if r < 0 then (0, st) else call_each callback ms st)"

definition module_mapping :: "proc_map \<Rightarrow> bool" where
  "module_mapping p \<longleftrightarrow> pm_perm p ! 2 = CHR ''x'' \<and> bcc_mapping_is_file_backed (pm_name p)"

definition module_call ::
  "('e) proc_env_scheme \<Rightarrow> os_res \<Rightarrow> bcc_zip_entry \<Rightarrow> int \<Rightarrow> proc_map \<Rightarrow> mod_info \<times> bool" where
  "module_call env os junk pid p =
     (case resolve_module env os junk pid (mod_of_map (pm_map p) (pm_name p)) of
        Some (m, enter_ns, _) \<Rightarrow> (m, enter_ns)
      | None \<Rightarrow> (mod_of_map (pm_map p) (pm_name p), True))"

lemma perm_x: "length w = 4 \<Longrightarrow> drop 2 (take 3 w) = ''x'' \<longleftrightarrow> w ! 2 = CHR ''x''"
  by (auto simp: numeral_eq_Suc length_Suc_conv)

lemma scan_map_fields_skip_ws: "scan_map_fields (skip_ws s) = scan_map_fields s"
  by (simp add: scan_map_fields_def scan_num_skip_ws)

lemma scan_map_fields_Nil: "scan_map_fields [] = None"
  by (simp add: scan_map_fields_def scan_num_def skip_ws_def scan_prefix_def)

lemma maps_each_module_lines:
  assumes "list_all proc_map_ok ps" "\<forall>p \<in> set ps. memfd_safe env (pm_name p)" "skip_ws s = concat (map map_line ps)"
  shows "procfs_maps_each_module env os junk s pid callback payload =
    (let (r, payload) = call_each (\<lambda>(m, enter_ns). callback m enter_ns)
           (map (module_call env os junk pid) (filter module_mapping ps)) payload
     in Some (r, os, payload))"
  using assms
proof (induction ps arbitrary: s payload)
  case Nil
  then have "scan_map_fields s = None"
    using scan_map_fields_skip_ws [of s] scan_map_fields_Nil by simp
  then show ?case
    by (subst procfs_maps_each_module.simps) simp
next
  case (Cons p ps)
  let ?rest = "CHR 0x0A # concat (map map_line ps)"
  let ?buf = "replicate (Suc (pm_pad p)) (CHR '' '') @ pm_name p"
  have ok: "proc_map_ok p" "list_all proc_map_ok ps"
    using Cons.prems(1) by auto
  have fields: "scan_map_fields s = Some (pm_map p, pm_perm p, ?buf, ?rest)"
    using scan_map_fields_ok [OF ok(1), of "concat (map map_line ps)"] Cons.prems(3) scan_map_fields_skip_ws [of s]
    by (simp del: replicate_Suc)
  have lens: "\<not> (length ?buf > PATH_MAX \<or> length (pm_perm p) < 2)" "length (pm_perm p) = 4"
    using ok(1) by (auto simp: proc_map_ok_def)
  obtain m en where rm: "resolve_module env os junk pid (mod_of_map (pm_map p) (pm_name p)) = Some (m, en, os)"
    using resolve_module_neutral [of env "mod_of_map (pm_map p) (pm_name p)" os junk pid] Cons.prems(2) by auto
  have step: "procfs_maps_each_module env os junk s pid callback payload =
      (if module_mapping p
       then let (r, payload) = callback m en payload in
            if r < 0 then Some (0, os, payload)
            else procfs_maps_each_module env os junk ?rest pid callback payload
       else procfs_maps_each_module env os junk ?rest pid callback payload)"
    unfolding procfs_maps_each_module.simps [of env os junk s] fields
    using lens by (simp add: perm_x skip_ws_buf [OF ok(1)] rm module_mapping_def Let_def del: replicate_Suc)
  show ?case
    unfolding step using Cons.IH [OF ok(2) _ skip_ws_newline] Cons.prems(2)
    by (auto simp: module_call_def rm Let_def split: prod.splits)
qed

text \<open>
  (C15) The walk over a process's mappings performs no access outside its buffers, whatever the
  files, archives and descriptors it consults contain, and it holds no descriptor, mapping or
  allocation when it returns.  The callback is called for exactly the executable mappings that a file
  backs, in their order and with their resolved names, until it asks to stop; the name of a memory-backed file is the
  first descriptor of the process with its inode.  The search for this descriptor does not check its allocations, so
  they have to succeed if there is such a mapping.
\<close>

theorem maps_each_module_delivers:
  assumes "list_all proc_map_ok ps" "\<forall>p \<in> set ps. memfd_safe env (pm_name p)"
  shows "procfs_maps_each_module env os junk (concat (map map_line ps)) pid callback payload =
    (let (r, payload) = call_each (\<lambda>(m, enter_ns). callback m enter_ns)
           (map (module_call env os junk pid) (filter module_mapping ps)) payload
     in Some (r, os, payload)) \<and>
    (\<forall>p \<in> set ps. strstr (pm_name p) ''/memfd:'' \<noteq> None \<longrightarrow>
       module_call env os junk pid p =
         (let m = mod_of_map (pm_map p) (pm_name p) in
          case memfd_target env pid (me_inode (pm_map p)) of
            None \<Rightarrow> (m, True) | Some path \<Rightarrow> (m\<lparr>mi_name := take PATH_MAX path\<rparr>, False)))"
proof (intro conjI ballI impI)
  fix p
  assume p: "p \<in> set ps" "strstr (pm_name p) ''/memfd:'' \<noteq> None"
  then have "\<forall>n. pr_malloc env n"
    using assms(2) by (auto simp: memfd_safe_def)
  then show "module_call env os junk pid p =
      (let m = mod_of_map (pm_map p) (pm_name p) in
       case memfd_target env pid (me_inode (pm_map p)) of
         None \<Rightarrow> (m, True) | Some path \<Rightarrow> (m\<lparr>mi_name := take PATH_MAX path\<rparr>, False))"
    using p(2) by (simp add: module_call_def resolve_module_memfd Let_def split: option.split)
qed (rule maps_each_module_lines [OF assms entries_start_skip_ws [OF maps_start]])

theorem maps_each_module_delivers_witness:
  "\<forall>os. procfs_maps_each_module wit_proc_env os wit_entry
      (concat (map map_line
        [\<lparr>pm_map = \<lparr>me_start_addr = 0x1000, me_end_addr = 0x2000, me_file_off = 0, me_dev_major = 8, me_dev_minor = 1, me_inode = 5\<rparr>,
          pm_perm = ''r--p'', pm_pad = 3, pm_name = ''/bin/a''\<rparr>,
         \<lparr>pm_map = \<lparr>me_start_addr = 0x2000, me_end_addr = 0x3000, me_file_off = 1, me_dev_major = 8, me_dev_minor = 1, me_inode = 5\<rparr>,
          pm_perm = ''r-xp'', pm_pad = 3, pm_name = ''/bin/a''\<rparr>,
         \<lparr>pm_map = \<lparr>me_start_addr = 0x9000, me_end_addr = 0xa000, me_file_off = 0, me_dev_major = 0, me_dev_minor = 0, me_inode = 0\<rparr>,
          pm_perm = ''rwxp'', pm_pad = 3, pm_name = ''[stack]''\<rparr>]))
      7 (\<lambda>m enter_ns st. (0, st @ [(mi_name m, mi_start_addr m)])) [] =
     Some (- 1, os, [(''/bin/a'', 0x2000)])"
  apply (subst conjunct1 [OF maps_each_module_delivers])
  apply (simp_all add: proc_map_ok_def isspace_def PATH_MAX_def module_mapping_def bcc_mapping_is_file_backed_def
      numeral_2_eq_2 module_call_def resolve_module_def mod_of_map_def procfs_might_be_zip_path_def memfd_safe_def)
  done

section \<open>Kernel symbols\<close>

definition ksym_entry_fits :: "kallsyms_entry \<Rightarrow> bool" where
  "ksym_entry_fits e \<longleftrightarrow> kallsyms_entry_ok e \<and>
     (case ke_module e of None \<Rightarrow> True | Some m \<Rightarrow> length m < 1024 \<and> CHR '']'' \<notin> set m)"

definition ksym_wanted :: "kallsyms_entry \<Rightarrow> bool" where
  "ksym_wanted e \<longleftrightarrow> kernelAddrSpace \<le> ke_addr e \<and> ke_addr e \<noteq> - 1 \<and> ke_type e \<notin> set ''bBdDrR''"

text \<open>
  The module that the callback is given: a symbol without one belongs to the kernel only as long as
  no symbol of a module came before it.
\<close>

fun ksym_calls :: "bool \<Rightarrow> kallsyms_entry list \<Rightarrow> (string \<times> string \<times> u64) list" where
  "ksym_calls after_module [] = []"
| "ksym_calls after_module (e # es) =
     (if \<not> ksym_wanted e then ksym_calls after_module es
      else
        (case ke_module e of
           Some m \<Rightarrow> (ke_name e, m, ke_addr e) # ksym_calls True es
         | None \<Rightarrow> (ke_name e, if after_module then [] else ''kernel'', ke_addr e) # ksym_calls after_module es))"

lemma strtoull_zeros:
  assumes "n < 2 ^ 64"
  shows "strtoull 16 ((let ds = nat_digits 16 n in replicate (16 - length ds) (CHR ''0'') @ ds) @ CHR '' '' # rest) =
    (word_of_nat n, False, CHR '' '' # rest)"
proof -
  let ?ds = "replicate (16 - length (nat_digits 16 n)) (CHR ''0'') @ nat_digits 16 n"
  have "list_all (is_digit_of 16) ?ds"
    using list_all_nat_digits [of 16 n] by (auto simp: list_all_iff is_digit_of_def isxdigit_def isdigit_def)
  then have "strtoull 16 (?ds @ CHR '' '' # rest) = (word_of_nat (digits_val 16 ?ds), False, CHR '' '' # rest)"
    using assms by (intro strtoull_digits) (auto simp: digits_val_zeros digits_val_nat_digits)
  then show ?thesis
    by (simp add: Let_def digits_val_zeros digits_val_nat_digits)
qed

lemma ksym_line_entry:
  assumes "ksym_entry_fits e"
  shows "ksym_line endmod (kallsyms_line e) =
    Some (if \<not> ksym_wanted e then (endmod, None)
          else (case ke_module e of
             Some m \<Rightarrow> (True, Some (ke_name e, m, ke_addr e))
           | None \<Rightarrow> (endmod, Some (ke_name e, if endmod then [] else ''kernel'', ke_addr e))))"
proof -
  let ?tail = "(case ke_module e of None \<Rightarrow> [] | Some m \<Rightarrow> [CHR 0x09] @ ''['' @ m @ '']'') @ [CHR 0x0A]"
  have st: "strtoull 16 (kallsyms_line e) = (ke_addr e, False, CHR '' '' # ke_type e # CHR '' '' # ke_name e @ ?tail)"
    using strtoull_zeros [of "unat (ke_addr e)" "ke_type e # CHR '' '' # ke_name e @ ?tail"] unsigned_less [of "ke_addr e"]
    by (simp add: kallsyms_line_def)
  have nm: "takeWhile (Not \<circ> isspace) (ke_name e @ c # t) = ke_name e"
    "dropWhile (Not \<circ> isspace) (ke_name e @ c # t) = c # t" if "isspace c" for c t
    using assms that by (auto intro!: takeWhile_append_stop dropWhile_append_stop
        simp: ksym_entry_fits_def kallsyms_entry_ok_def list_all_iff)
  have md: "takeWhile (\<lambda>c. c \<noteq> CHR '']'') (m @ CHR '']'' # [CHR 0x0A]) = m" if "ke_module e = Some m" for m
    using assms that by (auto intro!: takeWhile_append_stop simp: ksym_entry_fits_def list_all_iff)
  have small: "x < kernelAddrSpace" if "x = 0" for x
    using that by (simp add: kernelAddrSpace_def)
  show ?thesis
    unfolding ksym_line_def st
    by (cases "ke_module e") (auto simp: Let_def nm md ksym_wanted_def small not_less kernelAddrSpace_def)
qed

lemma fgets_kallsyms_line:
  assumes "ksym_entry_fits e"
  shows "fgets 2048 (kallsyms_line e @ rest) = Some (kallsyms_line e, rest)"
proof -
  let ?ds = "let ds = nat_digits 16 (unat (ke_addr e)) in replicate (16 - length ds) (CHR ''0'') @ ds"
  let ?w = "?ds @ '' '' @ [ke_type e] @ '' '' @ ke_name e @
     (case ke_module e of None \<Rightarrow> [] | Some m \<Rightarrow> [CHR 0x09] @ ''['' @ m @ '']'')"
  have l: "length (nat_digits 16 (unat (ke_addr e))) \<le> 16"
    using length_nat_digits [of 16 "unat (ke_addr e)" 15] unsigned_less [of "ke_addr e"] by simp
  have ok: "list_all (\<lambda>c. \<not> isspace c \<and> c \<noteq> CHR 0x00) (ke_name e)" "\<not> isspace (ke_type e)" "length (ke_name e) < 256"
    using assms unfolding ksym_entry_fits_def kallsyms_entry_ok_def by blast+
  have nl: "CHR 0x0A \<notin> set (ke_name e)" "ke_type e \<noteq> CHR 0x0A"
    using ok(1,2) isspace_simps(2) by (metis list_all_iff, metis)
  have dg: "CHR 0x0A \<notin> set ?ds" "length ?ds \<le> 16"
    using nat_digits_no_ctl [of 16 "unat (ke_addr e)"] l by (simp_all add: Let_def)
  have md: "CHR 0x0A \<notin> set m \<and> length m < 1024" if "ke_module e = Some m" for m
    using assms that by (simp add: ksym_entry_fits_def kallsyms_entry_ok_def)
  have "CHR 0x0A \<notin> set ?w"
    using nl(1,2) dg(1) md by (cases "ke_module e") simp_all
  moreover have "length ?w + 1 < 2048"
    using ok(3) dg(2) md by (cases "ke_module e") force+
  ultimately show ?thesis
    using fgets_line [of ?w 2048 rest] by (simp add: kallsyms_line_def)
qed

lemma each_ksym_loop_lines:
  "list_all ksym_entry_fits es \<Longrightarrow>
   each_ksym_loop endmod (concat (map kallsyms_line es)) callback payload =
     Some (fold (\<lambda>(name, modname, addr). callback name modname addr) (ksym_calls endmod es) payload)"
proof (induction es arbitrary: endmod payload)
  case Nil
  then show ?case
    by (subst each_ksym_loop.simps) (simp add: fgets_def)
next
  case (Cons e es)
  then show ?case
    by (subst each_ksym_loop.simps)
      (auto simp: fgets_kallsyms_line ksym_line_entry split: option.splits)
qed

text \<open>
  (C17) The kernel's symbol list is read without touching a byte outside a line, and the callback gets
  every code symbol in the kernel's address range, in order, with its address and module.  A symbol
  without a module is attributed to the kernel only if no module symbol came before it; after one,
  its module is the empty string, because the end of the previous module's name is never reset.
\<close>

theorem each_ksym_delivers:
  assumes "pe_fopen env ''/proc/kallsyms'' = Some (concat (map kallsyms_line es))" "list_all ksym_entry_fits es"
  shows "bcc_procutils_each_ksym env callback payload =
    Some (0, fold (\<lambda>(name, modname, addr). callback name modname addr) (ksym_calls False es) payload)"
  using assms by (simp add: bcc_procutils_each_ksym_def each_ksym_loop_lines)

theorem each_ksym_delivers_witness:
  "let es = [\<lparr>ke_addr = 0xffffffff81000000, ke_type = CHR ''T'', ke_name = ''f'', ke_module = None\<rparr>,
             \<lparr>ke_addr = 0xffffffffa0000000, ke_type = CHR ''t'', ke_name = ''g'', ke_module = Some ''xfs''\<rparr>,
             \<lparr>ke_addr = 0xffffffff81000010, ke_type = CHR ''T'', ke_name = ''h'', ke_module = None\<rparr>]
   in bcc_procutils_each_ksym (wit_proc_env\<lparr>pe_fopen := \<lambda>_. Some (concat (map kallsyms_line es))\<rparr>)
        (\<lambda>name modname addr st. st @ [(name, modname)]) [] =
      Some (0, [(''f'', ''kernel''), (''g'', ''xfs''), (''h'', [])])"
  by (simp add: Let_def each_ksym_delivers
      [where es = "[\<lparr>ke_addr = 0xffffffff81000000, ke_type = CHR ''T'', ke_name = ''f'', ke_module = None\<rparr>,
             \<lparr>ke_addr = 0xffffffffa0000000, ke_type = CHR ''t'', ke_name = ''g'', ke_module = Some ''xfs''\<rparr>,
             \<lparr>ke_addr = 0xffffffff81000010, ke_type = CHR ''T'', ke_name = ''h'', ke_module = None\<rparr>]"]
      ksym_entry_fits_def kallsyms_entry_ok_def isspace_def ksym_wanted_def kernelAddrSpace_def)

end
