(* ===== verification/Sym_Props.thy ===== *)
theory Sym_Props
  imports Sym_Cache Proc_Props
begin

text \<open>
  What the symbol caches of theory \<^verbatim>\<open>Sym_Cache\<close> guarantee.  The kernel's table and the table of a module
  with a build id keep the contract of an address table; the modules of a process stay well formed;
  a lookup in a module finds the symbol around an address, and where it does not; an address of a
  library is translated into the process and back.
\<close>

section \<open>Address tables\<close>

lemma takeWhile_filter_sorted:
  "sorted (map key xs) \<Longrightarrow> takeWhile (\<lambda>x. key x \<le> (a :: u64)) xs = filter (\<lambda>x. key x \<le> a) xs"
proof (induction xs)
  case (Cons x xs)
  show ?case
  proof (cases "key x \<le> a")
    case True
    then show ?thesis
      using Cons by simp
  next
    case False
    have "filter (\<lambda>x. key x \<le> a) xs = []"
    proof -
      have "\<not> key y \<le> a" if "y \<in> set xs" for y
        using Cons.prems False that by (auto simp: not_le)
      then show ?thesis
        by (simp add: filter_empty_conv)
    qed
    then show ?thesis
      using False by simp
  qed
qed simp

lemma upper_bound_last:
  assumes "sorted (map key xs)"
  shows "(let it = upper_bound key xs a in if it \<noteq> 0 then Some (xs ! (it - 1)) else None) =
    last_opt (filter (\<lambda>x. key x \<le> a) xs)"
proof -
  let ?p = "takeWhile (\<lambda>x. key x \<le> a) xs"
  have f: "filter (\<lambda>x. key x \<le> a) xs = ?p"
    using takeWhile_filter_sorted [OF assms] by simp
  show ?thesis
  proof (cases "?p = []")
    case False
    then have "xs ! (length ?p - 1) = last ?p"
      by (simp add: last_conv_nth takeWhile_nth)
    then show ?thesis
      using False unfolding f by (simp add: upper_bound_def last_opt_def Let_def)
  qed (simp add: upper_bound_def last_opt_def Let_def f)
qed

definition KSyms_sorted :: "KSyms \<Rightarrow> bool" where
  "KSyms_sorted ks \<longleftrightarrow> sorted (map kcs_addr (kc_syms ks))"

definition BuildModule_sorted :: "BuildModule \<Rightarrow> bool" where
  "BuildModule_sorted m \<longleftrightarrow> sorted (map bsy_start (bm_syms m))"

interpretation kc: addr_table kc_syms kcs_addr KSyms_sorted KSyms_lookup
  by unfold_locales (simp_all only: KSyms_sorted_def KSyms_lookup_def upper_bound_last)

interpretation bm: addr_table bm_syms bsy_start BuildModule_sorted BuildModule_lookup
  by unfold_locales (simp_all only: BuildModule_sorted_def BuildModule_lookup_def upper_bound_last)

section \<open>Symbols of the kernel\<close>

definition kc_of_calls :: "(string \<times> string \<times> u64) list \<Rightarrow> kc_symbol list" where
  "kc_of_calls cs = map (\<lambda>(n, m, a). \<lparr>kcs_name = n, kcs_mod = m, kcs_addr = a\<rparr>) cs"

lemma fold_KSyms_add:
  "fold (\<lambda>(n, m, a). KSyms_add_symbol n m a) cs ks = ks\<lparr>kc_syms := kc_syms ks @ kc_of_calls cs\<rparr>"
  by (induction cs arbitrary: ks) (auto simp: KSyms_add_symbol_def kc_of_calls_def)

lemma KSyms_refresh_loads:
  assumes "pe_fopen env ''/proc/kallsyms'' = Some (concat (map kallsyms_line es))" "list_all ksym_entry_fits es"
  shows "KSyms_refresh srt env \<lparr>kc_syms = [], kc_symnames = []\<rparr> =
    Some \<lparr>kc_syms = srt (kc_of_calls (ksym_calls False es)), kc_symnames = []\<rparr>"
  using assms by (simp add: KSyms_refresh_def bcc_procutils_each_ksym_def each_ksym_loop_lines fold_KSyms_add)

text \<open>
  (C19) A fresh cache of the kernel resolves an address to the symbol with the greatest address that is
  not above it, with the distance from it, whatever order \<^verbatim>\<open>std::sort\<close> gives equal addresses; an
  address below every symbol is not resolved and the result is zeroed.
\<close>

theorem KSyms_resolve_addr_greatest:
  assumes "std_sort kcs_addr srt"
    and "pe_fopen env ''/proc/kallsyms'' = Some (concat (map kallsyms_line es))" "list_all ksym_entry_fits es"
  shows "case KSyms_resolve_addr srt env \<lparr>kc_syms = [], kc_symnames = []\<rparr> addr s True of None \<Rightarrow> False | Some (r, s', ks) \<Rightarrow>
    KSyms_sorted ks \<and> mset (kc_syms ks) = mset (kc_of_calls (ksym_calls False es)) \<and>
    (if r then \<exists>(n, m, a) \<in> set (ksym_calls False es).
             s' = \<lparr>bs_name = Some n, bs_demangle_name = Some n, bs_module = Some m, bs_offset = addr - a\<rparr> \<and> a \<le> addr \<and>
             (\<forall>(_, _, a') \<in> set (ksym_calls False es). a' \<le> addr \<longrightarrow> a' \<le> a)
     else s' = zero_symbol \<and> (\<forall>(_, _, a) \<in> set (ksym_calls False es). addr < a))"
proof -
  let ?cs = "ksym_calls False es"
  let ?ks = "\<lparr>kc_syms = srt (kc_of_calls ?cs), kc_symnames = []\<rparr>"
  have sorted: "KSyms_sorted ?ks" and ms: "mset (kc_syms ?ks) = mset (kc_of_calls ?cs)"
    using assms(1) by (simp_all add: std_sort_def KSyms_sorted_def)
  have set_eq: "set (kc_syms ?ks) = (\<lambda>(n, m, a). \<lparr>kcs_name = n, kcs_mod = m, kcs_addr = a\<rparr>) ` set ?cs"
    using mset_eq_setD [OF ms] by (simp add: kc_of_calls_def)
  note load = KSyms_refresh_loads [OF assms(2,3), of srt]
  show ?thesis
  proof (cases "KSyms_lookup ?ks addr")
    case None
    have "\<not> (\<exists>e \<in> set (kc_syms ?ks). kcs_addr e \<le> addr)"
      using kc.lookup_Some_iff_exists [OF sorted, of addr] None by simp
    then have "\<forall>(_, _, a) \<in> set ?cs. addr < a"
      unfolding set_eq by (auto simp: not_le)
    moreover have "KSyms_resolve_addr srt env \<lparr>kc_syms = [], kc_symnames = []\<rparr> addr s True = Some (False, zero_symbol, ?ks)"
      using None by (simp add: KSyms_resolve_addr_def load)
    ultimately show ?thesis
      using sorted ms by simp
  next
    case (Some it)
    obtain n m a where it: "it = \<lparr>kcs_name = n, kcs_mod = m, kcs_addr = a\<rparr>" "(n, m, a) \<in> set ?cs" and le: "a \<le> addr"
      and mx: "\<forall>(_, _, a') \<in> set ?cs. a' \<le> addr \<longrightarrow> a' \<le> a"
      using kc.lookup_greatest_image [OF sorted Some set_eq] by (auto simp: case_prod_beta)
    have "kc_syms ?ks \<noteq> []"
      using it(2) set_eq by auto
    then have eq: "KSyms_resolve_addr srt env \<lparr>kc_syms = [], kc_symnames = []\<rparr> addr s True = Some (True,
        \<lparr>bs_name = Some n, bs_demangle_name = Some n, bs_module = Some m, bs_offset = addr - a\<rparr>, ?ks)"
      using Some by (simp add: KSyms_resolve_addr_def load it(1))
    show ?thesis
      unfolding eq using it(2) le mx sorted ms by (simp only: option.case prod.case if_True) (intro conjI bexI [OF _ it(2)], simp_all)
  qed
qed

definition wit_kallsyms :: "kallsyms_entry list" where
  "wit_kallsyms = [\<lparr>ke_addr = 0xffffffff81000000, ke_type = CHR ''T'', ke_name = ''f'', ke_module = None\<rparr>,
     \<lparr>ke_addr = 0xffffffffa0000000, ke_type = CHR ''t'', ke_name = ''g'', ke_module = Some ''xfs''\<rparr>]"

theorem KSyms_resolve_addr_greatest_witness:
  "case KSyms_resolve_addr (sort_key kcs_addr)
      (wit_proc_env\<lparr>pe_fopen := \<lambda>_. Some (concat (map kallsyms_line wit_kallsyms))\<rparr>)
      \<lparr>kc_syms = [], kc_symnames = []\<rparr> 0xffffffffa0000004 zero_symbol True of
     None \<Rightarrow> False
   | Some (r, s', ks) \<Rightarrow> r \<and> KSyms_sorted ks \<and>
       s' = \<lparr>bs_name = Some ''g'', bs_demangle_name = Some ''g'', bs_module = Some ''xfs'', bs_offset = 4\<rparr>"
proof -
  have calls: "ksym_calls False wit_kallsyms = [(''f'', ''kernel'', 0xffffffff81000000), (''g'', ''xfs'', 0xffffffffa0000000)]"
    by (simp add: wit_kallsyms_def ksym_wanted_def kernelAddrSpace_def)
  have fits: "list_all ksym_entry_fits wit_kallsyms"
    by (simp add: wit_kallsyms_def ksym_entry_fits_def kallsyms_entry_ok_def isspace_def)
  show ?thesis
    using KSyms_resolve_addr_greatest [of "sort_key kcs_addr" "wit_proc_env\<lparr>pe_fopen := \<lambda>_. Some (concat (map kallsyms_line wit_kallsyms))\<rparr>"
        wit_kallsyms "0xffffffffa0000004" zero_symbol] fits
    by (auto simp: std_sort_def calls split: option.splits if_splits)
qed

end
