(* ===== verification/Sym_Modules.thy ===== *)
theory Sym_Modules
  imports Sym_Cache Proc_Props
begin

text \<open>
  The modules of a process in \<^verbatim>\<open>ProcSyms\<close>: the table of modules stays well formed under every
  operation, a lookup inside a module, and the translation of the addresses of a library.
\<close>

section \<open>The table of modules\<close>

definition modules_ok :: "Module list \<Rightarrow> bool" where
  "modules_ok ms \<longleftrightarrow> distinct (map md_name ms) \<and> (\<forall>m \<in> set ms. md_ranges m \<noteq> [])"

lemma module_index_Some: "module_index name ms = Some i \<Longrightarrow> i < length ms \<and> md_name (ms ! i) = name"
proof -
  assume a: "module_index name ms = Some i"
  then have i: "i = length (takeWhile (\<lambda>m. md_name m \<noteq> name) ms)" "i < length ms"
    by (auto simp: module_index_def Let_def split: if_splits)
  show ?thesis
    using i nth_length_takeWhile [of "\<lambda>m. md_name m \<noteq> name" ms] by simp
qed

lemma module_index_None: "module_index name ms = None \<Longrightarrow> name \<notin> md_name ` set ms"
proof
  assume "module_index name ms = None" "name \<in> md_name ` set ms"
  then obtain m where m: "m \<in> set ms" "md_name m = name"
    by auto
  have "length (takeWhile (\<lambda>m. md_name m \<noteq> name) ms) = length ms"
    using \<open>module_index name ms = None\<close> length_takeWhile_le [of "\<lambda>m. md_name m \<noteq> name" ms]
    by (auto simp: module_index_def Let_def split: if_splits)
  then have "takeWhile (\<lambda>m. md_name m \<noteq> name) ms = ms"
    by (metis takeWhile_eq_take take_all order_refl)
  then show False
    using m set_takeWhileD [of m "\<lambda>m. md_name m \<noteq> name" ms] by auto
qed

lemma md_name_simps [simp]:
  "md_name (add_range md m) = md_name m" "md_ranges (add_range md m) \<noteq> []" "md_name (Module_new env name p) = name"
  by (simp_all add: add_range_def Module_new_def Let_def)

lemma modules_ok_update:
  assumes "modules_ok ms" "i < length ms" "md_name m = md_name (ms ! i)" "md_ranges m \<noteq> []"
  shows "modules_ok (ms[i := m])"
proof -
  have "map md_name (ms[i := m]) = map md_name ms"
    using assms(2,3) by (simp add: map_update list_update_same_conv)
  then show ?thesis
    using assms set_update_subset_insert [of ms i m] by (auto simp: modules_ok_def)
qed

lemma add_module_ok:
  assumes "modules_ok (psy_modules ps)"
  shows "modules_ok (psy_modules (snd (ProcSyms_add_module env md enter_ns ps)))"
proof (cases "module_index (mi_name md) (psy_modules ps)")
  case (Some i)
  then show ?thesis
    using module_index_Some [OF Some] assms by (simp add: ProcSyms_add_module_def Let_def modules_ok_update)
next
  case None
  have "modules_ok (psy_modules ps @ [m])" if "md_name m = mi_name md" "md_ranges m \<noteq> []" for m
    using that module_index_None [OF None] assms by (auto simp: modules_ok_def)
  then show ?thesis
    using None assms by (simp add: ProcSyms_add_module_def Let_def split: option.splits prod.splits)
qed

lemma load_modules_ok:
  assumes "ProcSyms_load_modules env ps = Some ps'" "modules_ok (psy_modules ps)"
  shows "modules_ok (psy_modules ps')"
  using assms add_module_ok each_module_keeps [where P = "\<lambda>ps. modules_ok (psy_modules ps)" and callback = "ProcSyms_add_module env"]
  by (fastforce simp: ProcSyms_load_modules_def)

lemma modules_ok_Nil [simp]: "modules_ok []"
  by (simp add: modules_ok_def)

lemma refresh_ok: "ProcSyms_refresh env ps = Some ps' \<Longrightarrow> modules_ok (psy_modules ps')"
  using load_modules_ok [of env "ps\<lparr>psy_modules := []\<rparr>"] by (auto simp: ProcSyms_refresh_def)

lemma refresh_if_stale_ok:
  "refresh_if_stale env ps = Some ps' \<Longrightarrow> modules_ok (psy_modules ps) \<Longrightarrow> modules_ok (psy_modules ps')"
  using refresh_ok by (auto simp: refresh_if_stale_def Let_def split: prod.splits if_splits)


section \<open>Loading a symbol table keeps the module\<close>

lemma perf_map_loop_keeps:
  assumes "\<And>n a l st. P st \<Longrightarrow> P (callback n a l st)" "P st"
  shows "P (perf_map_loop callback erange s st)"
  using assms(2)
proof (induction "length s" arbitrary: s erange st rule: less_induct)
  case less
  show ?case
  proof (cases "getline s")
    case None
    then show ?thesis
      using less.prems by (simp add: perf_map_loop.simps [of callback erange s])
  next
    case (Some x)
    obtain line rest where g: "getline s = Some (line, rest)"
      using Some by (cases x) auto
    show ?thesis
      using less.hyps [OF getline_shorter [OF g]] less.prems assms(1)
      by (auto simp: perf_map_loop.simps [of callback erange s] g split: option.splits prod.splits)
  qed
qed

lemma list_syms_keeps:
  assumes keep: "\<And>n a l st. P st \<Longrightarrow> P (snd (callback n a l st))"
  shows "P st \<Longrightarrow> P (snd (list_syms callback syms st))"
proof (induction syms arbitrary: st)
  case (Cons x syms)
  obtain name start sz where x: "x = (name, start, sz)"
    by (cases x)
  show ?case
    using Cons keep [OF Cons.prems, of name start sz] by (auto simp: x Let_def split: prod.splits)
qed simp

lemma foreach_sym_core_keeps:
  assumes keep: "\<And>n a l st. P st \<Longrightarrow> P (snd (callback n a l st))" and "P st"
  shows "P (snd (foreach_sym_core callback ls st))"
proof -
  have "P (snd (fold (\<lambda>syms (_, payload). list_syms callback syms payload) xs (b, st)))" for xs b
    using assms(2)
  proof (induction xs arbitrary: b st)
    case (Cons syms xs)
    obtain b' st' where l: "list_syms callback syms st = (b', st')"
      by (cases "list_syms callback syms st")
    have "P st'"
      using list_syms_keeps [where P = P and callback = callback, OF keep Cons.prems, of syms] by (simp add: l)
    then show ?case
      using Cons.IH [of st' b'] by (simp add: l)
  qed simp
  then show ?thesis
    by (simp add: foreach_sym_core_def split: prod.splits) (metis snd_conv)
qed

text \<open>The part of a module that its symbols do not change.\<close>

definition same_module :: "Module \<Rightarrow> Module \<Rightarrow> bool" where
  "same_module m m' \<longleftrightarrow> md_name m' = md_name m \<and> md_ranges m' = md_ranges m \<and> md_type m' = md_type m \<and>
     md_path m' = md_path m \<and> md_elf_so_addr m' = md_elf_so_addr m \<and> md_elf_so_offset m' = md_elf_so_offset m"

lemma same_module_simps [simp]:
  "same_module m m" "same_module m (m'\<lparr>md_syms := x\<rparr>) = same_module m m'" "same_module m (m'\<lparr>md_loaded := l\<rparr>) = same_module m m'"
  "same_module m (Module_add_symbol n a sz m') = same_module m m'" "same_module m (Module_add_symbol_lazy ni a sz m') = same_module m m'"
  by (simp_all add: same_module_def Module_add_symbol_def Module_add_symbol_lazy_def)

lemma load_sym_table_same: "same_module m (snd (load_sym_table srt env opt m))"
proof -
  have p: "same_module m (perf_map_loop Module_add_symbol e f m')" if "same_module m m'" for e f m'
    by (rule perf_map_loop_keeps) (use that in simp_all)
  have v: "same_module m (snd (foreach_sym_core (\<lambda>n a l m. (0, Module_add_symbol n a l m)) ls m'))" if "same_module m m'" for ls m'
    by (rule foreach_sym_core_keeps) (use that in simp_all)
  have l: "same_module m (snd (foreach_sym_core (\<lambda>n a l m. (0, Module_add_symbol_lazy n a l m)) ls m'))" if "same_module m m'" for ls m'
    by (rule foreach_sym_core_keeps) (use that in simp_all)
  show ?thesis
    by (cases "md_type m")
      (simp_all add: load_sym_table_def Let_def case_prod_beta bcc_perf_map_foreach_sym_def bcc_elf_foreach_sym_def
        bcc_elf_foreach_sym_lazy_def p v l split: option.split)
qed

lemma find_addr_same:
  "Module_find_addr srt env opt m offset s = (r, s', opt', m') \<Longrightarrow> same_module m m'"
  using load_sym_table_same [of m srt env opt]
  by (auto simp: Module_find_addr_def Let_def split: prod.splits option.splits if_splits)

lemma resolve_loop_same:
  "resolve_loop srt env addr demangle orig only opt ms s = (r, s', opt', ms') \<Longrightarrow> list_all2 same_module ms ms'"
proof (induction ms arbitrary: orig only opt s r s' opt' ms')
  case (Cons m ms)
  then show ?case
    by (auto simp: list_all2_refl Let_def split: if_splits option.splits prod.splits dest: find_addr_same)
qed simp

lemma modules_ok_same: "modules_ok ms \<Longrightarrow> list_all2 same_module ms ms' \<Longrightarrow> modules_ok ms'"
proof -
  assume ok: "modules_ok ms" and all: "list_all2 same_module ms ms'"
  have "map md_name ms' = map md_name ms" "map md_ranges ms' = map md_ranges ms"
    using all by (induction rule: list_all2_induct) (auto simp: same_module_def)
  then have "distinct (map md_name ms')" "md_ranges ` set ms' = md_ranges ` set ms"
    using ok by (auto simp: modules_ok_def simp flip: set_map)
  then show ?thesis
    using ok unfolding modules_ok_def by (metis image_iff)
qed

text \<open>
  (C20) The modules of a process stay well formed: after construction, a refresh, or the resolution of
  an address or a name, in whatever state the system is, every module is listed once and has at least
  one address range.  So looking a name up never reads the start of a module without ranges.
\<close>

theorem ProcSyms_modules_ok:
  assumes "modules_ok (psy_modules ps)"
  shows "(\<forall>env pid opt ps'. ProcSyms_new env pid opt = Some ps' \<longrightarrow> modules_ok (psy_modules ps')) \<and>
    (\<forall>env ps'. ProcSyms_refresh env ps = Some ps' \<longrightarrow> modules_ok (psy_modules ps')) \<and>
    (\<forall>srt env addr demangle r s ps'. ProcSyms_resolve_addr srt env ps addr demangle = Some (r, s, ps') \<longrightarrow>
       modules_ok (psy_modules ps')) \<and>
    (\<forall>env module_s name. case refresh_if_stale env ps of
        None \<Rightarrow> True
      | Some ps1 \<Rightarrow> \<exists>r ps'. ProcSyms_resolve_name env ps module_s name = Some (r, ps') \<and> modules_ok (psy_modules ps'))"
proof (intro conjI allI impI)
  show "modules_ok (psy_modules ps')" if "ProcSyms_new env pid opt = Some ps'" for env pid opt ps'
    using load_modules_ok [OF that [unfolded ProcSyms_new_def]] by simp
  show "modules_ok (psy_modules ps')" if "ProcSyms_refresh env ps = Some ps'" for env ps'
    using that by (rule refresh_ok)
  show "modules_ok (psy_modules ps')" if "ProcSyms_resolve_addr srt env ps addr demangle = Some (r, s, ps')" for srt env addr demangle r s ps'
    using that refresh_if_stale_ok [OF _ assms] resolve_loop_same modules_ok_same
    by (fastforce simp: ProcSyms_resolve_addr_def Let_def split: Option.bind_splits prod.splits)
  show "case refresh_if_stale env ps of None \<Rightarrow> True
      | Some ps1 \<Rightarrow> \<exists>r ps'. ProcSyms_resolve_name env ps module_s name = Some (r, ps') \<and> modules_ok (psy_modules ps')" for env module_s name
  proof (cases "refresh_if_stale env ps")
    case (Some ps1)
    then have ok: "modules_ok (psy_modules ps1)"
      using refresh_if_stale_ok assms by blast
    have "\<exists>r opt'. Module_find_name env opt m name = Some (r, opt')" if "md_ranges m \<noteq> []" for opt m
      using that by (auto simp: Module_find_name_def Let_def split: option.splits prod.splits list.splits)
    moreover have "md_ranges m \<noteq> []" if "find (\<lambda>m. md_name m = module_s) (psy_modules ps1) = Some m" for m
      using that ok by (auto simp: modules_ok_def find_Some_iff)
    ultimately have "\<exists>r opt'. (case find (\<lambda>m. md_name m = module_s) (psy_modules ps1) of
        None \<Rightarrow> Some (None, psy_option ps1) | Some m \<Rightarrow> Module_find_name env (psy_option ps1) m name) = Some (r, opt')"
      by (cases "find (\<lambda>m. md_name m = module_s) (psy_modules ps1)") auto
    then show ?thesis
      using Some ok by (auto simp: ProcSyms_resolve_name_def)
  qed simp
qed

definition wit_sym_env :: sym_env where
  "wit_sym_env = \<lparr>pe_fopen = (\<lambda>_. None), pe_access = (\<lambda>_. True), pe_readlink = (\<lambda>_. None),
     pr_getenv_PATH = None, pr_elf_type = (\<lambda>_. 3), pr_access_x = (\<lambda>_. True),
     pr_readdir = (\<lambda>_. None), pr_stat_ino = (\<lambda>_. None), pr_zip = wit_env, pr_malloc = (\<lambda>_. True),
     pr_realpath = (\<lambda>_. None), pr_mmap_file = (\<lambda>_. None),
     se_list_syms = (\<lambda>_ _. ([[(''f'', 0x10, 4)]], False)), se_list_syms_lazy = (\<lambda>_ _. ([], False)), se_list_vdso = ([], False),
     se_symbol_str = (\<lambda>_ _. None), se_text_scn = (\<lambda>_. Some (0x1000, 0x400)), se_load_sections = (\<lambda>_. Some [(0, 0x100, 0x40)]),
     se_buildid = (\<lambda>_. None), se_demangle = (\<lambda>_. None), se_stat = (\<lambda>_. None), se_exists = (\<lambda>_. True),
     se_open = (\<lambda>_. - 1), se_openat = (\<lambda>_ _. - 1), se_stack = (\<lambda>_. []), se_junk = (0, 0), se_erange = False,
     se_os = \<lparr>os_fds = 0, os_maps = 0, os_allocs = 0\<rparr>, se_zip_entry = wit_entry\<rparr>"

definition wit_module :: Module where
  "wit_module = \<lparr>md_name = ''/lib/a.so'', md_path = \<lparr>mp_fd = - 1, mp_proc_root_path = ''/lib/a.so'', mp_path = ''/lib/a.so''\<rparr>,
     md_ranges = [\<lparr>rng_start = 0x7000, rng_end = 0x8000, rng_file_offset = 0x400\<rparr>], md_loaded = True, md_type = SO,
     md_elf_so_offset = 0x400, md_elf_so_addr = 0x1000,
     md_syms = [\<lparr>pcs_name = Sym_name ''foo'', pcs_start = 0x6, pcs_size = 0x10\<rparr>, \<lparr>pcs_name = Sym_name ''bar'', pcs_start = 0x8, pcs_size = 4\<rparr>,
                \<lparr>pcs_name = Sym_name ''baz'', pcs_start = 0x16, pcs_size = 0x10\<rparr>]\<rparr>"

theorem ProcSyms_modules_ok_witness:
  "\<exists>r ps'. ProcSyms_resolve_name wit_sym_env
       \<lparr>psy_pid = 5, psy_modules = [wit_module], psy_procstat = ProcStat_new wit_sym_env 5, psy_option = default_symbol_option\<rparr>
       ''/lib/a.so'' ''f'' = Some (r, ps') \<and> modules_ok (psy_modules ps')"
proof -
  let ?ps = "\<lparr>psy_pid = 5, psy_modules = [wit_module], psy_procstat = ProcStat_new wit_sym_env 5, psy_option = default_symbol_option\<rparr>"
  have ok: "modules_ok (psy_modules ?ps)"
    by (simp add: modules_ok_def wit_module_def)
  have fresh: "refresh_if_stale wit_sym_env ?ps = Some ?ps"
    by (simp add: refresh_if_stale_def is_stale_def getinode_def wit_sym_env_def)
  have "case refresh_if_stale wit_sym_env ?ps of None \<Rightarrow> True
      | Some ps1 \<Rightarrow> \<exists>r ps'. ProcSyms_resolve_name wit_sym_env ?ps ''/lib/a.so'' ''f'' = Some (r, ps') \<and> modules_ok (psy_modules ps')"
    using ProcSyms_modules_ok [OF ok] by blast
  then show ?thesis
    unfolding fresh by simp
qed

section \<open>A lookup inside a module\<close>

abbreviation pcs_end :: "pc_symbol \<Rightarrow> u64" where
  "pcs_end y \<equiv> pcs_start y + pcs_size y"

definition sym_covers :: "u64 \<Rightarrow> pc_symbol \<Rightarrow> bool" where
  "sym_covers offset y \<longleftrightarrow> pcs_start y \<le> offset \<and> offset < pcs_end y"

lemma find_back_sound:
  "find_back resolve offset limit xs = Some (k, name) \<Longrightarrow>
   k < length xs \<and> sym_covers offset (xs ! k) \<and> resolve (xs ! k) = Some name"
proof (induction xs arbitrary: k)
  case (Cons x xs)
  then show ?case
    by (auto simp: sym_covers_def split: if_splits option.splits)
qed simp

lemma find_back_complete:
  assumes "k < length xs" "\<forall>j\<le>k. pcs_start (xs ! j) \<le> offset" "\<forall>j<k. \<not> sym_covers offset (xs ! j) \<and> limit \<le> pcs_end (xs ! j)"
    and "sym_covers offset (xs ! k)" "resolve (xs ! k) = Some name"
  shows "find_back resolve offset limit xs = Some (k, name)"
  using assms
proof (induction xs arbitrary: k)
  case (Cons x xs)
  show ?case
  proof (cases k)
    case 0
    then show ?thesis
      using Cons.prems by (auto simp: sym_covers_def)
  next
    case (Suc k')
    have "find_back resolve offset limit xs = Some (k', name)"
      using Cons.prems Suc by (intro Cons.IH) auto
    moreover have "pcs_start x \<le> offset" "\<not> offset < pcs_end x" "\<not> pcs_end x < limit"
      using Cons.prems(2,3) Suc by (auto simp: sym_covers_def not_less)
    ultimately show ?thesis
      using Suc by simp
  qed
qed simp

lemma upper_bound_iff:
  assumes "sorted (map key xs)" "i < length xs"
  shows "i < upper_bound key xs a \<longleftrightarrow> key (xs ! i) \<le> a"
proof
  assume "i < upper_bound key xs a"
  then show "key (xs ! i) \<le> a"
    unfolding upper_bound_def using nth_mem takeWhile_nth [of i "\<lambda>x. key x \<le> a" xs]
    by (metis set_takeWhileD)
next
  assume le: "key (xs ! i) \<le> a"
  show "i < upper_bound key xs a"
  proof (rule ccontr)
    assume n: "\<not> i < upper_bound key xs a"
    let ?k = "upper_bound key xs a"
    have "\<not> key (xs ! ?k) \<le> a"
      unfolding upper_bound_def using n assms(2) by (intro nth_length_takeWhile) (simp add: upper_bound_def)
    moreover have "key (xs ! ?k) \<le> key (xs ! i)"
      using sorted_nth_mono [OF assms(1), of ?k i] n assms(2) by simp
    ultimately show False
      using le by simp
  qed
qed

lemma upper_bound_le: "upper_bound key xs a \<le> length xs"
  by (simp add: upper_bound_def length_takeWhile_le)

lemma rev_take_nth: "k < n \<Longrightarrow> n \<le> length xs \<Longrightarrow> rev (take n xs) ! k = xs ! (n - 1 - k)"
  by (simp add: rev_nth)

definition found_symbol :: "bcc_symbol \<Rightarrow> Module \<Rightarrow> u64 \<Rightarrow> nat \<Rightarrow> string \<Rightarrow> bcc_symbol" where
  "found_symbol s m offset i name =
     s\<lparr>bs_module := Some (md_name m), bs_name := Some name, bs_offset := offset - pcs_start (md_syms m ! i)\<rparr>"

definition name_cached :: "Module \<Rightarrow> nat \<Rightarrow> string \<Rightarrow> Module" where
  "name_cached m i name = m\<lparr>md_syms := (md_syms m)[i := (md_syms m ! i)\<lparr>pcs_name := Sym_name name\<rparr>]\<rparr>"

lemma upper_bound_after:
  assumes "sorted (map pcs_start ys)" "l < length ys" "pcs_start (ys ! l) \<le> offset"
    and "\<forall>j<length ys. l < j \<longrightarrow> offset < pcs_start (ys ! j)"
  shows "upper_bound pcs_start ys offset = Suc l"
proof (rule antisym)
  let ?it = "upper_bound pcs_start ys offset"
  show "Suc l \<le> ?it"
    using upper_bound_iff [OF assms(1,2), of offset] assms(3) by simp
  show "?it \<le> Suc l"
  proof (rule ccontr)
    assume "\<not> ?it \<le> Suc l"
    then have "Suc l < ?it" "Suc l < length ys"
      using upper_bound_le [of pcs_start ys offset] by auto
    then show False
      using upper_bound_iff [OF assms(1), of "Suc l" offset] assms(4) by (auto dest!: spec [of _ "Suc l"])
  qed
qed

lemma find_addr_complete:
  assumes "md_loaded m" "sorted (map pcs_start (md_syms m))"
    and "i < length (md_syms m)" "sym_covers offset (md_syms m ! i)"
    and "resolve_sym_name env (path_of env (md_path m)) (md_syms m ! i) = Some name"
    and "l < length (md_syms m)" "pcs_start (md_syms m ! l) \<le> offset"
    and "\<forall>j<length (md_syms m). l < j \<longrightarrow> offset < pcs_start (md_syms m ! j)"
    and "\<forall>j\<le>l. i < j \<longrightarrow> \<not> sym_covers offset (md_syms m ! j) \<and> pcs_start (md_syms m ! l) \<le> pcs_end (md_syms m ! j)"
  shows "Module_find_addr srt env opt m offset s =
    (True, found_symbol s m offset i name, opt, name_cached m i name)"
proof -
  let ?ys = "md_syms m"
  let ?it = "upper_bound pcs_start ?ys offset"
  note ub = upper_bound_iff [OF assms(2)]
  have il: "i \<le> l"
    using assms(3,4,8) by (cases "l < i") (auto simp: sym_covers_def)
  have it: "?it = Suc l"
    by (rule upper_bound_after [OF assms(2,6-8)])
  have nth: "rev (take ?it ?ys) ! k = ?ys ! (l - k)" if "k \<le> l" for k
    using rev_take_nth [of k ?it ?ys] that it upper_bound_le [of pcs_start ?ys offset] by simp
  have "find_back (resolve_sym_name env (path_of env (md_path m))) offset (pcs_start (?ys ! l)) (rev (take ?it ?ys)) = Some (l - i, name)"
  proof (rule find_back_complete)
    show "l - i < length (rev (take ?it ?ys))"
      using it assms(6) by simp
    show "\<forall>j\<le>l - i. pcs_start (rev (take ?it ?ys) ! j) \<le> offset"
    proof (intro allI impI)
      fix j
      assume "j \<le> l - i"
      then have "j \<le> l" "l - j < ?it" "l - j < length ?ys"
        using it assms(6) by auto
      then show "pcs_start (rev (take ?it ?ys) ! j) \<le> offset"
        using ub [of "l - j" offset] nth [of j] by simp
    qed
    show "\<forall>j<l - i. \<not> sym_covers offset (rev (take ?it ?ys) ! j) \<and> pcs_start (?ys ! l) \<le> pcs_end (rev (take ?it ?ys) ! j)"
    proof (intro allI impI)
      fix j
      assume "j < l - i"
      then have "j \<le> l" "i < l - j" "l - j \<le> l"
        by auto
      then show "\<not> sym_covers offset (rev (take ?it ?ys) ! j) \<and> pcs_start (?ys ! l) \<le> pcs_end (rev (take ?it ?ys) ! j)"
        using assms(9) by (simp add: nth)
    qed
    show "sym_covers offset (rev (take ?it ?ys) ! (l - i))"
      "resolve_sym_name env (path_of env (md_path m)) (rev (take ?it ?ys) ! (l - i)) = Some name"
      using nth [of "l - i"] il assms(4,5) by simp_all
  qed
  then show ?thesis
    using assms(1) il by (simp add: Module_find_addr_def load_sym_table_def it found_symbol_def name_cached_def Let_def)
qed

lemma find_addr_sound:
  assumes "md_loaded m" "Module_find_addr srt env opt m offset s = (True, s', opt', m')"
  shows "\<exists>i name. i < length (md_syms m) \<and> sym_covers offset (md_syms m ! i) \<and>
    resolve_sym_name env (path_of env (md_path m)) (md_syms m ! i) = Some name \<and>
    s' = found_symbol s m offset i name \<and> opt' = opt \<and> m' = name_cached m i name"
proof -
  let ?ys = "md_syms m"
  let ?it = "upper_bound pcs_start ?ys offset"
  obtain k name where fb: "find_back (resolve_sym_name env (path_of env (md_path m))) offset (pcs_start (?ys ! (?it - 1)))
      (rev (take ?it ?ys)) = Some (k, name)" and it: "?it \<noteq> 0"
    and r: "s' = found_symbol s m offset (?it - 1 - k) name" "opt' = opt" "m' = name_cached m (?it - 1 - k) name"
    using assms by (auto simp: Module_find_addr_def load_sym_table_def Let_def found_symbol_def name_cached_def split: if_splits option.splits)
  have k: "k < ?it"
    using find_back_sound [OF fb] by simp
  then have "rev (take ?it ?ys) ! k = ?ys ! (?it - 1 - k)"
    using upper_bound_le by (rule rev_take_nth)
  then show ?thesis
    using find_back_sound [OF fb] r k upper_bound_le [of pcs_start ?ys offset]
    by (intro exI [of _ "?it - 1 - k"] exI [of _ name]) auto
qed

text \<open>
  (C21) A lookup in a loaded, sorted module reports only a symbol that covers the offset, with its name
  and the distance from its start, and remembers a name it had to read.  It finds a covering symbol
  whenever no later symbol that starts at or below the offset covers it too or ends before the start of
  the last one of them; in particular a symbol that no other one follows below the offset, and a symbol
  around nested ones that all reach that start.
\<close>

theorem Module_find_addr_spec:
  assumes "md_loaded m" "sorted (map pcs_start (md_syms m))"
  shows "(\<forall>s' opt' m'. Module_find_addr srt env opt m offset s = (True, s', opt', m') \<longrightarrow>
      (\<exists>i name. i < length (md_syms m) \<and> sym_covers offset (md_syms m ! i) \<and>
         resolve_sym_name env (path_of env (md_path m)) (md_syms m ! i) = Some name \<and>
         s' = found_symbol s m offset i name \<and> opt' = opt \<and> m' = name_cached m i name)) \<and>
    (\<forall>i l name. i < length (md_syms m) \<and> sym_covers offset (md_syms m ! i) \<and>
       resolve_sym_name env (path_of env (md_path m)) (md_syms m ! i) = Some name \<and>
       l < length (md_syms m) \<and> pcs_start (md_syms m ! l) \<le> offset \<and>
       (\<forall>j<length (md_syms m). l < j \<longrightarrow> offset < pcs_start (md_syms m ! j)) \<and>
       (\<forall>j\<le>l. i < j \<longrightarrow> \<not> sym_covers offset (md_syms m ! j) \<and> pcs_start (md_syms m ! l) \<le> pcs_end (md_syms m ! j)) \<longrightarrow>
       Module_find_addr srt env opt m offset s = (True, found_symbol s m offset i name, opt, name_cached m i name))"
  using find_addr_sound [OF assms(1)] find_addr_complete [OF assms] by blast

theorem Module_find_addr_spec_witness:
  "Module_find_addr (\<lambda>xs. xs) wit_sym_env default_symbol_option wit_module 0x12 zero_symbol =
     (True, \<lparr>bs_name = Some ''foo'', bs_demangle_name = None, bs_module = Some ''/lib/a.so'', bs_offset = 0xc\<rparr>,
      default_symbol_option, wit_module)"
proof -
  have "Module_find_addr (\<lambda>xs. xs) wit_sym_env default_symbol_option wit_module 0x12 zero_symbol =
      (True, found_symbol zero_symbol wit_module 0x12 0 ''foo'', default_symbol_option, name_cached wit_module 0 ''foo'')"
  proof (rule Module_find_addr_spec [THEN conjunct2, rule_format, where l = 1])
    show "md_loaded wit_module" "sorted (map pcs_start (md_syms wit_module))"
      by (simp_all add: wit_module_def)
  qed (auto simp: wit_module_def sym_covers_def resolve_sym_name_def less_Suc_eq le_Suc_eq)
  then show ?thesis
    by (simp add: found_symbol_def name_cached_def zero_symbol_def wit_module_def)
qed

lemma find_back_stops:
  assumes "j < length xs" "\<forall>i\<le>j. \<not> sym_covers offset (xs ! i)" "pcs_end (xs ! j) < limit"
  shows "find_back resolve offset limit xs = None"
  using assms
proof (induction xs arbitrary: j)
  case (Cons x xs)
  have x: "\<not> sym_covers offset x"
    using Cons.prems(2) by (metis le0 nth_Cons_0)
  show ?case
  proof (cases j)
    case 0
    then show ?thesis
      using Cons.prems(3) x by (simp add: sym_covers_def)
  next
    case (Suc j')
    have "find_back resolve offset limit xs = None"
      by (rule Cons.IH [of j']) (use Cons.prems Suc in auto)
    then show ?thesis
      using x by (simp add: sym_covers_def)
  qed
qed simp

text \<open>
  (C39) In a loaded, sorted module let the last symbol that starts at or below an offset be behind a symbol that ends before
  it starts.  If neither these two nor a symbol between them covers the offset, the lookup fails, although a function that
  starts before both encloses them and covers the offset: the walk backwards stops at the first one.
\<close>

theorem find_addr_misses_enclosing:
  assumes "md_loaded m" "sorted (map pcs_start (md_syms m))"
    and "l < length (md_syms m)" "pcs_start (md_syms m ! l) \<le> offset" "\<forall>i<length (md_syms m). l < i \<longrightarrow> offset < pcs_start (md_syms m ! i)"
    and "j \<le> l" "pcs_end (md_syms m ! j) < pcs_start (md_syms m ! l)" "\<forall>i\<le>l. j \<le> i \<longrightarrow> \<not> sym_covers offset (md_syms m ! i)"
    and "k < j" "sym_covers offset (md_syms m ! k)"
  shows "fst (Module_find_addr srt env opt m offset s) = False"
proof -
  let ?ys = "md_syms m"
  have it: "upper_bound pcs_start ?ys offset = Suc l"
    by (rule upper_bound_after [OF assms(2-5)])
  have nth: "rev (take (Suc l) ?ys) ! i = ?ys ! (l - i)" if "i \<le> l" for i
    using rev_take_nth [of i "Suc l" ?ys] that assms(3) by simp
  have "find_back resolve offset (pcs_start (?ys ! l)) (rev (take (Suc l) ?ys)) = None" for resolve
    by (rule find_back_stops [of "l - j"]) (use nth assms(3,6-8) in auto)
  then show ?thesis
    using assms(1) by (simp add: Module_find_addr_def load_sym_table_def it Let_def)
qed

theorem find_addr_misses_enclosing_witness:
  "let m = wit_module\<lparr>md_syms := [\<lparr>pcs_name = Sym_name ''outer'', pcs_start = 0, pcs_size = 0x100\<rparr>,
        \<lparr>pcs_name = Sym_name ''a'', pcs_start = 0x10, pcs_size = 4\<rparr>, \<lparr>pcs_name = Sym_name ''b'', pcs_start = 0x20, pcs_size = 4\<rparr>,
        \<lparr>pcs_name = Sym_name ''c'', pcs_start = 0x200, pcs_size = 4\<rparr>]\<rparr>
   in sym_covers 0x50 (md_syms m ! 0) \<and>
      fst (Module_find_addr (\<lambda>xs. xs) wit_sym_env default_symbol_option m 0x50 zero_symbol) = False"
  unfolding Let_def
  by (intro conjI; (rule find_addr_misses_enclosing [where j = 1 and k = 0 and l = "Suc (Suc 0)"])?)
    (auto simp: wit_module_def sym_covers_def less_Suc_eq le_Suc_eq)

section \<open>Addresses of a library in a process\<close>

lemma call_each_find:
  assumes "\<And>m. callback m st = (if P m then (- 1, upd m) else (0, st))"
  shows "call_each callback ms st = (case find P ms of None \<Rightarrow> (- 1, st) | Some m \<Rightarrow> (0, upd m))"
  by (induction ms) (simp_all add: assms)

definition module_matches :: "u64 \<Rightarrow> u64 \<Rightarrow> u64 \<Rightarrow> mod_info \<Rightarrow> bool" where
  "module_matches ino dev_major dev_minor md \<longleftrightarrow>
     mi_inode md = ino \<and> mi_dev_major md = dev_major \<and> mi_dev_minor md = dev_minor"

lemma find_module_cases:
  "ms_inode st \<noteq> 0 \<Longrightarrow> \<not> ms_inode_match_only st \<Longrightarrow>
   bcc_syms_find_module md en st =
     (if module_matches (ms_inode st) (ms_dev_major st) (ms_dev_minor st) md
      then (- 1, st\<lparr>ms_start := mi_start_addr md, ms_file_offset := mi_file_offset md\<rparr>) else (0, st))"
  by (auto simp: bcc_syms_find_module_def module_matches_def Let_def)

text \<open>
  (C22) The address of a library function is translated into the process: the first executable mapping
  of the library's file, by inode and device, gives the base.  Translated back by a module with that
  range, the address is the one asked for.  If the process has a memory-backed mapping, the allocations of the walk over its modules
  have to succeed, which the code does not check.
\<close>

theorem resolve_global_addr_roundtrip:
  assumes "pe_fopen env (''/proc/'' @ show_int pid @ ''/maps'') = Some (concat (map map_line ps))" "list_all proc_map_ok ps"
    and "0 \<le> pid" "pid < 2 ^ 31" "bcc_perf_map_path env 4096 pid = Some mp"
    and "se_stat env module_s = Some (ino, dev_major, dev_minor)" "ino \<noteq> 0"
    and "find (\<lambda>(md, _). module_matches ino dev_major dev_minor md)
          (map (module_call env (se_os env) (se_zip_entry env) pid) (filter module_mapping ps)) = Some (md, en)"
    and "mi_start_addr md \<noteq> 0" "se_text_scn env module_s = Some (elf_addr, elf_offset)"
    and "\<forall>p \<in> set ps. memfd_safe env (pm_name p)"
  shows "\<exists>g. bcc_resolve_global_addr env pid module_s address False = Some (Some g) \<and>
    (\<forall>m. md_type m = SO \<and> md_elf_so_addr m = elf_addr \<and> md_elf_so_offset m = elf_offset \<and>
       find (\<lambda>r. rng_start r \<le> g \<and> g < rng_end r) (md_ranges m) =
         Some \<lparr>rng_start = mi_start_addr md, rng_end = mi_end_addr md, rng_file_offset = mi_file_offset md\<rparr> \<longrightarrow>
       Module_contains m g = Some address)"
proof -
  let ?st = "\<lparr>ms_name = module_s, ms_inode = ino, ms_dev_major = dev_major, ms_dev_minor = dev_minor, ms_addr = address,
      ms_inode_match_only = False, ms_start = 0, ms_file_offset = 0\<rparr>"
  let ?st' = "?st\<lparr>ms_start := mi_start_addr md, ms_file_offset := mi_file_offset md\<rparr>"
  have walk: "procfs_maps_each_module env (se_os env) (se_zip_entry env) (concat (map map_line ps)) pid bcc_syms_find_module ?st =
      Some (0, se_os env, ?st')"
  proof -
    have "call_each (\<lambda>(m, enter_ns). bcc_syms_find_module m enter_ns)
        (map (module_call env (se_os env) (se_zip_entry env) pid) (filter module_mapping ps)) ?st = (0, ?st')"
      using assms(7)
      by (subst call_each_find [where P = "\<lambda>(md, _). module_matches ino dev_major dev_minor md"
            and upd = "\<lambda>(md, _). ?st\<lparr>ms_start := mi_start_addr md, ms_file_offset := mi_file_offset md\<rparr>"])
        (auto simp: find_module_cases assms(8) split: prod.splits)
    then show ?thesis
      by (subst maps_each_module_lines [OF assms(2,11) entries_start_skip_ws [OF maps_start]]) simp
  qed
  have perf: "bcc_syms_find_module (perf_module p) en ?st' = (0, ?st')" for p en
    using assms(7) by (simp add: bcc_syms_find_module_def perf_module_def Let_def)
  have "length (show_int pid) \<le> 10"
    using assms(3,4) by (rule length_show_int)
  then have "bcc_procutils_each_module env (se_os env) (se_zip_entry env) pid bcc_syms_find_module ?st = Some (0, se_os env, ?st')"
    using walk perf assms(1,5)
    by (cases mp) (simp_all add: bcc_procutils_each_module_def snprintf_trunc_def)
  then show ?thesis
    using assms(6,9,10)
    by (simp add: bcc_resolve_global_addr_def so_calc_global_addr_def Module_contains_def so_calc_mod_offset_def)
qed

definition wit_lib_map :: proc_map where
  "wit_lib_map = \<lparr>pm_map = \<lparr>me_start_addr = 0x7000, me_end_addr = 0x8000, me_file_off = 0x400, me_dev_major = 8,
     me_dev_minor = 1, me_inode = 5\<rparr>, pm_perm = ''r-xp'', pm_pad = 3, pm_name = ''/lib/a.so''\<rparr>"

definition wit_lib_env :: sym_env where
  "wit_lib_env = wit_sym_env\<lparr>pe_fopen := (\<lambda>_. Some (concat (map map_line [wit_lib_map]))), se_stat := (\<lambda>_. Some (5, 8, 1))\<rparr>"

theorem resolve_global_addr_roundtrip_witness:
  "\<exists>g. bcc_resolve_global_addr wit_lib_env 9 ''/lib/a.so'' 0x1006 False = Some (Some g) \<and>
    (\<forall>m. md_type m = SO \<and> md_elf_so_addr m = 0x1000 \<and> md_elf_so_offset m = 0x400 \<and>
       find (\<lambda>r. rng_start r \<le> g \<and> g < rng_end r) (md_ranges m) =
         Some \<lparr>rng_start = 0x7000, rng_end = 0x8000, rng_file_offset = 0x400\<rparr> \<longrightarrow> Module_contains m g = Some 0x1006)"
proof -
  have c: "module_call wit_lib_env (se_os wit_lib_env) (se_zip_entry wit_lib_env) 9 wit_lib_map =
      (mod_of_map (pm_map wit_lib_map) ''/lib/a.so'', True)"
    by (simp add: module_call_def resolve_module_def wit_lib_map_def mod_of_map_def procfs_might_be_zip_path_def)
  have f: "filter module_mapping [wit_lib_map] = [wit_lib_map]"
    by (simp add: module_mapping_def wit_lib_map_def bcc_mapping_is_file_backed_def numeral_2_eq_2)
  show ?thesis
    using resolve_global_addr_roundtrip [where env = wit_lib_env and pid = 9 and ps = "[wit_lib_map]" and mp = None and
        module_s = "''/lib/a.so''" and ino = 5 and dev_major = 8 and dev_minor = 1 and
        md = "mod_of_map (pm_map wit_lib_map) ''/lib/a.so''" and en = True and
        elf_addr = "0x1000" and elf_offset = "0x400" and address = "0x1006"] c f
    by (simp add: wit_lib_env_def wit_sym_env_def bcc_perf_map_path_def)
      (simp add: wit_lib_map_def mod_of_map_def module_matches_def proc_map_ok_def PATH_MAX_def isspace_def memfd_safe_def)
qed

end
