(* ===== verification/Sym_Build.thy ===== *)
theory Sym_Build
  imports Sym_Props Sym_Modules
begin

text \<open>
  Symbols by build id, and the lookup of a symbol by name that attaching a probe starts with.
\<close>

section \<open>Build ids\<close>

lemma hex_char_inj:
  assumes "unat m < 16" "unat n < 16" "hex_char m = hex_char n"
  shows "m = n"
proof -
  have "distinct ''0123456789abcdef''" "length ''0123456789abcdef'' = 16"
    by simp_all
  then have "unat m = unat n"
    using assms nth_eq_iff_index_eq [of "''0123456789abcdef''" "unat m" "unat n"] by (simp only: hex_char_def)
  then show ?thesis
    by (simp add: word_unat_eq_iff)
qed

lemma nibbles_small: "unat (drop_bit 4 (c AND 0xf0) :: u8) < 16" "unat (c AND 0x0f :: u8) < 16"
proof -
  have "c AND 0x0f = take_bit 4 c"
    by (simp add: take_bit_eq_mask mask_eq_exp_minus_1)
  then show "unat (c AND 0x0f :: u8) < 16"
    using take_bit_nat_less_exp [of 4 "unat c"] by (simp add: unsigned_take_bit_eq)
  have "unat (drop_bit 4 x :: u8) < 16" for x :: u8
    using unsigned_less [of x, where 'a = nat] by (simp add: drop_bit_eq_div unat_div less_mult_imp_div_less)
  then show "unat (drop_bit 4 (c AND 0xf0) :: u8) < 16" .
qed

lemma nibbles_inj:
  assumes "drop_bit 4 (c AND 0xf0) = drop_bit 4 (d AND 0xf0 :: u8)" "c AND 0x0f = d AND (0x0f :: u8)"
  shows "c = d"
proof (rule bit_word_eqI)
  fix i
  assume i: "i < LENGTH(8)"
  show "bit c i = bit d i"
  proof (cases "i < 4")
    case True
    have "bit (c AND 0x0f) i = bit (d AND 0x0f) i"
      using assms(2) by simp
    moreover have "bit (0x0f :: u8) i"
      using True by (auto simp: numeral_eq_Suc less_Suc_eq)
    ultimately show ?thesis
      by (simp add: bit_and_iff)
  next
    case False
    have "bit (drop_bit 4 (c AND 0xf0)) (i - 4) = bit (drop_bit 4 (d AND 0xf0)) (i - 4)"
      using assms(1) by simp
    then have "bit (c AND 0xf0) i = bit (d AND 0xf0) i"
      using False unfolding bit_drop_bit_eq by (simp only: comp_def not_less le_add_diff_inverse)
    moreover have "i < 8"
      using i by simp
    then have "bit (0xf0 :: u8) i"
      using False by (auto simp: numeral_eq_Suc less_Suc_eq)
    ultimately show ?thesis
      by (simp add: bit_and_iff)
  qed
qed

lemma build_id_string_inj:
  assumes "length a = 20" "length b = 20" "build_id_string a = build_id_string b"
  shows "a = b"
proof -
  let ?h = "\<lambda>c. [hex_char (drop_bit 4 (c AND 0xf0)), hex_char (c AND 0x0f :: u8)]"
  have "concat (map ?h xs) = concat (map ?h ys) \<Longrightarrow> length xs = length ys \<Longrightarrow> xs = ys" for xs ys
  proof (induction xs arbitrary: ys)
    case (Cons x xs)
    then obtain y ys' where ys: "ys = y # ys'"
      by (cases ys) auto
    have "drop_bit 4 (x AND 0xf0) = drop_bit 4 (y AND 0xf0)" "x AND 0x0f = y AND 0x0f"
      using Cons.prems(1) nibbles_small by (auto simp: ys intro!: hex_char_inj)
    then have "x = y"
      by (rule nibbles_inj)
    then show ?case
      using Cons by (simp add: ys)
  qed simp
  from this [of a b] show ?thesis
    using assms by (simp add: build_id_string_def)
qed

section \<open>Resolving through a build id\<close>

lemma list_syms_all:
  assumes "\<And>n a l st. callback n a l st = (0, f n a l st)"
  shows "list_syms callback xs st = (False, fold (\<lambda>(n, a, l). f n a l) xs st)"
  by (induction xs arbitrary: st) (auto simp: assms)

lemma fold_BuildModule_add:
  "fold (\<lambda>(n, a, l). BuildModule_add_symbol n a l) xs m =
     m\<lparr>bm_syms := bm_syms m @ map (\<lambda>(n, a, l). \<lparr>bsy_name = n, bsy_start = a, bsy_size = l\<rparr>) xs\<rparr>"
  by (induction xs arbitrary: m) (auto simp: BuildModule_add_symbol_def)

lemma BuildModule_load:
  assumes "se_list_syms env path (default_symbol_option\<lparr>so_lazy_symbolize := False\<rparr>) = ([xs], False)"
  shows "BuildModule_load_sym_table srt env \<lparr>bm_module_name = path, bm_loaded = False, bm_syms = []\<rparr> =
    \<lparr>bm_module_name = path, bm_loaded = True,
     bm_syms = srt (map (\<lambda>(n, a, l). \<lparr>bsy_name = n, bsy_start = a, bsy_size = l\<rparr>) xs)\<rparr>"
proof -
  have "list_syms (\<lambda>n a l m. (0, BuildModule_add_symbol n a l m)) xs st = (False, fold (\<lambda>(n, a, l). BuildModule_add_symbol n a l) xs st)" for st
    by (rule list_syms_all) simp
  then show ?thesis
    using assms by (simp add: BuildModule_load_sym_table_def bcc_elf_foreach_sym_def foreach_sym_core_def fold_BuildModule_add Let_def)
qed

text \<open>
  (C23) A stack entry with a build id is resolved in the module that was added for that id, even if a
  module with another id was added after it: the result is the symbol with the greatest start that is
  not above the offset, with the distance from it, whatever order \<^verbatim>\<open>std::sort\<close> gives equal starts.
\<close>

theorem buildsymcache_resolves:
  assumes "std_sort bsy_start srt" "se_stat env path \<noteq> None" "se_stat env path2 \<noteq> None"
    and "length bid = 20" "length bid2 = 20" "bid \<noteq> bid2"
    and "se_buildid env path = Some (build_id_string bid)" "se_buildid env path2 = Some (build_id_string bid2)"
    and "se_list_syms env path (default_symbol_option\<lparr>so_lazy_symbolize := False\<rparr>) = ([xs], False)"
    and "(n0, a0, l0) \<in> set xs" "a0 \<le> off"
  shows "case bcc_buildsymcache_resolve srt env
        (snd (bcc_buildsymcache_add_module env (snd (bcc_buildsymcache_add_module env resolver path)) path2))
        \<lparr>sbi_status = 1, sbi_build_id = bid, sbi_offset = off\<rparr> s of
      (r, s', _) \<Rightarrow> r = 0 \<and> (\<exists>(n, a, l) \<in> set xs. a \<le> off \<and> (\<forall>(_, a', _) \<in> set xs. a' \<le> off \<longrightarrow> a' \<le> a) \<and>
        s' = \<lparr>bs_name = Some n, bs_demangle_name = Some n, bs_module = Some path, bs_offset = off - a\<rparr>)"
proof -
  let ?to = "\<lambda>(n, a, l). \<lparr>bsy_name = n, bsy_start = a, bsy_size = l\<rparr>"
  let ?fresh = "\<lparr>bm_module_name = path, bm_loaded = False, bm_syms = []\<rparr>"
  let ?m = "\<lparr>bm_module_name = path, bm_loaded = True, bm_syms = srt (map ?to xs)\<rparr>"
  let ?res = "snd (bcc_buildsymcache_add_module env (snd (bcc_buildsymcache_add_module env resolver path)) path2)"
  have ne: "build_id_string bid \<noteq> build_id_string bid2"
    using build_id_string_inj assms(4-6) by blast
  have look: "map_of ?res (build_id_string bid) = Some ?fresh"
  proof -
    have add: "snd (bcc_buildsymcache_add_module env b p) = AList.update i \<lparr>bm_module_name = p, bm_loaded = False, bm_syms = []\<rparr> b"
      if "se_stat env p \<noteq> None" "se_buildid env p = Some i" for b p i
      using that by (auto simp: bcc_buildsymcache_add_module_def BuildSyms_add_module_def)
    show ?thesis
      unfolding add [OF assms(2,7)] add [OF assms(3,8)] update_conv using ne by simp
  qed
  have sorted: "BuildModule_sorted ?m" and ms: "mset (bm_syms ?m) = mset (map ?to xs)"
    using assms(1) by (simp_all add: std_sort_def BuildModule_sorted_def)
  have set_eq: "set (bm_syms ?m) = ?to ` set xs"
    using mset_eq_setD [OF ms] by simp
  obtain it where it: "BuildModule_lookup ?m off = Some it"
    using bm.lookup_Some_iff_exists [OF sorted, of off] assms(10,11) unfolding set_eq by force
  obtain n a l where nal: "it = ?to (n, a, l)" "(n, a, l) \<in> set xs" and le: "a \<le> off"
    and mx: "\<forall>(_, a', _) \<in> set xs. a' \<le> off \<longrightarrow> a' \<le> a"
    using bm.lookup_greatest_image [OF sorted it set_eq] by (auto simp: case_prod_beta)
  have "bm_syms ?m \<noteq> []"
    using nal(2) set_eq by auto
  then have "bcc_buildsymcache_resolve srt env ?res \<lparr>sbi_status = 1, sbi_build_id = bid, sbi_offset = off\<rparr> s =
      (0, \<lparr>bs_name = Some n, bs_demangle_name = Some n, bs_module = Some path, bs_offset = off - a\<rparr>,
       AList.update (build_id_string bid) ?m ?res)"
    using look it nal(1) BuildModule_load [OF assms(9), of srt]
    by (simp add: bcc_buildsymcache_resolve_def BuildSyms_resolve_addr_def BuildModule_resolve_addr_def Let_def)
  then show ?thesis
    using nal(2) mx le by (simp only: prod.case) (intro conjI bexI [OF _ nal(2)], simp_all)
qed

definition wit_build_env :: sym_env where
  "wit_build_env = wit_sym_env\<lparr>se_stat := (\<lambda>_. Some (1, 8, 1)),
     se_buildid := (\<lambda>p. Some (build_id_string (if p = ''/lib/a.so'' then replicate 20 0xab else replicate 20 0x12)))\<rparr>"

theorem buildsymcache_resolves_witness:
  "case bcc_buildsymcache_resolve (sort_key bsy_start) wit_build_env
      (snd (bcc_buildsymcache_add_module wit_build_env (snd (bcc_buildsymcache_add_module wit_build_env [] ''/lib/a.so'')) ''/lib/b.so''))
      \<lparr>sbi_status = 1, sbi_build_id = replicate 20 0xab, sbi_offset = 0x12\<rparr> zero_symbol of
     (r, s', _) \<Rightarrow> r = 0 \<and> s' = \<lparr>bs_name = Some ''f'', bs_demangle_name = Some ''f'', bs_module = Some ''/lib/a.so'', bs_offset = 2\<rparr>"
  using buildsymcache_resolves [of "sort_key bsy_start" wit_build_env "''/lib/a.so''" "''/lib/b.so''" "replicate 20 0xab" "replicate 20 0x12"
      "[(''f'', 0x10, 4)]" "''f''" "0x10" 4 "0x12" "[]" zero_symbol]
  by (simp add: std_sort_def wit_build_env_def wit_sym_env_def case_prod_beta)

section \<open>The address of a symbol in its file\<close>

lemma find_loads_nonzero:
  "find_loads segs a \<noteq> 0 \<Longrightarrow> \<exists>(v, sz, fo) \<in> set segs. v \<le> a \<and> a < v + sz \<and> find_loads segs a = a - v + fo"
proof (induction segs)
  case (Cons seg segs)
  then show ?case
    by (cases seg) (auto simp: find_load_def split: if_splits)
qed simp

text \<open>The options of a lookup, and a symbol that is listed for a file with them.\<close>

definition lookup_option :: "bcc_symbol_option option \<Rightarrow> bcc_symbol_option" where
  "lookup_option opt =
     (case opt of
        None \<Rightarrow> \<lparr>so_use_debug_file = True, so_check_debug_file_crc = True, so_lazy_symbolize = True, so_use_symbol_type = 65535\<rparr>
      | Some opt \<Rightarrow> opt)"

definition symbol_at :: "('e) sym_env_scheme \<Rightarrow> string \<Rightarrow> bcc_symbol_option option \<Rightarrow> string option \<Rightarrow> u64 \<Rightarrow> bool" where
  "symbol_at env path opt name a \<longleftrightarrow>
     (\<exists>syms \<in> set (fst (se_list_syms env path (lookup_option opt\<lparr>so_lazy_symbolize := False\<rparr>))). \<exists>n sz. name = Some n \<and> (n, a, sz) \<in> set syms)"

lemma list_syms_find_sym:
  "snd (list_syms (find_sym name) syms off) = off \<or> (\<exists>n sz. name = Some n \<and> (n, snd (list_syms (find_sym name) syms off), sz) \<in> set syms)"
proof (induction syms)
  case (Cons x syms)
  then show ?case
    by (cases x) (auto simp: find_sym_def)
qed simp

lemma fold_find_sym:
  "snd (fold (\<lambda>syms (_, payload). list_syms (find_sym name) syms payload) ls (b, off)) = off \<or>
   (\<exists>syms \<in> set ls. \<exists>n sz. name = Some n \<and> (n, snd (fold (\<lambda>syms (_, payload). list_syms (find_sym name) syms payload) ls (b, off)), sz) \<in> set syms)"
proof (induction ls arbitrary: b off)
  case (Cons syms ls)
  obtain b' off' where l: "list_syms (find_sym name) syms off = (b', off')"
    by fastforce
  show ?case
    using Cons.IH [of b' off'] list_syms_find_sym [of name syms off] l by auto
qed simp

lemma foreach_find_sym:
  assumes "bcc_elf_foreach_sym env path (find_sym name) (lookup_option opt) 0 = (ret, opt', off)" "off \<noteq> 0"
  shows "symbol_at env path opt name off"
  using assms fold_find_sym [of name "fst (se_list_syms env path (lookup_option opt\<lparr>so_lazy_symbolize := False\<rparr>))" False 0]
  by (auto simp: bcc_elf_foreach_sym_def foreach_sym_core_def symbol_at_def Let_def case_prod_beta)

text \<open>
  (C24) Looking a symbol up by name either succeeds with a module and a non-zero offset: that of the address of a
  symbol that the module lists under the name, or of the address that was given.  For an executable or a shared object the
  address lies in one of its executable segments and the offset is where this segment has it in the file.  Or
  the lookup fails, and then no module is left for the caller to free.
\<close>

theorem resolve_symname_result:
  "case bcc_resolve_symname which_so env module_s symname addr pid opt s of (r, s', opt') \<Rightarrow>
     (r = 0 \<or> r = - 1) \<and>
     (r = - 1 \<longrightarrow> bs_module s' = None \<or> module_s = None \<and> s' = s) \<and>
     (r = 0 \<longrightarrow> bs_name s' = symname \<and> bs_offset s' \<noteq> 0 \<and> (\<exists>path a. bs_module s' = Some path \<and>
        (if symname \<noteq> None \<and> addr = 0 then symbol_at env path opt symname a else a = addr) \<and>
        (if pr_elf_type env path = 2 \<or> pr_elf_type env path = 3
         then \<exists>segs. se_load_sections env path = Some segs \<and>
                (\<exists>(v, sz, fo) \<in> set segs. v \<le> a \<and> a < v + sz \<and> bs_offset s' = a - v + fo)
         else bs_offset s' = a)))"
proof (cases module_s)
  case None
  then show ?thesis
    by (simp add: bcc_resolve_symname_def)
next
  case (Some md)
  show ?thesis
  proof (cases "if CHR ''/'' \<in> set md then Some md else which_so md pid")
    case None
    then show ?thesis
      by (simp add: bcc_resolve_symname_def Some zero_symbol_def)
  next
    case p: (Some p)
    define path where "path = (if pid \<noteq> 0 \<and> pid \<noteq> - 1 \<and> strstr p ''/proc'' \<noteq> Some 0
      then ''/proc/'' @ show_int pid @ ''/root'' @ p else p)"
    obtain ret opt1 off where off: "(if symname \<noteq> None \<and> addr = 0
        then bcc_elf_foreach_sym env path (find_sym symname) (lookup_option opt) addr else (0, lookup_option opt, addr)) = (ret, opt1, off)"
      by (rule prod_cases3)
    have "bcc_resolve_symname which_so env module_s symname addr pid opt s =
      (let s = \<lparr>bs_name = symname, bs_demangle_name = None, bs_module = Some path, bs_offset = off\<rparr>;
           o' = map_option (\<lambda>_. opt1) opt
       in if ret < 0 \<or> off = 0 then (- 1, s\<lparr>bs_module := None\<rparr>, o')
          else if pr_elf_type env path = 2 \<or> pr_elf_type env path = 3
          then (case se_load_sections env path of
                  None \<Rightarrow> (- 1, s\<lparr>bs_module := None\<rparr>, o')
                | Some segs \<Rightarrow> if find_loads segs off = 0 then (- 1, s\<lparr>bs_module := None\<rparr>, o')
                               else (0, s\<lparr>bs_offset := find_loads segs off\<rparr>, o'))
          else (0, s, o'))"
      unfolding bcc_resolve_symname_def Some option.case p path_def [symmetric] lookup_option_def [symmetric] Let_def off prod.case
      by (simp split: option.split)
    moreover have "if symname \<noteq> None \<and> addr = 0 then symbol_at env path opt symname off else off = addr" if "off \<noteq> 0"
      using off foreach_find_sym [of env path symname opt ret opt1 off] that by (auto split: if_splits)
    moreover have "\<exists>(v, sz, fo) \<in> set segs. v \<le> off \<and> off < v + sz \<and> find_loads segs off = off - v + fo"
      if "find_loads segs off \<noteq> 0" for segs
      using find_loads_nonzero [OF that] .
    ultimately show ?thesis
      by (auto simp: Let_def split: option.split if_split intro!: exI [of _ off])
  qed
qed

theorem resolve_symname_result_witness:
  "bcc_resolve_symname (\<lambda>_ _. None) wit_sym_env (Some ''/lib/a.so'') (Some ''f'') 0 0 None zero_symbol =
     (0, \<lparr>bs_name = Some ''f'', bs_demangle_name = None, bs_module = Some ''/lib/a.so'', bs_offset = 0x50\<rparr>, None) \<and>
   (\<exists>a segs. symbol_at wit_sym_env ''/lib/a.so'' None (Some ''f'') a \<and> se_load_sections wit_sym_env ''/lib/a.so'' = Some segs \<and>
      (\<exists>(v, sz, fo) \<in> set segs. v \<le> a \<and> a < v + sz \<and> 0x50 = a - v + fo))"
proof -
  have e: "bcc_resolve_symname (\<lambda>_ _. None) wit_sym_env (Some ''/lib/a.so'') (Some ''f'') 0 0 None zero_symbol =
     (0, \<lparr>bs_name = Some ''f'', bs_demangle_name = None, bs_module = Some ''/lib/a.so'', bs_offset = 0x50\<rparr>, None)"
    by (simp add: bcc_resolve_symname_def wit_sym_env_def bcc_elf_foreach_sym_def foreach_sym_core_def find_sym_def find_load_def)
  have "pr_elf_type wit_sym_env ''/lib/a.so'' = 3"
    by (simp add: wit_sym_env_def)
  then show ?thesis
    using resolve_symname_result [where which_so = "\<lambda>_ _. None" and env = wit_sym_env and module_s = "Some ''/lib/a.so''" and
        symname = "Some ''f''" and addr = 0 and pid = 0 and opt = None and s = zero_symbol]
    by (simp add: e)
qed

end
