(* ===== verification/Usdt_Args.thy ===== *)
theory Usdt_Args
  imports C_Lib
begin

text \<open>
  The arguments of USDT probes, src/cc/usdt/usdt_args.cc and the classes of src/cc/usdt.h: what a
  parsed argument is, the operations that the parsers share, and the hand-written parsers for aarch64,
  loongarch64 and x86-64.  The description is a C string, so reading beyond its terminating zero has no
  value (\<^const>\<open>None\<close>).  A parser that returns \<^verbatim>\<open>false\<close> leaves an argument that its caller drops, so only
  a parser that returns \<^verbatim>\<open>true\<close> yields one.
\<close>

section \<open>Arguments\<close>

record Argument =
  ar_arg_size :: "int option"
  ar_constant :: "int option"
  ar_deref_offset :: "int option"
  ar_deref_ident :: "string option"
  ar_base_register_name :: "string option"
  ar_index_register_name :: "string option"
  ar_scale :: "int option"

definition Argument_new :: Argument where
  "Argument_new = \<lparr>ar_arg_size = None, ar_constant = None, ar_deref_offset = None, ar_deref_ident = None,
     ar_base_register_name = None, ar_index_register_name = None, ar_scale = None\<rparr>"

definition arg_size :: "Argument \<Rightarrow> int" where
  "arg_size a = (case ar_arg_size a of None \<Rightarrow> 8 | Some s \<Rightarrow> s)"

definition ctype :: "Argument \<Rightarrow> string" where
  "ctype a = (let s = arg_size a * 8 in if s < 0 then ''int'' @ show_int (- s) @ ''_t'' else ''uint'' @ show_int s @ ''_t'')"

definition type_names :: "string list list" where
  "type_names = [[''int8_t'', ''int16_t'', ''int32_t'', ''int64_t''], [''uint8_t'', ''uint16_t'', ''uint32_t'', ''uint64_t'']]"

text \<open>\<^verbatim>\<open>(int) log2 (n)\<close>; the logarithm of zero cannot be converted.\<close>

fun ilog2 :: "nat \<Rightarrow> nat option" where
  "ilog2 n = (if n = 0 then None else if n = 1 then Some 0 else map_option Suc (ilog2 (n div 2)))"

declare ilog2.simps [simp del]

definition ctype_name :: "Argument \<Rightarrow> string option" where
  "ctype_name a = do {
     let s = arg_size a;
     r \<leftarrow> ilog2 (nat \<bar>s\<bar>);
     if r < 4 then Some (type_names ! (if s < 0 then 0 else 1) ! r) else None
   }"

section \<open>Numbers in base 0\<close>

definition isodigit :: "char \<Rightarrow> bool" where
  "isodigit c \<longleftrightarrow> 48 \<le> (of_char c :: nat) \<and> (of_char c :: nat) \<le> 55"

definition num_base :: "string \<Rightarrow> nat \<times> string" where
  "num_base t =
     (if (starts_with t ''0x'' \<or> starts_with t ''0X'') \<and> takeWhile isxdigit (drop 2 t) \<noteq> [] then (16, drop 2 t)
      else if starts_with t ''0'' then (8, t)
      else (10, t))"

definition base_digit :: "nat \<Rightarrow> char \<Rightarrow> bool" where
  "base_digit b c \<longleftrightarrow> (if b = 8 then isodigit c else is_digit_of b c)"

text \<open>The sign, the magnitude and the rest, or \<^const>\<open>None\<close> when there is no number and nothing is consumed.\<close>

definition scan_base0 :: "string \<Rightarrow> (bool \<times> nat \<times> string) option" where
  "scan_base0 s =
     (let (neg, t) = scan_sign (skip_ws s);
          (b, t) = num_base t;
          ds = takeWhile (base_digit b) t
      in if ds = [] then None else Some (neg, digits_val b ds, dropWhile (base_digit b) t))"

text \<open>\<^verbatim>\<open>strtol\<close> saturates, and the assignment to an \<^verbatim>\<open>int\<close> keeps the low 32 bits.\<close>

definition strtol_val :: "bool \<Rightarrow> nat \<Rightarrow> int" where
  "strtol_val neg n = (let v = (if neg then - int n else int n) in max (- (2 ^ 63)) (min (2 ^ 63 - 1) v))"

section \<open>What the parsers share\<close>

text \<open>
  \<^verbatim>\<open>cur_pos_\<close> only ever holds positions of the string, so it is a natural number; the messages that
  \<^verbatim>\<open>print_error\<close> writes are collected.
\<close>

record ArgumentParser =
  ap_arg :: string
  ap_cur_pos :: nat
  ap_stderr :: string

definition ArgumentParser_new :: "string \<Rightarrow> ArgumentParser" where
  "ArgumentParser_new arg = \<lparr>ap_arg = arg, ap_cur_pos = 0, ap_stderr = []\<rparr>"

definition char_at :: "string \<Rightarrow> nat \<Rightarrow> char option" where
  "char_at s i = (if i < length s then Some (s ! i) else if i = length s then Some (CHR 0x00) else None)"

function skip_while :: "(char \<Rightarrow> bool) \<Rightarrow> string \<Rightarrow> nat \<Rightarrow> nat option" where
  "skip_while P s pos =
     (case char_at s pos of
        None \<Rightarrow> None
      | Some c \<Rightarrow> if P c then skip_while P s (pos + 1) else Some pos)"
  by pat_completeness auto
termination
  by (relation "measure (\<lambda>(P, s, pos). Suc (length s) - pos)") (auto simp: char_at_def split: if_splits)

declare skip_while.simps [simp del]

definition print_error :: "nat \<Rightarrow> ArgumentParser \<Rightarrow> ArgumentParser" where
  "print_error pos p = p\<lparr>ap_stderr := ap_stderr p @ ''Parse error:'' @ [CHR 0x0A] @ ''    '' @ ap_arg p @ [CHR 0x0A] @
     replicate (pos + 4) (CHR ''-'') @ ''^'' @ [CHR 0x0A]\<rparr>"

definition skip_whitespace_from :: "nat \<Rightarrow> ArgumentParser \<Rightarrow> ArgumentParser option" where
  "skip_whitespace_from pos p = map_option (\<lambda>pos. p\<lparr>ap_cur_pos := pos\<rparr>) (skip_while isspace (ap_arg p) pos)"

definition skip_until_whitespace_from :: "nat \<Rightarrow> ArgumentParser \<Rightarrow> ArgumentParser option" where
  "skip_until_whitespace_from pos p =
     map_option (\<lambda>pos. p\<lparr>ap_cur_pos := pos\<rparr>) (skip_while (\<lambda>c. c \<noteq> CHR 0x00 \<and> \<not> isspace c) (ap_arg p) pos)"

text \<open>The position after the number, and the value that is assigned, if any.\<close>

definition parse_number_at :: "(bool \<Rightarrow> nat \<Rightarrow> int) \<Rightarrow> string \<Rightarrow> nat \<Rightarrow> int option \<Rightarrow> (nat \<times> int option) option" where
  "parse_number_at conv s pos result =
     (if pos > length s then None
      else Some (case scan_base0 (drop pos s) of
                   None \<Rightarrow> (pos, result)
                 | Some (neg, n, rest) \<Rightarrow> (length s - length rest, Some (conv neg n))))"

definition parse_number :: "string \<Rightarrow> nat \<Rightarrow> int option \<Rightarrow> (nat \<times> int option) option" where
  "parse_number = parse_number_at (\<lambda>neg n. to_int32 (strtol_val neg n))"

definition parse_number_ll :: "string \<Rightarrow> nat \<Rightarrow> int option \<Rightarrow> (nat \<times> int option) option" where
  "parse_number_ll = parse_number_at (\<lambda>neg n. sint (strtoul_val neg n))"

type_synonym 'a parsed = "('a option \<times> ArgumentParser) option"

definition error_return :: "nat \<Rightarrow> nat \<Rightarrow> ArgumentParser \<Rightarrow> 'a parsed" where
  "error_return error_start skip_start p = do {
     let p = print_error error_start p;
     c \<leftarrow> char_at (ap_arg p) skip_start;
     p \<leftarrow> skip_until_whitespace_from (if isspace c then skip_start + 1 else skip_start) p;
     Some (None, p)
   }"

definition parser_done :: "ArgumentParser \<Rightarrow> bool" where
  "parser_done p \<longleftrightarrow> char_at (ap_arg p) (ap_cur_pos p) = Some (CHR 0x00)"

section \<open>aarch64 and loongarch64\<close>

definition parse_size :: "nat \<Rightarrow> ArgumentParser \<Rightarrow> (nat \<times> int) parsed" where
  "parse_size pos p = do {
     (new_pos, arg_size) \<leftarrow> parse_number (ap_arg p) pos None;
     if new_pos = pos then error_return pos pos p
     else do {
       size \<leftarrow> arg_size;
       if \<bar>size\<bar> \<noteq> 1 \<and> \<bar>size\<bar> \<noteq> 2 \<and> \<bar>size\<bar> \<noteq> 4 \<and> \<bar>size\<bar> \<noteq> 8 then error_return pos pos p
       else Some (Some (new_pos, size), p)
     }
   }"

definition reg_number :: "nat \<Rightarrow> int \<Rightarrow> ArgumentParser \<Rightarrow> (nat \<times> string) parsed" where
  "reg_number pos sp p = do {
     (new_pos, reg_num) \<leftarrow> parse_number (ap_arg p) pos None;
     if new_pos = pos then error_return pos pos p
     else do {
       n \<leftarrow> reg_num;
       if n < 0 \<or> n > 31 then error_return pos pos p
       else Some (Some (new_pos, if n = sp then ''sp'' else ''regs['' @ show_int n @ '']''), p)
     }
   }"

definition aarch64_parse_register :: "nat \<Rightarrow> ArgumentParser \<Rightarrow> (nat \<times> string) parsed" where
  "aarch64_parse_register pos p = do {
     c \<leftarrow> char_at (ap_arg p) pos;
     if c = CHR ''x'' then reg_number (pos + 1) 31 p
     else if c = CHR ''s'' then do {
       d \<leftarrow> char_at (ap_arg p) (pos + 1);
       if d = CHR ''p'' then Some (Some (pos + 2, ''sp''), p) else error_return pos pos p
     }
     else error_return pos pos p
   }"

definition loongarch64_parse_register :: "nat \<Rightarrow> ArgumentParser \<Rightarrow> (nat \<times> string) parsed" where
  "loongarch64_parse_register pos p = do {
     c \<leftarrow> char_at (ap_arg p) pos;
     d \<leftarrow> (if c = CHR ''$'' \<or> c = CHR ''s'' then char_at (ap_arg p) (pos + 1) else Some (CHR 0x00));
     if c = CHR ''$'' \<and> d = CHR ''r'' then reg_number (pos + 2) 3 p
     else if c = CHR ''s'' \<and> d = CHR ''p'' then Some (Some (pos + 2, ''sp''), p)
     else error_return pos pos p
   }"

text \<open>
  The operand between brackets; \<open>zero\<close> says that an operand without an offset has the offset 0, as it
  has in the parser for aarch64 but not in the one for loongarch64.
\<close>

definition mem_offset ::
  "(nat \<Rightarrow> ArgumentParser \<Rightarrow> (nat \<times> string) parsed) \<Rightarrow> nat \<Rightarrow> ArgumentParser \<Rightarrow> Argument \<Rightarrow> (nat \<times> Argument) parsed" where
  "mem_offset parse_register pos p dest = do {
     (new_pos, off) \<leftarrow> parse_number (ap_arg p) pos (ar_deref_offset dest);
     if new_pos \<noteq> pos then Some (Some (new_pos, dest\<lparr>ar_deref_offset := off\<rparr>), p)
     else do {
       p \<leftarrow> skip_whitespace_from pos p;
       let pos = ap_cur_pos p;
       (r, p) \<leftarrow> parse_register pos p;
       case r of
         None \<Rightarrow> error_return pos pos p
       | Some (new_pos, index_reg_name) \<Rightarrow>
           Some (Some (new_pos, dest\<lparr>ar_index_register_name := Some index_reg_name, ar_scale := Some 1,
                                     ar_deref_offset := Some 0\<rparr>), p)
     }
   }"

definition parse_mem ::
  "bool \<Rightarrow> (nat \<Rightarrow> ArgumentParser \<Rightarrow> (nat \<times> string) parsed) \<Rightarrow> nat \<Rightarrow> ArgumentParser \<Rightarrow> Argument \<Rightarrow> (nat \<times> Argument) parsed" where
  "parse_mem zero parse_register pos p dest = do {
     (r, p) \<leftarrow> parse_register pos p;
     case r of
       None \<Rightarrow> Some (None, p)
     | Some (new_pos, base_reg_name) \<Rightarrow> do {
         let dest = dest\<lparr>ar_base_register_name := Some base_reg_name\<rparr>;
         c \<leftarrow> char_at (ap_arg p) new_pos;
         (r, p) \<leftarrow> (if c = CHR '','' then mem_offset parse_register (new_pos + 1) p dest
                    else if zero \<and> c = CHR '']'' then Some (Some (new_pos, dest\<lparr>ar_deref_offset := Some 0\<rparr>), p)
                    else Some (Some (new_pos, dest), p));
         case r of
           None \<Rightarrow> Some (None, p)
         | Some (new_pos, dest) \<Rightarrow> do {
             c \<leftarrow> char_at (ap_arg p) new_pos;
             if c \<noteq> CHR '']'' then error_return new_pos new_pos p
             else Some (Some (new_pos + 1, dest), p)
           }
       }
   }"

text \<open>The operand after the \<^verbatim>\<open>@\<close>; \<open>reg\<close> is the character besides \<^verbatim>\<open>s\<close> with which a register begins.\<close>

definition parse_operand ::
  "char \<Rightarrow> bool \<Rightarrow> (nat \<Rightarrow> ArgumentParser \<Rightarrow> (nat \<times> string) parsed) \<Rightarrow> nat \<Rightarrow> ArgumentParser \<Rightarrow> Argument \<Rightarrow>
   (nat \<times> Argument) parsed" where
  "parse_operand reg zero parse_register cur_pos p dest = do {
     c \<leftarrow> char_at (ap_arg p) cur_pos;
     if c = reg \<or> c = CHR ''s'' then do {
       (r, p) \<leftarrow> parse_register cur_pos p;
       Some (map_option (\<lambda>(new_pos, reg_name). (new_pos, dest\<lparr>ar_base_register_name := Some reg_name\<rparr>)) r, p)
     }
     else if c = CHR ''['' then parse_mem zero parse_register (cur_pos + 1) p dest
     else do {
       (new_pos, val) \<leftarrow> parse_number_ll (ap_arg p) cur_pos None;
       if cur_pos = new_pos then error_return cur_pos cur_pos p
       else Some (Some (new_pos, dest\<lparr>ar_constant := val\<rparr>), p)
     }
   }"

definition parse_sized ::
  "char \<Rightarrow> bool \<Rightarrow> (nat \<Rightarrow> ArgumentParser \<Rightarrow> (nat \<times> string) parsed) \<Rightarrow> ArgumentParser \<Rightarrow> Argument \<Rightarrow> Argument parsed" where
  "parse_sized reg zero parse_register p dest =
     (if parser_done p then Some (None, p)
      else do {
        (r, p) \<leftarrow> parse_size (ap_cur_pos p) p;
        case r of
          None \<Rightarrow> Some (None, p)
        | Some (new_pos, sz) \<Rightarrow> do {
            let dest = dest\<lparr>ar_arg_size := Some sz\<rparr>;
            c \<leftarrow> char_at (ap_arg p) new_pos;
            if c \<noteq> CHR ''@'' then error_return new_pos new_pos p
            else do {
              (r, p) \<leftarrow> parse_operand reg zero parse_register (new_pos + 1) p dest;
              case r of
                None \<Rightarrow> Some (None, p)
              | Some (new_pos, dest) \<Rightarrow> do {
                  p \<leftarrow> skip_whitespace_from new_pos p;
                  Some (Some dest, p)
                }
            }
          }
      })"

definition aarch64_parse :: "ArgumentParser \<Rightarrow> Argument \<Rightarrow> Argument parsed" where
  "aarch64_parse = parse_sized (CHR ''x'') True aarch64_parse_register"

definition loongarch64_parse :: "ArgumentParser \<Rightarrow> Argument \<Rightarrow> Argument parsed" where
  "loongarch64_parse = parse_sized (CHR ''$'') False loongarch64_parse_register"

section \<open>x86-64\<close>

datatype Register =
    X64_REG_A | X64_REG_B | X64_REG_C | X64_REG_D | X64_REG_SI | X64_REG_DI
  | X64_REG_BP | X64_REG_SP | X64_REG_8 | X64_REG_9 | X64_REG_10 | X64_REG_11
  | X64_REG_12 | X64_REG_13 | X64_REG_14 | X64_REG_15 | X64_REG_RIP | X64_REG_XMM0
  | X64_REG_XMM1 | X64_REG_XMM2 | X64_REG_XMM3 | X64_REG_XMM4 | X64_REG_XMM5 | X64_REG_XMM6
  | X64_REG_XMM7 | X64_REG_XMM8 | X64_REG_XMM9 | X64_REG_XMM10 | X64_REG_XMM11 | X64_REG_XMM12
  | X64_REG_XMM13 | X64_REG_XMM14 | X64_REG_XMM15

definition registers :: "(string \<times> Register \<times> int) list" where
  "registers =
    [(''rax'', X64_REG_A, 8), (''eax'', X64_REG_A, 4), (''ax'', X64_REG_A, 2), (''al'', X64_REG_A, 1),
     (''rbx'', X64_REG_B, 8), (''ebx'', X64_REG_B, 4), (''bx'', X64_REG_B, 2), (''bl'', X64_REG_B, 1),
     (''rcx'', X64_REG_C, 8), (''ecx'', X64_REG_C, 4), (''cx'', X64_REG_C, 2), (''cl'', X64_REG_C, 1),
     (''rdx'', X64_REG_D, 8), (''edx'', X64_REG_D, 4), (''dx'', X64_REG_D, 2), (''dl'', X64_REG_D, 1),
     (''rsi'', X64_REG_SI, 8), (''esi'', X64_REG_SI, 4), (''si'', X64_REG_SI, 2), (''sil'', X64_REG_SI, 1),
     (''rdi'', X64_REG_DI, 8), (''edi'', X64_REG_DI, 4), (''di'', X64_REG_DI, 2), (''dil'', X64_REG_DI, 1),
     (''rbp'', X64_REG_BP, 8), (''ebp'', X64_REG_BP, 4), (''bp'', X64_REG_BP, 2), (''bpl'', X64_REG_BP, 1),
     (''rsp'', X64_REG_SP, 8), (''esp'', X64_REG_SP, 4), (''sp'', X64_REG_SP, 2), (''spl'', X64_REG_SP, 1),
     (''r8'', X64_REG_8, 8), (''r8d'', X64_REG_8, 4), (''r8w'', X64_REG_8, 2), (''r8b'', X64_REG_8, 1),
     (''r9'', X64_REG_9, 8), (''r9d'', X64_REG_9, 4), (''r9w'', X64_REG_9, 2), (''r9b'', X64_REG_9, 1),
     (''r10'', X64_REG_10, 8), (''r10d'', X64_REG_10, 4), (''r10w'', X64_REG_10, 2), (''r10b'', X64_REG_10, 1),
     (''r11'', X64_REG_11, 8), (''r11d'', X64_REG_11, 4), (''r11w'', X64_REG_11, 2), (''r11b'', X64_REG_11, 1),
     (''r12'', X64_REG_12, 8), (''r12d'', X64_REG_12, 4), (''r12w'', X64_REG_12, 2), (''r12b'', X64_REG_12, 1),
     (''r13'', X64_REG_13, 8), (''r13d'', X64_REG_13, 4), (''r13w'', X64_REG_13, 2), (''r13b'', X64_REG_13, 1),
     (''r14'', X64_REG_14, 8), (''r14d'', X64_REG_14, 4), (''r14w'', X64_REG_14, 2), (''r14b'', X64_REG_14, 1),
     (''r15'', X64_REG_15, 8), (''r15d'', X64_REG_15, 4), (''r15w'', X64_REG_15, 2), (''r15b'', X64_REG_15, 1),
     (''rip'', X64_REG_RIP, 8), (''xmm0'', X64_REG_XMM0, 16), (''xmm1'', X64_REG_XMM1, 16), (''xmm2'', X64_REG_XMM2, 16),
     (''xmm3'', X64_REG_XMM3, 16), (''xmm4'', X64_REG_XMM4, 16), (''xmm5'', X64_REG_XMM5, 16), (''xmm6'', X64_REG_XMM6, 16),
     (''xmm7'', X64_REG_XMM7, 16), (''xmm8'', X64_REG_XMM8, 16), (''xmm9'', X64_REG_XMM9, 16), (''xmm10'', X64_REG_XMM10, 16),
     (''xmm11'', X64_REG_XMM11, 16), (''xmm12'', X64_REG_XMM12, 16), (''xmm13'', X64_REG_XMM13, 16), (''xmm14'', X64_REG_XMM14, 16),
     (''xmm15'', X64_REG_XMM15, 16)]"

fun reg_to_name :: "Register \<Rightarrow> string" where
  "reg_to_name X64_REG_A = ''ax''"
| "reg_to_name X64_REG_B = ''bx''"
| "reg_to_name X64_REG_C = ''cx''"
| "reg_to_name X64_REG_D = ''dx''"
| "reg_to_name X64_REG_SI = ''si''"
| "reg_to_name X64_REG_DI = ''di''"
| "reg_to_name X64_REG_BP = ''bp''"
| "reg_to_name X64_REG_SP = ''sp''"
| "reg_to_name X64_REG_8 = ''r8''"
| "reg_to_name X64_REG_9 = ''r9''"
| "reg_to_name X64_REG_10 = ''r10''"
| "reg_to_name X64_REG_11 = ''r11''"
| "reg_to_name X64_REG_12 = ''r12''"
| "reg_to_name X64_REG_13 = ''r13''"
| "reg_to_name X64_REG_14 = ''r14''"
| "reg_to_name X64_REG_15 = ''r15''"
| "reg_to_name X64_REG_RIP = ''ip''"
| "reg_to_name X64_REG_XMM0 = ''xmm0''"
| "reg_to_name X64_REG_XMM1 = ''xmm1''"
| "reg_to_name X64_REG_XMM2 = ''xmm2''"
| "reg_to_name X64_REG_XMM3 = ''xmm3''"
| "reg_to_name X64_REG_XMM4 = ''xmm4''"
| "reg_to_name X64_REG_XMM5 = ''xmm5''"
| "reg_to_name X64_REG_XMM6 = ''xmm6''"
| "reg_to_name X64_REG_XMM7 = ''xmm7''"
| "reg_to_name X64_REG_XMM8 = ''xmm8''"
| "reg_to_name X64_REG_XMM9 = ''xmm9''"
| "reg_to_name X64_REG_XMM10 = ''xmm10''"
| "reg_to_name X64_REG_XMM11 = ''xmm11''"
| "reg_to_name X64_REG_XMM12 = ''xmm12''"
| "reg_to_name X64_REG_XMM13 = ''xmm13''"
| "reg_to_name X64_REG_XMM14 = ''xmm14''"
| "reg_to_name X64_REG_XMM15 = ''xmm15''"

definition normalize_register :: "string \<Rightarrow> (string \<times> int) option" where
  "normalize_register reg = map_option (\<lambda>(r, sz). (reg_to_name r, sz)) (map_of registers reg)"

definition isalpha :: "char \<Rightarrow> bool" where
  "isalpha c \<longleftrightarrow> (97 \<le> (of_char c :: nat) \<and> (of_char c :: nat) \<le> 122) \<or> (65 \<le> (of_char c :: nat) \<and> (of_char c :: nat) \<le> 90)"

definition isalnum :: "char \<Rightarrow> bool" where
  "isalnum c \<longleftrightarrow> isalpha c \<or> isdigit c"

definition parse_identifier :: "string \<Rightarrow> nat \<Rightarrow> string option \<Rightarrow> (nat \<times> string option) option" where
  "parse_identifier s pos result = do {
     c \<leftarrow> char_at s pos;
     if isalpha c \<or> c = CHR ''_'' then do {
       stop \<leftarrow> skip_while (\<lambda>c. isalnum c \<or> c = CHR ''_'') s (pos + 1);
       Some (stop, Some (substr pos stop s))
     }
     else Some (pos, result)
   }"

text \<open>
  From here on a position is a signed number and an error is a negative one: the position where it
  was found, negated, so an error at position 0 is not seen as one.
\<close>

definition x64_parse_register :: "string \<Rightarrow> nat \<Rightarrow> (int \<times> (string \<times> int) option) option" where
  "x64_parse_register s pos = do {
     let start = pos + 1;
     c \<leftarrow> char_at s pos;
     if c \<noteq> CHR ''%'' then Some (- int start, None)
     else do {
       pos \<leftarrow> skip_while isalnum s start;
       case normalize_register (substr start pos s) of
         None \<Rightarrow> Some (- int start, None)
       | Some r \<Rightarrow> Some (int pos, Some r)
     }
   }"

definition parse_base_register :: "string \<Rightarrow> nat \<Rightarrow> Argument \<Rightarrow> (int \<times> Argument) option" where
  "parse_base_register s pos dest = do {
     (res, r) \<leftarrow> x64_parse_register s pos;
     Some (res, case r of
                  None \<Rightarrow> dest
                | Some (name, sz) \<Rightarrow>
                    (let dest = dest\<lparr>ar_base_register_name := Some name\<rparr>
                     in if ar_arg_size dest = None then dest\<lparr>ar_arg_size := Some sz\<rparr> else dest))
   }"

definition parse_index_register :: "string \<Rightarrow> nat \<Rightarrow> Argument \<Rightarrow> (int \<times> Argument) option" where
  "parse_index_register s pos dest = do {
     (res, r) \<leftarrow> x64_parse_register s pos;
     Some (res, case r of None \<Rightarrow> dest | Some (name, sz) \<Rightarrow> dest\<lparr>ar_index_register_name := Some name\<rparr>)
   }"

definition parse_scale :: "string \<Rightarrow> nat \<Rightarrow> Argument \<Rightarrow> (nat \<times> Argument) option" where
  "parse_scale s pos dest = do {
     (pos, sc) \<leftarrow> parse_number s pos (ar_scale dest);
     Some (pos, dest\<lparr>ar_scale := sc\<rparr>)
   }"

text \<open>
  The displacement before the parenthesis, with the symbol; the flag is the early return for a \<^verbatim>\<open>+\<close>
  that no symbol follows.
\<close>

definition parse_disp :: "string \<Rightarrow> nat \<Rightarrow> Argument \<Rightarrow> (bool \<times> nat \<times> Argument) option" where
  "parse_disp s pos dest = do {
     c \<leftarrow> char_at s pos;
     if isdigit c \<or> c = CHR ''-'' then do {
       (pos, off) \<leftarrow> parse_number s pos (ar_deref_offset dest);
       let dest = dest\<lparr>ar_deref_offset := off\<rparr>;
       c \<leftarrow> char_at s pos;
       if c = CHR ''+'' then do {
         (pos, ident) \<leftarrow> parse_identifier s (pos + 1) (ar_deref_ident dest);
         Some (ident = None, pos, dest\<lparr>ar_deref_ident := ident\<rparr>)
       }
       else Some (False, pos, dest)
     }
     else do {
       (pos, ident) \<leftarrow> parse_identifier s pos (ar_deref_ident dest);
       let dest = dest\<lparr>ar_deref_offset := Some 0, ar_deref_ident := ident\<rparr>;
       c \<leftarrow> char_at s pos;
       if c = CHR ''+'' \<or> c = CHR ''-'' then do {
         (pos, off) \<leftarrow> parse_number s pos (ar_deref_offset dest);
         Some (False, pos, dest\<lparr>ar_deref_offset := off\<rparr>)
       }
       else Some (False, pos, dest)
     }
   }"

definition parse_close :: "string \<Rightarrow> nat \<Rightarrow> Argument \<Rightarrow> (int \<times> Argument) option" where
  "parse_close s pos dest = do {
     c \<leftarrow> char_at s pos;
     Some (if c = CHR '')'' then int pos + 1 else - int pos, dest)
   }"

definition parse_index :: "string \<Rightarrow> nat \<Rightarrow> Argument \<Rightarrow> (int \<times> Argument) option" where
  "parse_index s pos dest = do {
     c \<leftarrow> char_at s pos;
     if c = CHR '','' then do {
       (res, dest) \<leftarrow> parse_index_register s (pos + 1) dest;
       if res < 0 then Some (res, dest)
       else do {
         c \<leftarrow> char_at s (nat res);
         if c = CHR '','' then do {
           (pos, dest) \<leftarrow> parse_scale s (nat res + 1) dest;
           parse_close s pos dest
         }
         else parse_close s (nat res) dest
       }
     }
     else parse_close s pos dest
   }"

definition parse_expr :: "string \<Rightarrow> nat \<Rightarrow> Argument \<Rightarrow> (int \<times> Argument) option" where
  "parse_expr s pos dest = do {
     c \<leftarrow> char_at s pos;
     if c = CHR ''$'' then do {
       (pos, k) \<leftarrow> parse_number_ll s (pos + 1) (ar_constant dest);
       Some (int pos, dest\<lparr>ar_constant := k\<rparr>)
     }
     else if c = CHR ''%'' then parse_base_register s pos dest
     else do {
       (failed, pos, dest) \<leftarrow> parse_disp s pos dest;
       if failed then Some (- int pos, dest)
       else do {
         c \<leftarrow> char_at s pos;
         if c \<noteq> CHR ''('' then Some (- int pos, dest)
         else do {
           (res, dest) \<leftarrow> parse_base_register s (pos + 1) dest;
           if res < 0 then Some (res, dest) else parse_index s (nat res) dest
         }
       }
     }
   }"

definition parse_1 :: "string \<Rightarrow> nat \<Rightarrow> Argument \<Rightarrow> (int \<times> Argument) option" where
  "parse_1 s pos dest = do {
     c \<leftarrow> char_at s pos;
     if isdigit c \<or> c = CHR ''-'' then do {
       (m, asize) \<leftarrow> parse_number s pos None;
       c \<leftarrow> char_at s m;
       if c = CHR ''@'' \<and> asize \<noteq> None then parse_expr s (m + 1) (dest\<lparr>ar_arg_size := asize\<rparr>)
       else parse_expr s pos dest
     }
     else parse_expr s pos dest
   }"

definition x64_parse :: "ArgumentParser \<Rightarrow> Argument \<Rightarrow> Argument parsed" where
  "x64_parse p dest =
     (if parser_done p then Some (None, p)
      else do {
        (res, dest) \<leftarrow> parse_1 (ap_arg p) (ap_cur_pos p) dest;
        if res < 0 then error_return (nat (- res)) (nat (- res) + 1) p
        else do {
          c \<leftarrow> char_at (ap_arg p) (nat res);
          if \<not> isspace c \<and> c \<noteq> CHR 0x00 then error_return (nat res) (nat res) p
          else do {
            p \<leftarrow> skip_whitespace_from (nat res) p;
            Some (Some dest, p)
          }
        }
      })"

end
