(* ===== verification/Usdt_Regex.thy ===== *)
theory Usdt_Regex
  imports Usdt_Args
begin

text \<open>
  The parsers of USDT arguments for powerpc64, s390x and riscv64, src/cc/usdt/usdt_args.cc, which are
  written with \<^verbatim>\<open>std::regex\<close>.  The expressions are anchored at the start, so a search is a match of a
  prefix; the matcher lists the matches in the order in which backtracking tries them, and the first one
  counts.  \<^const>\<open>None\<close> is an exception of \<^verbatim>\<open>std::stoi\<close> or \<^verbatim>\<open>std::stoull\<close>, which nothing catches.
\<close>

section \<open>Regular expressions\<close>

datatype regex =
    RCls "char \<Rightarrow> bool"
  | RPlus "char \<Rightarrow> bool"
  | RSeq regex regex
  | RAlt regex regex
  | ROpt regex
  | RGroup nat regex
  | REnd

definition RChr :: "char \<Rightarrow> regex" where
  "RChr c = RCls (\<lambda>x. x = c)"

fun RStr :: "string \<Rightarrow> regex" where
  "RStr [] = ROpt (RCls (\<lambda>_. False))"
| "RStr [c] = RChr c"
| "RStr (c # cs) = RSeq (RChr c) (RStr cs)"

fun RSeqs :: "regex list \<Rightarrow> regex" where
  "RSeqs [] = ROpt (RCls (\<lambda>_. False))"
| "RSeqs [r] = r"
| "RSeqs (r # rs) = RSeq r (RSeqs rs)"

fun RAlts :: "regex list \<Rightarrow> regex" where
  "RAlts [] = RCls (\<lambda>_. False)"
| "RAlts [r] = r"
| "RAlts (r # rs) = RAlt r (RAlts rs)"

definition in_class :: "char \<Rightarrow> char \<Rightarrow> char \<Rightarrow> bool" where
  "in_class lo hi c \<longleftrightarrow> (of_char lo :: nat) \<le> of_char c \<and> (of_char c :: nat) \<le> of_char hi"

text \<open>The rest of the input and the groups, for every way to match a prefix.\<close>

fun rmatch :: "regex \<Rightarrow> string \<Rightarrow> (string \<times> (nat \<times> string) list) list" where
  "rmatch (RCls P) s = (case s of [] \<Rightarrow> [] | c # t \<Rightarrow> if P c then [(t, [])] else [])"
| "rmatch (RPlus P) s = map (\<lambda>k. (drop k s, [])) (rev [1..<Suc (length (takeWhile P s))])"
| "rmatch (RSeq a b) s =
     concat (map (\<lambda>(t, cs). map (\<lambda>(u, ds). (u, cs @ ds)) (rmatch b t)) (rmatch a s))"
| "rmatch (RAlt a b) s = rmatch a s @ rmatch b s"
| "rmatch (ROpt a) s = rmatch a s @ [(s, [])]"
| "rmatch (RGroup i a) s = map (\<lambda>(t, cs). (t, (i, take (length s - length t) s) # cs)) (rmatch a s)"
| "rmatch REnd s = (if s = [] then [(s, [])] else [])"

text \<open>\<^verbatim>\<open>std::regex_search\<close>: the length of the match and the groups.\<close>

definition regex_search :: "regex \<Rightarrow> string \<Rightarrow> (nat \<times> (nat \<times> string) list) option" where
  "regex_search r s = (case rmatch r s of [] \<Rightarrow> None | (t, cs) # _ \<Rightarrow> Some (length s - length t, cs))"

definition match_str :: "(nat \<times> string) list \<Rightarrow> nat \<Rightarrow> string" where
  "match_str cs i = (case map_of cs i of None \<Rightarrow> [] | Some w \<Rightarrow> w)"

section \<open>What the parsers share\<close>

definition re_int :: "nat \<Rightarrow> regex" where
  "re_int i = RGroup i (RSeq (ROpt (RChr (CHR ''-''))) (RPlus isdigit))"

text \<open>\<^verbatim>\<open>( +|$)\<close>; the group is not used.\<close>

definition re_end :: regex where
  "re_end = RAlt (RPlus (\<lambda>c. c = CHR '' '')) REnd"

text \<open>\<^verbatim>\<open>^(\-?[1248])\@\<close>.\<close>

definition re_size :: regex where
  "re_size = RSeq (RGroup 1 (RSeq (ROpt (RChr (CHR ''-''))) (RCls (\<lambda>c. c \<in> set ''1248'')))) (RChr (CHR ''@''))"

definition not_matched :: "ArgumentParser \<Rightarrow> Argument parsed" where
  "not_matched p = do {
     let p = print_error (ap_cur_pos p) p;
     p \<leftarrow> skip_until_whitespace_from (ap_cur_pos p) p;
     p \<leftarrow> skip_whitespace_from (ap_cur_pos p) p;
     Some (None, p)
   }"

text \<open>
  The body of the three parsers: the size, then the first operand expression that matches, whose effect on
  the argument comes with it.
\<close>

type_synonym operand = "regex \<times> ((nat \<times> string) list \<Rightarrow> Argument \<Rightarrow> Argument option)"

fun match_operand :: "operand list \<Rightarrow> string \<Rightarrow> Argument \<Rightarrow> (nat \<times> Argument) option option" where
  "match_operand [] s dest = Some None"
| "match_operand ((r, f) # ops) s dest =
     (case regex_search r s of
        Some (n, cs) \<Rightarrow> map_option (\<lambda>dest. Some (n, dest)) (f cs dest)
      | None \<Rightarrow> match_operand ops s dest)"

definition parse_regex :: "regex \<Rightarrow> operand list \<Rightarrow> ArgumentParser \<Rightarrow> Argument \<Rightarrow> Argument parsed" where
  "parse_regex re_n ops p dest =
     (if parser_done p then Some (None, p)
      else
        (case regex_search re_n (drop (ap_cur_pos p) (ap_arg p)) of
           None \<Rightarrow> not_matched p
         | Some (n, cs) \<Rightarrow> do {
             sz \<leftarrow> stoi (match_str cs 1);
             let dest = dest\<lparr>ar_arg_size := Some sz\<rparr>;
             let p = p\<lparr>ap_cur_pos := ap_cur_pos p + n\<rparr>;
             m \<leftarrow> match_operand ops (drop (ap_cur_pos p) (ap_arg p)) dest;
             case m of
               None \<Rightarrow> not_matched p
             | Some (n, dest) \<Rightarrow> do {
                 p \<leftarrow> skip_whitespace_from (ap_cur_pos p + n) p;
                 Some (Some dest, p)
               }
           }))"

definition set_constant :: "(nat \<times> string) list \<Rightarrow> Argument \<Rightarrow> Argument option" where
  "set_constant cs dest = map_option (\<lambda>v. dest\<lparr>ar_constant := Some (sint v)\<rparr>) (stoull (match_str cs 1))"

section \<open>powerpc64\<close>

text \<open>\<^verbatim>\<open>(?:%r)?([1-2]?[0-9]|3[0-1])\<close>.\<close>

definition re_gpr :: "nat \<Rightarrow> regex" where
  "re_gpr i = RSeq (ROpt (RStr ''%r''))
     (RGroup i (RAlt (RSeq (ROpt (RCls (in_class (CHR ''1'') (CHR ''2'')))) (RCls isdigit))
                     (RSeq (RChr (CHR ''3'')) (RCls (in_class (CHR ''0'') (CHR ''1''))))))"

definition gpr :: "string \<Rightarrow> string" where
  "gpr n = ''gpr['' @ n @ '']''"

definition powerpc64_operands :: "operand list" where
  "powerpc64_operands =
     [(RSeqs [RChr (CHR ''i''), re_int 1, re_end], set_constant),
      (RSeqs [re_gpr 1, re_end], \<lambda>cs dest. Some (dest\<lparr>ar_base_register_name := Some (gpr (match_str cs 1))\<rparr>)),
      (RSeqs [re_int 1, RChr (CHR ''(''), re_gpr 2, RChr (CHR '')''), re_end],
       \<lambda>cs dest. map_option (\<lambda>off. dest\<lparr>ar_deref_offset := Some off,
                                        ar_base_register_name := Some (gpr (match_str cs 2))\<rparr>) (stoi (match_str cs 1))),
      (RSeqs [re_gpr 1, RChr (CHR '',''), re_gpr 2, re_end],
       \<lambda>cs dest. Some (dest\<lparr>ar_deref_offset := Some 0, ar_base_register_name := Some (gpr (match_str cs 1)),
                            ar_index_register_name := Some (gpr (match_str cs 2)),
                            ar_scale := map_option abs (ar_arg_size dest)\<rparr>))]"

definition powerpc64_parse :: "ArgumentParser \<Rightarrow> Argument \<Rightarrow> Argument parsed" where
  "powerpc64_parse = parse_regex re_size powerpc64_operands"

section \<open>s390x\<close>

text \<open>\<^verbatim>\<open>%r([0-9]|1[0-5])\<close>.\<close>

definition re_s390x_reg :: "nat \<Rightarrow> regex" where
  "re_s390x_reg i = RSeq (RStr ''%r'')
     (RGroup i (RAlt (RCls isdigit) (RSeq (RChr (CHR ''1'')) (RCls (in_class (CHR ''0'') (CHR ''5''))))))"

definition gprs :: "string \<Rightarrow> string" where
  "gprs n = ''gprs['' @ n @ '']''"

definition s390x_mem :: "(nat \<times> string) list \<Rightarrow> Argument \<Rightarrow> Argument option" where
  "s390x_mem cs dest = do {
     dest \<leftarrow> (if match_str cs 1 \<noteq> [] then map_option (\<lambda>off. dest\<lparr>ar_deref_offset := Some off\<rparr>) (stoi (match_str cs 1))
              else Some dest);
     let dest = dest\<lparr>ar_base_register_name := Some (gprs (match_str cs 2))\<rparr>;
     Some (if match_str cs 3 \<noteq> [] then dest\<lparr>ar_index_register_name := Some (gprs (match_str cs 3))\<rparr> else dest)
   }"

definition s390x_operands :: "operand list" where
  "s390x_operands =
     [(RSeq (re_int 1) re_end, set_constant),
      (RSeq (re_s390x_reg 1) re_end, \<lambda>cs dest. Some (dest\<lparr>ar_base_register_name := Some (gprs (match_str cs 1))\<rparr>)),
      (RSeqs [ROpt (re_int 1), RChr (CHR ''(''), re_s390x_reg 2, ROpt (RSeq (RChr (CHR '','')) (re_s390x_reg 3)),
              RChr (CHR '')''), re_end], s390x_mem)]"

definition s390x_parse :: "ArgumentParser \<Rightarrow> Argument \<Rightarrow> Argument parsed" where
  "s390x_parse = parse_regex (RSeq (re_int 1) (RChr (CHR ''@''))) s390x_operands"

section \<open>riscv64\<close>

text \<open>\<^verbatim>\<open>((a[0-9])|((s[0-9p])|s1[0-1])|(t[0-6p])|(pc)|(ra)|(fp)|(gp))\<close>, of which only the outer group is used.\<close>

definition re_riscv64_reg :: "nat \<Rightarrow> regex" where
  "re_riscv64_reg i = RGroup i (RAlts
     [RSeq (RChr (CHR ''a'')) (RCls isdigit),
      RSeq (RChr (CHR ''s'')) (RCls (\<lambda>c. isdigit c \<or> c = CHR ''p'')),
      RSeq (RStr ''s1'') (RCls (in_class (CHR ''0'') (CHR ''1''))),
      RSeq (RChr (CHR ''t'')) (RCls (\<lambda>c. in_class (CHR ''0'') (CHR ''6'') c \<or> c = CHR ''p'')),
      RStr ''pc'', RStr ''ra'', RStr ''fp'', RStr ''gp''])"

definition riscv64_operands :: "operand list" where
  "riscv64_operands =
     [(RSeq (re_int 1) re_end, set_constant),
      (RSeq (re_riscv64_reg 1) re_end, \<lambda>cs dest. Some (dest\<lparr>ar_base_register_name := Some (match_str cs 1)\<rparr>)),
      (RSeqs [re_int 1, RChr (CHR ''(''), re_riscv64_reg 2, RChr (CHR '')''), re_end],
       \<lambda>cs dest. map_option (\<lambda>off. dest\<lparr>ar_deref_offset := Some off,
                                        ar_base_register_name := Some (match_str cs 2)\<rparr>) (stoi (match_str cs 1)))]"

definition riscv64_parse :: "ArgumentParser \<Rightarrow> Argument \<Rightarrow> Argument parsed" where
  "riscv64_parse = parse_regex re_size riscv64_operands"

end
