(* ===== verification/Usdt_Parse.thy ===== *)
theory Usdt_Parse
  imports Usdt_Regex
begin

text \<open>
  The loop that collects the arguments of a probe (the constructor of \<^verbatim>\<open>Location\<close> in
  src/cc/usdt/usdt.cc), for every parser: what the loop needs of a parser is the locale \<open>arg_parser\<close>,
  and each parser of the repository is shown to provide it.
\<close>

section \<open>The loop\<close>

datatype usdt_arch = Aarch64 | Loongarch64 | Powerpc64 | S390x | Riscv64 | X64

fun arch_parse :: "usdt_arch \<Rightarrow> ArgumentParser \<Rightarrow> Argument \<Rightarrow> Argument parsed" where
  "arch_parse Aarch64 = aarch64_parse"
| "arch_parse Loongarch64 = loongarch64_parse"
| "arch_parse Powerpc64 = powerpc64_parse"
| "arch_parse S390x = s390x_parse"
| "arch_parse Riscv64 = riscv64_parse"
| "arch_parse X64 = x64_parse"

fun arguments_loop ::
  "(ArgumentParser \<Rightarrow> Argument \<Rightarrow> Argument parsed) \<Rightarrow> nat \<Rightarrow> ArgumentParser \<Rightarrow> Argument list \<Rightarrow> Argument list loop_res" where
  "arguments_loop parse 0 p args = Timeout"
| "arguments_loop parse (Suc n) p args =
     (if parser_done p then Finished args
      else
        (case parse p Argument_new of
           None \<Rightarrow> Fault
         | Some (None, p) \<Rightarrow> arguments_loop parse n p args
         | Some (Some arg, p) \<Rightarrow> arguments_loop parse n p (args @ [arg])))"

section \<open>Positions\<close>

lemma char_at_le: "char_at s i = Some c \<Longrightarrow> i \<le> length s"
  by (auto simp: char_at_def split: if_splits)

lemma skip_while_Some:
  "skip_while P s pos = Some q \<Longrightarrow>
     pos \<le> q \<and> q \<le> length s \<and> (\<forall>c. char_at s pos = Some c \<longrightarrow> P c \<longrightarrow> pos < q)"
proof (induction P s pos rule: skip_while.induct)
  case (1 P s pos)
  then show ?case
    by (subst (asm) (2) skip_while.simps)
       (auto split: option.splits if_splits dest: char_at_le)
qed

definition moved :: "ArgumentParser \<Rightarrow> nat \<Rightarrow> ArgumentParser \<Rightarrow> bool" where
  "moved p k p' \<longleftrightarrow> ap_arg p' = ap_arg p \<and> k \<le> ap_cur_pos p' \<and> ap_cur_pos p' \<le> length (ap_arg p)"

lemma moved_mono: "moved p k p' \<Longrightarrow> j \<le> k \<Longrightarrow> moved p j p'"
  by (simp add: moved_def)

lemma skip_whitespace_from_moved:
  "skip_whitespace_from pos p = Some p' \<Longrightarrow>
     moved p pos p' \<and> (\<forall>c. char_at (ap_arg p) pos = Some c \<longrightarrow> isspace c \<longrightarrow> moved p (pos + 1) p')"
  unfolding skip_whitespace_from_def moved_def
  by (auto dest!: skip_while_Some)

lemma skip_until_whitespace_from_moved:
  "skip_until_whitespace_from pos p = Some p' \<Longrightarrow>
     moved p pos p' \<and>
     (\<forall>c. char_at (ap_arg p) pos = Some c \<longrightarrow> c \<noteq> CHR 0x00 \<longrightarrow> \<not> isspace c \<longrightarrow> moved p (pos + 1) p')"
  unfolding skip_until_whitespace_from_def moved_def
  by (auto dest!: skip_while_Some)

lemma print_error_arg [simp]: "ap_arg (print_error pos p) = ap_arg p" "ap_cur_pos (print_error pos p) = ap_cur_pos p"
  by (simp_all add: print_error_def)

lemma moved_print_error [simp]: "moved (print_error pos p) k p' \<longleftrightarrow> moved p k p'"
  by (simp add: moved_def)

lemma error_return_moved:
  assumes "error_return e k p = Some (r, p')"
  shows "r = None \<and> moved p k p' \<and> (char_at (ap_arg p) k \<noteq> Some (CHR 0x00) \<longrightarrow> moved p (k + 1) p')"
proof -
  obtain c where c: "char_at (ap_arg p) k = Some c"
    and q: "skip_until_whitespace_from (if isspace c then k + 1 else k) (print_error e p) = Some p'" and r: "r = None"
    using assms by (auto simp: error_return_def Let_def split: Option.bind_splits)
  show ?thesis
    using skip_until_whitespace_from_moved [OF q] c r
    by (cases "isspace c") (auto intro: moved_mono)
qed

lemma scan_base0_length: "scan_base0 s = Some (neg, n, rest) \<Longrightarrow> length rest \<le> length s"
proof -
  assume a: "scan_base0 s = Some (neg, n, rest)"
  obtain neg' t b u where t: "scan_sign (skip_ws s) = (neg', t)" and u: "num_base t = (b, u)"
    by (metis surj_pair)
  have "length t \<le> length (skip_ws s)"
    using scan_sign_le [of "skip_ws s"] t by simp
  moreover have "length u \<le> length t"
    using u by (auto simp: num_base_def split: if_splits)
  moreover have "rest = dropWhile (base_digit b) u"
    using a t u by (auto simp: scan_base0_def Let_def split: if_splits)
  ultimately show ?thesis
    using length_dropWhile_le [of isspace s] length_dropWhile_le [of "base_digit b" u]
    by (simp add: skip_ws_def)
qed

lemma parse_number_at_pos:
  "parse_number_at conv s pos r = Some (new_pos, r') \<Longrightarrow> pos \<le> new_pos \<and> new_pos \<le> length s"
  using scan_base0_length [of "drop pos s"]
  by (fastforce simp: parse_number_at_def split: if_splits option.splits)

lemmas parse_number_pos = parse_number_at_pos [where conv = "\<lambda>neg n. to_int32 (strtol_val neg n)", folded parse_number_def]
lemmas parse_number_ll_pos = parse_number_at_pos [where conv = "\<lambda>neg n. sint (strtoul_val neg n)", folded parse_number_ll_def]

section \<open>What the loop needs of a parser\<close>

locale arg_parser =
  fixes parse :: "ArgumentParser \<Rightarrow> Argument \<Rightarrow> Argument parsed"
  assumes progress: "\<not> parser_done p \<Longrightarrow> parse p dest = Some (r, p') \<Longrightarrow> moved p (ap_cur_pos p + 1) p'"
begin

lemma loop_ends:
  "length (ap_arg p) < n + ap_cur_pos p \<Longrightarrow> ap_cur_pos p \<le> length (ap_arg p) \<Longrightarrow> arguments_loop parse n p args \<noteq> Timeout"
proof (induction n arbitrary: p args)
  case (Suc n)
  have "arguments_loop parse n p' args' \<noteq> Timeout"
    if "\<not> parser_done p" "parse p Argument_new = Some (r, p')" for r p' args'
    using Suc.IH [of p' args'] Suc.prems progress [OF that] by (simp add: moved_def)
  then show ?case
    by (auto split: option.splits)
qed simp

end

section \<open>aarch64 and loongarch64 make progress\<close>

definition from_pos :: "nat \<Rightarrow> ArgumentParser \<Rightarrow> (nat \<times> 'a) parsed \<Rightarrow> bool" where
  "from_pos pos p res \<longleftrightarrow>
     (case res of
        None \<Rightarrow> True
      | Some (None, p') \<Rightarrow> moved p pos p'
      | Some (Some (n, _), p') \<Rightarrow> ap_arg p' = ap_arg p \<and> pos \<le> n)"

lemma from_pos_error_return: "pos \<le> k \<Longrightarrow> from_pos pos p (error_return e k p)"
  using error_return_moved [of e k p] by (fastforce simp: from_pos_def split: option.splits intro: moved_mono)

lemma from_pos_mono: "from_pos k p res \<Longrightarrow> pos \<le> k \<Longrightarrow> from_pos pos p res"
  by (auto simp: from_pos_def moved_def split: option.splits)

lemma from_pos_reg_number: "from_pos pos p (reg_number pos sp p)"
  unfolding reg_number_def
  by (auto simp: from_pos_error_return from_pos_def [of _ _ "Some _"] from_pos_def [of _ _ None]
      split: Option.bind_splits dest!: parse_number_pos)

lemma from_pos_aarch64: "from_pos pos p (aarch64_parse_register pos p)"
  unfolding aarch64_parse_register_def
  by (auto simp: from_pos_error_return from_pos_def [of _ _ "Some _"] from_pos_def [of _ _ None]
      split: Option.bind_splits intro: from_pos_mono [OF from_pos_reg_number])

lemma from_pos_loongarch64: "from_pos pos p (loongarch64_parse_register pos p)"
  unfolding loongarch64_parse_register_def
  by (auto simp: from_pos_error_return from_pos_def [of _ _ "Some _"] from_pos_def [of _ _ None]
      split: Option.bind_splits intro: from_pos_mono [OF from_pos_reg_number])

lemma from_posD:
  assumes "from_pos pos p (Some (r, p'))"
  shows "ap_arg p' = ap_arg p" "r = None \<Longrightarrow> moved p pos p'" "r = Some (n, x) \<Longrightarrow> pos \<le> n"
  using assms by (auto simp: from_pos_def moved_def split: option.splits)

lemma from_pos_arg: "ap_arg q = ap_arg p \<Longrightarrow> from_pos pos q res = from_pos pos p res"
  by (simp add: from_pos_def moved_def split: option.splits)

lemma from_pos_simps [simp]:
  "from_pos pos p None" "from_pos pos p (Some (None, q)) = moved p pos q"
  "from_pos pos p (Some (Some (n, x), q)) \<longleftrightarrow> ap_arg q = ap_arg p \<and> pos \<le> n"
  by (simp_all add: from_pos_def)

lemma from_pos_bind:
  assumes "from_pos n q m" "pos \<le> n" "ap_arg q = ap_arg p"
    and "\<And>k x q'. n \<le> k \<Longrightarrow> ap_arg q' = ap_arg p \<Longrightarrow> from_pos pos p (f k x q')"
    and "\<And>q'. moved p n q' \<Longrightarrow> from_pos pos p (g q')"
  shows "from_pos pos p (Option.bind m (\<lambda>(r, p). case r of None \<Rightarrow> g p | Some (k, x) \<Rightarrow> f k x p))"
proof (cases m)
  case (Some rq)
  obtain r q' where rq: "rq = (r, q')"
    by fastforce
  show ?thesis
    using assms Some rq by (cases r) (auto simp: moved_def)
qed simp

lemma from_pos_opt: "(\<And>c. m = Some c \<Longrightarrow> from_pos pos p (f c)) \<Longrightarrow> from_pos pos p (Option.bind m f)"
  by (cases m) auto

lemma from_pos_char: "(\<And>c. from_pos pos p (f c)) \<Longrightarrow> from_pos pos p (Option.bind (char_at s i) f)"
  by (cases "char_at s i") auto

lemma from_pos_error: "pos \<le> k \<Longrightarrow> ap_arg q = ap_arg p \<Longrightarrow> from_pos pos p (error_return e k q)"
  using from_pos_error_return [of pos k q e] by (simp add: from_pos_arg [of q p])

definition ends_from :: "nat \<Rightarrow> ArgumentParser \<Rightarrow> 'a parsed \<Rightarrow> bool" where
  "ends_from k p res \<longleftrightarrow> (case res of None \<Rightarrow> True | Some (_, p') \<Rightarrow> moved p k p')"

lemma ends_from_moved: "ends_from k p res \<Longrightarrow> res = Some (r, p') \<Longrightarrow> moved p k p'"
  by (simp add: ends_from_def)

lemma ends_from_bind:
  assumes "from_pos n q m" "k \<le> n" "ap_arg q = ap_arg p"
    and "\<And>j x q'. n \<le> j \<Longrightarrow> ap_arg q' = ap_arg p \<Longrightarrow> ends_from k p (f j x q')"
  shows "ends_from k p (Option.bind m (\<lambda>(r, p). case r of None \<Rightarrow> Some (None, p) | Some (j, x) \<Rightarrow> f j x p))"
proof (cases m)
  case (Some rq)
  obtain r q' where rq: "rq = (r, q')"
    by fastforce
  show ?thesis
    using assms Some rq by (cases r) (auto simp: moved_def ends_from_def)
qed (simp add: ends_from_def)

lemma ends_from_char: "(\<And>c. char_at s i = Some c \<Longrightarrow> ends_from k p (f c)) \<Longrightarrow> ends_from k p (Option.bind (char_at s i) f)"
  by (cases "char_at s i") (auto simp: ends_from_def)

lemma ends_from_error: "k \<le> j \<Longrightarrow> ap_arg q = ap_arg p \<Longrightarrow> ends_from k p (error_return e j q)"
  unfolding ends_from_def by (auto simp: moved_def split: option.split dest!: error_return_moved)

lemma ends_from_skip:
  "k \<le> j \<Longrightarrow> ap_arg q = ap_arg p \<Longrightarrow> ends_from k p (skip_whitespace_from j q \<bind> (\<lambda>p. Some (r, p)))"
  by (cases "skip_whitespace_from j q") (auto simp: ends_from_def moved_def dest!: skip_whitespace_from_moved)

lemma parse_size_from:
  assumes "\<not> parser_done p"
  shows "from_pos (ap_cur_pos p + 1) p (parse_size (ap_cur_pos p) p)"
proof -
  have nz: "char_at (ap_arg p) (ap_cur_pos p) \<noteq> Some (CHR 0x00)"
    using assms by (simp add: parser_done_def)
  have "from_pos (ap_cur_pos p + 1) p (error_return e (ap_cur_pos p) p)" for e
    unfolding from_pos_def using nz by (auto split: option.split dest!: error_return_moved)
  moreover have "ap_cur_pos p \<le> n" if "parse_number (ap_arg p) (ap_cur_pos p) None = Some (n, sz)" for n sz
    using parse_number_pos [OF that] by simp
  ultimately show ?thesis
    unfolding parse_size_def by (intro from_pos_opt) (auto simp: Suc_le_eq le_neq_implies_less split: prod.split intro!: from_pos_opt)
qed

text \<open>A parser of registers that moves forward gives a parser of operands that does.\<close>

locale reg_parser =
  fixes parse_register :: "nat \<Rightarrow> ArgumentParser \<Rightarrow> (nat \<times> string) parsed"
  assumes register_from: "from_pos pos p (parse_register pos p)"
begin

lemma mem_offset_from: "from_pos pos p (mem_offset parse_register pos p dest)"
proof -
  have reg: "from_pos pos p (parse_register k q \<bind> (\<lambda>(r, p). case r of None \<Rightarrow> error_return k k p
      | Some (n, x) \<Rightarrow> Some (Some (n, f x), p)))"
    if "ap_arg q = ap_arg p" "pos \<le> k" for k q and f :: "string \<Rightarrow> Argument"
    by (rule from_pos_bind [OF register_from]) (use that in \<open>auto simp: moved_def intro: from_pos_error\<close>)
  have ws: "from_pos pos p (skip_whitespace_from pos p \<bind> (\<lambda>p. let pos = ap_cur_pos p in
      parse_register pos p \<bind> (\<lambda>(r, p). case r of None \<Rightarrow> error_return pos pos p
        | Some (n, x) \<Rightarrow> Some (Some (n, f x), p))))" for f :: "string \<Rightarrow> Argument"
    unfolding Let_def by (rule from_pos_opt, rule reg) (auto simp: moved_def dest: skip_whitespace_from_moved)
  show ?thesis
    unfolding mem_offset_def
    by (rule from_pos_opt) (auto simp: ws split: prod.split dest: parse_number_pos)
qed

lemma parse_mem_from: "from_pos pos p (parse_mem zero parse_register pos p dest)"
proof -
  have close: "from_pos pos p (m \<bind> (\<lambda>(r, p). case r of None \<Rightarrow> Some (None, p)
      | Some (new_pos, dest) \<Rightarrow> char_at (ap_arg p) new_pos \<bind>
          (\<lambda>c. if c \<noteq> CHR '']'' then error_return new_pos new_pos p else Some (Some (new_pos + 1, dest), p))))"
    if "from_pos n q m" "pos \<le> n" "ap_arg q = ap_arg p" for n q and m :: "(nat \<times> Argument) parsed"
    by (rule from_pos_bind [OF that])
       (use that in \<open>auto simp: moved_def intro!: from_pos_char from_pos_error\<close>)
  show ?thesis
    unfolding parse_mem_def Let_def
  proof (rule from_pos_bind [OF register_from], goal_cases)
    case (3 k x q)
    have "from_pos k q (mem_offset parse_register (k + 1) q dest')" for dest'
      using mem_offset_from [of "k + 1" q] by (rule from_pos_mono) simp
    then show ?case
      using 3 by (intro from_pos_char close [of k q]) (simp_all split: if_split)
  qed (simp_all add: moved_def)
qed

lemma parse_operand_from: "from_pos pos p (parse_operand reg zero parse_register pos p dest)"
proof -
  have "from_pos pos p (parse_register pos p \<bind> (\<lambda>(r, p). Some (map_option (\<lambda>(n, x). (n, f x)) r, p)))"
    for f :: "string \<Rightarrow> Argument"
    using register_from [of pos p] by (cases "parse_register pos p") (auto simp: from_pos_def split: option.splits)
  moreover have "from_pos pos p (parse_mem zero parse_register (pos + 1) p dest)"
    by (rule from_pos_mono [OF parse_mem_from]) simp
  moreover have "from_pos pos p (parse_number_ll (ap_arg p) pos None \<bind> (\<lambda>(n, val).
      if pos = n then error_return pos pos p else Some (Some (n, g val), p)))" for g :: "int option \<Rightarrow> Argument"
    by (cases "parse_number_ll (ap_arg p) pos None") (auto simp: from_pos_error dest: parse_number_ll_pos)
  ultimately show ?thesis
    unfolding parse_operand_def by (auto intro: from_pos_char)
qed

lemma parse_sized_progress:
  assumes "\<not> parser_done p"
  shows "ends_from (ap_cur_pos p + 1) p (parse_sized reg zero parse_register p dest)"
proof -
  let ?k = "ap_cur_pos p + 1"
  have op: "ends_from ?k p (parse_operand reg zero parse_register n q dest \<bind>
      (\<lambda>(r, p). case r of None \<Rightarrow> Some (None, p)
        | Some (new_pos, dest) \<Rightarrow> skip_whitespace_from new_pos p \<bind> (\<lambda>p. Some (Some dest, p))))"
    if "?k \<le> n" "ap_arg q = ap_arg p" for n q dest
    by (rule ends_from_bind [OF parse_operand_from that])
       (use that in \<open>auto simp: moved_def intro!: ends_from_skip\<close>)
  show ?thesis
    unfolding parse_sized_def Let_def
    using assms
    by (auto intro!: ends_from_bind [OF parse_size_from [OF assms]] ends_from_char ends_from_error op [simplified])
qed

end

interpretation aarch64_reg: reg_parser aarch64_parse_register
  by unfold_locales (rule from_pos_aarch64)

interpretation loongarch64_reg: reg_parser loongarch64_parse_register
  by unfold_locales (rule from_pos_loongarch64)

interpretation aarch64: arg_parser aarch64_parse
  by unfold_locales (unfold aarch64_parse_def, rule ends_from_moved [OF aarch64_reg.parse_sized_progress])

interpretation loongarch64: arg_parser loongarch64_parse
  by unfold_locales (unfold loongarch64_parse_def, rule ends_from_moved [OF loongarch64_reg.parse_sized_progress])

section \<open>x86-64 makes progress\<close>

text \<open>The position that a step reports, negated or not, is not before the one it started at.\<close>

definition abs_from :: "nat \<Rightarrow> (int \<times> 'a) option \<Rightarrow> bool" where
  "abs_from k res \<longleftrightarrow> (case res of None \<Rightarrow> True | Some (i, _) \<Rightarrow> int k \<le> \<bar>i\<bar>)"

lemma abs_from_simps [simp]: "abs_from k None" "abs_from k (Some (i, x)) \<longleftrightarrow> int k \<le> \<bar>i\<bar>"
  by (simp_all add: abs_from_def)

lemma abs_from_mono: "abs_from k res \<Longrightarrow> j \<le> k \<Longrightarrow> abs_from j res"
  by (auto simp: abs_from_def split: option.splits)

lemma abs_from_bind: "(\<And>x. m = Some x \<Longrightarrow> abs_from k (f x)) \<Longrightarrow> abs_from k (Option.bind m f)"
  by (cases m) auto

lemma parse_identifier_pos: "parse_identifier s pos r = Some (n, r') \<Longrightarrow> pos \<le> n"
  by (auto simp: parse_identifier_def split: Option.bind_splits if_splits dest!: skip_while_Some)

lemma x64_parse_register_abs: "abs_from (pos + 1) (x64_parse_register s pos)"
  unfolding x64_parse_register_def Let_def
  by (auto intro!: abs_from_bind split: option.splits dest!: skip_while_Some)

lemma parse_base_register_abs: "abs_from (pos + 1) (parse_base_register s pos dest)"
  using x64_parse_register_abs [of pos s] by (auto simp: parse_base_register_def intro!: abs_from_bind)

lemma parse_index_register_abs: "abs_from (pos + 1) (parse_index_register s pos dest)"
  using x64_parse_register_abs [of pos s] by (auto simp: parse_index_register_def intro!: abs_from_bind)

lemma parse_close_abs: "abs_from pos (parse_close s pos dest)"
  by (auto simp: parse_close_def intro!: abs_from_bind)

lemma parse_index_abs: "abs_from pos (parse_index s pos dest)"
proof -
  have close: "abs_from pos (parse_close s n d)" if "pos \<le> n" for n d
    using abs_from_mono [OF parse_close_abs that] .
  have reg: "int pos \<le> \<bar>i\<bar>" if "parse_index_register s (Suc pos) dest = Some (i, d)" for i d
    using parse_index_register_abs [of "Suc pos" s dest] that by simp
  have sc: "n \<le> m" if "parse_scale s n d = Some (m, d')" for n m d d'
    using that by (auto simp: parse_scale_def split: Option.bind_splits dest: parse_number_pos)
  show ?thesis
    unfolding parse_index_def
    by (auto intro!: abs_from_bind close dest!: reg sc split: if_split) linarith+
qed

lemma parse_disp_pos: "parse_disp s pos dest = Some (b, n, d) \<Longrightarrow> pos \<le> n"
  unfolding parse_disp_def
  by (auto simp: Let_def split: Option.bind_splits if_splits dest!: parse_number_pos parse_identifier_pos)

lemma parse_expr_abs: "abs_from pos (parse_expr s pos dest)"
proof -
  have base: "abs_from pos (parse_base_register s pos dest)"
    by (rule abs_from_mono [OF parse_base_register_abs]) simp
  have mem: "abs_from pos (parse_base_register s (n + 1) d \<bind>
      (\<lambda>(res, dest). if res < 0 then Some (res, dest) else parse_index s (nat res) dest))" if "pos \<le> n" for n d
  proof (rule abs_from_bind)
    fix x
    assume "parse_base_register s (n + 1) d = Some x"
    then have "int pos \<le> \<bar>fst x\<bar>"
      using parse_base_register_abs [of "n + 1" s d] that by (cases x) simp
    then show "abs_from pos (case x of (res, dest) \<Rightarrow> if res < 0 then Some (res, dest) else parse_index s (nat res) dest)"
      by (auto simp: nat_le_iff le_nat_iff intro: abs_from_mono [OF parse_index_abs] split: prod.splits)
  qed
  show ?thesis
    unfolding parse_expr_def
    by (auto intro!: abs_from_bind mem [simplified] base dest!: parse_number_ll_pos parse_disp_pos)
qed

lemma parse_1_abs: "abs_from pos (parse_1 s pos dest)"
  unfolding parse_1_def
  by (auto intro!: abs_from_bind abs_from_mono [OF parse_expr_abs, of pos] dest!: parse_number_pos)

lemma x64_parse_progress:
  assumes "\<not> parser_done p" "x64_parse p dest = Some (r, p')"
  shows "moved p (ap_cur_pos p + 1) p'"
proof -
  let ?s = "ap_arg p" and ?pos = "ap_cur_pos p"
  obtain i d where i: "parse_1 ?s ?pos dest = Some (i, d)"
    using assms by (cases "parse_1 ?s ?pos dest") (auto simp: x64_parse_def)
  have ge: "?pos \<le> nat \<bar>i\<bar>"
    using parse_1_abs [of ?pos ?s dest] i by simp
  show ?thesis
  proof (cases "i < 0")
    case True
    then have "error_return (nat (- i)) (nat (- i) + 1) p = Some (r, p')"
      using assms i by (simp add: x64_parse_def)
    then show ?thesis
      using error_return_moved ge True by (fastforce intro: moved_mono)
  next
    case False
    obtain c where c: "char_at ?s (nat i) = Some c"
      using assms i False by (cases "char_at ?s (nat i)") (auto simp: x64_parse_def)
    have nz: "char_at ?s ?pos \<noteq> Some (CHR 0x00)"
      using assms(1) by (simp add: parser_done_def)
    show ?thesis
    proof (cases "isspace c \<or> c = CHR 0x00")
      case True
      then have "skip_whitespace_from (nat i) p = Some p'"
        using assms i False c by (auto simp: x64_parse_def split: Option.bind_splits)
      then have "moved p (nat i) p' \<and> (isspace c \<longrightarrow> moved p (nat i + 1) p')"
        using skip_whitespace_from_moved c by blast
      moreover have "c = CHR 0x00 \<Longrightarrow> ?pos + 1 \<le> nat i"
        using nz c ge False by (cases "?pos = nat i") auto
      ultimately show ?thesis
        using True ge False by (auto intro: moved_mono)
    next
      case nspace: False
      then have "error_return (nat i) (nat i) p = Some (r, p')"
        using assms i False c by (simp add: x64_parse_def)
      from error_return_moved [OF this] show ?thesis
        using nspace ge False c by (auto intro: moved_mono)
    qed
  qed
qed

interpretation x64: arg_parser x64_parse
  by unfold_locales (rule x64_parse_progress)

section \<open>The regular expressions make progress\<close>

fun min_len :: "regex \<Rightarrow> nat" where
  "min_len (RCls P) = 1"
| "min_len (RPlus P) = 1"
| "min_len (RSeq a b) = min_len a + min_len b"
| "min_len (RAlt a b) = min (min_len a) (min_len b)"
| "min_len (ROpt a) = 0"
| "min_len (RGroup i a) = min_len a"
| "min_len REnd = 0"

lemma rmatch_length: "(t, cs) \<in> set (rmatch r s) \<Longrightarrow> length t + min_len r \<le> length s"
proof (induction r arbitrary: s t cs)
  case (RPlus P)
  then show ?case
    using length_takeWhile_le [of P s] by (auto simp del: upt_Suc)
next
  case (RSeq a b)
  then show ?case
    by fastforce
next
  case (ROpt a)
  then show ?case
    by fastforce
qed (fastforce split: list.splits if_splits)+

lemma regex_search_length: "regex_search r s = Some (n, cs) \<Longrightarrow> min_len r \<le> n \<and> n \<le> length s"
  using rmatch_length [of _ _ r s] by (fastforce simp: regex_search_def split: list.splits)

lemma match_operand_length: "match_operand ops s dest = Some (Some (n, d)) \<Longrightarrow> n \<le> length s"
  by (induction ops) (auto split: option.splits dest: regex_search_length)

lemma not_matched_moved:
  assumes "not_matched p = Some (r, p')"
  shows "moved p (ap_cur_pos p) p' \<and> (\<not> parser_done p \<longrightarrow> moved p (ap_cur_pos p + 1) p')"
proof -
  let ?e = "print_error (ap_cur_pos p) p"
  obtain q where q: "skip_until_whitespace_from (ap_cur_pos p) ?e = Some q" and p': "skip_whitespace_from (ap_cur_pos q) q = Some p'"
    using assms by (auto simp: not_matched_def Let_def split: Option.bind_splits)
  note a = skip_until_whitespace_from_moved [OF q]
  note b = skip_whitespace_from_moved [OF p']
  have "moved p (ap_cur_pos p + 1) p'" if "\<not> parser_done p"
  proof -
    have "ap_cur_pos p \<le> length (ap_arg p)"
      using a by (auto simp: moved_def)
    then obtain c where c: "char_at (ap_arg p) (ap_cur_pos p) = Some c"
      by (cases "ap_cur_pos p < length (ap_arg p)") (auto simp: char_at_def)
    show ?thesis
      using a b c that by (cases "isspace c"; cases "ap_cur_pos q = ap_cur_pos p") (auto simp: moved_def parser_done_def)
  qed
  then show ?thesis
    using a b by (auto simp: moved_def)
qed

lemma parse_regex_progress:
  assumes "\<not> parser_done p" "parse_regex re_n ops p dest = Some (r, p')" "0 < min_len re_n"
  shows "moved p (ap_cur_pos p + 1) p'"
proof (cases "regex_search re_n (drop (ap_cur_pos p) (ap_arg p))")
  case None
  then show ?thesis
    using assms by (auto simp: parse_regex_def dest: not_matched_moved)
next
  case (Some ncs)
  obtain n cs where ncs: "ncs = (n, cs)"
    by fastforce
  have n: "0 < n"
    using regex_search_length [of re_n] Some ncs assms(3) by fastforce
  let ?q = "p\<lparr>ap_cur_pos := ap_cur_pos p + n\<rparr>"
  obtain sz m where m: "match_operand ops (drop (ap_cur_pos p + n) (ap_arg p)) (dest\<lparr>ar_arg_size := Some sz\<rparr>) = Some m"
    and rest: "(case m of None \<Rightarrow> not_matched ?q
      | Some (k, d) \<Rightarrow> skip_whitespace_from (ap_cur_pos p + n + k) ?q \<bind> (\<lambda>p. Some (Some d, p))) = Some (r, p')"
    using assms Some ncs by (auto simp: parse_regex_def Let_def split: Option.bind_splits)
  show ?thesis
  proof (cases m)
    case None
    then show ?thesis
      using rest n not_matched_moved [of ?q r p'] by (auto simp: moved_def)
  next
    case (Some kd)
    then show ?thesis
      using rest n by (cases kd) (auto simp: moved_def split: Option.bind_splits dest!: skip_whitespace_from_moved)
  qed
qed

interpretation powerpc64: arg_parser powerpc64_parse
  by unfold_locales (unfold powerpc64_parse_def, erule (1) parse_regex_progress, simp add: re_size_def RChr_def)

interpretation s390x: arg_parser s390x_parse
  by unfold_locales (unfold s390x_parse_def, erule (1) parse_regex_progress, simp add: re_int_def RChr_def)

interpretation riscv64: arg_parser riscv64_parse
  by unfold_locales (unfold riscv64_parse_def, erule (1) parse_regex_progress, simp add: re_size_def RChr_def)

text \<open>
  (C27) Collecting the arguments of a probe ends: for every string and on every architecture the loop
  needs at most one iteration per character.  A parse that reads behind the end of the string, as that of \<^verbatim>\<open>8@\<close> does, ends
  there with \<^const>\<open>Fault\<close>.
\<close>

theorem arguments_loop_ends:
  "arguments_loop (arch_parse arch) (length arg + 1) (ArgumentParser_new arg) [] \<noteq> Timeout"
  by (cases arch; simp only: arch_parse.simps)
     (rule aarch64.loop_ends loongarch64.loop_ends powerpc64.loop_ends s390x.loop_ends riscv64.loop_ends x64.loop_ends;
      simp add: ArgumentParser_new_def)+

end
