(* ===== verification/Usdt_Roundtrip.thy ===== *)
theory Usdt_Roundtrip
  imports Usdt_Parse
begin

text \<open>
  Parsing a well-formed description yields the arguments that were described.  The locale
  \<open>arg_syntax\<close> says what printing and parsing one argument must satisfy, and the loop is shown
  correct from it; the syntax of x86-64 and the one that aarch64 and loongarch64 share are instances.
\<close>

section \<open>Reading at a position\<close>

definition suffix_at :: "string \<Rightarrow> nat \<Rightarrow> string \<Rightarrow> bool" where
  "suffix_at s pos t \<longleftrightarrow> pos \<le> length s \<and> drop pos s = t"

lemma suffix_at_drop: "suffix_at s pos (w @ t) \<Longrightarrow> suffix_at s (pos + length w) t"
proof -
  assume a: "suffix_at s pos (w @ t)"
  have "drop (pos + length w) s = drop (length w) (drop pos s)"
    by (simp add: add.commute)
  also have "\<dots> = t"
    using a by (simp add: suffix_at_def del: drop_drop)
  finally have "drop (pos + length w) s = t" .
  moreover have "length (drop pos s) = length w + length t"
    using a by (simp add: suffix_at_def)
  ultimately show ?thesis
    using a by (auto simp: suffix_at_def)
qed

lemma suffix_at_Cons:
  assumes "suffix_at s pos (c # t)"
  shows "char_at s pos = Some c" "suffix_at s (Suc pos) t"
proof -
  have "pos < length s"
    using assms by (cases "pos < length s") (auto simp: suffix_at_def)
  then show "char_at s pos = Some c"
    using assms by (auto simp: char_at_def suffix_at_def nth_via_drop)
  show "suffix_at s (Suc pos) t"
    using suffix_at_drop [of s pos "[c]" t] assms by simp
qed

lemma suffix_at_Nil: "suffix_at s pos [] \<Longrightarrow> char_at s pos = Some (CHR 0x00) \<and> pos = length s"
  by (auto simp: suffix_at_def char_at_def)

definition head_char :: "string \<Rightarrow> char" where
  "head_char t = (case t of [] \<Rightarrow> CHR 0x00 | c # _ \<Rightarrow> c)"

lemma head_char_simps [simp]: "head_char [] = CHR 0x00" "head_char (c # t) = c"
  by (simp_all add: head_char_def)

lemma char_at_head: "suffix_at s pos t \<Longrightarrow> char_at s pos = Some (head_char t)"
  by (cases t) (auto dest: suffix_at_Cons suffix_at_Nil)

lemma skip_while_at:
  assumes "suffix_at s pos (w @ t)" "list_all P w" "\<not> P (head_char t)"
  shows "skip_while P s pos = Some (pos + length w)"
  using assms
proof (induction w arbitrary: pos)
  case Nil
  then show ?case
    by (subst skip_while.simps) (simp add: char_at_head)
next
  case (Cons c w)
  then have "char_at s pos = Some c" "suffix_at s (Suc pos) (w @ t)"
    using suffix_at_Cons by auto
  then show ?case
    using Cons by (subst skip_while.simps) simp
qed

lemma skip_whitespace_at:
  assumes "suffix_at (ap_arg p) pos t"
  shows "skip_whitespace_from pos p = Some (p\<lparr>ap_cur_pos := pos + length (takeWhile isspace t)\<rparr>)"
proof -
  have "\<not> isspace (head_char (dropWhile isspace t))"
  proof (cases "dropWhile isspace t")
    case Nil
    show ?thesis
      unfolding Nil by (simp add: isspace_def)
  next
    case (Cons c u)
    show ?thesis
      unfolding Cons using hd_dropWhile [of isspace t, unfolded Cons] by simp
  qed
  moreover have "list_all isspace (takeWhile isspace t)"
    by (induction t) auto
  ultimately have "skip_while isspace (ap_arg p) pos = Some (pos + length (takeWhile isspace t))"
    using assms by (intro skip_while_at [where t = "dropWhile isspace t"]) auto
  then show ?thesis
    by (simp add: skip_whitespace_from_def)
qed

section \<open>Decimal numbers\<close>

lemma nat_digits_hd: "0 < n \<Longrightarrow> hd (nat_digits 10 n) \<noteq> CHR ''0''"
proof (induction "10 :: nat" n rule: nat_digits.induct)
  case (1 n)
  show ?case
  proof (cases "n < 10")
    case True
    then have "(of_char (digit_char n) :: nat) = 48 + n"
      by (simp add: of_char_digit_char)
    then have "digit_char n \<noteq> CHR ''0''"
      using "1.prems" by auto
    then show ?thesis
      using True by (simp add: nat_digits.simps [of 10 n])
  next
    case False
    then show ?thesis
      using 1 by (simp add: nat_digits.simps [of 10 n] div_greater_zero_iff)
  qed
qed

lemma nat_digits_0: "nat_digits 10 0 = ''0''"
  by code_simp

lemma base_digit_10: "base_digit 10 = is_digit_of 10"
  by (rule ext) (simp add: base_digit_def)

lemma scan_digits_base0:
  assumes "num_stop 10 rest"
  shows "let (b, t) = num_base (nat_digits 10 n @ rest); ds = takeWhile (base_digit b) t
         in ds \<noteq> [] \<and> digits_val b ds = n \<and> dropWhile (base_digit b) t = rest"
proof (cases "n = 0")
  case True
  have "\<not> isodigit (head_char rest) \<or> rest = []"
    using assms by (cases rest) (auto simp: num_stop_def is_digit_of_def isdigit_def isodigit_def)
  moreover have "isodigit (CHR ''0'')" "digits_val 8 ''0'' = 0"
    by (simp_all add: isodigit_def digits_val_def digit_val_def isdigit_def)
  ultimately show ?thesis
    using True assms by (cases rest) (auto simp: nat_digits_0 num_base_def base_digit_def num_stop_def)
next
  case False
  obtain d ds where d: "nat_digits 10 n = d # ds"
    by (cases "nat_digits 10 n") auto
  have "d \<noteq> CHR ''0''"
    using nat_digits_hd [of n] False d by simp
  then have "num_base (nat_digits 10 n @ rest) = (10, nat_digits 10 n @ rest)"
    by (simp add: d num_base_def)
  moreover have "takeWhile (is_digit_of 10) (nat_digits 10 n @ rest) = nat_digits 10 n"
    "dropWhile (is_digit_of 10) (nat_digits 10 n @ rest) = rest"
    using assms list_all_nat_digits [of 10 n]
    by (auto intro!: takeWhile_append_stop dropWhile_append_stop simp: num_stop_def)
  ultimately show ?thesis
    by (simp add: base_digit_10 digits_val_nat_digits)
qed

lemma scan_base0_nat: "num_stop 10 rest \<Longrightarrow> scan_base0 (nat_digits 10 n @ rest) = Some (False, n, rest)"
proof -
  assume stop: "num_stop 10 rest"
  obtain d ds where d: "nat_digits 10 n = d # ds" "is_digit_of 10 d"
    using list_all_nat_digits [of 10 n] by (cases "nat_digits 10 n") auto
  then have "scan_sign (skip_ws (nat_digits 10 n @ rest)) = (False, nat_digits 10 n @ rest)"
    using is_digit_of_facts [of 10 d] by (simp add: skip_ws_def)
  then show ?thesis
    using scan_digits_base0 [OF stop, of n] by (auto simp: scan_base0_def Let_def split: prod.splits)
qed

lemma scan_base0_signed:
  assumes "num_stop 10 rest"
  shows "scan_base0 (CHR ''-'' # nat_digits 10 n @ rest) = Some (True, n, rest)"
    "scan_base0 (CHR ''+'' # nat_digits 10 n @ rest) = Some (False, n, rest)"
  using scan_digits_base0 [OF assms, of n]
  by (auto simp: scan_base0_def Let_def skip_ws_def isspace_def split: prod.splits)

lemma scan_base0_show_int:
  assumes "num_stop 10 rest"
  shows "scan_base0 (show_int i @ rest) = Some (i < 0, nat \<bar>i\<bar>, rest)"
  using scan_base0_nat [OF assms] scan_base0_signed [OF assms] by (simp add: show_int_def)

lemma to_int32_id: "- (2 ^ 31) \<le> i \<Longrightarrow> i < 2 ^ 31 \<Longrightarrow> to_int32 i = i"
  by (simp add: to_int32_def signed_of_int signed_take_bit_int_eq_self)

lemma strtol_val_int: "- (2 ^ 31) \<le> i \<Longrightarrow> i < 2 ^ 31 \<Longrightarrow> strtol_val (i < 0) (nat \<bar>i\<bar>) = i"
  by (simp add: strtol_val_def)

lemma strtoul_val_int: "- (2 ^ 63) \<le> i \<Longrightarrow> i < 2 ^ 63 \<Longrightarrow> sint (strtoul_val (i < 0) (nat \<bar>i\<bar>)) = i"
proof -
  assume i: "- (2 ^ 63) \<le> i" "i < 2 ^ 63"
  then have "strtoul_val (i < 0) (nat \<bar>i\<bar>) = word_of_int i"
    by (auto simp: strtoul_val_def)
  then show ?thesis
    using i by (simp add: signed_of_int signed_take_bit_int_eq_self)
qed

lemma parse_number_at_show:
  assumes "suffix_at s pos (w @ rest)" "scan_base0 (w @ rest) = Some (neg, n, rest)"
  shows "parse_number_at conv s pos r = Some (pos + length w, Some (conv neg n))"
proof -
  have "length (drop pos s) = length w + length rest" "pos \<le> length s"
    using assms(1) by (auto simp: suffix_at_def)
  then show ?thesis
    using assms by (auto simp: parse_number_at_def suffix_at_def)
qed

definition int32 :: "int \<Rightarrow> bool" where
  "int32 i \<longleftrightarrow> - (2 ^ 31) \<le> i \<and> i < 2 ^ 31"

lemma parse_number_show:
  assumes "suffix_at s pos (show_int i @ rest)" "num_stop 10 rest" "int32 i"
  shows "parse_number s pos r = Some (pos + length (show_int i), Some i)"
  using parse_number_at_show [OF assms(1) scan_base0_show_int [OF assms(2)]] assms(3)
  by (simp add: parse_number_def strtol_val_int to_int32_id int32_def)

lemma parse_number_plus:
  assumes "suffix_at s pos (CHR ''+'' # nat_digits 10 n @ rest)" "num_stop 10 rest" "n < 2 ^ 31"
  shows "parse_number s pos r = Some (pos + 1 + length (nat_digits 10 n), Some (int n))"
proof -
  have "parse_number_at conv s pos r = Some (pos + length (CHR ''+'' # nat_digits 10 n), Some (conv False n))" for conv
    using assms(1) scan_base0_signed(2) [OF assms(2), of n] by (intro parse_number_at_show [where rest = rest]) simp_all
  then show ?thesis
    using strtol_val_int [of "int n"] assms(3) by (simp add: parse_number_def to_int32_id)
qed

lemma parse_number_ll_show:
  assumes "suffix_at s pos (show_int i @ rest)" "num_stop 10 rest" "- (2 ^ 63) \<le> i" "i < 2 ^ 63"
  shows "parse_number_ll s pos r = Some (pos + length (show_int i), Some i)"
  using parse_number_at_show [OF assms(1) scan_base0_show_int [OF assms(2)]] assms(3,4)
  by (simp add: parse_number_ll_def strtoul_val_int)

lemma num_stop_usdt [simp]:
  "num_stop b (CHR ''@'' # s)" "num_stop b (CHR ''+'' # s)" "num_stop b (CHR ''('' # s)" "num_stop b (CHR '')'' # s)"
  "num_stop b (CHR '','' # s)" "num_stop b (CHR '']'' # s)"
  by (auto simp: num_stop_def is_digit_of_def isxdigit_def isdigit_def)

lemma num_stop_space: "rest = [] \<or> isspace (hd rest) \<Longrightarrow> num_stop b rest"
  by (cases rest) (auto simp: num_stop_def is_digit_of_def isxdigit_def isdigit_def isspace_def)

lemma nat_digits_head: "isdigit (head_char (nat_digits 10 n @ rest))"
  using nat_digits_all [of 10 "hd (nat_digits 10 n)" n]
  by (cases "nat_digits 10 n") (auto simp: is_digit_of_def)

lemma show_int_head: "isdigit (head_char (show_int i @ rest)) \<or> head_char (show_int i @ rest) = CHR ''-''"
  using nat_digits_head by (simp add: show_int_def)

section \<open>What the loop needs of a syntax\<close>

fun join_args :: "('a \<Rightarrow> string) \<Rightarrow> 'a list \<Rightarrow> string" where
  "join_args show_arg [] = []"
| "join_args show_arg [a] = show_arg a"
| "join_args show_arg (a # as) = show_arg a @ '' '' @ join_args show_arg as"

locale arg_syntax =
  fixes parse :: "ArgumentParser \<Rightarrow> Argument \<Rightarrow> Argument parsed"
    and show_arg :: "'a \<Rightarrow> string" and wf_arg :: "'a \<Rightarrow> bool" and denotes :: "'a \<Rightarrow> Argument"
  assumes parse_show:
      "wf_arg a \<Longrightarrow> suffix_at (ap_arg p) (ap_cur_pos p) (show_arg a @ rest) \<Longrightarrow> rest = [] \<or> isspace (hd rest) \<Longrightarrow>
       parse p Argument_new =
         Some (Some (denotes a), p\<lparr>ap_cur_pos := ap_cur_pos p + length (show_arg a) + length (takeWhile isspace rest)\<rparr>)"
    and show_head: "wf_arg a \<Longrightarrow> \<not> isspace (head_char (show_arg a @ rest)) \<and> head_char (show_arg a @ rest) \<noteq> CHR 0x00"
begin

lemma show_args_head: "list_all wf_arg (a # as) \<Longrightarrow> \<not> isspace (head_char (join_args show_arg (a # as)))"
  using show_head [of a "[]"] show_head [of a "'' '' @ join_args show_arg as"] by (cases as) auto

lemma show_ne: "wf_arg a \<Longrightarrow> 0 < length (show_arg a)"
  using show_head [of a "[]"] by (cases "show_arg a") auto

lemma join_length: "list_all wf_arg as \<Longrightarrow> length as \<le> length (join_args show_arg as)"
  by (induction as rule: induct_list012) (auto dest: show_ne simp: Suc_le_eq)

lemma loop_show:
  "list_all wf_arg as \<Longrightarrow> suffix_at (ap_arg p) (ap_cur_pos p) (join_args show_arg as) \<Longrightarrow> length as < n \<Longrightarrow>
     arguments_loop parse n p args = Finished (args @ map denotes as)"
proof (induction as arbitrary: p n args)
  case Nil
  then show ?case
    by (cases n) (auto simp: parser_done_def dest: suffix_at_Nil)
next
  case (Cons a as)
  obtain m where n: "n = Suc m"
    using Cons.prems(3) by (cases n) auto
  obtain rest where rest: "join_args show_arg (a # as) = show_arg a @ rest" "rest = [] \<or> isspace (hd rest)"
    and tl: "suffix_at (ap_arg p) (ap_cur_pos p + length (show_arg a) + length (takeWhile isspace rest)) (join_args show_arg as)"
  proof (cases as)
    case Nil
    then show ?thesis
      using that [of "[]"] suffix_at_drop [of _ _ "show_arg a" "[]"] Cons.prems(2) by simp
  next
    case (Cons b bs)
    have "takeWhile isspace (join_args show_arg as) = []"
      using show_args_head [of b bs] Cons.prems(1) Cons by (cases "join_args show_arg as") auto
    moreover have "suffix_at (ap_arg p) (ap_cur_pos p + length (show_arg a)) ('' '' @ join_args show_arg as)"
      using suffix_at_drop [of _ _ "show_arg a"] Cons.prems(2) Cons by simp
    ultimately show ?thesis
      using that [of "'' '' @ join_args show_arg as"] suffix_at_drop [of _ _ "'' ''" "join_args show_arg as"] Cons by fastforce
  qed
  have "\<not> parser_done p"
    using char_at_head [OF Cons.prems(2)] show_head [of a rest] Cons.prems(1) by (simp add: parser_done_def rest(1))
  moreover have "parse p Argument_new = Some (Some (denotes a), p\<lparr>ap_cur_pos := ap_cur_pos p + length (show_arg a) + length (takeWhile isspace rest)\<rparr>)"
    using parse_show [OF _ _ rest(2)] Cons.prems(1,2) rest(1) by simp
  ultimately show ?case
    using Cons.IH [of "p\<lparr>ap_cur_pos := ap_cur_pos p + length (show_arg a) + length (takeWhile isspace rest)\<rparr>" m] tl Cons.prems n
    by simp
qed

lemma loop_roundtrip:
  assumes "list_all wf_arg as"
  shows "arguments_loop parse (length (join_args show_arg as) + 1) (ArgumentParser_new (join_args show_arg as)) [] =
    Finished (map denotes as)"
  using loop_show [OF assms, of "ArgumentParser_new (join_args show_arg as)" _ "[]"] join_length [OF assms]
  by (simp add: ArgumentParser_new_def suffix_at_def del: arguments_loop.simps)

end

end
