(* ===== verification/Usdt_X64.thy ===== *)
theory Usdt_X64
  imports Usdt_Roundtrip
begin

text \<open>
  The syntax of USDT arguments on x86-64: every description that it has is parsed as the argument that
  it stands for.
\<close>

section \<open>The syntax of x86-64\<close>

datatype x64_disp = DNone | DNum int | DNumIdent int string | DIdent string | DIdentOff string int

datatype x64_operand = XConst int | XReg string | XMem x64_disp string "(string \<times> int option) option"

type_synonym x64_arg = "int option \<times> x64_operand"

fun show_disp :: "x64_disp \<Rightarrow> string" where
  "show_disp DNone = []"
| "show_disp (DNum i) = show_int i"
| "show_disp (DNumIdent i x) = show_int i @ ''+'' @ x"
| "show_disp (DIdent x) = x"
| "show_disp (DIdentOff x i) = x @ (if i < 0 then show_int i else ''+'' @ show_int i)"

fun show_index :: "(string \<times> int option) option \<Rightarrow> string" where
  "show_index None = []"
| "show_index (Some (r, None)) = '',%'' @ r"
| "show_index (Some (r, Some sc)) = '',%'' @ r @ '','' @ show_int sc"

fun show_operand :: "x64_operand \<Rightarrow> string" where
  "show_operand (XConst k) = ''$'' @ show_int k"
| "show_operand (XReg r) = ''%'' @ r"
| "show_operand (XMem d b ix) = show_disp d @ ''(%'' @ b @ show_index ix @ '')''"

definition show_x64 :: "x64_arg \<Rightarrow> string" where
  "show_x64 a = (case fst a of None \<Rightarrow> [] | Some sz \<Rightarrow> show_int sz @ ''@'') @ show_operand (snd a)"

definition wf_ident :: "string \<Rightarrow> bool" where
  "wf_ident x \<longleftrightarrow> x \<noteq> [] \<and> (isalpha (hd x) \<or> hd x = CHR ''_'') \<and> list_all (\<lambda>c. isalnum c \<or> c = CHR ''_'') x"

definition is_reg :: "string \<Rightarrow> bool" where
  "is_reg r \<longleftrightarrow> r \<in> fst ` set registers"

fun wf_disp :: "x64_disp \<Rightarrow> bool" where
  "wf_disp DNone = True"
| "wf_disp (DNum i) = int32 i"
| "wf_disp (DNumIdent i x) = (int32 i \<and> wf_ident x)"
| "wf_disp (DIdent x) = wf_ident x"
| "wf_disp (DIdentOff x i) = (wf_ident x \<and> int32 i)"

fun wf_operand :: "x64_operand \<Rightarrow> bool" where
  "wf_operand (XConst k) = (- (2 ^ 63) \<le> k \<and> k < 2 ^ 63)"
| "wf_operand (XReg r) = is_reg r"
| "wf_operand (XMem d b ix) = (wf_disp d \<and> is_reg b \<and> (case ix of None \<Rightarrow> True
     | Some (r, sc) \<Rightarrow> is_reg r \<and> (case sc of None \<Rightarrow> True | Some k \<Rightarrow> int32 k)))"

definition wf_x64 :: "x64_arg \<Rightarrow> bool" where
  "wf_x64 a \<longleftrightarrow> wf_operand (snd a) \<and> (case fst a of None \<Rightarrow> True | Some sz \<Rightarrow> int32 sz)"

text \<open>The argument that a description stands for; without a size it has the size of the register.\<close>

definition canon_reg :: "string \<Rightarrow> string" where
  "canon_reg r = reg_to_name (fst (the (map_of registers r)))"

definition reg_size :: "string \<Rightarrow> int" where
  "reg_size r = snd (the (map_of registers r))"

fun disp_offset :: "x64_disp \<Rightarrow> int" where
  "disp_offset DNone = 0"
| "disp_offset (DNum i) = i"
| "disp_offset (DNumIdent i x) = i"
| "disp_offset (DIdent x) = 0"
| "disp_offset (DIdentOff x i) = i"

fun disp_ident :: "x64_disp \<Rightarrow> string option" where
  "disp_ident DNone = None"
| "disp_ident (DNum i) = None"
| "disp_ident (DNumIdent i x) = Some x"
| "disp_ident (DIdent x) = Some x"
| "disp_ident (DIdentOff x i) = Some x"

fun x64_denotes :: "x64_arg \<Rightarrow> Argument" where
  "x64_denotes (sz, XConst k) = Argument_new\<lparr>ar_arg_size := sz, ar_constant := Some k\<rparr>"
| "x64_denotes (sz, XReg r) = Argument_new\<lparr>ar_arg_size := Some (case sz of None \<Rightarrow> reg_size r | Some n \<Rightarrow> n),
     ar_base_register_name := Some (canon_reg r)\<rparr>"
| "x64_denotes (sz, XMem d b ix) = Argument_new\<lparr>ar_arg_size := Some (case sz of None \<Rightarrow> reg_size b | Some n \<Rightarrow> n),
     ar_deref_offset := Some (disp_offset d), ar_deref_ident := disp_ident d,
     ar_base_register_name := Some (canon_reg b), ar_index_register_name := map_option (canon_reg \<circ> fst) ix,
     ar_scale := Option.bind ix snd\<rparr>"

section \<open>Registers and identifiers\<close>

lemma registers_alnum: "list_all (\<lambda>(r, _). list_all isalnum r) registers"
  by code_simp

lemma is_reg_alnum: "is_reg r \<Longrightarrow> list_all isalnum r"
  using registers_alnum by (auto simp: is_reg_def list_all_iff)

lemma normalize_is_reg: "is_reg r \<Longrightarrow> normalize_register r = Some (canon_reg r, reg_size r)"
proof -
  assume "is_reg r"
  then obtain x where "map_of registers r = Some x"
    by (cases "map_of registers r") (auto simp: is_reg_def map_of_eq_None_iff)
  then show ?thesis
    by (cases x) (simp add: normalize_register_def canon_reg_def reg_size_def)
qed

lemma substr_at: "suffix_at s pos (w @ t) \<Longrightarrow> substr pos (pos + length w) s = w"
  by (simp add: substr_def suffix_at_def)

definition stops_name :: "string \<Rightarrow> bool" where
  "stops_name t \<longleftrightarrow> \<not> isalnum (head_char t) \<and> head_char t \<noteq> CHR ''_''"

lemma stops_name_simps [simp]:
  "stops_name []" "stops_name (CHR ''('' # t)" "stops_name (CHR '')'' # t)" "stops_name (CHR '','' # t)"
  "stops_name (CHR ''+'' # t)" "stops_name (CHR ''-'' # t)" "stops_name (CHR '' '' # t)"
  by (simp_all add: stops_name_def isalnum_def isalpha_def isdigit_def)

lemma stops_name_space: "rest = [] \<or> isspace (hd rest) \<Longrightarrow> stops_name rest"
  by (cases rest) (auto simp: stops_name_def isalnum_def isalpha_def isdigit_def isspace_def)

lemma x64_parse_register_at:
  assumes "suffix_at s pos (CHR ''%'' # r @ t)" "is_reg r" "stops_name t"
  shows "x64_parse_register s pos = Some (int (pos + 1 + length r), Some (canon_reg r, reg_size r))"
proof -
  note a = suffix_at_Cons [OF assms(1)]
  have "skip_while isalnum s (Suc pos) = Some (Suc pos + length r)"
    using a(2) is_reg_alnum [OF assms(2)] assms(3) by (intro skip_while_at) (auto simp: stops_name_def)
  then show ?thesis
    using a(1) substr_at [OF a(2)] normalize_is_reg [OF assms(2)] by (simp add: x64_parse_register_def)
qed

lemma parse_identifier_at:
  assumes "suffix_at s pos (x @ t)" "wf_ident x" "stops_name t"
  shows "parse_identifier s pos r = Some (pos + length x, Some x)"
proof -
  obtain c y where x: "x = c # y" "isalpha c \<or> c = CHR ''_''" "list_all (\<lambda>c. isalnum c \<or> c = CHR ''_'') y"
    using assms(2) by (cases x) (auto simp: wf_ident_def)
  have c: "char_at s pos = Some c" "suffix_at s (Suc pos) (y @ t)"
    using suffix_at_Cons [of s pos c "y @ t"] assms(1) x(1) by auto
  have "skip_while (\<lambda>c. isalnum c \<or> c = CHR ''_'') s (Suc pos) = Some (Suc pos + length y)"
    using c(2) x(3) assms(3) by (intro skip_while_at) (auto simp: stops_name_def)
  then show ?thesis
    using c(1) x(1,2) substr_at [OF assms(1)] by (simp add: parse_identifier_def)
qed

lemma parse_identifier_none:
  "suffix_at s pos t \<Longrightarrow> head_char t = CHR ''('' \<Longrightarrow> parse_identifier s pos r = Some (pos, r)"
  by (simp add: parse_identifier_def char_at_head isalpha_def)

lemma wf_ident_head:
  assumes "wf_ident x"
  shows "\<not> isdigit (head_char (x @ t)) \<and> head_char (x @ t) \<noteq> CHR ''-'' \<and> head_char (x @ t) \<noteq> CHR ''$'' \<and>
    head_char (x @ t) \<noteq> CHR ''%'' \<and> \<not> isspace (head_char (x @ t)) \<and> head_char (x @ t) \<noteq> CHR 0x00"
  using assms by (cases x) (auto simp: wf_ident_def isalpha_def isdigit_def isspace_def)

section \<open>Displacements\<close>

lemma parse_ident_off_at:
  assumes "suffix_at s pos (show_disp (DIdentOff x i) @ CHR ''('' # t)" "wf_ident x" "int32 i"
  shows "parse_disp s pos dest = Some (False, pos + length (show_disp (DIdentOff x i)),
    dest\<lparr>ar_deref_offset := Some i, ar_deref_ident := Some x\<rparr>)"
proof -
  let ?off = "if i < 0 then show_int i else ''+'' @ show_int i"
  have s1: "suffix_at s pos (x @ ?off @ CHR ''('' # t)"
    using assms(1) by simp
  have stop: "stops_name (?off @ CHR ''('' # t)" "head_char (?off @ CHR ''('' # t) \<in> {CHR ''+'', CHR ''-''}"
    by (simp_all add: show_int_def)
  have "parse_identifier s pos r = Some (pos + length x, Some x)" for r
    using s1 assms(2) stop(1) by (intro parse_identifier_at) auto
  moreover note s2 = suffix_at_drop [OF s1]
  moreover have "parse_number s (pos + length x) r = Some (pos + length x + length ?off, Some i)" for r
  proof (cases "i < 0")
    case True
    then show ?thesis
      using parse_number_show [of s "pos + length x" i] s2 assms(3) by simp
  next
    case False
    then show ?thesis
      using parse_number_plus [of s "pos + length x" "nat i" "CHR ''('' # t"] s2 assms(3) by (simp add: show_int_def int32_def nat_less_iff)
  qed
  ultimately show ?thesis
    using assms(2) char_at_head [OF s1] char_at_head [OF s2] wf_ident_head [of x] stop(2)
    by (auto simp: parse_disp_def Let_def)
qed

lemma parse_disp_at:
  assumes "suffix_at s pos (show_disp d @ CHR ''('' # t)" "wf_disp d" "ar_deref_ident dest = None"
  shows "parse_disp s pos dest = Some (False, pos + length (show_disp d),
    dest\<lparr>ar_deref_offset := Some (disp_offset d), ar_deref_ident := disp_ident d\<rparr>)"
proof (cases d)
  case DNone
  then show ?thesis
    using assms char_at_head [OF assms(1)] parse_identifier_none [OF assms(1)]
    by (simp add: parse_disp_def isdigit_def Let_def)
next
  case (DNum i)
  note n = parse_number_show [OF assms(1) [unfolded DNum show_disp.simps]]
  have "char_at s (pos + length (show_int i)) = Some (CHR ''('')"
    using char_at_head [OF suffix_at_drop [OF assms(1)]] DNum by simp
  then show ?thesis
    using DNum assms(2,3) char_at_head [OF assms(1)] show_int_head [of i] n
    by (auto simp: parse_disp_def Let_def)
next
  case (DNumIdent i x)
  have s1: "suffix_at s pos (show_int i @ CHR ''+'' # x @ CHR ''('' # t)"
    using assms(1) DNumIdent by simp
  note n = parse_number_show [OF s1]
  note p = suffix_at_Cons [OF suffix_at_drop [OF s1]]
  have "parse_identifier s (Suc (pos + length (show_int i))) r = Some (Suc (pos + length (show_int i)) + length x, Some x)" for r
    using p(2) assms(2) DNumIdent by (intro parse_identifier_at) auto
  then show ?thesis
    using DNumIdent assms(2,3) char_at_head [OF s1] show_int_head [of i] n p(1)
    by (auto simp: parse_disp_def Let_def)
next
  case (DIdent x)
  have s1: "suffix_at s pos (x @ CHR ''('' # t)"
    using assms(1) DIdent by simp
  have "parse_identifier s pos r = Some (pos + length x, Some x)" for r
    using s1 assms(2) DIdent by (intro parse_identifier_at) auto
  moreover have "char_at s (pos + length x) = Some (CHR ''('')"
    using char_at_head [OF suffix_at_drop [OF s1]] by simp
  ultimately show ?thesis
    using DIdent assms(2) char_at_head [OF s1] wf_ident_head [of x "CHR ''('' # t"]
    by (simp add: parse_disp_def Let_def)
next
  case (DIdentOff x i)
  then show ?thesis
    using parse_ident_off_at assms by simp
qed

section \<open>Operands\<close>

lemma parse_base_register_at:
  assumes "suffix_at s pos (CHR ''%'' # r @ t)" "is_reg r" "stops_name t"
  shows "parse_base_register s pos dest = Some (int (pos + 1 + length r),
    dest\<lparr>ar_base_register_name := Some (canon_reg r),
         ar_arg_size := Some (case ar_arg_size dest of None \<Rightarrow> reg_size r | Some n \<Rightarrow> n)\<rparr>)"
  using x64_parse_register_at [OF assms] by (cases "ar_arg_size dest") (simp_all add: parse_base_register_def Let_def)

lemma parse_close_at:
  "suffix_at s pos (CHR '')'' # t) \<Longrightarrow> parse_close s pos dest = Some (int pos + 1, dest)"
  by (simp add: parse_close_def suffix_at_Cons(1))

lemma parse_index_at:
  assumes "suffix_at s pos (show_index ix @ CHR '')'' # t)"
    "case ix of None \<Rightarrow> True | Some (r, sc) \<Rightarrow> is_reg r \<and> (case sc of None \<Rightarrow> True | Some k \<Rightarrow> int32 k)"
    "ar_index_register_name dest = None" "ar_scale dest = None"
  shows "parse_index s pos dest = Some (int (pos + length (show_index ix) + 1),
    dest\<lparr>ar_index_register_name := map_option (canon_reg \<circ> fst) ix, ar_scale := Option.bind ix snd\<rparr>)"
proof (cases ix rule: show_index.cases)
  case 1
  then show ?thesis
    using assms by (simp add: parse_index_def suffix_at_Cons(1) parse_close_at)
next
  case (2 r)
  have s1: "suffix_at s pos (CHR '','' # CHR ''%'' # r @ CHR '')'' # t)"
    using assms(1) 2 by simp
  note s2 = suffix_at_Cons [OF s1]
  note s3 = suffix_at_drop [OF suffix_at_Cons(2) [OF s2(2)]]
  have "x64_parse_register s (Suc pos) = Some (int (Suc pos + 1 + length r), Some (canon_reg r, reg_size r))"
    using assms(2) 2 by (intro x64_parse_register_at [OF s2(2)]) auto
  then show ?thesis
    using 2 assms(4) s2(1) suffix_at_Cons(1) [OF s3] parse_close_at [OF s3]
    by (simp add: parse_index_def parse_index_register_def nat_add_distrib algebra_simps)
next
  case (3 r sc)
  have s1: "suffix_at s pos (CHR '','' # CHR ''%'' # r @ CHR '','' # show_int sc @ CHR '')'' # t)"
    using assms(1) 3 by simp
  note s2 = suffix_at_Cons [OF s1]
  note s3 = suffix_at_drop [OF suffix_at_Cons(2) [OF s2(2)]]
  note s4 = suffix_at_Cons(2) [OF s3]
  note s5 = suffix_at_drop [OF s4]
  have "x64_parse_register s (Suc pos) = Some (int (Suc pos + 1 + length r), Some (canon_reg r, reg_size r))"
    using assms(2) 3 by (intro x64_parse_register_at [OF s2(2)]) auto
  moreover have "parse_number s (Suc (Suc (Suc pos) + length r)) q = Some (Suc (Suc (Suc pos) + length r) + length (show_int sc), Some sc)" for q
    using parse_number_show [OF s4] assms(2) 3 by simp
  ultimately show ?thesis
    using 3 s2(1) suffix_at_Cons(1) [OF s3] parse_close_at [OF s5]
    by (simp add: parse_index_def parse_index_register_def parse_scale_def nat_add_distrib algebra_simps)
qed

lemma digit_or_minus:
  assumes "isdigit c \<or> c = CHR ''-''"
  shows "c \<noteq> CHR ''$'' \<and> c \<noteq> CHR ''%'' \<and> \<not> isspace c \<and> c \<noteq> CHR 0x00"
  using assms by (auto simp: isdigit_def isspace_def)

lemma disp_head:
  assumes "wf_disp d"
  shows "head_char (show_disp d @ CHR ''('' # u) \<noteq> CHR ''$'' \<and> head_char (show_disp d @ CHR ''('' # u) \<noteq> CHR ''%'' \<and>
    \<not> isspace (head_char (show_disp d @ CHR ''('' # u)) \<and> head_char (show_disp d @ CHR ''('' # u) \<noteq> CHR 0x00"
proof (cases d)
  case DNone
  then show ?thesis
    by (simp add: isspace_def)
next
  case (DNum i)
  then show ?thesis
    using digit_or_minus [OF show_int_head [of i "CHR ''('' # u"]] by simp
next
  case (DNumIdent i x)
  then show ?thesis
    using digit_or_minus [OF show_int_head [of i "CHR ''+'' # x @ CHR ''('' # u"]] by simp
next
  case (DIdent x)
  then show ?thesis
    using wf_ident_head [of x "CHR ''('' # u"] assms by simp
next
  case (DIdentOff x i)
  then show ?thesis
    using wf_ident_head [of x "(if i < 0 then show_int i else ''+'' @ show_int i) @ CHR ''('' # u"] assms by simp
qed

text \<open>Without a size, a number at the start is a displacement, so no \<^verbatim>\<open>@\<close> follows it.\<close>

lemma no_size_at:
  assumes "suffix_at s pos (show_operand opd @ t)" "wf_operand opd"
    "isdigit (head_char (show_operand opd @ t)) \<or> head_char (show_operand opd @ t) = CHR ''-''"
  obtains m x c where "parse_number s pos None = Some (m, x)" "char_at s m = Some c" "c \<noteq> CHR ''@''"
proof -
  obtain d b ix where opd: "opd = XMem d b ix"
    using assms(3) by (cases opd) (auto simp: isdigit_def)
  have "\<exists>i u. show_operand opd @ t = show_int i @ u \<and> int32 i \<and> (head_char u = CHR ''('' \<or> head_char u = CHR ''+'')"
  proof (cases d)
    case (DNumIdent i x)
    then show ?thesis
      using assms(2) opd by (intro exI [of _ i] exI [of _ "''+'' @ x @ ''(%'' @ b @ show_index ix @ '')'' @ t"]) simp
  next
    case (DNum i)
    then show ?thesis
      using assms(2) opd by (intro exI [of _ i] exI [of _ "''(%'' @ b @ show_index ix @ '')'' @ t"]) simp
  next
    case DNone
    then show ?thesis
      using assms(3) opd by (simp add: isdigit_def)
  next
    case (DIdent x)
    then show ?thesis
      using assms(2,3) opd wf_ident_head [of x] by simp
  next
    case (DIdentOff x i)
    then show ?thesis
      using assms(2,3) opd wf_ident_head [of x] by simp
  qed
  then obtain i u where u: "show_operand opd @ t = show_int i @ u" "int32 i" "head_char u = CHR ''('' \<or> head_char u = CHR ''+''"
    by blast
  have s1: "suffix_at s pos (show_int i @ u)"
    using assms(1) by (simp only: u(1))
  have "num_stop 10 u"
    using u(3) by (cases u) auto
  then have "parse_number s pos None = Some (pos + length (show_int i), Some i)"
    using parse_number_show [OF s1] u(2) by simp
  then show ?thesis
    using that char_at_head [OF suffix_at_drop [OF s1]] u(3) by auto
qed

lemma parse_mem_at:
  assumes "suffix_at s pos (show_operand (XMem d b ix) @ t)" "wf_operand (XMem d b ix)"
  shows "parse_expr s pos (Argument_new\<lparr>ar_arg_size := sz\<rparr>) =
    Some (int (pos + length (show_operand (XMem d b ix))), x64_denotes (sz, XMem d b ix))"
proof -
  have s1: "suffix_at s pos (show_disp d @ CHR ''('' # CHR ''%'' # b @ show_index ix @ CHR '')'' # t)"
    using assms(1) by simp
  note s2 = suffix_at_Cons [OF suffix_at_drop [OF s1]]
  note s3 = suffix_at_drop [OF suffix_at_Cons(2) [OF s2(2)]]
  have first: "head_char (show_disp d @ CHR ''('' # u) \<noteq> CHR ''$''" "head_char (show_disp d @ CHR ''('' # u) \<noteq> CHR ''%''" for u
    using disp_head [of d u] assms(2) by simp_all
  have "stops_name (show_index ix @ CHR '')'' # t)"
    by (cases ix rule: show_index.cases) auto
  then have base: "parse_base_register s (Suc (pos + length (show_disp d))) dest = Some (int (Suc (pos + length (show_disp d)) + 1 + length b),
      dest\<lparr>ar_base_register_name := Some (canon_reg b),
           ar_arg_size := Some (case ar_arg_size dest of None \<Rightarrow> reg_size b | Some n \<Rightarrow> n)\<rparr>)" for dest
    using parse_base_register_at [OF s2(2)] assms(2) by simp
  have "parse_disp s pos (Argument_new\<lparr>ar_arg_size := sz\<rparr>) = Some (False, pos + length (show_disp d),
      Argument_new\<lparr>ar_arg_size := sz, ar_deref_offset := Some (disp_offset d), ar_deref_ident := disp_ident d\<rparr>)"
    using parse_disp_at [OF s1] assms(2) by (simp add: Argument_new_def)
  then show ?thesis
    using char_at_head [OF s1] first s2(1) base parse_index_at [OF s3] assms(2)
    by (simp add: parse_expr_def Argument_new_def nat_add_distrib algebra_simps)
qed

lemma parse_expr_at:
  assumes "suffix_at s pos (show_operand opd @ t)" "wf_operand opd" "t = [] \<or> isspace (hd t)"
  shows "parse_expr s pos (Argument_new\<lparr>ar_arg_size := sz\<rparr>) =
    Some (int (pos + length (show_operand opd)), x64_denotes (sz, opd))"
proof (cases opd)
  case (XConst k)
  then show ?thesis
    using suffix_at_Cons [of s pos "CHR ''$''" "show_int k @ t"] assms num_stop_space [OF assms(3)]
      parse_number_ll_show [of s "Suc pos" k t]
    by (simp add: parse_expr_def)
next
  case (XReg r)
  then show ?thesis
    using suffix_at_Cons [of s pos "CHR ''%''" "r @ t"] assms stops_name_space [OF assms(3)]
      parse_base_register_at [of s pos r t]
    by (simp add: parse_expr_def Argument_new_def)
next
  case (XMem d b ix)
  then show ?thesis
    using parse_mem_at assms by simp
qed

lemma parse_1_at:
  assumes "suffix_at s pos (show_x64 a @ t)" "wf_x64 a" "t = [] \<or> isspace (hd t)"
  shows "parse_1 s pos Argument_new = Some (int (pos + length (show_x64 a)), x64_denotes a)"
proof (cases "fst a")
  case (Some sz)
  have s1: "suffix_at s pos (show_int sz @ CHR ''@'' # show_operand (snd a) @ t)"
    using assms(1) Some by (simp add: show_x64_def)
  note s2 = suffix_at_Cons [OF suffix_at_drop [OF s1]]
  have "parse_number s pos None = Some (pos + length (show_int sz), Some sz)"
    using parse_number_show [OF s1] assms(2) Some by (simp add: wf_x64_def)
  moreover have "parse_expr s (Suc (pos + length (show_int sz))) (Argument_new\<lparr>ar_arg_size := Some sz\<rparr>) =
      Some (int (Suc (pos + length (show_int sz)) + length (show_operand (snd a))), x64_denotes (Some sz, snd a))"
    using parse_expr_at [OF s2(2) _ assms(3)] assms(2) by (simp add: wf_x64_def)
  moreover have "isdigit (head_char (show_int sz @ u)) \<or> head_char (show_int sz @ u) = CHR ''-''" for u
    by (rule show_int_head)
  ultimately show ?thesis
    using Some char_at_head [OF s1] s2(1) by (cases a) (simp add: parse_1_def show_x64_def)
next
  case None
  have s1: "suffix_at s pos (show_operand (snd a) @ t)"
    using assms(1) None by (simp add: show_x64_def)
  have *: "parse_expr s pos Argument_new = Some (int (pos + length (show_operand (snd a))), x64_denotes (None, snd a))"
    using parse_expr_at [OF s1 _ assms(3), of None] assms(2) by (simp add: wf_x64_def Argument_new_def)
  show ?thesis
  proof (cases "isdigit (head_char (show_operand (snd a) @ t)) \<or> head_char (show_operand (snd a) @ t) = CHR ''-''")
    case True
    obtain m x c where "parse_number s pos None = Some (m, x)" "char_at s m = Some c" "c \<noteq> CHR ''@''"
      using no_size_at [OF s1 _ True] assms(2) by (auto simp: wf_x64_def)
    then show ?thesis
      using * None char_at_head [OF s1] by (cases a) (simp add: parse_1_def show_x64_def)
  next
    case False
    then show ?thesis
      using * None char_at_head [OF s1] by (cases a) (simp add: parse_1_def show_x64_def)
  qed
qed

lemma x64_show_head:
  assumes "wf_x64 a"
  shows "\<not> isspace (head_char (show_x64 a @ rest)) \<and> head_char (show_x64 a @ rest) \<noteq> CHR 0x00"
proof (cases "fst a")
  case None
  then show ?thesis
    using assms disp_head by (cases "snd a") (auto simp: show_x64_def wf_x64_def isspace_def)
next
  case (Some sz)
  then show ?thesis
    using digit_or_minus [OF show_int_head [of sz "''@'' @ show_operand (snd a) @ rest"]] by (simp add: show_x64_def)
qed

lemma x64_parse_show:
  assumes "wf_x64 a" "suffix_at (ap_arg p) (ap_cur_pos p) (show_x64 a @ rest)" "rest = [] \<or> isspace (hd rest)"
  shows "x64_parse p Argument_new =
    Some (Some (x64_denotes a), p\<lparr>ap_cur_pos := ap_cur_pos p + length (show_x64 a) + length (takeWhile isspace rest)\<rparr>)"
proof -
  note r = suffix_at_drop [OF assms(2)]
  have "\<not> parser_done p"
    using x64_show_head [OF assms(1), of rest] char_at_head [OF assms(2)] by (simp add: parser_done_def)
  moreover have "head_char rest = CHR 0x00 \<or> isspace (head_char rest)"
    using assms(3) by (cases rest) auto
  ultimately show ?thesis
    using parse_1_at [OF assms(2,1,3)] char_at_head [OF r] skip_whitespace_at [OF r]
    by (auto simp: x64_parse_def simp del: of_nat_add)
qed

interpretation x64_syntax: arg_syntax x64_parse show_x64 wf_x64 x64_denotes
  by unfold_locales (rule x64_parse_show x64_show_head; assumption)+

definition x64_sample :: "x64_arg list" where
  "x64_sample = [(Some (- 4), XReg ''eax''), (Some 8, XMem (DNum (- 16)) ''rbp'' (Some (''rcx'', Some 8))),
     (None, XConst 0), (Some 2, XMem (DIdentOff ''table'' 4) ''rip'' None)]"

lemma x64_sample_ok:
  "list_all wf_x64 x64_sample" "join_args show_x64 x64_sample = ''-4@%eax 8@-16(%rbp,%rcx,8) $0 2@table+4(%rip)''"
  by code_simp+

section \<open>After an error\<close>

lemma skip_while_stops: "skip_while P s pos = Some q \<Longrightarrow> \<exists>c. char_at s q = Some c \<and> \<not> P c"
proof (induction P s pos rule: skip_while.induct)
  case (1 P s pos)
  then show ?case
    by (subst (asm) (2) skip_while.simps) (auto split: option.splits if_splits)
qed

definition at_blank :: "ArgumentParser \<Rightarrow> bool" where
  "at_blank p \<longleftrightarrow> 0 < ap_cur_pos p \<and> (\<exists>c. char_at (ap_arg p) (ap_cur_pos p) = Some c \<and> isspace c)"

lemma error_return_stops:
  assumes "error_return e k p = Some (r, p')"
  shows "parser_done p' \<or> (\<exists>c. char_at (ap_arg p') (ap_cur_pos p') = Some c \<and> isspace c)"
  using assms
  by (auto simp: error_return_def skip_until_whitespace_from_def parser_done_def Let_def
      split: Option.bind_splits dest!: skip_while_stops)

lemma x64_parse_at_blank:
  assumes "at_blank p"
  shows "x64_parse p dest = error_return (ap_cur_pos p) (ap_cur_pos p + 1) p"
proof -
  obtain c where c: "char_at (ap_arg p) (ap_cur_pos p) = Some c" "isspace c" and pos: "0 < ap_cur_pos p"
    using assms by (auto simp: at_blank_def)
  have n: "\<not> isdigit c" "\<not> isalpha c" "c \<notin> set ''$%_-+(''" "c \<noteq> CHR 0x00"
    using c(2) by (auto simp: isspace_def isdigit_def isalpha_def)
  have "parse_expr (ap_arg p) (ap_cur_pos p) dest =
      Some (- int (ap_cur_pos p), dest\<lparr>ar_deref_offset := Some 0, ar_deref_ident := ar_deref_ident dest\<rparr>)"
    using c(1) n by (simp add: parse_expr_def parse_disp_def parse_identifier_def)
  then show ?thesis
    using c(1) n pos by (simp add: x64_parse_def parse_1_def parser_done_def)
qed

lemma x64_parse_failed:
  assumes "\<not> parser_done p" "x64_parse p dest = Some (None, p')"
  shows "parser_done p' \<or> at_blank p'"
proof -
  have "ap_cur_pos p + 1 \<le> ap_cur_pos p'"
    using x64_parse_progress [OF assms] by (simp add: moved_def)
  moreover have "parser_done p' \<or> (\<exists>c. char_at (ap_arg p') (ap_cur_pos p') = Some c \<and> isspace c)"
    using assms by (auto simp: x64_parse_def split: Option.bind_splits if_splits dest!: error_return_stops)
  ultimately show ?thesis
    by (auto simp: at_blank_def)
qed

lemma x64_loop_at_blank:
  "parser_done p \<or> at_blank p \<Longrightarrow> arguments_loop x64_parse n p args \<in> {Finished args, Timeout, Fault}"
proof (induction n arbitrary: p)
  case (Suc n)
  have "arguments_loop x64_parse n p' args \<in> {Finished args, Timeout, Fault}"
    if "\<not> parser_done p" "x64_parse p Argument_new = Some (None, p')" for p'
    using Suc.IH x64_parse_failed [OF that] by simp
  moreover have "r = None" if "\<not> parser_done p" "x64_parse p Argument_new = Some (r, p')" for r p'
    using x64_parse_at_blank Suc.prems that error_return_moved by metis
  ultimately show ?case
    by (auto split: option.splits)
qed simp

text \<open>
  (C40) On x86-64 one malformed argument makes the rest of the description be ignored: once a call of the
  parser has failed, no argument that follows is collected, whatever it is.  The parser stops at the blank
  before the next argument, which it does not skip but reports as an error again.  The loop ends within an iteration for each
  character, with the arguments collected before the error, unless skipping the malformed argument runs past the end of the string.
\<close>

theorem x64_error_drops_rest:
  assumes "\<not> parser_done p" "x64_parse p Argument_new = Some (None, p')"
    and "ap_cur_pos p \<le> length (ap_arg p)" "length (ap_arg p) < n + ap_cur_pos p"
  shows "arguments_loop (arch_parse X64) n p args \<in> {Finished args, Fault}"
proof -
  have "arguments_loop x64_parse n p args \<noteq> Timeout"
    using x64.loop_ends assms(3,4) by blast
  moreover have "arguments_loop x64_parse n p args \<in> {Finished args, Timeout, Fault}"
    using x64_loop_at_blank [OF x64_parse_failed [OF assms(1,2)], of "n - 1" args] assms(1,2) by (cases n) simp_all
  ultimately show ?thesis
    by auto
qed

theorem x64_error_drops_rest_witness:
  "\<not> parser_done (ArgumentParser_new ''8@%foo 8@%rax'') \<and>
   (\<exists>p'. x64_parse (ArgumentParser_new ''8@%foo 8@%rax'') Argument_new = Some (None, p')) \<and>
   arguments_loop (arch_parse X64) 14 (ArgumentParser_new ''8@%foo 8@%rax'') [] \<in> {Finished [], Fault} \<and>
   arguments_loop (arch_parse X64) 14 (ArgumentParser_new ''8@%foo 8@%rax'') [] = Finished []"
proof -
  let ?p = "ArgumentParser_new ''8@%foo 8@%rax''"
  have 1: "\<not> parser_done ?p"
    by code_simp
  have 2: "x64_parse ?p Argument_new = Some (None, snd (the (x64_parse ?p Argument_new)))"
    by code_simp
  have 3: "arguments_loop (arch_parse X64) 14 ?p [] = Finished []"
    by code_simp
  show ?thesis
    using 1 2 3 x64_error_drops_rest [OF 1 2, of 14 "[]"] unfolding ArgumentParser_new_def by fastforce
qed

end
