(* ===== verification/Usdt_Sized.thy ===== *)
theory Usdt_Sized
  imports Usdt_X64
begin

text \<open>
  The syntax of USDT arguments on aarch64 and loongarch64, which differ in how registers are written.  A parser of
  registers that reads what is printed gives a parser of arguments that does, so the syntax of arguments is a sublocale.  A memory operand
  without an offset stands for the memory at the register; the parser for loongarch64 does not read it as such.
\<close>

section \<open>The syntax\<close>

datatype usdt_reg = Reg nat | Sp

datatype mem_off = MNone | MOff int | MIndex usdt_reg

datatype sized_operand = SConst int | SReg usdt_reg | SMem usdt_reg mem_off

type_synonym sized_arg = "int \<times> sized_operand"

fun show_mem_off :: "(usdt_reg \<Rightarrow> string) \<Rightarrow> mem_off \<Rightarrow> string" where
  "show_mem_off show_reg MNone = []"
| "show_mem_off show_reg (MOff i) = '','' @ show_int i"
| "show_mem_off show_reg (MIndex r) = '','' @ show_reg r"

fun show_sized_operand :: "(usdt_reg \<Rightarrow> string) \<Rightarrow> sized_operand \<Rightarrow> string" where
  "show_sized_operand show_reg (SConst k) = show_int k"
| "show_sized_operand show_reg (SReg r) = show_reg r"
| "show_sized_operand show_reg (SMem b m) = ''['' @ show_reg b @ show_mem_off show_reg m @ '']''"

definition show_sized :: "(usdt_reg \<Rightarrow> string) \<Rightarrow> sized_arg \<Rightarrow> string" where
  "show_sized show_reg a = show_int (fst a) @ ''@'' @ show_sized_operand show_reg (snd a)"

fun wf_reg :: "usdt_reg \<Rightarrow> bool" where
  "wf_reg (Reg n) = (n < 32)"
| "wf_reg Sp = True"

fun wf_mem_off :: "mem_off \<Rightarrow> bool" where
  "wf_mem_off MNone = True"
| "wf_mem_off (MOff i) = int32 i"
| "wf_mem_off (MIndex r) = wf_reg r"

fun wf_sized :: "sized_arg \<Rightarrow> bool" where
  "wf_sized (sz, SConst k) = (\<bar>sz\<bar> \<in> {1, 2, 4, 8} \<and> - (2 ^ 63) \<le> k \<and> k < 2 ^ 63)"
| "wf_sized (sz, SReg r) = (\<bar>sz\<bar> \<in> {1, 2, 4, 8} \<and> wf_reg r)"
| "wf_sized (sz, SMem b m) = (\<bar>sz\<bar> \<in> {1, 2, 4, 8} \<and> wf_reg b \<and> wf_mem_off m)"

text \<open>A memory operand that is written without an offset.\<close>

fun bare_mem :: "sized_arg \<Rightarrow> bool" where
  "bare_mem (sz, SMem b MNone) = True"
| "bare_mem _ = False"

text \<open>\<open>sp\<close> is the number that stands for the stack pointer.  An offset that is not written is 0.\<close>

fun reg_field :: "nat \<Rightarrow> usdt_reg \<Rightarrow> string" where
  "reg_field sp (Reg n) = (if n = sp then ''sp'' else ''regs['' @ show_int (int n) @ '']'')"
| "reg_field sp Sp = ''sp''"

fun mem_denotes :: "nat \<Rightarrow> mem_off \<Rightarrow> Argument \<Rightarrow> Argument" where
  "mem_denotes sp MNone a = a\<lparr>ar_deref_offset := Some 0\<rparr>"
| "mem_denotes sp (MOff i) a = a\<lparr>ar_deref_offset := Some i\<rparr>"
| "mem_denotes sp (MIndex r) a = a\<lparr>ar_deref_offset := Some 0, ar_index_register_name := Some (reg_field sp r), ar_scale := Some 1\<rparr>"

fun sized_denotes :: "nat \<Rightarrow> sized_arg \<Rightarrow> Argument" where
  "sized_denotes sp (sz, SConst k) = Argument_new\<lparr>ar_arg_size := Some sz, ar_constant := Some k\<rparr>"
| "sized_denotes sp (sz, SReg r) = Argument_new\<lparr>ar_arg_size := Some sz, ar_base_register_name := Some (reg_field sp r)\<rparr>"
| "sized_denotes sp (sz, SMem b m) =
     mem_denotes sp m (Argument_new\<lparr>ar_arg_size := Some sz, ar_base_register_name := Some (reg_field sp b)\<rparr>)"

section \<open>From registers to arguments\<close>

lemma sized_int32: "\<bar>sz\<bar> \<in> {1, 2, 4, 8} \<Longrightarrow> int32 sz"
  by (auto simp: int32_def)

lemma parse_size_at:
  assumes "suffix_at (ap_arg p) pos (show_int sz @ CHR ''@'' # t)" "\<bar>sz\<bar> \<in> {1, 2, 4, 8}"
  shows "parse_size pos p = Some (Some (pos + length (show_int sz), sz), p)"
proof -
  have "show_int sz \<noteq> []"
    by (simp add: show_int_def)
  then show ?thesis
    using parse_number_show [OF assms(1) _ sized_int32 [OF assms(2)]] assms(2) by (auto simp: parse_size_def)
qed

lemma show_int_no_reg:
  assumes "c \<in> {CHR ''x'', CHR ''$''}"
  shows "head_char (show_int i @ t) \<noteq> c" "head_char (show_int i @ t) \<noteq> CHR ''s''" "head_char (show_int i @ t) \<noteq> CHR ''[''"
  using show_int_head [of i t] assms by (auto simp: isdigit_def)

lemma scan_base0_letter:
  assumes "c \<in> {CHR ''x'', CHR ''$'', CHR ''s''}"
  shows "scan_base0 (c # t) = None"
proof -
  have "\<not> isspace c" "\<not> isdigit c" "c \<noteq> CHR ''0''" "c \<noteq> CHR ''-''" "c \<noteq> CHR ''+''"
    using assms by (auto simp: isspace_def isdigit_def)
  then show ?thesis
    by (simp add: scan_base0_def skip_ws_def num_base_def base_digit_def is_digit_of_def)
qed

text \<open>The flag \<open>zero\<close> says whether the parser sets the offset of an operand that is written without one.\<close>

locale sized_syntax =
  fixes reg_char :: char and zero :: bool and sp :: nat
    and parse_register :: "nat \<Rightarrow> ArgumentParser \<Rightarrow> (nat \<times> string) parsed"
    and show_reg :: "usdt_reg \<Rightarrow> string"
  assumes register_at: "wf_reg r \<Longrightarrow> suffix_at (ap_arg p) pos (show_reg r @ t) \<Longrightarrow> num_stop 10 t \<Longrightarrow>
        parse_register pos p = Some (Some (pos + length (show_reg r), reg_field sp r), p)"
    and reg_head: "head_char (show_reg r @ t) = reg_char \<or> head_char (show_reg r @ t) = CHR ''s''"
    and reg_char: "reg_char \<in> {CHR ''x'', CHR ''$''}"
begin

lemma head_reg: "head_char (show_reg r @ t) \<in> {CHR ''x'', CHR ''$'', CHR ''s''}"
  using reg_head [of r t] reg_char by auto

lemma parse_mem_off_at:
  assumes "wf_reg r" "suffix_at (ap_arg p) pos (show_reg r @ t)" "num_stop 10 t"
  shows "mem_offset parse_register pos p dest = Some (Some (pos + length (show_reg r),
     dest\<lparr>ar_index_register_name := Some (reg_field sp r), ar_scale := Some 1, ar_deref_offset := Some 0\<rparr>), p\<lparr>ap_cur_pos := pos\<rparr>)"
proof -
  obtain c u where c: "show_reg r @ t = c # u" "c \<in> {CHR ''x'', CHR ''$'', CHR ''s''}"
    using head_reg [of r t] by (cases "show_reg r @ t") auto
  have "scan_base0 (show_reg r @ t) = None"
    unfolding c(1) using c(2) by (rule scan_base0_letter)
  then have "parse_number (ap_arg p) pos off = Some (pos, off)" for off
    using assms(2) by (simp add: parse_number_def parse_number_at_def suffix_at_def)
  moreover have "skip_whitespace_from pos p = Some (p\<lparr>ap_cur_pos := pos\<rparr>)"
    using skip_whitespace_at [OF assms(2)] c by (auto simp: isspace_def)
  ultimately show ?thesis
    using register_at [of r "p\<lparr>ap_cur_pos := pos\<rparr>" pos t] assms by (simp add: mem_offset_def)
qed

lemma sized_mem_at:
  assumes "wf_reg b" "wf_mem_off m" "suffix_at (ap_arg p) pos (show_reg b @ show_mem_off show_reg m @ CHR '']'' # t)"
    "zero \<or> m \<noteq> MNone"
  shows "\<exists>q. parse_mem zero parse_register pos p dest =
    Some (Some (pos + length (show_reg b) + length (show_mem_off show_reg m) + 1,
      mem_denotes sp m (dest\<lparr>ar_base_register_name := Some (reg_field sp b)\<rparr>)), p\<lparr>ap_cur_pos := q\<rparr>)"
proof -
  have reg: "parse_register pos p = Some (Some (pos + length (show_reg b), reg_field sp b), p)"
    using register_at [OF assms(1,3)] by (cases m) simp_all
  note s1 = suffix_at_drop [OF assms(3)]
  let ?n = "pos + length (show_reg b)"
  show ?thesis
  proof (cases m)
    case MNone
    then show ?thesis
      using reg suffix_at_Cons [of "ap_arg p" ?n "CHR '']''" t] s1 assms(4)
      by (intro exI [of _ "ap_cur_pos p"]) (simp add: parse_mem_def)
  next
    case (MOff i)
    have s2: "suffix_at (ap_arg p) (Suc ?n) (show_int i @ CHR '']'' # t)" "char_at (ap_arg p) ?n = Some (CHR '','')"
      using suffix_at_Cons [of "ap_arg p" ?n "CHR '',''" "show_int i @ CHR '']'' # t"] s1 MOff by simp_all
    have "parse_number (ap_arg p) (Suc ?n) r = Some (Suc ?n + length (show_int i), Some i)" for r
      using parse_number_show [OF s2(1)] assms(2) MOff by simp
    moreover have "show_int i \<noteq> []"
      by (simp add: show_int_def)
    ultimately show ?thesis
      using reg MOff s2(2) suffix_at_Cons(1) [OF suffix_at_drop [OF s2(1)]]
      by (intro exI [of _ "ap_cur_pos p"]) (simp add: parse_mem_def mem_offset_def)
  next
    case (MIndex r)
    have s2: "suffix_at (ap_arg p) (Suc ?n) (show_reg r @ CHR '']'' # t)" "char_at (ap_arg p) ?n = Some (CHR '','')"
      using suffix_at_Cons [of "ap_arg p" ?n "CHR '',''" "show_reg r @ CHR '']'' # t"] s1 MIndex by simp_all
    show ?thesis
      using reg MIndex s2(2) suffix_at_Cons(1) [OF suffix_at_drop [OF s2(1)]] parse_mem_off_at [OF _ s2(1)] assms(2)
      by (intro exI [of _ "Suc ?n"]) (simp add: parse_mem_def)
  qed
qed

lemma parse_operand_at:
  assumes "wf_sized (sz, opd)" "suffix_at (ap_arg p) pos (show_sized_operand show_reg opd @ t)" "num_stop 10 t"
    "zero \<or> \<not> bare_mem (sz, opd)"
  shows "\<exists>q. parse_operand reg_char zero parse_register pos p (Argument_new\<lparr>ar_arg_size := Some sz\<rparr>) =
    Some (Some (pos + length (show_sized_operand show_reg opd), sized_denotes sp (sz, opd)),
      p\<lparr>ap_cur_pos := q\<rparr>)"
proof (cases opd)
  case (SConst k)
  have s1: "suffix_at (ap_arg p) pos (show_int k @ t)"
    using assms(2) SConst by simp
  have "show_int k \<noteq> []"
    by (simp add: show_int_def)
  then show ?thesis
    using parse_number_ll_show [OF s1 assms(3), of None] assms(1) SConst char_at_head [OF s1] show_int_no_reg [OF reg_char, of k t]
    by (intro exI [of _ "ap_cur_pos p"]) (simp add: parse_operand_def)
next
  case (SReg r)
  have s1: "suffix_at (ap_arg p) pos (show_reg r @ t)"
    using assms(2) SReg by simp
  show ?thesis
    using register_at [OF _ s1 assms(3)] assms(1) SReg char_at_head [OF s1] reg_head [of r t]
    by (intro exI [of _ "ap_cur_pos p"]) (simp add: parse_operand_def)
next
  case (SMem b m)
  have s1: "suffix_at (ap_arg p) pos (CHR ''['' # show_reg b @ show_mem_off show_reg m @ CHR '']'' # t)"
    using assms(2) SMem by simp
  obtain q where "parse_mem zero parse_register (Suc pos) p (Argument_new\<lparr>ar_arg_size := Some sz\<rparr>) =
    Some (Some (Suc pos + length (show_reg b) + length (show_mem_off show_reg m) + 1,
      mem_denotes sp m (Argument_new\<lparr>ar_arg_size := Some sz, ar_base_register_name := Some (reg_field sp b)\<rparr>)), p\<lparr>ap_cur_pos := q\<rparr>)"
    using sized_mem_at [OF _ _ suffix_at_Cons(2) [OF s1], of "Argument_new\<lparr>ar_arg_size := Some sz\<rparr>"] assms(1,4) SMem
    by (cases m) auto
  moreover have "CHR ''['' \<noteq> reg_char"
    using reg_char by auto
  ultimately show ?thesis
    using SMem suffix_at_Cons(1) [OF s1] by (intro exI [of _ q]) (simp add: parse_operand_def)
qed

lemma parse_sized_show:
  assumes "wf_sized a \<and> (zero \<or> \<not> bare_mem a)" "suffix_at (ap_arg p) (ap_cur_pos p) (show_sized show_reg a @ rest)" "rest = [] \<or> isspace (hd rest)"
  shows "parse_sized reg_char zero parse_register p Argument_new = Some (Some (sized_denotes sp a),
    p\<lparr>ap_cur_pos := ap_cur_pos p + length (show_sized show_reg a) + length (takeWhile isspace rest)\<rparr>)"
proof -
  obtain sz opd where a: "a = (sz, opd)"
    by fastforce
  have s1: "suffix_at (ap_arg p) (ap_cur_pos p) (show_int sz @ CHR ''@'' # show_sized_operand show_reg opd @ rest)"
    using assms(2) a by (simp add: show_sized_def)
  note s2 = suffix_at_Cons [OF suffix_at_drop [OF s1]]
  have "\<bar>sz\<bar> \<in> {1, 2, 4, 8}"
    using assms(1) a by (cases opd) auto
  note size = parse_size_at [OF s1 this]
  obtain q where q: "parse_operand reg_char zero parse_register (Suc (ap_cur_pos p + length (show_int sz))) p
      (Argument_new\<lparr>ar_arg_size := Some sz\<rparr>) =
    Some (Some (Suc (ap_cur_pos p + length (show_int sz)) + length (show_sized_operand show_reg opd), sized_denotes sp (sz, opd)),
      p\<lparr>ap_cur_pos := q\<rparr>)"
    using parse_operand_at [OF _ s2(2) num_stop_space [OF assms(3)], of sz] assms(1) a by auto
  have "\<not> parser_done p"
    using digit_or_minus [OF show_int_head [of sz]] char_at_head [OF s1] by (simp add: parser_done_def)
  moreover have "skip_whitespace_from (Suc (ap_cur_pos p + length (show_int sz)) + length (show_sized_operand show_reg opd)) (p\<lparr>ap_cur_pos := q\<rparr>) =
      Some (p\<lparr>ap_cur_pos := Suc (ap_cur_pos p + length (show_int sz)) + length (show_sized_operand show_reg opd) + length (takeWhile isspace rest)\<rparr>)"
    using skip_whitespace_at [of "p\<lparr>ap_cur_pos := q\<rparr>"] suffix_at_drop [OF s2(2)] by simp
  ultimately show ?thesis
    using size s2(1) q a by (simp add: parse_sized_def show_sized_def)
qed

sublocale arg_syntax "parse_sized reg_char zero parse_register" "show_sized show_reg" "\<lambda>a. wf_sized a \<and> (zero \<or> \<not> bare_mem a)" "sized_denotes sp"
proof unfold_locales
  show "\<not> isspace (head_char (show_sized show_reg a @ rest)) \<and> head_char (show_sized show_reg a @ rest) \<noteq> CHR 0x00" for a rest
    using digit_or_minus [OF show_int_head [of "fst a" "''@'' @ show_sized_operand show_reg (snd a) @ rest"]]
    by (simp add: show_sized_def)
qed (rule parse_sized_show)

end

section \<open>Registers\<close>

fun aarch64_reg_text :: "usdt_reg \<Rightarrow> string" where
  "aarch64_reg_text (Reg n) = ''x'' @ show_int (int n)"
| "aarch64_reg_text Sp = ''sp''"

fun loongarch64_reg_text :: "usdt_reg \<Rightarrow> string" where
  "loongarch64_reg_text (Reg n) = ''$r'' @ show_int (int n)"
| "loongarch64_reg_text Sp = ''sp''"

lemma reg_number_at:
  assumes "suffix_at (ap_arg p) pos (show_int (int n) @ t)" "num_stop 10 t" "n < 32"
  shows "reg_number pos (int k) p = Some (Some (pos + length (show_int (int n)), reg_field k (Reg n)), p)"
proof -
  have "show_int (int n) \<noteq> []"
    by (simp add: show_int_def)
  then show ?thesis
    using parse_number_show [OF assms(1,2), of None] assms(3) by (simp add: reg_number_def int32_def)
qed

interpretation aarch64_syntax: sized_syntax "CHR ''x''" True 31 aarch64_parse_register aarch64_reg_text
proof unfold_locales
  fix r and p :: ArgumentParser and pos t
  assume a: "wf_reg r" "suffix_at (ap_arg p) pos (aarch64_reg_text r @ t)" "num_stop 10 t"
  show "aarch64_parse_register pos p = Some (Some (pos + length (aarch64_reg_text r), reg_field 31 r), p)"
  proof (cases r)
    case (Reg n)
    then show ?thesis
      using a suffix_at_Cons [of "ap_arg p" pos "CHR ''x''" "show_int (int n) @ t"] reg_number_at [of p "Suc pos" n t 31]
      by (simp add: aarch64_parse_register_def)
  next
    case Sp
    then show ?thesis
      using a suffix_at_Cons [of "ap_arg p" pos "CHR ''s''" "CHR ''p'' # t"]
        suffix_at_Cons(1) [of "ap_arg p" "Suc pos" "CHR ''p''" t]
      by (simp add: aarch64_parse_register_def)
  qed
next
  show "head_char (aarch64_reg_text r @ t) = CHR ''x'' \<or> head_char (aarch64_reg_text r @ t) = CHR ''s''" for r t
    by (cases r) simp_all
qed simp

interpretation loongarch64_syntax: sized_syntax "CHR ''$''" False 3 loongarch64_parse_register loongarch64_reg_text
proof unfold_locales
  fix r and p :: ArgumentParser and pos t
  assume a: "wf_reg r" "suffix_at (ap_arg p) pos (loongarch64_reg_text r @ t)" "num_stop 10 t"
  show "loongarch64_parse_register pos p = Some (Some (pos + length (loongarch64_reg_text r), reg_field 3 r), p)"
  proof (cases r)
    case (Reg n)
    have s1: "suffix_at (ap_arg p) pos (CHR ''$'' # CHR ''r'' # show_int (int n) @ t)"
      using a Reg by simp
    note s2 = suffix_at_Cons [OF s1]
    show ?thesis
      using a Reg s2(1) suffix_at_Cons [OF s2(2)] reg_number_at [of p "Suc (Suc pos)" n t 3]
      by (simp add: loongarch64_parse_register_def)
  next
    case Sp
    then show ?thesis
      using a suffix_at_Cons [of "ap_arg p" pos "CHR ''s''" "CHR ''p'' # t"]
        suffix_at_Cons(1) [of "ap_arg p" "Suc pos" "CHR ''p''" t]
      by (simp add: loongarch64_parse_register_def)
  qed
next
  show "head_char (loongarch64_reg_text r @ t) = CHR ''$'' \<or> head_char (loongarch64_reg_text r @ t) = CHR ''s''" for r t
    by (cases r) simp_all
qed simp

text \<open>
  (C26) The arguments of a probe are what its description says: a description that is printed from any
  list of well-formed operands is parsed as exactly these arguments.  On x86-64 these are constants,
  registers of any width, and memory operands with displacement, symbol, index and scale; on aarch64 and
  loongarch64 constants, registers, and memory operands with an offset or an index register.  On aarch64 a memory operand may
  also be written without an offset, which is then 0; for loongarch64 these are excluded, since its parser does not set the offset.
\<close>

theorem arguments_roundtrip:
  assumes "list_all wf_x64 as" "list_all wf_sized bs" "list_all (\<lambda>a. wf_sized a \<and> \<not> bare_mem a) cs"
  shows "arguments_loop (arch_parse X64) (length (join_args show_x64 as) + 1) (ArgumentParser_new (join_args show_x64 as)) [] =
      Finished (map x64_denotes as) \<and>
    (let text = join_args (show_sized aarch64_reg_text) bs in
       arguments_loop (arch_parse Aarch64) (length text + 1) (ArgumentParser_new text) [] = Finished (map (sized_denotes 31) bs)) \<and>
    (let text = join_args (show_sized loongarch64_reg_text) cs in
       arguments_loop (arch_parse Loongarch64) (length text + 1) (ArgumentParser_new text) [] = Finished (map (sized_denotes 3) cs))"
  using x64_syntax.loop_roundtrip [OF assms(1)] aarch64_syntax.loop_roundtrip [of bs] loongarch64_syntax.loop_roundtrip [of cs] assms(2,3)
  by (simp add: aarch64_parse_def loongarch64_parse_def Let_def del: arguments_loop.simps)

text \<open>
  The parser for loongarch64 leaves the offset of such an operand unset, so that the argument is taken to be the register itself.
\<close>

lemma loongarch64_bare_mem_unset:
  "arguments_loop (arch_parse Loongarch64) 9 (ArgumentParser_new ''8@[$r12]'') [] =
     Finished [Argument_new\<lparr>ar_arg_size := Some 8, ar_base_register_name := Some ''regs[12]''\<rparr>] \<and>
   sized_denotes 3 (8, SMem (Reg 12) MNone) =
     Argument_new\<lparr>ar_arg_size := Some 8, ar_base_register_name := Some ''regs[12]'', ar_deref_offset := Some 0\<rparr>"
  by code_simp

definition sized_sample :: "sized_arg list" where
  "sized_sample = [(- 4, SReg (Reg 5)), (8, SMem Sp (MOff 16)), (1, SMem (Reg 0) (MIndex (Reg 1))), (8, SMem (Reg 2) MNone), (2, SConst (- 7))]"

lemma sized_sample_ok:
  "list_all wf_sized sized_sample"
  "join_args (show_sized aarch64_reg_text) sized_sample = ''-4@x5 8@[sp,16] 1@[x0,x1] 8@[x2] 2@-7''"
  "list_all (\<lambda>a. wf_sized a \<and> \<not> bare_mem a) (filter (Not \<circ> bare_mem) sized_sample)"
  "join_args (show_sized loongarch64_reg_text) (filter (Not \<circ> bare_mem) sized_sample) = ''-4@$r5 8@[sp,16] 1@[$r0,$r1] 2@-7''"
  by code_simp+

theorem arguments_roundtrip_witness:
  "list_all wf_x64 x64_sample \<and> list_all wf_sized sized_sample \<and>
   (let text = ''-4@%eax 8@-16(%rbp,%rcx,8) $0 2@table+4(%rip)'' in
      arguments_loop (arch_parse X64) (length text + 1) (ArgumentParser_new text) [] = Finished (map x64_denotes x64_sample)) \<and>
   (let text = ''-4@x5 8@[sp,16] 1@[x0,x1] 8@[x2] 2@-7'' in
      arguments_loop (arch_parse Aarch64) (length text + 1) (ArgumentParser_new text) [] =
        Finished (map (sized_denotes 31) sized_sample)) \<and>
   (let text = ''-4@$r5 8@[sp,16] 1@[$r0,$r1] 2@-7'' in
      arguments_loop (arch_parse Loongarch64) (length text + 1) (ArgumentParser_new text) [] =
        Finished (map (sized_denotes 3) (filter (Not \<circ> bare_mem) sized_sample)))"
  using arguments_roundtrip [OF x64_sample_ok(1) sized_sample_ok(1,3), unfolded x64_sample_ok(2) sized_sample_ok(2,4)]
    x64_sample_ok(1) sized_sample_ok(1)
  unfolding Let_def by blast

end
