(* ===== verification/Usdt.thy ===== *)
theory Usdt
  imports Usdt_Parse Ld_Cache Sym_Cache
begin

text \<open>
  USDT probes, src/cc/usdt/usdt.cc and the second half of src/cc/usdt.h: locations, probes with their
  semaphores, contexts, the code that reads an argument, and the C interface.  An object is a record and
  a method returns the updated one.  The memory of the traced processes is a state of its own, since
  enabling a probe writes to it.  \<^const>\<open>None\<close> is undefined behaviour, a failed assertion or an exception
  that nothing catches.
\<close>

section \<open>The environment\<close>

record bcc_elf_usdt =
  eu_pc :: u64
  eu_base_addr :: u64
  eu_semaphore :: u64
  eu_provider :: string
  eu_name :: string
  eu_arg_fmt :: string
  eu_semaphore_offset :: u64

text \<open>
  What libelf finds in a file, the page size, and which accesses to \<^verbatim>\<open>/proc/<pid>/mem\<close> succeed; the
  memory itself holds a 16-bit word for every address of every process.
\<close>

record usdt_env = sym_env +
  ue_arch :: usdt_arch
  ue_is_pie :: "string \<Rightarrow> bool"
  ue_foreach_usdt :: "string \<Rightarrow> bcc_elf_usdt list \<times> int"
  ue_page_size :: u64
  ue_mem_open :: "int \<Rightarrow> bool"
  ue_mem_seek :: "u64 \<Rightarrow> bool"
  ue_mem_read :: "int \<Rightarrow> u64 \<Rightarrow> bool"
  ue_mem_write :: "int \<Rightarrow> u64 \<Rightarrow> bool"

type_synonym proc_mem = "int \<Rightarrow> u64 \<Rightarrow> u16"

definition bcc_elf_is_shared_obj :: "('e) usdt_env_scheme \<Rightarrow> string \<Rightarrow> bool" where
  "bcc_elf_is_shared_obj env path \<longleftrightarrow> pr_elf_type env path = 3 \<and> \<not> ue_is_pie env path"

definition get_pid_exe :: "('e) usdt_env_scheme \<Rightarrow> int \<Rightarrow> string" where
  "get_pid_exe env pid =
     (case pe_readlink env (''/proc/'' @ show_int pid @ ''/exe'') of
        None \<Rightarrow> []
      | Some target \<Rightarrow> cstr (take 4095 target))"

section \<open>Code that reads an argument\<close>

definition COMPILER_BARRIER :: string where
  "COMPILER_BARRIER = ''__asm__ __volatile__('' @ [CHR 0x22, CHR 0x22] @ '': : :'' @ [CHR 0x22] @ ''memory'' @ [CHR 0x22] @ '');''"

definition show_hex :: "u64 \<Rightarrow> string" where
  "show_hex w = nat_digits 16 (unat w)"

definition usdt_symbol_option :: bcc_symbol_option where
  "usdt_symbol_option = \<lparr>so_use_debug_file = True, so_check_debug_file_crc = True, so_lazy_symbolize = True,
     so_use_symbol_type = 65535\<rparr>"

text \<open>\<open>which_so\<close> is as in \<^const>\<open>bcc_resolve_symname\<close>.\<close>

definition get_global_address ::
  "(string \<Rightarrow> int \<Rightarrow> string option) \<Rightarrow> ('e) usdt_env_scheme \<Rightarrow> Argument \<Rightarrow> string \<Rightarrow> int option \<Rightarrow> u64 option option" where
  "get_global_address which_so env a binpath pid = do {
     ident \<leftarrow> ar_deref_ident a;
     case pid of
       Some pid \<Rightarrow> do {
         ps \<leftarrow> ProcSyms_new env pid (Some usdt_symbol_option);
         (r, ps) \<leftarrow> ProcSyms_resolve_name env ps binpath ident;
         Some r
       }
     | None \<Rightarrow>
         Some (if \<not> bcc_elf_is_shared_obj env binpath \<or> ue_is_pie env binpath
               then (case bcc_resolve_symname which_so env (Some binpath) (Some ident) 0 (- 1) None zero_symbol of
                       (ret, s, _) \<Rightarrow> if ret = 0 then Some (bs_offset s) else None)
               else None)
   }"

definition probe_read :: "string \<Rightarrow> string \<Rightarrow> string" where
  "probe_read ty local_name =
     ty @ '' __res = 0x0; bpf_probe_read_user(&__res, sizeof(__res), (void *)__addr); '' @ local_name @ '' = __res; }''"

text \<open>The text that is appended to the stream, and whether the code was generated.\<close>

definition assign_to_local ::
  "(string \<Rightarrow> int \<Rightarrow> string option) \<Rightarrow> ('e) usdt_env_scheme \<Rightarrow> Argument \<Rightarrow> string \<Rightarrow> string \<Rightarrow> int option \<Rightarrow>
   (bool \<times> string) option" where
  "assign_to_local which_so env a local_name binpath pid =
     (case ar_constant a of
        Some k \<Rightarrow> Some (True, local_name @ '' = '' @ show_int k @ '';'')
      | None \<Rightarrow>
          (case ar_deref_offset a of
             None \<Rightarrow> do {
               base \<leftarrow> ar_base_register_name a;
               Some (True, local_name @ (if take 3 base = ''xmm'' then '' = 0;'' else '' = ctx->'' @ base @ '';'') @ '' '' @ COMPILER_BARRIER)
             }
           | Some off \<Rightarrow>
               if ar_deref_ident a = None then do {
                 base \<leftarrow> ar_base_register_name a;
                 Some (True, ''{ u64 __addr = ctx->'' @ base @ '' + '' @ show_int off @
                   (case ar_index_register_name a of
                      Some index \<Rightarrow> '' + (ctx->'' @ index @ '' * '' @ show_int (case ar_scale a of None \<Rightarrow> 1 | Some sc \<Rightarrow> sc) @ '');''
                    | None \<Rightarrow> '';'') @
                   '' '' @ COMPILER_BARRIER @ '' '' @ probe_read (ctype a) local_name)
               }
               else do {
                 base \<leftarrow> ar_base_register_name a;
                 if base = ''ip'' then do {
                   g \<leftarrow> get_global_address which_so env a binpath pid;
                   case g of
                     None \<Rightarrow> Some (False, [])
                   | Some global_address \<Rightarrow>
                       Some (True, ''{ u64 __addr = 0x'' @ show_hex global_address @ ''ull + '' @ show_int off @ ''; '' @
                         probe_read (ctype a) local_name)
                 }
                 else Some (False, [])
               }))"

section \<open>Locations and probes\<close>

record Location =
  lo_address :: u64
  lo_bin_path :: string
  lo_arguments :: "Argument list"

definition Location_new :: "usdt_arch \<Rightarrow> u64 \<Rightarrow> string \<Rightarrow> string \<Rightarrow> Location option" where
  "Location_new arch addr bin_path arg_fmt =
     (case arguments_loop (arch_parse arch) (length arg_fmt + 1) (ArgumentParser_new arg_fmt) [] of
        Finished args \<Rightarrow> Some \<lparr>lo_address = addr, lo_bin_path = bin_path, lo_arguments = args\<rparr>
      | _ \<Rightarrow> None)"

record Probe =
  pb_bin_path :: string
  pb_provider :: string
  pb_name :: string
  pb_semaphore :: u64
  pb_semaphore_offset :: u64
  pb_locations :: "Location list"
  pb_pid :: "int option"
  pb_object_type_map :: "(string \<times> bool) list"
  pb_attached_to :: "string option"
  pb_attached_semaphore :: "u64 option"
  pb_mod_match_inode_only :: bool

definition Probe_new :: "string \<Rightarrow> string \<Rightarrow> string \<Rightarrow> u64 \<Rightarrow> u64 \<Rightarrow> int option \<Rightarrow> bool \<Rightarrow> Probe" where
  "Probe_new bin_path provider name semaphore semaphore_offset pid mod_match_inode_only =
     \<lparr>pb_bin_path = bin_path, pb_provider = provider, pb_name = name, pb_semaphore = semaphore,
      pb_semaphore_offset = semaphore_offset, pb_locations = [], pb_pid = pid, pb_object_type_map = [],
      pb_attached_to = None, pb_attached_semaphore = None, pb_mod_match_inode_only = mod_match_inode_only\<rparr>"

definition in_shared_object :: "('e) usdt_env_scheme \<Rightarrow> string \<Rightarrow> Probe \<Rightarrow> bool \<times> Probe" where
  "in_shared_object env bin_path p =
     (case map_of (pb_object_type_map p) bin_path of
        None \<Rightarrow> (let so = bcc_elf_is_shared_obj env bin_path
                 in (so, p\<lparr>pb_object_type_map := (bin_path, so) # pb_object_type_map p\<rparr>))
      | Some so \<Rightarrow> (so, p))"

definition resolve_global_address ::
  "('e) usdt_env_scheme \<Rightarrow> string \<Rightarrow> u64 \<Rightarrow> Probe \<Rightarrow> (u64 option \<times> Probe) option" where
  "resolve_global_address env bin_path addr p =
     (let (so, p) = in_shared_object env bin_path p in
      if so \<or> ue_is_pie env bin_path
      then (case pb_pid p of
              None \<Rightarrow> Some (None, p)
            | Some pid \<Rightarrow> map_option (\<lambda>g. (g, p)) (bcc_resolve_global_addr env pid bin_path addr (pb_mod_match_inode_only p)))
      else Some (Some addr, p))"

text \<open>
  The update of the semaphore in the memory of the process; an access that fails leaves it as it is.  The memory has a
  semaphore of 16 bits at each address, so that two semaphores never overlap in part.
\<close>

definition update_semaphore :: "('e) usdt_env_scheme \<Rightarrow> int \<Rightarrow> u64 \<Rightarrow> u16 \<Rightarrow> proc_mem \<Rightarrow> bool \<times> proc_mem" where
  "update_semaphore env pid address val mem =
     (if \<not> ue_mem_open env pid then (False, mem)
      else if \<not> ue_mem_seek env address \<or> \<not> ue_mem_read env pid address then (False, mem)
      else
        (let original = mem pid address + val in
         if \<not> ue_mem_seek env address \<or> \<not> ue_mem_write env pid address then (False, mem)
         else (True, mem(pid := (mem pid)(address := original)))))"

definition add_to_semaphore :: "('e) usdt_env_scheme \<Rightarrow> u16 \<Rightarrow> proc_mem \<Rightarrow> Probe \<Rightarrow> (bool \<times> proc_mem \<times> Probe) option" where
  "add_to_semaphore env val mem p = do {
     pid \<leftarrow> pb_pid p;
     (addr, p) \<leftarrow> (case pb_attached_semaphore p of
                     Some a \<Rightarrow> Some (Some a, p)
                   | None \<Rightarrow> resolve_global_address env (pb_bin_path p) (pb_semaphore p) p);
     case addr of
       None \<Rightarrow> Some (False, mem, p)
     | Some address \<Rightarrow>
         (let p = p\<lparr>pb_attached_semaphore := Some address\<rparr>;
              (ok, mem) = update_semaphore env pid address val mem
          in Some (ok, mem, p))
   }"

definition need_enable :: "Probe \<Rightarrow> bool" where
  "need_enable p \<longleftrightarrow> pb_semaphore p \<noteq> 0"

definition Probe_enable :: "('e) usdt_env_scheme \<Rightarrow> string \<Rightarrow> proc_mem \<Rightarrow> Probe \<Rightarrow> (bool \<times> proc_mem \<times> Probe) option" where
  "Probe_enable env fn_name mem p =
     (if pb_attached_to p \<noteq> None then Some (False, mem, p)
      else if need_enable p
      then (if pb_pid p = None then Some (False, mem, p)
            else do {
              (ok, mem, p) \<leftarrow> add_to_semaphore env 1 mem p;
              Some (if ok then (True, mem, p\<lparr>pb_attached_to := Some fn_name\<rparr>) else (False, mem, p))
            })
      else Some (True, mem, p\<lparr>pb_attached_to := Some fn_name\<rparr>))"

definition Probe_disable :: "('e) usdt_env_scheme \<Rightarrow> proc_mem \<Rightarrow> Probe \<Rightarrow> (bool \<times> proc_mem \<times> Probe) option" where
  "Probe_disable env mem p =
     (if pb_attached_to p = None then Some (False, mem, p)
      else
        (let p = p\<lparr>pb_attached_to := None\<rparr> in
         if need_enable p then add_to_semaphore env (- 1) mem p else Some (True, mem, p)))"

text \<open>The argument of the largest size among the locations, the first one of that size.\<close>

fun largest_arg :: "nat \<Rightarrow> Argument option \<Rightarrow> Location list \<Rightarrow> Argument option option" where
  "largest_arg arg_n largest [] = Some largest"
| "largest_arg arg_n largest (l # ls) =
     (if arg_n < length (lo_arguments l)
      then (let candidate = lo_arguments l ! arg_n in
            largest_arg arg_n
              (case largest of
                 None \<Rightarrow> Some candidate
               | Some a \<Rightarrow> if \<bar>arg_size candidate\<bar> > \<bar>arg_size a\<bar> then Some candidate else Some a) ls)
      else None)"

definition largest_arg_type :: "nat \<Rightarrow> Probe \<Rightarrow> string option" where
  "largest_arg_type arg_n p = do {
     largest \<leftarrow> largest_arg arg_n None (pb_locations p);
     a \<leftarrow> largest;
     ctype_name a
   }"

text \<open>
  The functions that read the arguments.  The result says whether they were generated, and has the text
  that was appended; \<^verbatim>\<open>page_offsets\<close> is a set of \<^verbatim>\<open>int\<close>.
\<close>

definition page_offset :: "('e) usdt_env_scheme \<Rightarrow> Location \<Rightarrow> u64" where
  "page_offset env l = lo_address l mod ue_page_size env"

definition distinct_offsets :: "('e) usdt_env_scheme \<Rightarrow> Probe \<Rightarrow> bool" where
  "distinct_offsets env p \<longleftrightarrow>
     card (set (map (\<lambda>l. to_int32 (uint (page_offset env l))) (pb_locations p))) = length (pb_locations p)"

definition assign_arg ::
  "(string \<Rightarrow> int \<Rightarrow> string option) \<Rightarrow> ('e) usdt_env_scheme \<Rightarrow> nat \<Rightarrow> string \<Rightarrow> Location \<Rightarrow> int option \<Rightarrow> (bool \<times> string) option" where
  "assign_arg which_so env arg_n cptr l pid =
     (if arg_n < length (lo_arguments l)
      then assign_to_local which_so env (lo_arguments l ! arg_n) cptr (lo_bin_path l) pid
      else None)"

fun getarg_cases ::
  "(string \<Rightarrow> int \<Rightarrow> string option) \<Rightarrow> ('e) usdt_env_scheme \<Rightarrow> bool \<Rightarrow> nat \<Rightarrow> string \<Rightarrow> Location list \<Rightarrow> Probe \<Rightarrow>
   (bool \<times> string \<times> Probe) option" where
  "getarg_cases which_so env by_page arg_n cptr [] p = Some (True, [], p)"
| "getarg_cases which_so env by_page arg_n cptr (l # ls) p = do {
     (label, p) \<leftarrow> (if by_page then Some (Some (page_offset env l), p)
                    else resolve_global_address env (lo_bin_path l) (lo_address l) p);
     case label of
       None \<Rightarrow> Some (False, [], p)
     | Some label \<Rightarrow> do {
         (ok, text) \<leftarrow> assign_arg which_so env arg_n cptr l (pb_pid p);
         let text = ''  case 0x'' @ show_hex label @ ''ULL: '' @ text;
         if \<not> ok then Some (False, text, p)
         else do {
           (ok, rest, p) \<leftarrow> getarg_cases which_so env by_page arg_n cptr ls p;
           Some (ok, text @ '' return 0;'' @ [CHR 0x0A] @ rest, p)
         }
       }
   }"

definition getarg_head :: "string \<Rightarrow> nat \<Rightarrow> string \<Rightarrow> string" where
  "getarg_head probe_func arg_n ty =
     ''static __always_inline int _bpf_readarg_'' @ probe_func @ ''_'' @ show_int (int arg_n + 1) @
     ''(struct pt_regs *ctx, void *dest, size_t len) {'' @ [CHR 0x0A] @
     ''  if (len != sizeof('' @ ty @ '')) return -1;'' @ [CHR 0x0A]"

definition getarg_arg ::
  "(string \<Rightarrow> int \<Rightarrow> string option) \<Rightarrow> ('e) usdt_env_scheme \<Rightarrow> string \<Rightarrow> nat \<Rightarrow> Probe \<Rightarrow> (bool \<times> string \<times> Probe) option" where
  "getarg_arg which_so env probe_func arg_n p = do {
     ty \<leftarrow> largest_arg_type arg_n p;
     let cptr = ''*(('' @ ty @ '' *)dest)'';
     let text = getarg_head probe_func arg_n ty;
     case pb_locations p of
       [l] \<Rightarrow> do {
         (ok, t) \<leftarrow> assign_arg which_so env arg_n cptr l (pb_pid p);
         Some (if ok then (True, text @ ''  '' @ t @ [CHR 0x0A] @ ''  return 0;'' @ [CHR 0x0A] @ ''}'' @ [CHR 0x0A], p)
               else (False, text @ ''  '' @ t, p))
       }
     | _ \<Rightarrow> do {
         let by_page = distinct_offsets env p;
         let text = text @ (if by_page then ''  switch (PT_REGS_IP(ctx) % 0x'' @ show_hex (ue_page_size env) @ ''ULL) {''
                            else ''  switch (PT_REGS_IP(ctx)) {'') @ [CHR 0x0A];
         (ok, t, p) \<leftarrow> getarg_cases which_so env by_page arg_n cptr (pb_locations p) p;
         Some (ok, text @ t @ (if ok then ''  }'' @ [CHR 0x0A] @ ''  return -1;'' @ [CHR 0x0A] @ ''}'' @ [CHR 0x0A] else []), p)
       }
   }"

fun getarg_loop ::
  "(string \<Rightarrow> int \<Rightarrow> string option) \<Rightarrow> ('e) usdt_env_scheme \<Rightarrow> string \<Rightarrow> nat list \<Rightarrow> Probe \<Rightarrow> (bool \<times> string \<times> Probe) option" where
  "getarg_loop which_so env probe_func [] p = Some (True, [], p)"
| "getarg_loop which_so env probe_func (arg_n # ns) p = do {
     (ok, text, p) \<leftarrow> getarg_arg which_so env probe_func arg_n p;
     if \<not> ok then Some (False, text, p)
     else do {
       (ok, rest, p) \<leftarrow> getarg_loop which_so env probe_func ns p;
       Some (ok, text @ rest, p)
     }
   }"

definition usdt_getarg_for ::
  "(string \<Rightarrow> int \<Rightarrow> string option) \<Rightarrow> ('e) usdt_env_scheme \<Rightarrow> string \<Rightarrow> Probe \<Rightarrow> (bool \<times> string \<times> Probe) option" where
  "usdt_getarg_for which_so env probe_func p =
     (case pb_locations p of
        [] \<Rightarrow> None
      | l # _ \<Rightarrow> getarg_loop which_so env probe_func [0..<length (lo_arguments l)] p)"

definition usdt_getarg ::
  "(string \<Rightarrow> int \<Rightarrow> string option) \<Rightarrow> ('e) usdt_env_scheme \<Rightarrow> Probe \<Rightarrow> (bool \<times> string \<times> Probe) option" where
  "usdt_getarg which_so env p =
     (case pb_attached_to p of
        None \<Rightarrow> Some (False, [], p)
      | Some fn \<Rightarrow> if fn = [] then Some (False, [], p) else usdt_getarg_for which_so env fn p)"

definition add_location :: "usdt_arch \<Rightarrow> u64 \<Rightarrow> string \<Rightarrow> string \<Rightarrow> Probe \<Rightarrow> Probe option" where
  "add_location arch addr bin_path fmt p =
     map_option (\<lambda>l. p\<lparr>pb_locations := pb_locations p @ [l]\<rparr>) (Location_new arch addr bin_path fmt)"

text \<open>
  \<^verbatim>\<open>std::sort\<close> leaves the order of equal elements open, so it is a parameter; \<^verbatim>\<open>std::unique\<close> keeps the first
  of a run.
\<close>

definition location_key :: "Location \<Rightarrow> string \<times> u64" where
  "location_key l = (lo_bin_path l, lo_address l)"

fun std_unique :: "('a \<Rightarrow> 'k) \<Rightarrow> 'a list \<Rightarrow> 'a list" where
  "std_unique key [] = []"
| "std_unique key [x] = [x]"
| "std_unique key (x # y # zs) = (if key x = key y then std_unique key (x # zs) else x # std_unique key (y # zs))"

definition finalize_locations :: "(Location list \<Rightarrow> Location list) \<Rightarrow> Probe \<Rightarrow> Probe" where
  "finalize_locations srt p = p\<lparr>pb_locations := std_unique location_key (srt (pb_locations p))\<rparr>"

end
