(* ===== verification/Usdt_Context.thy ===== *)
theory Usdt_Context
  imports Usdt
begin

text \<open>
  Contexts of USDT probes and the C interface, the second half of src/cc/usdt/usdt.cc: collecting the
  probes of a program or of a process, finding and enabling them, and releasing the context.
\<close>

section \<open>Contexts\<close>

record Context =
  cx_probes :: "Probe list"
  cx_modules :: "string list"
  cx_pid :: "int option"
  cx_pid_stat :: "ProcStat option"
  cx_cmd_bin_path :: string
  cx_loaded :: bool
  cx_mod_match_inode_only :: bool

definition probe_index :: "(Probe \<Rightarrow> bool) \<Rightarrow> Context \<Rightarrow> nat option" where
  "probe_index P ctx =
     (let i = length (takeWhile (\<lambda>p. \<not> P p) (cx_probes ctx)) in if i < length (cx_probes ctx) then Some i else None)"

definition add_probe :: "usdt_arch \<Rightarrow> string \<Rightarrow> bcc_elf_usdt \<Rightarrow> Context \<Rightarrow> Context option" where
  "add_probe arch binpath probe ctx =
     (case probe_index (\<lambda>p. pb_provider p = eu_provider probe \<and> pb_name p = eu_name probe) ctx of
        Some i \<Rightarrow>
          map_option (\<lambda>p. ctx\<lparr>cx_probes := (cx_probes ctx)[i := p]\<rparr>)
            (add_location arch (eu_pc probe) binpath (eu_arg_fmt probe) (cx_probes ctx ! i))
      | None \<Rightarrow>
          map_option (\<lambda>p. ctx\<lparr>cx_probes := cx_probes ctx @ [p]\<rparr>)
            (add_location arch (eu_pc probe) binpath (eu_arg_fmt probe)
              (Probe_new binpath (eu_provider probe) (eu_name probe) (eu_semaphore probe) (eu_semaphore_offset probe)
                 (cx_pid ctx) (cx_mod_match_inode_only ctx))))"

fun each_probe :: "usdt_arch \<Rightarrow> string \<Rightarrow> bcc_elf_usdt list \<Rightarrow> Context \<Rightarrow> Context option" where
  "each_probe arch binpath [] ctx = Some ctx"
| "each_probe arch binpath (n # ns) ctx = add_probe arch binpath n ctx \<bind> each_probe arch binpath ns"

definition foreach_usdt :: "('e) usdt_env_scheme \<Rightarrow> string \<Rightarrow> Context \<Rightarrow> (int \<times> Context) option" where
  "foreach_usdt env path ctx =
     (case ue_foreach_usdt env path of (notes, r) \<Rightarrow> map_option (Pair r) (each_probe (ue_arch env) path notes ctx))"

definition each_module :: "('e) usdt_env_scheme \<Rightarrow> mod_info \<Rightarrow> bool \<Rightarrow> Context option \<Rightarrow> int \<times> Context option" where
  "each_module env md enter_ns ctx =
     (0, do {
        ctx \<leftarrow> ctx;
        let path = (case cx_pid ctx of
                      Some pid \<Rightarrow> if pid \<noteq> - 1 \<and> enter_ns then ''/proc/'' @ show_int pid @ ''/root'' @ mi_name md else mi_name md
                    | None \<Rightarrow> mi_name md);
        if path \<in> set (cx_modules ctx) then Some ctx
        else map_option snd (foreach_usdt env path (ctx\<lparr>cx_modules := path # cx_modules ctx\<rparr>))
      })"

definition resolve_bin_path :: "('e) usdt_env_scheme \<Rightarrow> ld_state \<Rightarrow> string \<Rightarrow> int option \<Rightarrow> (string \<times> ld_state) option" where
  "resolve_bin_path env st bin_path pid = do {
     (r, st) \<leftarrow> (case bcc_procutils_which env bin_path of
                   Some which \<Rightarrow> Some (Some which, st)
                 | None \<Rightarrow> bcc_procutils_which_so env st bin_path 0);
     let result = (case r of None \<Rightarrow> [] | Some w \<Rightarrow> w);
     Some (case pid of
             Some pid \<Rightarrow>
               if result \<noteq> [] \<and> pid \<noteq> - 1 \<and> strstr result ''/proc'' \<noteq> Some 0
               then ''/proc/'' @ show_int pid @ ''/root'' @ result else result
           | None \<Rightarrow> result, st)
   }"

definition get_by_name :: "string \<Rightarrow> Context \<Rightarrow> Probe option" where
  "get_by_name probe_name ctx = find (\<lambda>p. pb_name p = probe_name) (cx_probes ctx)"

definition get_probe :: "string \<Rightarrow> string \<Rightarrow> Context \<Rightarrow> Probe option" where
  "get_probe provider_name probe_name ctx =
     find (\<lambda>p. pb_provider p = provider_name \<and> pb_name p = probe_name) (cx_probes ctx)"

text \<open>The position of the only probe that matches; asking whether the process is stale can change its state.\<close>

definition stale_check :: "('e) usdt_env_scheme \<Rightarrow> Context \<Rightarrow> bool \<times> Context" where
  "stale_check env ctx =
     (case cx_pid_stat ctx of
        None \<Rightarrow> (False, ctx)
      | Some st \<Rightarrow> (case is_stale env st of (stale, st) \<Rightarrow> (stale, ctx\<lparr>cx_pid_stat := Some st\<rparr>)))"

definition get_checked :: "('e) usdt_env_scheme \<Rightarrow> string \<Rightarrow> string \<Rightarrow> Context \<Rightarrow> nat option \<times> Context" where
  "get_checked env provider_name probe_name ctx =
     (let (stale, ctx) = stale_check env ctx in
      (if stale then None
       else
         (case filter (\<lambda>i. let p = cx_probes ctx ! i in
                  pb_name p = probe_name \<and> (provider_name = [] \<or> pb_provider p = provider_name)) [0..<length (cx_probes ctx)] of
            [i] \<Rightarrow> Some i
          | _ \<Rightarrow> None), ctx))"

definition enable_probe ::
  "('e) usdt_env_scheme \<Rightarrow> string \<Rightarrow> string \<Rightarrow> string \<Rightarrow> proc_mem \<Rightarrow> Context \<Rightarrow> (bool \<times> proc_mem \<times> Context) option" where
  "enable_probe env provider_name probe_name fn_name mem ctx =
     (case get_checked env provider_name probe_name ctx of
        (None, ctx) \<Rightarrow> Some (False, mem, ctx)
      | (Some i, ctx) \<Rightarrow>
          map_option (\<lambda>(ok, mem, p). (ok, mem, ctx\<lparr>cx_probes := (cx_probes ctx)[i := p]\<rparr>))
            (Probe_enable env fn_name mem (cx_probes ctx ! i)))"

definition addsem_probe ::
  "('e) usdt_env_scheme \<Rightarrow> string \<Rightarrow> string \<Rightarrow> u16 \<Rightarrow> proc_mem \<Rightarrow> Context \<Rightarrow> (bool \<times> proc_mem \<times> Context) option" where
  "addsem_probe env provider_name probe_name val mem ctx =
     (case get_checked env provider_name probe_name ctx of
        (None, ctx) \<Rightarrow> Some (False, mem, ctx)
      | (Some i, ctx) \<Rightarrow>
          if need_enable (cx_probes ctx ! i)
          then map_option (\<lambda>(ok, mem, p). (ok, mem, ctx\<lparr>cx_probes := (cx_probes ctx)[i := p]\<rparr>))
                 (add_to_semaphore env val mem (cx_probes ctx ! i))
          else Some (True, mem, ctx))"

definition finalize_all :: "(Location list \<Rightarrow> Location list) \<Rightarrow> Context \<Rightarrow> Context" where
  "finalize_all srt ctx = ctx\<lparr>cx_probes := map (finalize_locations srt) (cx_probes ctx)\<rparr>"

definition empty_context :: "int option \<Rightarrow> ProcStat option \<Rightarrow> bool \<Rightarrow> Context" where
  "empty_context pid pid_stat mod_match_inode_only =
     \<lparr>cx_probes = [], cx_modules = [], cx_pid = pid, cx_pid_stat = pid_stat, cx_cmd_bin_path = [], cx_loaded = False,
      cx_mod_match_inode_only = mod_match_inode_only\<rparr>"

definition Context_from_path ::
  "(Location list \<Rightarrow> Location list) \<Rightarrow> ('e) usdt_env_scheme \<Rightarrow> ld_state \<Rightarrow> string \<Rightarrow> bool \<Rightarrow> (Context \<times> ld_state) option" where
  "Context_from_path srt env st bin_path mod_match_inode_only = do {
     let ctx = empty_context None None mod_match_inode_only;
     (full_path, st) \<leftarrow> resolve_bin_path env st bin_path None;
     ctx \<leftarrow> (if full_path \<noteq> [] then do {
                (r, ctx) \<leftarrow> foreach_usdt env full_path ctx;
                Some (if r = 0 then ctx\<lparr>cx_cmd_bin_path := full_path, cx_loaded := True\<rparr> else ctx)
              }
              else Some ctx);
     Some (finalize_all srt ctx, st)
   }"

text \<open>A process whose executable cannot be read leaves the constructor before the locations are sorted.\<close>

definition finish_pid :: "(Location list \<Rightarrow> Location list) \<Rightarrow> ('e) usdt_env_scheme \<Rightarrow> int \<Rightarrow> int \<Rightarrow> Context \<Rightarrow> Context" where
  "finish_pid srt env pid r ctx =
     (if r = 0
      then (let exe = get_pid_exe env pid; ctx = ctx\<lparr>cx_cmd_bin_path := exe\<rparr> in
            if exe = [] then ctx else finalize_all srt (ctx\<lparr>cx_loaded := True\<rparr>))
      else finalize_all srt ctx)"

definition Context_from_pid ::
  "(Location list \<Rightarrow> Location list) \<Rightarrow> ('e) usdt_env_scheme \<Rightarrow> int \<Rightarrow> bool \<Rightarrow> Context option" where
  "Context_from_pid srt env pid mod_match_inode_only = do {
     let ctx = empty_context (Some pid) (Some (ProcStat_new env pid)) mod_match_inode_only;
     (r, _, ctx) \<leftarrow> bcc_procutils_each_module env (se_os env) (se_zip_entry env) pid (each_module env) (Some ctx);
     ctx \<leftarrow> ctx;
     Some (finish_pid srt env pid r ctx)
   }"

definition Context_from_pid_path ::
  "(Location list \<Rightarrow> Location list) \<Rightarrow> ('e) usdt_env_scheme \<Rightarrow> ld_state \<Rightarrow> int \<Rightarrow> string \<Rightarrow> bool \<Rightarrow> (Context \<times> ld_state) option" where
  "Context_from_pid_path srt env st pid bin_path mod_match_inode_only = do {
     let ctx = empty_context (Some pid) (Some (ProcStat_new env pid)) mod_match_inode_only;
     (full_path, st) \<leftarrow> resolve_bin_path env st bin_path (Some pid);
     if full_path \<noteq> [] then do {
       (r, ctx) \<leftarrow> foreach_usdt env full_path ctx;
       Some (finish_pid srt env pid r ctx, st)
     }
     else Some (finalize_all srt ctx, st)
   }"

fun disable_all :: "('e) usdt_env_scheme \<Rightarrow> proc_mem \<Rightarrow> Probe list \<Rightarrow> proc_mem option" where
  "disable_all env mem [] = Some mem"
| "disable_all env mem (p # ps) = do {
     (_, mem, _) \<leftarrow> Probe_disable env mem p;
     disable_all env mem ps
   }"

definition Context_destroy :: "('e) usdt_env_scheme \<Rightarrow> proc_mem \<Rightarrow> Context \<Rightarrow> proc_mem option" where
  "Context_destroy env mem ctx =
     (if cx_pid_stat ctx \<noteq> None \<and> \<not> fst (stale_check env ctx) then disable_all env mem (cx_probes ctx) else Some mem)"

section \<open>The C interface\<close>

definition bcc_usdt_new_frompid ::
  "(Location list \<Rightarrow> Location list) \<Rightarrow> ('e) usdt_env_scheme \<Rightarrow> ld_state \<Rightarrow> proc_mem \<Rightarrow> int \<Rightarrow> string option \<Rightarrow>
   (Context option \<times> proc_mem \<times> ld_state) option" where
  "bcc_usdt_new_frompid srt env st mem pid path = do {
     (ctx, st) \<leftarrow>
       (case path of
          None \<Rightarrow> map_option (\<lambda>ctx. (Some ctx, st)) (Context_from_pid srt env pid True)
        | Some path \<Rightarrow>
            if path \<noteq> [] \<and> hd path \<noteq> CHR ''/'' then Some (None, st)
            else if \<not> se_exists env path then Some (None, st)
            else map_option (\<lambda>(ctx, st). (Some ctx, st)) (Context_from_pid_path srt env st pid path True));
     case ctx of
       None \<Rightarrow> Some (None, mem, st)
     | Some ctx \<Rightarrow>
         if cx_loaded ctx then Some (Some ctx, mem, st)
         else map_option (\<lambda>mem. (None, mem, st)) (Context_destroy env mem ctx)
   }"

definition bcc_usdt_new_frompath ::
  "(Location list \<Rightarrow> Location list) \<Rightarrow> ('e) usdt_env_scheme \<Rightarrow> ld_state \<Rightarrow> proc_mem \<Rightarrow> string \<Rightarrow>
   (Context option \<times> proc_mem \<times> ld_state) option" where
  "bcc_usdt_new_frompath srt env st mem path = do {
     (ctx, st) \<leftarrow> Context_from_path srt env st path True;
     if cx_loaded ctx then Some (Some ctx, mem, st)
     else map_option (\<lambda>mem. (None, mem, st)) (Context_destroy env mem ctx)
   }"

definition bcc_usdt_close :: "('e) usdt_env_scheme \<Rightarrow> proc_mem \<Rightarrow> Context option \<Rightarrow> proc_mem option" where
  "bcc_usdt_close env mem usdt = (case usdt of None \<Rightarrow> Some mem | Some ctx \<Rightarrow> Context_destroy env mem ctx)"

definition status_of :: "(bool \<times> proc_mem \<times> Context) option \<Rightarrow> (int \<times> proc_mem \<times> Context) option" where
  "status_of = map_option (\<lambda>(ok, mem, ctx). (if ok then 0 else - 1, mem, ctx))"

definition bcc_usdt_enable_probe ::
  "('e) usdt_env_scheme \<Rightarrow> string \<Rightarrow> string \<Rightarrow> proc_mem \<Rightarrow> Context \<Rightarrow> (int \<times> proc_mem \<times> Context) option" where
  "bcc_usdt_enable_probe env probe_name fn_name mem ctx = status_of (enable_probe env [] probe_name fn_name mem ctx)"

definition bcc_usdt_addsem_probe ::
  "('e) usdt_env_scheme \<Rightarrow> string \<Rightarrow> string \<Rightarrow> u16 \<Rightarrow> proc_mem \<Rightarrow> Context \<Rightarrow> (int \<times> proc_mem \<times> Context) option" where
  "bcc_usdt_addsem_probe env probe_name fn_name val mem ctx = status_of (addsem_probe env [] probe_name val mem ctx)"

definition bcc_usdt_enable_fully_specified_probe ::
  "('e) usdt_env_scheme \<Rightarrow> string \<Rightarrow> string \<Rightarrow> string \<Rightarrow> proc_mem \<Rightarrow> Context \<Rightarrow> (int \<times> proc_mem \<times> Context) option" where
  "bcc_usdt_enable_fully_specified_probe env provider_name probe_name fn_name mem ctx =
     status_of (enable_probe env provider_name probe_name fn_name mem ctx)"

definition bcc_usdt_addsem_fully_specified_probe ::
  "('e) usdt_env_scheme \<Rightarrow> string \<Rightarrow> string \<Rightarrow> string \<Rightarrow> u16 \<Rightarrow> proc_mem \<Rightarrow> Context \<Rightarrow> (int \<times> proc_mem \<times> Context) option" where
  "bcc_usdt_addsem_fully_specified_probe env provider_name probe_name fn_name val mem ctx =
     status_of (addsem_probe env provider_name probe_name val mem ctx)"

definition USDT_PROGRAM_HEADER :: string where
  "USDT_PROGRAM_HEADER = ''#include <uapi/linux/ptrace.h>'' @ [CHR 0x0A]"

text \<open>One context: the text so far, the probes that were generated, and the probes as they were left.\<close>

fun genargs_probes ::
  "(string \<Rightarrow> int \<Rightarrow> string option) \<Rightarrow> ('e) usdt_env_scheme \<Rightarrow> string \<Rightarrow> Probe list \<Rightarrow> string list \<Rightarrow>
   (bool \<times> string \<times> string list \<times> Probe list) option" where
  "genargs_probes which_so env cmd [] generated = Some (True, [], generated, [])"
| "genargs_probes which_so env cmd (p # ps) generated =
     (let key = cmd @ ''*'' @ pb_provider p @ ''*'' @ pb_name p in
      if pb_attached_to p = None \<or> key \<in> set generated
      then map_option (\<lambda>(ok, t, g, ps). (ok, t, g, p # ps)) (genargs_probes which_so env cmd ps generated)
      else do {
        (ok, text, p) \<leftarrow> usdt_getarg which_so env p;
        if \<not> ok then Some (False, text, generated, p # ps)
        else map_option (\<lambda>(ok, t, g, ps). (ok, text @ t, g, p # ps)) (genargs_probes which_so env cmd ps (key # generated))
      })"

fun genargs_loop ::
  "(string \<Rightarrow> int \<Rightarrow> string option) \<Rightarrow> ('e) usdt_env_scheme \<Rightarrow> Context list \<Rightarrow> string list \<Rightarrow> (bool \<times> string \<times> Context list) option" where
  "genargs_loop which_so env [] generated = Some (True, [], [])"
| "genargs_loop which_so env (ctx # cs) generated = do {
     (ok, text, generated, ps) \<leftarrow> genargs_probes which_so env (cx_cmd_bin_path ctx) (cx_probes ctx) generated;
     let ctx = ctx\<lparr>cx_probes := ps\<rparr>;
     if \<not> ok then Some (False, text, ctx # cs)
     else map_option (\<lambda>(ok, t, cs). (ok, text @ t, ctx # cs)) (genargs_loop which_so env cs generated)
   }"

definition bcc_usdt_genargs ::
  "(string \<Rightarrow> int \<Rightarrow> string option) \<Rightarrow> ('e) usdt_env_scheme \<Rightarrow> Context list \<Rightarrow> (string option \<times> Context list) option" where
  "bcc_usdt_genargs which_so env usdt_array =
     (if usdt_array = [] then Some (Some [], [])
      else map_option (\<lambda>(ok, text, cs). (if ok then Some (USDT_PROGRAM_HEADER @ text) else None, cs))
             (genargs_loop which_so env usdt_array []))"

definition bcc_usdt_get_probe_argctype :: "Context \<Rightarrow> string \<Rightarrow> nat \<Rightarrow> string option" where
  "bcc_usdt_get_probe_argctype ctx probe_name arg_index =
     (case get_by_name probe_name ctx of None \<Rightarrow> Some [] | Some p \<Rightarrow> largest_arg_type arg_index p)"

definition bcc_usdt_get_fully_specified_probe_argctype :: "Context \<Rightarrow> string \<Rightarrow> string \<Rightarrow> nat \<Rightarrow> string option" where
  "bcc_usdt_get_fully_specified_probe_argctype ctx provider_name probe_name arg_index =
     (case get_probe provider_name probe_name ctx of None \<Rightarrow> Some [] | Some p \<Rightarrow> largest_arg_type arg_index p)"

record bcc_usdt =
  bu_provider :: string
  bu_name :: string
  bu_bin_path :: string
  bu_semaphore :: u64
  bu_num_locations :: nat
  bu_num_arguments :: nat
  bu_semaphore_offset :: u64

text \<open>The number of arguments is that of the first location; a probe always has one.\<close>

definition usdt_info :: "Probe \<Rightarrow> bcc_usdt option" where
  "usdt_info p =
     (case pb_locations p of
        [] \<Rightarrow> None
      | l # _ \<Rightarrow> Some \<lparr>bu_provider = pb_provider p, bu_name = pb_name p, bu_bin_path = pb_bin_path p,
                       bu_semaphore = pb_semaphore p, bu_num_locations = length (pb_locations p),
                       bu_num_arguments = length (lo_arguments l), bu_semaphore_offset = pb_semaphore_offset p\<rparr>)"

fun bcc_usdt_foreach :: "Probe list \<Rightarrow> (bcc_usdt \<Rightarrow> 's \<Rightarrow> 's) \<Rightarrow> 's \<Rightarrow> 's option" where
  "bcc_usdt_foreach [] callback s = Some s"
| "bcc_usdt_foreach (p # ps) callback s = do {
     info \<leftarrow> usdt_info p;
     bcc_usdt_foreach ps callback (callback info s)
   }"

definition bcc_usdt_get_location :: "Context \<Rightarrow> string \<Rightarrow> string \<Rightarrow> int \<Rightarrow> int \<times> (u64 \<times> string) option" where
  "bcc_usdt_get_location ctx provider_name probe_name index =
     (case get_probe provider_name probe_name ctx of
        None \<Rightarrow> (- 1, None)
      | Some p \<Rightarrow>
          if index < 0 \<or> nat index \<ge> length (pb_locations p) then (- 1, None)
          else (0, Some (lo_address (pb_locations p ! nat index), lo_bin_path (pb_locations p ! nat index))))"

record bcc_usdt_argument =
  ba_size :: int
  ba_valid :: u32
  ba_constant :: int
  ba_deref_offset :: int
  ba_deref_ident :: string
  ba_base_register_name :: string
  ba_index_register_name :: string
  ba_scale :: int

text \<open>The fields of the argument that are present are copied and marked, the others are left as they were.\<close>

definition fill_argument :: "Argument \<Rightarrow> bcc_usdt_argument \<Rightarrow> bcc_usdt_argument" where
  "fill_argument a r =
     (let r = r\<lparr>ba_size := arg_size a, ba_valid := 0\<rparr>;
          r = (case ar_constant a of None \<Rightarrow> r | Some k \<Rightarrow> r\<lparr>ba_valid := ba_valid r OR 0x1, ba_constant := k\<rparr>);
          r = (case ar_deref_offset a of None \<Rightarrow> r | Some i \<Rightarrow> r\<lparr>ba_valid := ba_valid r OR 0x2, ba_deref_offset := i\<rparr>);
          r = (case ar_deref_ident a of None \<Rightarrow> r | Some x \<Rightarrow> r\<lparr>ba_valid := ba_valid r OR 0x4, ba_deref_ident := x\<rparr>);
          r = (case ar_base_register_name a of None \<Rightarrow> r | Some x \<Rightarrow> r\<lparr>ba_valid := ba_valid r OR 0x8, ba_base_register_name := x\<rparr>);
          r = (case ar_index_register_name a of None \<Rightarrow> r | Some x \<Rightarrow> r\<lparr>ba_valid := ba_valid r OR 0x10, ba_index_register_name := x\<rparr>)
      in (case ar_scale a of None \<Rightarrow> r | Some sc \<Rightarrow> r\<lparr>ba_valid := ba_valid r OR 0x20, ba_scale := sc\<rparr>))"

definition bcc_usdt_get_argument ::
  "Context \<Rightarrow> string \<Rightarrow> string \<Rightarrow> int \<Rightarrow> int \<Rightarrow> bcc_usdt_argument \<Rightarrow> (int \<times> bcc_usdt_argument) option" where
  "bcc_usdt_get_argument ctx provider_name probe_name location_index argument_index r =
     (case get_probe provider_name probe_name ctx of
        None \<Rightarrow> Some (- 1, r)
      | Some p \<Rightarrow> do {
          info \<leftarrow> usdt_info p;
          if argument_index < 0 \<or> nat argument_index \<ge> bu_num_arguments info then Some (- 1, r)
          else if location_index < 0 \<or> nat location_index \<ge> bu_num_locations info then Some (- 1, r)
          else
            (let args = lo_arguments (pb_locations p ! nat location_index) in
             if nat argument_index < length args then Some (0, fill_argument (args ! nat argument_index) r) else None)
        })"

definition each_uprobe :: "Context \<Rightarrow> (string \<times> string \<times> u64 \<times> int) list" where
  "each_uprobe ctx =
     concat (map (\<lambda>p. case pb_attached_to p of
                        None \<Rightarrow> []
                      | Some fn \<Rightarrow> map (\<lambda>l. (lo_bin_path l, fn, lo_address l, case cx_pid ctx of None \<Rightarrow> - 1 | Some pid \<Rightarrow> pid))
                                     (pb_locations p))
               (cx_probes ctx))"

definition bcc_usdt_foreach_uprobe :: "Context \<Rightarrow> (string \<times> string \<times> u64 \<times> int \<Rightarrow> 's \<Rightarrow> 's) \<Rightarrow> 's \<Rightarrow> 's" where
  "bcc_usdt_foreach_uprobe ctx callback s = fold callback (each_uprobe ctx) s"

end
