(* ===== verification/Usdt_Props.thy ===== *)
theory Usdt_Props
  imports Usdt_Context Proc_Props
begin

text \<open>
  The life of a context of USDT probes: while it is open, every semaphore of the traced process counts
  the probes that are enabled on it, and closing the context gives back the memory as it was.
\<close>

section \<open>What a probe holds\<close>

text \<open>The semaphore that an enabled probe has incremented.\<close>

definition holds :: "Probe \<Rightarrow> (int \<times> u64) option" where
  "holds p =
     (if pb_attached_to p \<noteq> None \<and> need_enable p
      then (case (pb_pid p, pb_attached_semaphore p) of (Some pid, Some a) \<Rightarrow> Some (pid, a) | _ \<Rightarrow> None)
      else None)"

definition sem_count :: "Probe list \<Rightarrow> int \<Rightarrow> u64 \<Rightarrow> nat" where
  "sem_count ps pid a = length (filter (\<lambda>p. holds p = Some (pid, a)) ps)"

text \<open>An enabled probe with a semaphore knows its process and its address; all probes are of one process.\<close>

definition probe_ok :: "int \<Rightarrow> Probe \<Rightarrow> bool" where
  "probe_ok pid p \<longleftrightarrow> pb_pid p = Some pid \<and> (pb_attached_to p \<noteq> None \<and> need_enable p \<longrightarrow> pb_attached_semaphore p \<noteq> None)"

definition counted :: "int \<Rightarrow> proc_mem \<Rightarrow> proc_mem \<Rightarrow> Context \<Rightarrow> bool" where
  "counted pid mem0 mem ctx \<longleftrightarrow>
     list_all (probe_ok pid) (cx_probes ctx) \<and> cx_pid_stat ctx \<noteq> None \<and>
     (\<forall>q a. mem q a = mem0 q a + word_of_nat (sem_count (cx_probes ctx) q a))"

section \<open>The operations of a probe\<close>

lemma in_shared_object_keeps: "in_shared_object env path p = (so, p') \<Longrightarrow> \<exists>m. p' = p\<lparr>pb_object_type_map := m\<rparr>"
  by (auto simp: in_shared_object_def Let_def split: option.splits intro: exI [of _ "pb_object_type_map p"])

lemma resolve_global_address_keeps:
  "resolve_global_address env path addr p = Some (g, p') \<Longrightarrow> \<exists>m. p' = p\<lparr>pb_object_type_map := m\<rparr>"
  by (auto simp: resolve_global_address_def Let_def split: prod.splits if_splits option.splits dest!: in_shared_object_keeps)

lemma update_semaphore_mem:
  "update_semaphore env pid a val mem = (ok, mem') \<Longrightarrow>
     mem' = (if ok then mem(pid := (mem pid)(a := mem pid a + val)) else mem)"
  by (auto simp: update_semaphore_def Let_def split: if_splits)

lemma add_to_semaphore_effect:
  assumes "add_to_semaphore env val mem p = Some (ok, mem', p')" "pb_pid p = Some pid"
  shows "\<exists>m sem. p' = p\<lparr>pb_object_type_map := m, pb_attached_semaphore := sem\<rparr> \<and>
    (if ok then \<exists>a. sem = Some a \<and> mem' = mem(pid := (mem pid)(a := mem pid a + val)) else mem' = mem)"
proof -
  obtain addr q where q: "(case pb_attached_semaphore p of Some a \<Rightarrow> Some (Some a, p)
      | None \<Rightarrow> resolve_global_address env (pb_bin_path p) (pb_semaphore p) p) = Some (addr, q)"
    and r: "(case addr of None \<Rightarrow> Some (False, mem, q)
      | Some address \<Rightarrow> (let p = q\<lparr>pb_attached_semaphore := Some address\<rparr>; (ok, mem) = update_semaphore env pid address val mem
          in Some (ok, mem, p))) = Some (ok, mem', p')"
    using assms by (auto simp: add_to_semaphore_def split: Option.bind_splits)
  obtain m where m: "q = p\<lparr>pb_object_type_map := m\<rparr>"
    using q by (auto split: option.splits dest: resolve_global_address_keeps intro: that [of "pb_object_type_map p"])
  show ?thesis
  proof (cases addr)
    case None
    then show ?thesis
      using r m by (intro exI [of _ m] exI [of _ "pb_attached_semaphore p"]) auto
  next
    case (Some a)
    then show ?thesis
      using r m by (intro exI [of _ m] exI [of _ "Some a"]) (auto simp: Let_def split: prod.splits dest: update_semaphore_mem)
  qed
qed

lemma Probe_enable_effect:
  assumes "Probe_enable env fn mem p = Some (ok, mem', p')" "probe_ok pid p"
  shows "probe_ok pid p' \<and>
    (mem' = mem \<and> holds p' = holds p \<or>
     (\<exists>a. holds p = None \<and> holds p' = Some (pid, a) \<and> mem' = mem(pid := (mem pid)(a := mem pid a + 1))))"
proof -
  have pid: "pb_pid p = Some pid"
    using assms(2) by (simp add: probe_ok_def)
  consider (attached) "pb_attached_to p \<noteq> None" | (sem) "pb_attached_to p = None" "need_enable p" | (plain) "pb_attached_to p = None" "\<not> need_enable p"
    by blast
  then show ?thesis
  proof cases
    case sem
    obtain ok1 mem1 p1 where a: "add_to_semaphore env 1 mem p = Some (ok1, mem1, p1)"
      and r: "(ok, mem', p') = (if ok1 then (True, mem1, p1\<lparr>pb_attached_to := Some fn\<rparr>) else (False, mem1, p1))"
      using assms(1) sem pid by (auto simp: Probe_enable_def split: Option.bind_splits)
    from add_to_semaphore_effect [OF a pid] show ?thesis
      using r sem pid by (cases ok1) (auto simp: probe_ok_def holds_def need_enable_def)
  qed (use assms in \<open>auto simp: Probe_enable_def probe_ok_def holds_def need_enable_def\<close>)
qed

definition mem_ok :: "('e) usdt_env_scheme \<Rightarrow> int \<Rightarrow> bool" where
  "mem_ok env pid \<longleftrightarrow> ue_mem_open env pid \<and> (\<forall>a. ue_mem_seek env a \<and> ue_mem_read env pid a \<and> ue_mem_write env pid a)"

lemma Probe_disable_effect:
  assumes "probe_ok pid p" "mem_ok env pid"
  shows "\<exists>ok p'. Probe_disable env mem p =
    Some (ok, case holds p of None \<Rightarrow> mem | Some (q, a) \<Rightarrow> mem(q := (mem q)(a := mem q a - 1)), p')"
  using assms
  by (auto simp: Probe_disable_def probe_ok_def holds_def need_enable_def add_to_semaphore_def update_semaphore_def mem_ok_def Let_def)

section \<open>The operations of a context\<close>

lemma sem_count_update:
  assumes "i < length ps"
  shows "sem_count (ps[i := p]) q a + of_bool (holds (ps ! i) = Some (q, a)) = sem_count ps q a + of_bool (holds p = Some (q, a))"
proof -
  have "ps = take i ps @ ps ! i # drop (Suc i) ps"
    using assms by (rule id_take_nth_drop)
  then have "sem_count ps q a = sem_count (take i ps @ ps ! i # drop (Suc i) ps) q a"
    by simp
  then show ?thesis
    using assms by (simp add: sem_count_def upd_conv_take_nth_drop)
qed

lemma get_checked_bound:
  assumes "get_checked env prov name ctx = (r, ctx')"
  shows "cx_probes ctx' = cx_probes ctx" "cx_pid_stat ctx' = None \<longleftrightarrow> cx_pid_stat ctx = None"
    "r = Some i \<Longrightarrow> i < length (cx_probes ctx)"
proof -
  show "cx_probes ctx' = cx_probes ctx" "cx_pid_stat ctx' = None \<longleftrightarrow> cx_pid_stat ctx = None"
    using assms by (auto simp: get_checked_def stale_check_def Let_def split: option.splits prod.splits)
  let ?P = "\<lambda>i. pb_name (cx_probes ctx ! i) = name \<and> (prov = [] \<or> pb_provider (cx_probes ctx ! i) = prov)"
  assume "r = Some i"
  then have "filter ?P [0..<length (cx_probes ctx)] = [i]"
    using assms \<open>cx_probes ctx' = cx_probes ctx\<close>
    by (auto simp: get_checked_def Let_def split: prod.splits list.splits if_splits)
  then have "i \<in> set (filter ?P [0..<length (cx_probes ctx)])"
    by (metis list.set_intros(1))
  then show "i < length (cx_probes ctx)"
    by simp
qed

lemma enable_probe_counted:
  assumes "enable_probe env prov name fn mem ctx = Some (ok, mem', ctx')" "counted pid mem0 mem ctx"
  shows "counted pid mem0 mem' ctx'"
proof -
  obtain r c1 where c1: "get_checked env prov name ctx = (r, c1)"
    by fastforce
  note g = get_checked_bound [OF c1]
  show ?thesis
  proof (cases r)
    case None
    then show ?thesis
      using assms c1 g by (auto simp: enable_probe_def counted_def)
  next
    case (Some i)
    obtain p' where p': "Probe_enable env fn mem (cx_probes ctx ! i) = Some (ok, mem', p')"
      and ctx': "ctx' = c1\<lparr>cx_probes := (cx_probes ctx)[i := p']\<rparr>"
      using assms(1) c1 g Some by (auto simp: enable_probe_def)
    have i: "i < length (cx_probes ctx)"
      using g(3) Some .
    then have ok: "probe_ok pid (cx_probes ctx ! i)"
      using assms(2) by (auto simp: counted_def list_all_length)
    note e = Probe_enable_effect [OF p' ok]
    have "mem' q a = mem0 q a + word_of_nat (sem_count ((cx_probes ctx)[i := p']) q a)" for q a
    proof -
      have m: "mem q a = mem0 q a + word_of_nat (sem_count (cx_probes ctx) q a)"
        using assms(2) by (simp add: counted_def)
      have "(word_of_nat (sem_count ((cx_probes ctx)[i := p']) q a) :: u16) + of_bool (holds (cx_probes ctx ! i) = Some (q, a)) =
          word_of_nat (sem_count (cx_probes ctx) q a) + of_bool (holds p' = Some (q, a))"
        using arg_cong [OF sem_count_update [OF i, of p' q a], of "word_of_nat :: nat \<Rightarrow> u16"] by simp
      then show ?thesis
        using e m by auto
    qed
    moreover have "list_all (probe_ok pid) ((cx_probes ctx)[i := p'])"
      using e assms(2) i by (auto simp: counted_def list_all_length nth_list_update)
    ultimately show ?thesis
      using assms(2) g(2) ctx' by (simp add: counted_def)
  qed
qed

lemma disable_all_counted:
  assumes "list_all (probe_ok pid) ps" "mem_ok env pid"
  shows "disable_all env mem ps = Some (\<lambda>q a. mem q a - word_of_nat (sem_count ps q a))"
  using assms(1)
proof (induction ps arbitrary: mem)
  case (Cons p ps)
  obtain ok p' where d: "Probe_disable env mem p =
      Some (ok, case holds p of None \<Rightarrow> mem | Some (q, a) \<Rightarrow> mem(q := (mem q)(a := mem q a - 1)), p')"
    using Probe_disable_effect [OF _ assms(2), of p mem] Cons.prems by auto
  have "sem_count (p # ps) q a = of_bool (holds p = Some (q, a)) + sem_count ps q a" for q a
    by (simp add: sem_count_def)
  then show ?case
    using Cons.IH Cons.prems d by (cases "holds p") (auto simp: fun_eq_iff algebra_simps split: if_splits)
qed (simp add: sem_count_def)

section \<open>Generating code\<close>

text \<open>Generating the code of a probe changes nothing of it but the cache of what kind of file an object is.\<close>

definition same_but_cache :: "Probe \<Rightarrow> Probe \<Rightarrow> bool" where
  "same_but_cache p p' \<longleftrightarrow> (\<exists>m. p' = p\<lparr>pb_object_type_map := m\<rparr>)"

lemma same_but_cache_refl [intro]: "same_but_cache p p"
  by (auto simp: same_but_cache_def intro: exI [of _ "pb_object_type_map p"])

lemma same_but_cache_trans: "same_but_cache p q \<Longrightarrow> same_but_cache q r \<Longrightarrow> same_but_cache p r"
  by (auto simp: same_but_cache_def)

lemma same_but_cache_holds: "same_but_cache p p' \<Longrightarrow> holds p' = holds p \<and> probe_ok pid p' = probe_ok pid p"
  by (cases "pb_pid p") (auto simp: same_but_cache_def holds_def probe_ok_def need_enable_def)

lemma getarg_cases_keeps: "getarg_cases which_so env by_page n cptr ls p = Some (ok, t, p') \<Longrightarrow> same_but_cache p p'"
proof (induction ls arbitrary: p ok t)
  case (Cons l ls)
  obtain label q where q: "(if by_page then Some (Some (page_offset env l), p)
      else resolve_global_address env (lo_bin_path l) (lo_address l) p) = Some (label, q)"
    and r: "label = None \<Longrightarrow> p' = q"
      "label \<noteq> None \<Longrightarrow> p' = q \<or> (\<exists>ok t. getarg_cases which_so env by_page n cptr ls q = Some (ok, t, p'))"
    using Cons.prems by (auto simp: Let_def split: Option.bind_splits option.splits if_splits)
  have "same_but_cache p q"
    using q by (auto split: if_splits dest: resolve_global_address_keeps simp: same_but_cache_def intro: exI [of _ "pb_object_type_map p"])
  then show ?case
    using r Cons.IH same_but_cache_trans by (cases label) blast+
qed auto

lemma getarg_arg_keeps: "getarg_arg which_so env fn n p = Some (ok, t, p') \<Longrightarrow> same_but_cache p p'"
  by (auto simp: getarg_arg_def Let_def simp del: getarg_cases.simps
      split: Option.bind_splits list.splits if_splits dest: getarg_cases_keeps)

lemma getarg_loop_keeps: "getarg_loop which_so env fn ns p = Some (ok, t, p') \<Longrightarrow> same_but_cache p p'"
proof (induction ns arbitrary: p ok t)
  case (Cons n ns)
  then show ?case
    by (auto split: Option.bind_splits if_splits dest!: getarg_arg_keeps Cons.IH elim: same_but_cache_trans)
qed auto

lemma usdt_getarg_keeps: "usdt_getarg which_so env p = Some (ok, t, p') \<Longrightarrow> same_but_cache p p'"
  by (auto simp: usdt_getarg_def usdt_getarg_for_def split: option.splits if_splits list.splits dest: getarg_loop_keeps)

lemma genargs_probes_keeps:
  "genargs_probes which_so env cmd ps g = Some (ok, t, g', ps') \<Longrightarrow> list_all2 same_but_cache ps ps'"
  by (induction ps arbitrary: g ok t g' ps')
     (auto simp: Let_def list_all2_same split: Option.bind_splits if_splits dest: usdt_getarg_keeps intro!: list.rel_refl_strong)

lemma counted_same:
  assumes "counted pid mem0 mem ctx" "list_all2 same_but_cache (cx_probes ctx) ps"
  shows "counted pid mem0 mem (ctx\<lparr>cx_probes := ps\<rparr>)"
proof -
  have "sem_count ps q a = sem_count (cx_probes ctx) q a \<and>
      (list_all (probe_ok pid) (cx_probes ctx) \<longrightarrow> list_all (probe_ok pid) ps)" for q a
    using assms(2) by (induction rule: list_all2_induct) (auto simp: sem_count_def same_but_cache_holds)
  then show ?thesis
    using assms(1) by (auto simp: counted_def)
qed

lemma genargs_counted:
  assumes "bcc_usdt_genargs which_so env [ctx] = Some (r, [ctx'])" "counted pid mem0 mem ctx"
  shows "counted pid mem0 mem ctx'"
  using assms by (auto simp: bcc_usdt_genargs_def Let_def split: Option.bind_splits if_splits
      intro!: counted_same dest!: genargs_probes_keeps)

section \<open>A new context\<close>

definition fresh :: "int \<Rightarrow> Context \<Rightarrow> bool" where
  "fresh pid ctx \<longleftrightarrow> cx_pid ctx = Some pid \<and> cx_pid_stat ctx \<noteq> None \<and>
     list_all (\<lambda>p. pb_pid p = Some pid \<and> pb_attached_to p = None) (cx_probes ctx)"

lemma add_probe_fresh: "add_probe arch path n ctx = Some ctx' \<Longrightarrow> fresh pid ctx \<Longrightarrow> fresh pid ctx'"
  by (auto simp: add_probe_def fresh_def probe_index_def add_location_def Probe_new_def Let_def list_all_length nth_list_update
      nth_append split: option.splits if_splits)

lemma each_probe_fresh: "each_probe arch path ns ctx = Some ctx' \<Longrightarrow> fresh pid ctx \<Longrightarrow> fresh pid ctx'"
  by (induction ns arbitrary: ctx) (auto split: Option.bind_splits dest: add_probe_fresh)

lemma foreach_usdt_fresh: "foreach_usdt env path ctx = Some (r, ctx') \<Longrightarrow> fresh pid ctx \<Longrightarrow> fresh pid ctx'"
  by (auto simp: foreach_usdt_def split: prod.splits dest: each_probe_fresh)

lemma each_module_fresh:
  assumes "case st of None \<Rightarrow> True | Some ctx \<Rightarrow> fresh pid ctx"
  shows "case snd (each_module env md en st) of None \<Rightarrow> True | Some ctx \<Rightarrow> fresh pid ctx"
proof (cases st)
  case (Some ctx)
  have "fresh pid (ctx\<lparr>cx_modules := ms\<rparr>)" for ms
    using assms Some by (simp add: fresh_def)
  then show ?thesis
    using assms Some by (auto simp: each_module_def Let_def split: option.splits dest: foreach_usdt_fresh)
qed (simp add: each_module_def)

lemma finish_pid_fresh: "fresh pid ctx \<Longrightarrow> fresh pid (finish_pid srt env q r ctx)"
  by (auto simp: finish_pid_def finalize_all_def finalize_locations_def fresh_def Let_def list_all_length)

lemma empty_context_fresh: "fresh pid (empty_context (Some pid) (Some st) b)"
  by (simp add: fresh_def empty_context_def)

lemma Context_from_pid_fresh:
  assumes "Context_from_pid srt env pid b = Some ctx"
  shows "fresh pid ctx"
proof -
  let ?c = "empty_context (Some pid) (Some (ProcStat_new env pid)) b"
  obtain r os c1 where w: "bcc_procutils_each_module env (se_os env) (se_zip_entry env) pid (each_module env) (Some ?c) = Some (r, os, Some c1)"
    and ctx: "ctx = finish_pid srt env pid r c1"
    using assms by (auto simp: Context_from_pid_def split: Option.bind_splits)
  have "case Some c1 of None \<Rightarrow> True | Some ctx \<Rightarrow> fresh pid ctx"
    by (rule each_module_keeps [where P = "\<lambda>st. case st of None \<Rightarrow> True | Some ctx \<Rightarrow> fresh pid ctx", OF each_module_fresh w])
       (simp_all add: empty_context_fresh)
  then show ?thesis
    by (simp add: ctx finish_pid_fresh)
qed

lemma Context_from_pid_path_fresh:
  assumes "Context_from_pid_path srt env st pid path b = Some (ctx, st')"
  shows "fresh pid ctx"
proof -
  let ?c = "empty_context (Some pid) (Some (ProcStat_new env pid)) b"
  consider (found) r c1 full_path where "foreach_usdt env full_path ?c = Some (r, c1)" "ctx = finish_pid srt env pid r c1"
    | (none) "ctx = finalize_all srt ?c"
    using assms by (auto simp: Context_from_pid_path_def Let_def split: Option.bind_splits if_splits)
  then show ?thesis
  proof cases
    case found
    then show ?thesis
      using foreach_usdt_fresh [OF _ empty_context_fresh] finish_pid_fresh by blast
  next
    case none
    then show ?thesis
      by (simp add: fresh_def finalize_all_def empty_context_def)
  qed
qed

lemma new_frompid_fresh:
  assumes "bcc_usdt_new_frompid srt env st mem pid path = Some (Some ctx, mem', st')"
  shows "fresh pid ctx \<and> mem' = mem"
  using assms
  by (auto simp: bcc_usdt_new_frompid_def split: Option.bind_splits option.splits if_splits
      dest: Context_from_pid_fresh Context_from_pid_path_fresh)

lemma fresh_counted: "fresh pid ctx \<Longrightarrow> counted pid mem mem ctx"
proof -
  assume f: "fresh pid ctx"
  have "sem_count (cx_probes ctx) q a = 0" for q a
    using f by (auto simp: fresh_def sem_count_def holds_def list_all_iff filter_empty_conv)
  then show ?thesis
    using f by (auto simp: counted_def fresh_def probe_ok_def list_all_iff)
qed

section \<open>The life of a context\<close>

text \<open>Probes are enabled and code is generated, in any order; the state of the system can differ at every call.\<close>

inductive usdt_run :: "proc_mem \<Rightarrow> Context \<Rightarrow> proc_mem \<Rightarrow> Context \<Rightarrow> bool" for mem0 :: proc_mem and c0 :: Context where
  run_start: "usdt_run mem0 c0 mem0 c0"
| run_enable: "usdt_run mem0 c0 mem ctx \<Longrightarrow>
    bcc_usdt_enable_fully_specified_probe (env :: usdt_env) provider name fn mem ctx = Some (r, mem', ctx') \<Longrightarrow>
    usdt_run mem0 c0 mem' ctx'"
| run_genargs: "usdt_run mem0 c0 mem ctx \<Longrightarrow>
    bcc_usdt_genargs which_so (env :: usdt_env) [ctx] = Some (text, [ctx']) \<Longrightarrow> usdt_run mem0 c0 mem ctx'"

lemma run_counted: "usdt_run mem0 c0 mem ctx \<Longrightarrow> counted pid mem0 mem0 c0 \<Longrightarrow> counted pid mem0 mem ctx"
proof (induction rule: usdt_run.induct)
  case (run_enable mem ctx env provider name fn r mem' ctx')
  then show ?case
    by (auto simp: bcc_usdt_enable_fully_specified_probe_def status_of_def intro: enable_probe_counted)
qed (auto intro: genargs_counted)

text \<open>
  (C25) While a context of a process is open, the semaphore at every address of the process is what it was
  plus the number of probes enabled on it, whatever probes are enabled, with whatever result, and
  whatever code is generated; and closing the context, while the process is alive and its memory can be
  accessed, restores the memory.
\<close>

theorem usdt_semaphores_restored:
  assumes "bcc_usdt_new_frompid srt (env :: usdt_env) st mem0 pid path = Some (Some c0, mem1, st')"
    and "usdt_run mem1 c0 mem ctx" "\<not> fst (stale_check (env' :: usdt_env) ctx)" "mem_ok env' pid"
  shows "(\<forall>q a. mem q a = mem0 q a + word_of_nat (sem_count (cx_probes ctx) q a)) \<and>
    bcc_usdt_close env' mem (Some ctx) = Some mem0"
proof -
  have "counted pid mem0 mem ctx"
    using run_counted [OF assms(2)] new_frompid_fresh [OF assms(1)] fresh_counted by blast
  then have c: "list_all (probe_ok pid) (cx_probes ctx)" "cx_pid_stat ctx \<noteq> None"
    "\<forall>q a. mem q a = mem0 q a + word_of_nat (sem_count (cx_probes ctx) q a)"
    by (simp_all add: counted_def)
  then show ?thesis
    using disable_all_counted [OF c(1) assms(4), of mem] assms(3)
    by (simp add: bcc_usdt_close_def Context_destroy_def)
qed

definition wit_usdt_env :: usdt_env where
  "wit_usdt_env = \<lparr>pe_fopen = (\<lambda>_. None), pe_access = (\<lambda>_. True), pe_readlink = (\<lambda>_. Some ''/bin/a''),
     pr_getenv_PATH = None, pr_elf_type = (\<lambda>_. 2), pr_access_x = (\<lambda>_. True),
     pr_readdir = (\<lambda>_. None), pr_stat_ino = (\<lambda>_. None), pr_zip = wit_env, pr_malloc = (\<lambda>_. True),
     pr_realpath = (\<lambda>_. None), pr_mmap_file = (\<lambda>_. None),
     se_list_syms = (\<lambda>_ _. ([], False)), se_list_syms_lazy = (\<lambda>_ _. ([], False)), se_list_vdso = ([], False),
     se_symbol_str = (\<lambda>_ _. None), se_text_scn = (\<lambda>_. None), se_load_sections = (\<lambda>_. None),
     se_buildid = (\<lambda>_. None), se_demangle = (\<lambda>_. None), se_stat = (\<lambda>_. None), se_exists = (\<lambda>_. True),
     se_open = (\<lambda>_. - 1), se_openat = (\<lambda>_ _. - 1), se_stack = (\<lambda>_. []), se_junk = (0, 0), se_erange = False,
     se_os = \<lparr>os_fds = 0, os_maps = 0, os_allocs = 0\<rparr>, se_zip_entry = wit_entry,
     ue_arch = X64, ue_is_pie = (\<lambda>_. False),
     ue_foreach_usdt = (\<lambda>_. ([\<lparr>eu_pc = 0x400, eu_base_addr = 0, eu_semaphore = 0x600, eu_provider = ''app'', eu_name = ''go'',
                                 eu_arg_fmt = [], eu_semaphore_offset = 0\<rparr>], 0)),
     ue_page_size = 0x1000, ue_mem_open = (\<lambda>_. True), ue_mem_seek = (\<lambda>_. True), ue_mem_read = (\<lambda>_ _. True),
     ue_mem_write = (\<lambda>_ _. True)\<rparr>"

definition wit_probe :: Probe where
  "wit_probe = (Probe_new ''/proc/7/root/bin/a'' ''app'' ''go'' 0x600 0 (Some 7) True)
     \<lparr>pb_locations := [\<lparr>lo_address = 0x400, lo_bin_path = ''/proc/7/root/bin/a'', lo_arguments = []\<rparr>]\<rparr>"

definition wit_ctx :: Context where
  "wit_ctx = (empty_context (Some 7) (Some (ProcStat_new wit_usdt_env 7)) True)
     \<lparr>cx_probes := [wit_probe], cx_cmd_bin_path := ''/bin/a'', cx_loaded := True\<rparr>"

definition wit_ctx_enabled :: Context where
  "wit_ctx_enabled = wit_ctx\<lparr>cx_probes := [wit_probe\<lparr>pb_attached_to := Some ''trace'', pb_attached_semaphore := Some 0x600,
     pb_object_type_map := [(''/proc/7/root/bin/a'', False)]\<rparr>]\<rparr>"

abbreviation wit_ld :: ld_state where
  "wit_ld \<equiv> \<lparr>lib_cache_count = 0, lib_cache = []\<rparr>"

lemma show_int_7: "show_int 7 = ''7''"
  by code_simp

lemma wit_new: "bcc_usdt_new_frompid (\<lambda>ls. ls) wit_usdt_env wit_ld mem 7 (Some ''/bin/a'') = Some (Some wit_ctx, mem, wit_ld)"
proof -
  have "bcc_procutils_which wit_usdt_env ''/bin/a'' = Some ''/bin/a''"
    by (simp add: bcc_procutils_which_def bcc_elf_is_exe_def wit_usdt_env_def)
  then have "resolve_bin_path wit_usdt_env wit_ld ''/bin/a'' (Some 7) = Some (''/proc/7/root/bin/a'', wit_ld)"
    by (simp add: resolve_bin_path_def show_int_7)
  moreover have "Location_new X64 0x400 p [] = Some \<lparr>lo_address = 0x400, lo_bin_path = p, lo_arguments = []\<rparr>" for p
    by (simp add: Location_new_def parser_done_def ArgumentParser_new_def char_at_def)
  moreover have "get_pid_exe wit_usdt_env 7 = ''/bin/a''"
    by (simp add: get_pid_exe_def wit_usdt_env_def cstr_def)
  moreover have "ue_foreach_usdt wit_usdt_env p = ([\<lparr>eu_pc = 0x400, eu_base_addr = 0, eu_semaphore = 0x600, eu_provider = ''app'', eu_name = ''go'',
      eu_arg_fmt = [], eu_semaphore_offset = 0\<rparr>], 0)" "ue_arch wit_usdt_env = X64" "se_exists wit_usdt_env p" for p
    by (simp_all add: wit_usdt_env_def)
  ultimately show ?thesis
    by (simp add: bcc_usdt_new_frompid_def Context_from_pid_path_def foreach_usdt_def add_probe_def probe_index_def
        add_location_def finish_pid_def finalize_all_def finalize_locations_def empty_context_def wit_ctx_def wit_probe_def Probe_new_def)
qed

lemma wit_not_stale: "stale_check wit_usdt_env ctx = (False, ctx)"
  by (cases "cx_pid_stat ctx") (simp_all add: stale_check_def is_stale_def getinode_def wit_usdt_env_def)

lemma wit_enable:
  "bcc_usdt_enable_fully_specified_probe wit_usdt_env ''app'' ''go'' ''trace'' mem wit_ctx =
     Some (0, mem(7 := (mem 7)(0x600 := mem 7 0x600 + 1)), wit_ctx_enabled)"
proof -
  have "get_checked wit_usdt_env ''app'' ''go'' wit_ctx = (Some 0, wit_ctx)"
    by (simp add: get_checked_def wit_not_stale wit_ctx_def wit_probe_def Probe_new_def empty_context_def)
  moreover have "update_semaphore wit_usdt_env pid a v mem = (True, mem(pid := (mem pid)(a := mem pid a + v)))" for pid a v
    by (simp add: update_semaphore_def wit_usdt_env_def)
  moreover have "resolve_global_address wit_usdt_env path a p = Some (Some a, p\<lparr>pb_object_type_map := (path, False) # pb_object_type_map p\<rparr>)"
    if "pb_object_type_map p = []" for path a p
    using that by (simp add: resolve_global_address_def in_shared_object_def bcc_elf_is_shared_obj_def wit_usdt_env_def)
  ultimately show ?thesis
    by (simp add: bcc_usdt_enable_fully_specified_probe_def status_of_def enable_probe_def Probe_enable_def add_to_semaphore_def
        need_enable_def wit_ctx_enabled_def wit_ctx_def wit_probe_def Probe_new_def empty_context_def)
qed

theorem usdt_semaphores_restored_witness:
  "\<exists>mem ctx. usdt_run (\<lambda>_ _. 5) wit_ctx mem ctx \<and> mem 7 0x600 = 6 \<and> bcc_usdt_close wit_usdt_env mem (Some ctx) = Some (\<lambda>_ _. 5)"
proof -
  let ?mem = "(\<lambda>_ _. 5 :: u16)(7 := ((\<lambda>_. 5) :: u64 \<Rightarrow> u16)(0x600 := 5 + 1))"
  have run: "usdt_run (\<lambda>_ _. 5) wit_ctx ?mem wit_ctx_enabled"
    by (rule run_enable [OF run_start wit_enable])
  have "mem_ok wit_usdt_env 7"
    by (simp add: mem_ok_def wit_usdt_env_def)
  with usdt_semaphores_restored [OF wit_new run, of wit_usdt_env]
  have "bcc_usdt_close wit_usdt_env ?mem (Some wit_ctx_enabled) = Some (\<lambda>_ _. 5)"
    by (simp add: wit_not_stale)
  then show ?thesis
    using run by (intro exI [of _ ?mem] exI [of _ wit_ctx_enabled]) simp
qed

end
