(* ===== verification/Tracepoint.thy ===== *)
theory Tracepoint
  imports C_Lib
begin

text \<open>
  Tracepoint formats and ranges of CPUs, src/cc/common.cc: \<^verbatim>\<open>parse_tracepoint\<close> turns the format file of an
  event into a C structure whose members lie where the kernel put the fields.  \<^const>\<open>None\<close> is an exception
  of \<^verbatim>\<open>std::stoi\<close>.  The values of enumeration constants come from the BTF of the kernel, through libbpf.
\<close>

section \<open>Strings\<close>

definition sfind :: "string \<Rightarrow> string \<Rightarrow> nat \<Rightarrow> nat option" where
  "sfind s needle pos = (if pos \<le> length s then map_option ((+) pos) (strstr (drop pos s) needle) else None)"

fun find_last_of :: "string \<Rightarrow> string \<Rightarrow> nat option" where
  "find_last_of [] cs = None"
| "find_last_of (c # s) cs =
     (case find_last_of s cs of Some i \<Rightarrow> Some (Suc i) | None \<Rightarrow> if c \<in> set cs then Some 0 else None)"

section \<open>Enumeration constants\<close>

record btf_enum =
  be_is_enum :: bool
  be_members :: "(string \<times> int) list"

definition get_enum_val_from_btf :: "btf_enum list option \<Rightarrow> string \<Rightarrow> int option" where
  "get_enum_val_from_btf btf name =
     (case btf of
        None \<Rightarrow> None
      | Some types \<Rightarrow> map_of (concat (map be_members (filter be_is_enum types))) name)"

section \<open>Ranges of CPUs\<close>

text \<open>\<^verbatim>\<open>std::getline (stream, s, ',')\<close>: the parts between commas, without an empty one at the end.\<close>

lemma drop_part_shorter: "s \<noteq> [] \<Longrightarrow> length (drop 1 (dropWhile P s)) < length s"
  using length_dropWhile_le [of P s] by (cases s) auto

function split_commas :: "string \<Rightarrow> string list" where
  "split_commas s =
     (if s = [] then []
      else takeWhile (\<lambda>c. c \<noteq> CHR '','') s # split_commas (drop 1 (dropWhile (\<lambda>c. c \<noteq> CHR '','') s)))"
  by pat_completeness auto
termination
proof (relation "measure length", goal_cases)
  case (2 s)
  then show ?case
    using drop_part_shorter [of s "\<lambda>c. c \<noteq> CHR '',''"] by simp
qed simp

declare split_commas.simps [simp del]

definition cpu_range :: "string \<Rightarrow> int list option" where
  "cpu_range r =
     (case sfind r ''-'' 0 of
        None \<Rightarrow> map_option (\<lambda>i. [i]) (stoi r)
      | Some rangeop \<Rightarrow> do {
          start \<leftarrow> stoi (take rangeop r);
          stop \<leftarrow> stoi (drop (rangeop + 1) r);
          Some [start..stop]
        })"

fun cpu_ranges :: "string list \<Rightarrow> int list option" where
  "cpu_ranges [] = Some []"
| "cpu_ranges (r # rs) = do {
     cs \<leftarrow> cpu_range r;
     ds \<leftarrow> cpu_ranges rs;
     Some (cs @ ds)
   }"

text \<open>A file that cannot be opened reads as empty.\<close>

definition read_cpu_range :: "(string \<Rightarrow> string option) \<Rightarrow> string \<Rightarrow> int list option" where
  "read_cpu_range files path = cpu_ranges (split_commas (case files path of None \<Rightarrow> [] | Some s \<Rightarrow> s))"

definition get_online_cpus :: "(string \<Rightarrow> string option) \<Rightarrow> int list option" where
  "get_online_cpus files = read_cpu_range files ''/sys/devices/system/cpu/online''"

definition get_possible_cpus :: "(string \<Rightarrow> string option) \<Rightarrow> int list option" where
  "get_possible_cpus files = read_cpu_range files ''/sys/devices/system/cpu/possible''"

section \<open>The fields of an event\<close>

datatype field_kind_t = FK_common | FK_data_loc | FK_regular | FK_invalid | FK_pad

definition adjust_type :: "int \<Rightarrow> string \<Rightarrow> string" where
  "adjust_type sz ty =
     (if sz = 2 then
        (if ty \<in> {''char'', ''int8_t''} then ''s16''
         else if ty \<in> {''unsigned char'', ''uint8_t''} then ''u16'' else ty)
      else if sz = 4 then
        (if ty \<in> {''char'', ''short'', ''int8_t'', ''int16_t''} then ''s32''
         else if ty \<in> {''unsigned char'', ''unsigned short'', ''uint8_t'', ''uint16_t''} then ''u32'' else ty)
      else if sz = 8 then
        (if ty \<in> {''char'', ''short'', ''int'', ''int8_t'', ''int16_t'', ''int32_t'', ''pid_t''} then ''s64''
         else if ty \<in> {''unsigned char'', ''unsigned short'', ''unsigned int'', ''uint8_t'', ''uint16_t'', ''uint32_t'',
                        ''unsigned'', ''u32'', ''uid_t'', ''gid_t''} then ''u64'' else ty)
      else ty)"

text \<open>The name of an array with a dimension that is an enumeration constant gets the value of the constant.\<close>

definition array_name :: "btf_enum list option \<Rightarrow> string \<Rightarrow> nat \<Rightarrow> string" where
  "array_name btf field_name pos1 =
     (let stop = (case sfind field_name '']'' 0 of
                    None \<Rightarrow> length field_name
                  | Some pos2 \<Rightarrow> if pos2 \<le> pos1 then length field_name else pos2);
          dim = substr (pos1 + 1) stop field_name
      in if dim \<noteq> [] \<and> \<not> isdigit (hd dim)
         then take (pos1 + 1) field_name @
              (case get_enum_val_from_btf btf dim of None \<Rightarrow> dim | Some v \<Rightarrow> show_int v) @ drop stop field_name
         else field_name)"

definition classify_field :: "btf_enum list option \<Rightarrow> string \<Rightarrow> int \<Rightarrow> field_kind_t \<times> string \<times> string" where
  "classify_field btf field sz =
     (case find_last_of field [CHR 0x09, CHR '' ''] of
        None \<Rightarrow> (FK_invalid, [], [])
      | Some pos \<Rightarrow>
          (let field_type = take pos field; field_name = drop (pos + 1) field in
           if sfind field_type ''__data_loc'' 0 \<noteq> None then (FK_data_loc, field_type, field_name)
           else if sfind field_name ''common_'' 0 = Some 0 then (FK_common, field_type, field_name)
           else
             (case sfind field_name ''['' 0 of
                Some pos1 \<Rightarrow> (FK_regular, field_type, array_name btf field_name pos1)
              | None \<Rightarrow> (FK_regular, adjust_type sz field_type, field_name))))"

text \<open>
  The kind, the type, the name and the new offset.  Offset and size fit an \<^verbatim>\<open>int\<close> each, or \<^verbatim>\<open>stoi\<close> throws; their sum, which may
  exceed it for a file that no kernel writes, is taken as the number it is.
\<close>

definition get_field_kind ::
  "btf_enum list option \<Rightarrow> string \<Rightarrow> int \<Rightarrow> (field_kind_t \<times> string \<times> string \<times> int) option" where
  "get_field_kind btf line last_offset =
     (let invalid = Some (FK_invalid, [], [], last_offset) in
      case sfind line ''field:'' 0 of
        None \<Rightarrow> invalid
      | Some field_pos \<Rightarrow>
      (case sfind line '';'' field_pos of
        None \<Rightarrow> invalid
      | Some field_semi_pos \<Rightarrow>
      (case sfind line ''offset:'' field_semi_pos of
        None \<Rightarrow> invalid
      | Some offset_pos \<Rightarrow>
      (case sfind line '';'' offset_pos of
        None \<Rightarrow> invalid
      | Some semi_pos \<Rightarrow> do {
          offset \<leftarrow> stoi (substr (offset_pos + 7) semi_pos line);
          case sfind line ''size:'' semi_pos of
            None \<Rightarrow> invalid
          | Some size_pos \<Rightarrow>
          (case sfind line '';'' size_pos of
            None \<Rightarrow> invalid
          | Some semi_pos \<Rightarrow> do {
              sz \<leftarrow> stoi (substr (size_pos + 5) semi_pos line);
              if last_offset < offset then Some (FK_pad, [], [], last_offset + 1)
              else
                (case classify_field btf (substr (field_pos + 6) field_semi_pos line) sz of
                   (kind, ty, name) \<Rightarrow> Some (kind, ty, name, offset + sz))
            })
        }))))"

definition line_offset :: "string \<Rightarrow> int option" where
  "line_offset line = do {
     field_pos \<leftarrow> sfind line ''field:'' 0;
     field_semi_pos \<leftarrow> sfind line '';'' field_pos;
     offset_pos \<leftarrow> sfind line ''offset:'' field_semi_pos;
     semi_pos \<leftarrow> sfind line '';'' offset_pos;
     stoi (substr (offset_pos + 7) semi_pos line)
   }"

lemma classify_field_no_pad: "fst (classify_field btf field sz) \<noteq> FK_pad"
  by (simp add: classify_field_def Let_def split: option.splits)

lemma get_field_kind_pad:
  assumes "get_field_kind btf line k = Some (FK_pad, ty, name, l)"
  shows "l = k + 1 \<and> (\<exists>off. line_offset line = Some off \<and> k < off)"
  using assms classify_field_no_pad [of btf]
  by (auto simp: get_field_kind_def line_offset_def Let_def split: option.splits Option.bind_splits if_splits prod.splits)
     (metis fst_conv)+

section \<open>The structure\<close>

text \<open>The members that are appended to the structure.\<close>

datatype tp_member = TP_do_not_use int | TP_pad int | TP_data_loc string | TP_field string string

fun show_member :: "tp_member \<Rightarrow> string" where
  "show_member (TP_do_not_use n) = [CHR 0x09] @ ''char __do_not_use__'' @ show_int n @ '';'' @ [CHR 0x0A]"
| "show_member (TP_pad n) = [CHR 0x09] @ ''char __pad_'' @ show_int n @ '';'' @ [CHR 0x0A]"
| "show_member (TP_data_loc name) = [CHR 0x09] @ ''int data_loc_'' @ name @ '';'' @ [CHR 0x0A]"
| "show_member (TP_field ty name) = [CHR 0x09] @ ty @ '' '' @ name @ '';'' @ [CHR 0x0A]"

record tp_state =
  tp_last_offset :: int
  tp_common_offset :: int
  tp_members :: "tp_member list"

definition common_members :: "tp_state \<Rightarrow> tp_state" where
  "common_members st =
     st\<lparr>tp_members := tp_members st @ map TP_do_not_use [tp_common_offset st..tp_last_offset st - 1],
        tp_common_offset := max (tp_common_offset st) (tp_last_offset st)\<rparr>"

text \<open>One line: padding is inserted a byte at a time until the field is reached.\<close>

function parse_line :: "btf_enum list option \<Rightarrow> string \<Rightarrow> tp_state \<Rightarrow> tp_state option" where
  "parse_line btf line st =
     (case get_field_kind btf line (tp_last_offset st) of
        None \<Rightarrow> None
      | Some (kind, ty, name, last_offset) \<Rightarrow>
          (let st' = st\<lparr>tp_last_offset := last_offset\<rparr> in
           case kind of
             FK_invalid \<Rightarrow> Some st'
           | FK_common \<Rightarrow> Some (common_members st')
           | FK_data_loc \<Rightarrow> Some (st'\<lparr>tp_members := tp_members st' @ [TP_data_loc name]\<rparr>)
           | FK_regular \<Rightarrow> Some (st'\<lparr>tp_members := tp_members st' @ [TP_field ty name]\<rparr>)
           | FK_pad \<Rightarrow> parse_line btf line (st'\<lparr>tp_members := tp_members st' @ [TP_pad (last_offset - 1)]\<rparr>)))"
  by pat_completeness auto
termination
proof (relation "measure (\<lambda>(btf, line, st). nat (the (line_offset line) - tp_last_offset st))", goal_cases)
  case (2 btf line st x kind xa ty xb name last_offset st')
  then show ?case
    using get_field_kind_pad [of btf line "tp_last_offset st" ty name last_offset] by auto
qed simp

declare parse_line.simps [simp del]

fun parse_lines :: "btf_enum list option \<Rightarrow> string list \<Rightarrow> tp_state \<Rightarrow> tp_state option" where
  "parse_lines btf [] st = Some st"
| "parse_lines btf (line # lines) st = parse_line btf line st \<bind> parse_lines btf lines"

text \<open>\<^verbatim>\<open>getline (input, line)\<close>: the lines, without an empty one at the end.\<close>

function input_lines :: "string \<Rightarrow> string list" where
  "input_lines s =
     (if s = [] then []
      else takeWhile (\<lambda>c. c \<noteq> CHR 0x0A) s # input_lines (drop 1 (dropWhile (\<lambda>c. c \<noteq> CHR 0x0A) s)))"
  by pat_completeness auto
termination
proof (relation "measure length", goal_cases)
  case (2 s)
  then show ?case
    using drop_part_shorter [of s "\<lambda>c. c \<noteq> CHR 0x0A"] by simp
qed simp

declare input_lines.simps [simp del]

definition parse_tracepoint :: "btf_enum list option \<Rightarrow> string \<Rightarrow> string \<Rightarrow> string \<Rightarrow> string option" where
  "parse_tracepoint btf input category event = do {
     st \<leftarrow> parse_lines btf (input_lines input) \<lparr>tp_last_offset = 0, tp_common_offset = 8, tp_members = []\<rparr>;
     Some (''struct tracepoint__'' @ category @ ''__'' @ event @ '' {'' @ [CHR 0x0A] @
           [CHR 0x09] @ ''u64 __do_not_use__;'' @ [CHR 0x0A] @ concat (map show_member (tp_members st)) @ ''};'' @ [CHR 0x0A])
   }"

section \<open>Files\<close>

text \<open>The answer of \<^verbatim>\<open>access\<close> is asked for once and kept.\<close>

definition cc_tracefs_path :: "bool \<Rightarrow> string" where
  "cc_tracefs_path use_debugfs = (if use_debugfs then ''/sys/kernel/debug/tracing'' else ''/sys/kernel/tracing'')"

definition tracepoint_format_file :: "bool \<Rightarrow> string \<Rightarrow> string \<Rightarrow> string" where
  "tracepoint_format_file use_debugfs category event =
     cc_tracefs_path use_debugfs @ ''/events/'' @ category @ ''/'' @ event @ ''/format''"

end
