(* ===== verification/Tracepoint_Layout.thy ===== *)
theory Tracepoint_Layout
  imports Tracepoint
begin

text \<open>
  The structure that \<^verbatim>\<open>parse_tracepoint\<close> generates puts every field of the event at the offset that the
  format file of the kernel gives.
\<close>

section \<open>Format files\<close>










section \<open>Reading a line\<close>


lemma sfind_at: "drop pos s = t \<Longrightarrow> pos \<le> length s \<Longrightarrow> strstr t needle = Some i \<Longrightarrow> sfind s needle pos = Some (pos + i)"
  by (simp add: sfind_def)









section \<open>The member of a field\<close>








section \<open>Padding\<close>







section \<open>The layout of the structure\<close>





















end
