(* ===== verification/Bpf_Maps.thy ===== *)
theory Bpf_Maps
  imports Trace_Misc
begin

text \<open>
  BPF hash maps and the helpers that read them out, libbpf-tools/maps.bpf.h and libbpf-tools/map_helpers.c.
  The maps are the kernel's, so their operations are parameters: those that a BPF program calls and the
  system calls.  What the helpers rely on is the predicate \<open>hash_laws\<close>, the documented behaviour of
  \<^verbatim>\<open>BPF_MAP_TYPE_HASH\<close>; \<open>entries\<close> lists a map in the order in which the kernel walks it.
\<close>

section \<open>The operations of the kernel\<close>

definition ENOENT :: int where "ENOENT = 2"
definition EEXIST :: int where "EEXIST = 17"

text \<open>
  A BPF program gets a pointer to the value from a lookup and stores through it, which is \<open>bm_modify\<close>.
  The system calls return an error number on the left; the one that deletes returns 0 or a negative number.  A batch call takes the cursor and the room for
  entries, and returns an error number or 0, the new cursor and the entries it has stored; the flag says
  whether they are deleted.
\<close>

record ('m, 'k, 'v) bpf_map =
  bm_lookup :: "'k \<Rightarrow> 'm \<Rightarrow> 'v option"
  bm_update :: "bool \<Rightarrow> 'k \<Rightarrow> 'v \<Rightarrow> 'm \<Rightarrow> int \<times> 'm"
  bm_delete :: "'k \<Rightarrow> 'm \<Rightarrow> 'm"
  bm_modify :: "'k \<Rightarrow> ('v \<Rightarrow> 'v) \<Rightarrow> 'm \<Rightarrow> 'm"
  bm_get_next_key :: "'k \<Rightarrow> 'm \<Rightarrow> int + 'k"
  bm_lookup_elem :: "'k \<Rightarrow> 'm \<Rightarrow> int + 'v"
  bm_delete_elem :: "'k \<Rightarrow> 'm \<Rightarrow> int \<times> 'm"
  bm_batch :: "bool \<Rightarrow> u64 \<Rightarrow> u32 \<Rightarrow> 'm \<Rightarrow> int \<times> u64 \<times> ('k \<times> 'v) list \<times> 'm"

section \<open>maps.bpf.h\<close>

text \<open>Whether the value is there afterwards, so that the program can store through the pointer.\<close>

definition bpf_map_lookup_or_try_init :: "('m, 'k, 'v) bpf_map \<Rightarrow> 'k \<Rightarrow> 'v \<Rightarrow> 'm \<Rightarrow> 'v option \<times> 'm" where
  "bpf_map_lookup_or_try_init ops key init m =
     (case bm_lookup ops key m of
        Some val \<Rightarrow> (Some val, m)
      | None \<Rightarrow>
          (case bm_update ops True key init m of
             (err, m) \<Rightarrow> if err \<noteq> 0 \<and> err \<noteq> - EEXIST then (None, m) else (bm_lookup ops key m, m)))"

section \<open>map_helpers.c\<close>

text \<open>The first loop of \<^verbatim>\<open>dump_hash_iter\<close>: the keys, at most as many as there is room for.\<close>

fun iter_keys :: "('m, 'k, 'v) bpf_map \<Rightarrow> nat \<Rightarrow> 'k \<Rightarrow> 'm \<Rightarrow> 'k list option" where
  "iter_keys ops 0 key m = Some []"
| "iter_keys ops (Suc room) key m =
     (case bm_get_next_key ops key m of
        Inl err \<Rightarrow> if err \<noteq> ENOENT then None else Some []
      | Inr next_key \<Rightarrow> map_option ((#) next_key) (iter_keys ops room next_key m))"

text \<open>The second loop; the flag is false if it ends early.\<close>

fun iter_values :: "('m, 'k, 'v) bpf_map \<Rightarrow> bool \<Rightarrow> 'k list \<Rightarrow> 'm \<Rightarrow> bool \<times> 'v list \<times> 'm" where
  "iter_values ops lookup_and_delete [] m = (True, [], m)"
| "iter_values ops lookup_and_delete (key # keys) m =
     (case bm_lookup_elem ops key m of
        Inl err \<Rightarrow> (False, [], m)
      | Inr val \<Rightarrow>
          (let (err, m) = (if lookup_and_delete then bm_delete_elem ops key m else (0, m)) in
           if err \<noteq> 0 then (False, [val], m)
           else (let (ok, vals, m) = iter_values ops lookup_and_delete keys m in (ok, val # vals, m))))"

text \<open>The result is the value returned, the keys and the values stored, the new count and the map.\<close>

type_synonym ('m, 'k, 'v) dumped = "int \<times> 'k list \<times> 'v list \<times> u32 \<times> 'm"

definition dump_hash_iter ::
  "('m, 'k, 'v) bpf_map \<Rightarrow> u32 \<Rightarrow> 'k \<Rightarrow> bool \<Rightarrow> 'm \<Rightarrow> ('m, 'k, 'v) dumped" where
  "dump_hash_iter ops cnt invalid_key lookup_and_delete m =
     (case iter_keys ops (unat cnt) invalid_key m of
        None \<Rightarrow> (- 1, [], [], cnt, m)
      | Some keys \<Rightarrow>
          (case iter_values ops lookup_and_delete keys m of
             (ok, vals, m) \<Rightarrow> if ok then (0, keys, vals, word_of_nat (length keys), m) else (- 1, keys, vals, cnt, m)))"

text \<open>
  The loop of \<^verbatim>\<open>dump_hash_batch\<close>, which the kernel can keep from ending, so it has fuel.  The first
  component is the error number with which the function returns early.
\<close>

fun batch_loop ::
  "nat \<Rightarrow> ('m, 'k, 'v) bpf_map \<Rightarrow> bool \<Rightarrow> u32 \<Rightarrow> u64 \<Rightarrow> u32 \<Rightarrow> 'm \<Rightarrow> (int option \<times> ('k \<times> 'v) list \<times> u32 \<times> 'm) loop_res" where
  "batch_loop 0 ops lookup_and_delete cnt cursor n_read m = Timeout"
| "batch_loop (Suc fuel) ops lookup_and_delete cnt cursor n_read m =
     (if \<not> n_read < cnt then Finished (None, [], n_read, m)
      else
        (case bm_batch ops lookup_and_delete cursor (cnt - n_read) m of
           (err, out, xs, m) \<Rightarrow>
             if err \<noteq> 0 \<and> err \<noteq> ENOENT then Finished (Some err, xs, n_read, m)
             else if err \<noteq> 0 then Finished (None, xs, n_read + word_of_nat (length xs), m)
             else
               (case batch_loop fuel ops lookup_and_delete cnt out (n_read + word_of_nat (length xs)) m of
                  Finished (e, ys, n, m) \<Rightarrow> Finished (e, xs @ ys, n, m)
                | Timeout \<Rightarrow> Timeout
                | Fault \<Rightarrow> Fault)))"

text \<open>With the error number that the call leaves behind when it returns -1.\<close>

definition dump_hash_batch ::
  "nat \<Rightarrow> ('m, 'k, 'v) bpf_map \<Rightarrow> u32 \<Rightarrow> bool \<Rightarrow> 'm \<Rightarrow> (int option \<times> ('m, 'k, 'v) dumped) loop_res" where
  "dump_hash_batch fuel ops cnt lookup_and_delete m =
     (case batch_loop fuel ops lookup_and_delete cnt 0 0 m of
        Finished (None, xs, n_read, m) \<Rightarrow> Finished (None, 0, map fst xs, map snd xs, n_read, m)
      | Finished (Some err, xs, n_read, m) \<Rightarrow> Finished (Some err, - 1, map fst xs, map snd xs, cnt, m)
      | Timeout \<Rightarrow> Timeout
      | Fault \<Rightarrow> Fault)"

text \<open>
  \<open>null_arg\<close> says that a pointer is null or a size is zero.  The flag \<^verbatim>\<open>batch_map_ops\<close> is a static variable
  of the file.
\<close>

definition dump_hash ::
  "nat \<Rightarrow> ('m, 'k, 'v) bpf_map \<Rightarrow> bool \<Rightarrow> bool \<Rightarrow> u32 \<Rightarrow> 'k option \<Rightarrow> bool \<Rightarrow> 'm \<Rightarrow>
   (bool \<times> ('m, 'k, 'v) dumped) loop_res" where
  "dump_hash fuel ops batch_map_ops null_arg cnt invalid_key lookup_and_delete m =
     (let iter = (\<lambda>flag cnt m.
            case invalid_key of
              None \<Rightarrow> (flag, - 1, [], [], cnt, m)
            | Some key \<Rightarrow> (flag, dump_hash_iter ops cnt key lookup_and_delete m))
      in if null_arg then Finished (batch_map_ops, - 1, [], [], cnt, m)
         else if batch_map_ops
         then (case dump_hash_batch fuel ops cnt lookup_and_delete m of
                 Finished (err, ret, keys, vals, n, m) \<Rightarrow>
                   if ret \<noteq> 0 \<and> err = Some EINVAL then Finished (iter False n m)
                   else Finished (batch_map_ops, ret, keys, vals, n, m)
               | Timeout \<Rightarrow> Timeout
               | Fault \<Rightarrow> Fault)
         else Finished (iter batch_map_ops cnt m))"

section \<open>What is known of a hash map\<close>

text \<open>
  The map of the entries is what a lookup sees; an update of a key that is there replaces its value, one of
  a new key adds it while there is room for \<open>cap\<close> entries; deleting keeps the order of the others.  The key
  after one that is not there is the first.
\<close>

fun next_in :: "'k list \<Rightarrow> 'k \<Rightarrow> int + 'k" where
  "next_in [] key = Inl ENOENT"
| "next_in (k # ks) key = (if k = key then (case ks of [] \<Rightarrow> Inl ENOENT | k' # _ \<Rightarrow> Inr k') else next_in ks key)"

definition next_key :: "'k list \<Rightarrow> 'k \<Rightarrow> int + 'k" where
  "next_key ks key = (if key \<in> set ks then next_in ks key else case ks of [] \<Rightarrow> Inl ENOENT | k # _ \<Rightarrow> Inr k)"

definition without :: "'k list \<Rightarrow> ('k \<times> 'v) list \<Rightarrow> ('k \<times> 'v) list" where
  "without ks es = filter (\<lambda>e. fst e \<notin> set ks) es"

definition hash_laws :: "('m, 'k, 'v) bpf_map \<Rightarrow> ('m \<Rightarrow> bool) \<Rightarrow> ('m \<Rightarrow> ('k \<times> 'v) list) \<Rightarrow> nat \<Rightarrow> bool" where
  "hash_laws ops valid entries cap \<longleftrightarrow>
     (\<forall>m. valid m \<longrightarrow> distinct (map fst (entries m))) \<and>
     (\<forall>m k. valid m \<longrightarrow> bm_lookup ops k m = map_of (entries m) k) \<and>
     (\<forall>m k v b. valid m \<longrightarrow> map_of (entries m) k = None \<longrightarrow> length (entries m) < cap \<longrightarrow>
        (\<exists>m'. bm_update ops b k v m = (0, m') \<and> valid m' \<and> map_of (entries m') = (map_of (entries m))(k \<mapsto> v))) \<and>
     (\<forall>m k v. valid m \<longrightarrow> k \<in> dom (map_of (entries m)) \<longrightarrow>
        (\<exists>m'. bm_update ops False k v m = (0, m') \<and> valid m' \<and> map_of (entries m') = (map_of (entries m))(k \<mapsto> v))) \<and>
     (\<forall>m k. valid m \<longrightarrow> valid (bm_delete ops k m) \<and> entries (bm_delete ops k m) = without [k] (entries m)) \<and>
     (\<forall>m k f. valid m \<longrightarrow> valid (bm_modify ops k f m) \<and>
        entries (bm_modify ops k f m) = map (\<lambda>(k', v). (k', if k' = k then f v else v)) (entries m)) \<and>
     (\<forall>m k. valid m \<longrightarrow> bm_get_next_key ops k m = next_key (map fst (entries m)) k) \<and>
     (\<forall>m k v. valid m \<longrightarrow> map_of (entries m) k = Some v \<longrightarrow> bm_lookup_elem ops k m = Inr v) \<and>
     (\<forall>m k. valid m \<longrightarrow> k \<in> dom (map_of (entries m)) \<longrightarrow>
        (\<exists>m'. bm_delete_elem ops k m = (0, m') \<and> valid m' \<and> entries m' = without [k] (entries m)))"

text \<open>
  A kernel without batch calls answers with \<^const>\<open>EINVAL\<close>.  One that has them continues at the cursor: \<open>rest\<close> is
  what the cursor has not reached yet.  With enough room a call returns a part of it that is not empty, and
  \<^const>\<open>ENOENT\<close> with the last part.
\<close>

definition no_batch :: "('m, 'k, 'v) bpf_map \<Rightarrow> bool" where
  "no_batch ops \<longleftrightarrow> (\<forall>del c n m. \<exists>c'. bm_batch ops del c n m = (EINVAL, c', [], m))"

definition batch_laws ::
  "('m, 'k, 'v) bpf_map \<Rightarrow> ('m \<Rightarrow> bool) \<Rightarrow> ('m \<Rightarrow> ('k \<times> 'v) list) \<Rightarrow> (u64 \<Rightarrow> 'm \<Rightarrow> ('k \<times> 'v) list) \<Rightarrow> bool" where
  "batch_laws ops valid entries rest \<longleftrightarrow>
     (\<forall>m. valid m \<longrightarrow> rest 0 m = entries m) \<and>
     (\<forall>m del c n. valid m \<longrightarrow> 0 < n \<longrightarrow> length (rest c m) \<le> unat n \<longrightarrow>
        (\<exists>err c' xs ys m'. bm_batch ops del c n m = (err, c', xs, m') \<and> valid m' \<and> rest c m = xs @ ys \<and>
           entries m' = (if del then without (map fst xs) (entries m) else entries m) \<and>
           (err = 0 \<and> xs \<noteq> [] \<and> rest c' m' = ys \<or> err = ENOENT \<and> ys = [])))"

end
