(* ===== verification/Runqlat.thy ===== *)
theory Runqlat
  imports Bpf_Maps Hist
begin

text \<open>
  The tool \<^verbatim>\<open>runqlat\<close>: the BPF program libbpf-tools/runqlat.bpf.c, which measures how long tasks wait on the run
  queue, and the report of libbpf-tools/runqlat.c.  The handlers run one after the other.  A task is what
  the program reads of a \<^verbatim>\<open>task_struct\<close>; the time and the answer of the cgroup test come with an event.
\<close>

definition MAX_SLOTS :: nat where "MAX_SLOTS = 26"
definition TASK_COMM_LEN :: nat where "TASK_COMM_LEN = 16"

record hist =
  hi_slots :: "u32 list"
  hi_comm :: string

definition zero_hist :: hist where
  "zero_hist = \<lparr>hi_slots = replicate MAX_SLOTS 0, hi_comm = []\<rparr>"

text \<open>The options, which user space writes into the read-only data of the program.\<close>

record runqlat_opts =
  filter_cg :: bool
  targ_per_process :: bool
  targ_per_thread :: bool
  targ_per_pidns :: bool
  targ_ms :: bool
  targ_tgid :: int

record task =
  ts_tgid :: u32
  ts_pid :: u32
  ts_state :: int
  ts_pidns :: u32
  ts_comm :: string

definition TASK_RUNNING :: int where "TASK_RUNNING = 0"

section \<open>runqlat.bpf.c\<close>

definition trace_enqueue :: "runqlat_opts \<Rightarrow> ('s, u32, u64) bpf_map \<Rightarrow> u64 \<Rightarrow> u32 \<Rightarrow> u32 \<Rightarrow> 's \<Rightarrow> 's" where
  "trace_enqueue opts sops now tgid pid start =
     (if pid = 0 then start
      else if targ_tgid opts \<noteq> 0 \<and> word_of_int (targ_tgid opts) \<noteq> tgid then start
      else snd (bm_update sops False pid now start))"

definition hist_key :: "runqlat_opts \<Rightarrow> task \<Rightarrow> u32" where
  "hist_key opts task =
     (if targ_per_process opts then ts_tgid task
      else if targ_per_thread opts then ts_pid task
      else if targ_per_pidns opts then ts_pidns task
      else - 1)"

text \<open>The division is of a number that is not negative.\<close>

definition wait_slot :: "runqlat_opts \<Rightarrow> u64 \<Rightarrow> u64" where
  "wait_slot opts delta =
     (let slot = log2l (delta div (if targ_ms opts then 1000000 else 1000))
      in if word_of_nat MAX_SLOTS \<le> slot then word_of_nat (MAX_SLOTS - 1) else slot)"

definition set_comm :: "task \<Rightarrow> hist \<Rightarrow> hist" where
  "set_comm task h = (if hi_comm h = [] then h\<lparr>hi_comm := take (TASK_COMM_LEN - 1) (ts_comm task)\<rparr> else h)"

definition add_slot :: "nat \<Rightarrow> hist \<Rightarrow> hist" where
  "add_slot slot h = h\<lparr>hi_slots := (hi_slots h)[slot := hi_slots h ! slot + 1]\<rparr>"

definition count_wait :: "runqlat_opts \<Rightarrow> ('h, u32, hist) bpf_map \<Rightarrow> task \<Rightarrow> u64 \<Rightarrow> 'h \<Rightarrow> 'h" where
  "count_wait opts hops task delta hists =
     (case bpf_map_lookup_or_try_init hops (hist_key opts task) zero_hist hists of
        (None, hists) \<Rightarrow> hists
      | (Some h, hists) \<Rightarrow>
          bm_modify hops (hist_key opts task) (add_slot (unat (wait_slot opts delta)) \<circ> set_comm task) hists)"

text \<open>The clock is read twice, once for each task.\<close>

definition handle_switch ::
  "runqlat_opts \<Rightarrow> ('s, u32, u64) bpf_map \<Rightarrow> ('h, u32, hist) bpf_map \<Rightarrow> bool \<Rightarrow> u64 \<Rightarrow> u64 \<Rightarrow> task \<Rightarrow> task \<Rightarrow> 's \<times> 'h \<Rightarrow> 's \<times> 'h" where
  "handle_switch opts sops hops under_cgroup now now' prev nxt =
     (\<lambda>(start, hists).
        if filter_cg opts \<and> \<not> under_cgroup then (start, hists)
        else
          (let start = (if ts_state prev = TASK_RUNNING then trace_enqueue opts sops now (ts_tgid prev) (ts_pid prev) start
                        else start);
               pid = ts_pid nxt
           in case bm_lookup sops pid start of
                None \<Rightarrow> (start, hists)
              | Some ts \<Rightarrow>
                  (let delta = now' - ts
                   in (bm_delete sops pid start, if sint delta < 0 then hists else count_wait opts hops nxt delta hists))))"

text \<open>The programs; the variants for older kernels read the same fields.\<close>

datatype sched_event =
    Sched_wakeup bool u64 task
  | Sched_wakeup_new bool u64 task
  | Sched_switch bool u64 u64 task task

fun sched_handler ::
  "runqlat_opts \<Rightarrow> ('s, u32, u64) bpf_map \<Rightarrow> ('h, u32, hist) bpf_map \<Rightarrow> sched_event \<Rightarrow> 's \<times> 'h \<Rightarrow> 's \<times> 'h" where
  "sched_handler opts sops hops (Sched_wakeup under_cgroup now p) (start, hists) =
     (if filter_cg opts \<and> \<not> under_cgroup then (start, hists)
      else (trace_enqueue opts sops now (ts_tgid p) (ts_pid p) start, hists))"
| "sched_handler opts sops hops (Sched_wakeup_new under_cgroup now p) (start, hists) =
     (if filter_cg opts \<and> \<not> under_cgroup then (start, hists)
      else (trace_enqueue opts sops now (ts_tgid p) (ts_pid p) start, hists))"
| "sched_handler opts sops hops (Sched_switch under_cgroup now now' prev nxt) (start, hists) =
     handle_switch opts sops hops under_cgroup now now' prev nxt (start, hists)"

section \<open>runqlat.c\<close>

definition hist_head :: "runqlat_opts \<Rightarrow> u32 \<Rightarrow> hist \<Rightarrow> string" where
  "hist_head opts key h =
     (if targ_per_process opts then [CHR 0x0A] @ ''pid = '' @ show_int (sint key) @ '' '' @ hi_comm h @ [CHR 0x0A]
      else if targ_per_thread opts then [CHR 0x0A] @ ''tid = '' @ show_int (sint key) @ '' '' @ hi_comm h @ [CHR 0x0A]
      else if targ_per_pidns opts then [CHR 0x0A] @ ''pidns = '' @ show_int (uint key) @ '' '' @ hi_comm h @ [CHR 0x0A]
      else [])"

definition hist_text :: "runqlat_opts \<Rightarrow> u32 \<Rightarrow> hist \<Rightarrow> string option" where
  "hist_text opts key h =
     map_option ((@) (hist_head opts key h))
       (print_log2_hist (hi_slots h) (if targ_ms opts then ''msecs'' else ''usecs''))"

text \<open>The kernel decides how long the loops run, so they have fuel.  The flag is false for an error.\<close>

fun print_loop :: "nat \<Rightarrow> runqlat_opts \<Rightarrow> ('h, u32, hist) bpf_map \<Rightarrow> u32 \<Rightarrow> 'h \<Rightarrow> (bool \<times> string) loop_res" where
  "print_loop 0 opts hops lookup_key hists = Timeout"
| "print_loop (Suc fuel) opts hops lookup_key hists =
     (case bm_get_next_key hops lookup_key hists of
        Inl err \<Rightarrow> Finished (True, [])
      | Inr nk \<Rightarrow>
          (case bm_lookup_elem hops nk hists of
             Inl err \<Rightarrow> Finished (False, [])
           | Inr h \<Rightarrow>
               (case hist_text opts nk h of
                  None \<Rightarrow> Fault
                | Some text \<Rightarrow>
                    (case print_loop fuel opts hops nk hists of
                       Finished (ok, texts) \<Rightarrow> Finished (ok, text @ texts)
                     | Timeout \<Rightarrow> Timeout
                     | Fault \<Rightarrow> Fault))))"

fun cleanup_loop :: "nat \<Rightarrow> ('h, u32, hist) bpf_map \<Rightarrow> u32 \<Rightarrow> 'h \<Rightarrow> (bool \<times> 'h) loop_res" where
  "cleanup_loop 0 hops lookup_key hists = Timeout"
| "cleanup_loop (Suc fuel) hops lookup_key hists =
     (case bm_get_next_key hops lookup_key hists of
        Inl err \<Rightarrow> Finished (True, hists)
      | Inr nk \<Rightarrow>
          (case bm_delete_elem hops nk hists of
             (err, hists) \<Rightarrow> if err < 0 then Finished (False, hists) else cleanup_loop fuel hops nk hists))"

definition print_log2_hists ::
  "nat \<Rightarrow> runqlat_opts \<Rightarrow> ('h, u32, hist) bpf_map \<Rightarrow> 'h \<Rightarrow> (int \<times> string \<times> 'h) loop_res" where
  "print_log2_hists fuel opts hops hists =
     (case print_loop fuel opts hops (- 2) hists of
        Finished (ok, text) \<Rightarrow>
          (if \<not> ok then Finished (- 1, text, hists)
           else
             (case cleanup_loop fuel hops (- 2) hists of
                Finished (ok, hists) \<Rightarrow> Finished (if ok then 0 else - 1, text, hists)
              | Timeout \<Rightarrow> Timeout
              | Fault \<Rightarrow> Fault))
      | Timeout \<Rightarrow> Timeout
      | Fault \<Rightarrow> Fault)"

end
