(* ===== verification/Map_Dump.thy ===== *)
theory Map_Dump
  imports Bpf_Maps
begin

text \<open>
  \<^verbatim>\<open>dump_hash\<close> of libbpf-tools/map_helpers.c reads a whole hash map out, key by key or with the kernel's batch
  calls, with the same result.
\<close>

section \<open>Hash maps\<close>

lemma hash_lawsD:
  assumes "hash_laws ops valid entries cap" "valid m"
  shows "distinct (map fst (entries m))"
    and "bm_lookup ops k m = map_of (entries m) k"
    and "bm_get_next_key ops k m = next_key (map fst (entries m)) k"
    and "map_of (entries m) k = Some v \<Longrightarrow> bm_lookup_elem ops k m = Inr v"
    and "valid (bm_delete ops k m)" "entries (bm_delete ops k m) = without [k] (entries m)"
    and "valid (bm_modify ops k f m)"
    and "entries (bm_modify ops k f m) = map (\<lambda>(k', v). (k', if k' = k then f v else v)) (entries m)"
  using assms by (simp_all add: hash_laws_def)

lemma hash_laws_deleteE:
  assumes "hash_laws ops valid entries cap" "valid m" "k \<in> fst ` set (entries m)"
  obtains m' where "bm_delete_elem ops k m = (0, m')" "valid m'" "entries m' = without [k] (entries m)"
proof -
  have "k \<in> dom (map_of (entries m))"
    using assms(3) by (simp add: dom_map_of_conv_image_fst)
  then have "\<exists>m'. bm_delete_elem ops k m = (0, m') \<and> valid m' \<and> entries m' = without [k] (entries m)"
    using assms(1,2) by (simp add: hash_laws_def)
  then show thesis
    using that by blast
qed

lemma without_append: "without ys (without xs es) = without (xs @ ys) es"
  by (auto simp: without_def filter_filter intro: filter_cong)

lemma without_Nil [simp]: "without [] es = es"
  by (simp add: without_def)

lemma without_all [simp]: "without (map fst es) es = []"
  by (simp add: without_def filter_empty_conv)

lemma map_of_without: "k' \<notin> set ks \<Longrightarrow> map_of (without ks es) k' = map_of es k'"
  by (induction es) (auto simp: without_def)

lemma fst_without: "fst ` set (without ks es) = fst ` set es - set ks"
  by (auto simp: without_def)

section \<open>Key by key\<close>

lemma next_in_middle: "key \<notin> set pre \<Longrightarrow> next_in (pre @ key # post) key = (case post of [] \<Rightarrow> Inl ENOENT | k # _ \<Rightarrow> Inr k)"
  by (induction pre) auto

lemma next_key_middle:
  "distinct (pre @ key # post) \<Longrightarrow> next_key (pre @ key # post) key = (case post of [] \<Rightarrow> Inl ENOENT | k # _ \<Rightarrow> Inr k)"
  by (simp add: next_key_def next_in_middle)

lemma iter_keys_middle:
  assumes "hash_laws ops valid entries cap" "valid m"
  shows "map fst (entries m) = pre @ key # post \<Longrightarrow> iter_keys ops room key m = Some (take room post)"
proof (induction room arbitrary: pre key post)
  case (Suc room)
  have next_k: "bm_get_next_key ops key m = (case post of [] \<Rightarrow> Inl ENOENT | k # _ \<Rightarrow> Inr k)"
    using hash_lawsD(1) [OF assms] hash_lawsD(3) [OF assms, of key] Suc.prems next_key_middle [of pre key post] by simp
  show ?case
  proof (cases post)
    case (Cons k post')
    then show ?thesis
      using next_k Suc.IH [of "pre @ [key]" k post'] Suc.prems by simp
  qed (use next_k in simp)
qed simp

lemma iter_keys_first:
  assumes "hash_laws ops valid entries cap" "valid m" "key \<notin> fst ` set (entries m)"
  shows "iter_keys ops room key m = Some (take room (map fst (entries m)))"
proof (cases room)
  case (Suc room')
  have "key \<notin> set (map fst (entries m))"
    using assms(3) by simp
  then have next_k: "bm_get_next_key ops key m = (case map fst (entries m) of [] \<Rightarrow> Inl ENOENT | k # _ \<Rightarrow> Inr k)"
    using hash_lawsD(3) [OF assms(1,2), of key] by (simp add: next_key_def)
  show ?thesis
  proof (cases "map fst (entries m)")
    case (Cons k ks)
    then show ?thesis
      using next_k iter_keys_middle [OF assms(1,2), of "[]" k ks room'] by (simp add: Suc)
  qed (use next_k Suc in simp)
qed simp

lemma iter_values_all:
  assumes "hash_laws ops valid entries cap"
  shows "valid m \<Longrightarrow> distinct (map fst es) \<Longrightarrow> (\<And>k v. (k, v) \<in> set es \<Longrightarrow> map_of (entries m) k = Some v) \<Longrightarrow>
    \<exists>m'. iter_values ops del (map fst es) m = (True, map snd es, m') \<and> valid m' \<and>
      entries m' = (if del then without (map fst es) (entries m) else entries m)"
proof (induction es arbitrary: m)
  case (Cons e es)
  obtain k v where e: "e = (k, v)"
    by (cases e)
  have here: "map_of (entries m) k = Some v"
    using Cons.prems(3) e by simp
  then have found: "bm_lookup_elem ops k m = Inr v"
    using hash_lawsD(4) [OF assms Cons.prems(1)] by simp
  have rest: "\<And>k' v'. (k', v') \<in> set es \<Longrightarrow> map_of (entries m) k' = Some v' \<and> k' \<noteq> k"
    using Cons.prems(2,3) e by force
  show ?case
  proof (cases del)
    case False
    then obtain m' where "iter_values ops del (map fst es) m = (True, map snd es, m')" "valid m'" "entries m' = entries m"
      using Cons.IH [of m] Cons.prems(1,2) rest by auto
    then show ?thesis
      using False found e by simp
  next
    case True
    have "k \<in> fst ` set (entries m)"
      using here by (metis map_of_SomeD fst_conv image_eqI)
    then obtain m1 where m1: "bm_delete_elem ops k m = (0, m1)" "valid m1" "entries m1 = without [k] (entries m)"
      using hash_laws_deleteE [OF assms Cons.prems(1)] by blast
    have "map_of (entries m1) k' = Some v'" if "(k', v') \<in> set es" for k' v'
      using rest [OF that] m1(3) map_of_without [of k' "[k]" "entries m"] by simp
    then obtain m' where "iter_values ops del (map fst es) m1 = (True, map snd es, m')" "valid m'"
      "entries m' = without (map fst es) (entries m1)"
      using Cons.IH [of m1] m1(2) Cons.prems(2) True by (simp add: conj_commute) blast
    then show ?thesis
      using True found m1 e by (simp add: without_append)
  qed
qed simp

lemma dump_hash_iter_all:
  assumes "hash_laws ops valid entries cap" "valid m" "key \<notin> fst ` set (entries m)" "length (entries m) \<le> unat cnt"
  shows "\<exists>m'. dump_hash_iter ops cnt key del m = (0, map fst (entries m), map snd (entries m), word_of_nat (length (entries m)), m') \<and>
    valid m' \<and> entries m' = (if del then [] else entries m)"
proof -
  have "map_of (entries m) k = Some v" if "(k, v) \<in> set (entries m)" for k v
    using that hash_lawsD(1) [OF assms(1,2)] by simp
  then obtain m' where "iter_values ops del (map fst (entries m)) m = (True, map snd (entries m), m')" "valid m'"
    "entries m' = (if del then without (map fst (entries m)) (entries m) else entries m)"
    using iter_values_all [OF assms(1), of m "entries m" del] assms(2) hash_lawsD(1) [OF assms(1,2)] by blast
  then show ?thesis
    using iter_keys_first [OF assms(1-3), of "unat cnt"] assms(4)
    by (intro exI [of _ m']) (simp add: dump_hash_iter_def)
qed

section \<open>In batches\<close>

lemma batch_lawsE:
  assumes "batch_laws ops valid entries rest" "valid m" "0 < n" "length (rest c m) \<le> unat n"
  obtains err c' xs ys m' where "bm_batch ops del c n m = (err, c', xs, m')" "valid m'" "rest c m = xs @ ys"
    "entries m' = (if del then without (map fst xs) (entries m) else entries m)"
    "err = 0 \<and> xs \<noteq> [] \<and> rest c' m' = ys \<or> err = ENOENT \<and> ys = []"
proof -
  have "\<exists>err c' xs ys m'. bm_batch ops del c n m = (err, c', xs, m') \<and> valid m' \<and> rest c m = xs @ ys \<and>
      entries m' = (if del then without (map fst xs) (entries m) else entries m) \<and>
      (err = 0 \<and> xs \<noteq> [] \<and> rest c' m' = ys \<or> err = ENOENT \<and> ys = [])"
    using assms by (simp add: batch_laws_def)
  then show thesis
    using that by blast
qed

lemma batch_loop_all:
  assumes "batch_laws ops valid entries rest"
  shows "valid m \<Longrightarrow> unat n_read + length (rest c m) \<le> unat cnt \<Longrightarrow> length (rest c m) < fuel \<Longrightarrow>
    \<exists>m'. batch_loop fuel ops del cnt c n_read m = Finished (None, rest c m, n_read + word_of_nat (length (rest c m)), m') \<and>
      valid m' \<and> entries m' = (if del then without (map fst (rest c m)) (entries m) else entries m)"
proof (induction fuel arbitrary: c n_read m)
  case (Suc fuel)
  show ?case
  proof (cases "n_read < cnt")
    case False
    then have "length (rest c m) = 0"
      using Suc.prems(2) unfolding word_less_nat_alt by linarith
    then show ?thesis
      using False Suc.prems(1) by simp
  next
    case True
    then have n: "0 < cnt - n_read"
      by (simp add: word_neq_0_conv [symmetric])
    have room: "length (rest c m) \<le> unat (cnt - n_read)"
      using Suc.prems(2) unat_sub [of n_read cnt] True by simp
    obtain err c' xs ys m1 where b: "bm_batch ops del c (cnt - n_read) m = (err, c', xs, m1)" "valid m1" "rest c m = xs @ ys"
      "entries m1 = (if del then without (map fst xs) (entries m) else entries m)"
      "err = 0 \<and> xs \<noteq> [] \<and> rest c' m1 = ys \<or> err = ENOENT \<and> ys = []"
      by (rule batch_lawsE [OF assms Suc.prems(1) n room, of del])
    show ?thesis
    proof (cases "err = 0")
      case False
      then show ?thesis
        using b True by (auto simp: ENOENT_def)
    next
      case e: True
      then have c': "xs \<noteq> []" "rest c' m1 = ys"
        using b(5) by (auto simp: ENOENT_def)
      have x: "unat (n_read + word_of_nat (length xs)) = unat n_read + length xs"
        using Suc.prems(2) b(3) unat_u32_less [of cnt] by (subst unat_add_u32) (simp_all add: unat_of_nat)
      have less: "length (rest c' m1) < fuel"
        using Suc.prems(3) b(3) c' by (cases xs) auto
      obtain m' where "batch_loop fuel ops del cnt c' (n_read + word_of_nat (length xs)) m1 =
          Finished (None, ys, n_read + word_of_nat (length xs) + word_of_nat (length ys), m')" "valid m'"
        "entries m' = (if del then without (map fst ys) (entries m1) else entries m1)"
        using Suc.IH [of m1 "n_read + word_of_nat (length xs)" c'] b(2,3) c' x Suc.prems(2) less by auto
      then show ?thesis
        using b e True by (auto simp: without_append)
    qed
  qed
qed simp

section \<open>An instance\<close>

text \<open>
  A map that is a list, for a kernel without batch calls, and the same map for a kernel that has them and
  hands out two entries at a time: the laws can hold both ways.
\<close>

definition list_map :: "nat \<Rightarrow> (('k \<times> 'v) list, 'k, 'v) bpf_map" where
  "list_map cap = \<lparr>
     bm_lookup = (\<lambda>k m. map_of m k),
     bm_update = (\<lambda>noexist k v m.
        if k \<in> fst ` set m then (if noexist then (- EEXIST, m) else (0, map (\<lambda>(k', v'). (k', if k' = k then v else v')) m))
        else if length m < cap then (0, (k, v) # m) else (- 7, m)),
     bm_delete = (\<lambda>k m. without [k] m),
     bm_modify = (\<lambda>k f m. map (\<lambda>(k', v). (k', if k' = k then f v else v)) m),
     bm_get_next_key = (\<lambda>k m. next_key (map fst m) k),
     bm_lookup_elem = (\<lambda>k m. case map_of m k of None \<Rightarrow> Inl ENOENT | Some v \<Rightarrow> Inr v),
     bm_delete_elem = (\<lambda>k m. if k \<in> fst ` set m then (0, without [k] m) else (- ENOENT, m)),
     bm_batch = (\<lambda>del c n m. (EINVAL, c, [], m))\<rparr>"

lemma map_fst_modify: "map fst (map (\<lambda>(k', v). (k', if k' = k then f v else v)) m) = map fst m"
  by (induction m) auto

lemma map_of_modify:
  "map_of (map (\<lambda>(k', v). (k', if k' = k then f v else v)) m) = (\<lambda>k'. if k' = k then map_option f (map_of m k') else map_of m k')"
  by (induction m) (auto simp: fun_eq_iff)

lemma distinct_without: "distinct (map fst m) \<Longrightarrow> distinct (map fst (without ks m))"
  by (simp add: without_def distinct_map_filter)

lemma list_map_laws: "hash_laws (list_map cap) (\<lambda>m. distinct (map fst m)) (\<lambda>m. m) cap"
proof -
  have new: "\<exists>m'. bm_update (list_map cap) b k v m = (0, m') \<and> distinct (map fst m') \<and> map_of m' = (map_of m)(k \<mapsto> v)"
    if "distinct (map fst m)" "map_of m k = None" "length m < cap" for m :: "('a \<times> 'b) list" and k v b
    using that by (simp add: list_map_def map_of_eq_None_iff)
  have old: "\<exists>m'. bm_update (list_map cap) False k v m = (0, m') \<and> distinct (map fst m') \<and> map_of m' = (map_of m)(k \<mapsto> v)"
    if "distinct (map fst m)" "k \<in> dom (map_of m)" for m :: "('a \<times> 'b) list" and k v
  proof -
    have k: "k \<in> fst ` set m"
      using that(2) by (simp add: dom_map_of_conv_image_fst)
    let ?m = "map (\<lambda>(k', v'). (k', if k' = k then v else v')) m"
    have "map_of ?m = (map_of m)(k \<mapsto> v)"
      using that(2) by (subst map_of_modify) (auto simp: fun_eq_iff)
    moreover have "distinct (map fst ?m)"
      using that(1) by (subst map_fst_modify)
    moreover have "bm_update (list_map cap) False k v m = (0, ?m)"
      using k by (simp add: list_map_def)
    ultimately show ?thesis
      by (intro exI [of _ ?m]) (intro conjI)
  qed
  show ?thesis
    unfolding hash_laws_def
    by (intro conjI allI impI)
       (assumption | (rule old, assumption, assumption) | (rule new, assumption, assumption, assumption) |
        (simp only: list_map_def bpf_map.simps map_fst_modify; fail) |
        (simp add: list_map_def distinct_without dom_map_of_conv_image_fst; fail))+
qed

lemma list_map_no_batch: "no_batch (list_map cap)"
  by (simp add: no_batch_def list_map_def)

definition batch_map :: "nat \<Rightarrow> ((u32 \<times> 'v) list, u32, 'v) bpf_map" where
  "batch_map cap = (list_map cap)\<lparr>bm_batch := \<lambda>del c n m.
     (let left = drop (unat c) m; room = min 2 (unat n); xs = take room left
      in (if length left \<le> room then ENOENT else 0, if del then c else c + word_of_nat room, xs,
          if del then without (map fst xs) m else m))\<rparr>"

lemma batch_map_laws: "hash_laws (batch_map cap) (\<lambda>m. distinct (map fst m)) (\<lambda>m. m) cap"
proof -
  have "hash_laws ((list_map cap)\<lparr>bm_batch := f\<rparr>) = hash_laws (list_map cap)" for f :: "bool \<Rightarrow> u64 \<Rightarrow> u32 \<Rightarrow> (u32 \<times> 'a) list \<Rightarrow> _"
    by (simp add: hash_laws_def fun_eq_iff)
  then show ?thesis
    by (simp only: batch_map_def list_map_laws)
qed

lemma without_middle:
  assumes "distinct (map fst (pre @ xs @ ys))"
  shows "without (map fst xs) (pre @ xs @ ys) = pre @ ys"
proof -
  have "without (map fst xs) pre = pre" "without (map fst xs) ys = ys"
    using assms by (auto simp: without_def filter_id_conv image_iff)
  then show ?thesis
    using without_all [of xs] by (simp add: without_def)
qed

lemma u32_keys_length:
  assumes "distinct (map fst (m :: (u32 \<times> 'v) list))"
  shows "length m \<le> 2 ^ 32"
proof -
  have "length m = card (set (map fst m))"
    using distinct_card [OF assms] by simp
  also have "\<dots> \<le> card (UNIV :: u32 set)"
    by (rule card_mono) simp_all
  finally show ?thesis
    by (simp add: card_word)
qed

lemma batch_map_batch_laws: "batch_laws (batch_map cap) (\<lambda>m. distinct (map fst m)) (\<lambda>m. m) (\<lambda>c m. drop (unat c) m)"
proof -
  have "\<exists>err c' xs ys m'. bm_batch (batch_map cap) del c n m = (err, c', xs, m') \<and> distinct (map fst m') \<and>
      drop (unat c) m = xs @ ys \<and> m' = (if del then without (map fst xs) m else m) \<and>
      (err = 0 \<and> xs \<noteq> [] \<and> drop (unat c') m' = ys \<or> err = ENOENT \<and> ys = [])"
    if m: "distinct (map fst m)" and n: "0 < n" "length (drop (unat c) m) \<le> unat n"
    for m :: "(u32 \<times> 'a) list" and del and c :: u64 and n :: u32
  proof -
    let ?room = "min 2 (unat n)" and ?left = "drop (unat c) m"
    let ?xs = "take ?room ?left" and ?ys = "drop ?room ?left"
    have split: "m = take (unat c) m @ ?xs @ ?ys"
      by (simp only: append_take_drop_id)
    have room: "0 < ?room"
      using n(1) by (simp add: word_less_nat_alt)
    have deleted: "without (map fst ?xs) m = take (unat c) m @ ?ys"
      using m split without_middle [of "take (unat c) m" ?xs ?ys] by metis
    have moved: "unat (c + word_of_nat ?room) = unat c + ?room" if "?room < length ?left"
    proof -
      have "unat c + ?room < 2 ^ 64"
        using that u32_keys_length [OF m] by simp
      then show ?thesis
        by (simp add: unat_word_ariths unat_of_nat)
    qed
    show ?thesis
    proof (intro exI conjI)
      show "bm_batch (batch_map cap) del c n m =
          (if length ?left \<le> ?room then ENOENT else 0, if del then c else c + word_of_nat ?room, ?xs,
           if del then without (map fst ?xs) m else m)"
        by (simp add: batch_map_def Let_def)
      show "?left = ?xs @ ?ys"
        by (simp only: append_take_drop_id)
      show "(if length ?left \<le> ?room then ENOENT else 0) = 0 \<and> ?xs \<noteq> [] \<and>
          drop (unat (if del then c else c + word_of_nat ?room)) (if del then without (map fst ?xs) m else m) = ?ys \<or>
          (if length ?left \<le> ?room then ENOENT else 0) = ENOENT \<and> ?ys = []"
        using room moved deleted by (auto simp: add.commute)
    qed (use m distinct_without in auto)
  qed
  then show ?thesis
    unfolding batch_laws_def by simp
qed

section \<open>Both ways\<close>

text \<open>
  (C30) \<^verbatim>\<open>dump_hash\<close> returns every entry of a hash map that fits the buffers, once and with its value, in the
  kernel's order, whether the kernel has batch calls or not and whether the flag says so or has not found
  out yet; with \<^verbatim>\<open>lookup_and_delete\<close> the map is empty afterwards, and unchanged without it.  A bound on the
  number of calls is the size of the buffers.
\<close>

theorem dump_hash_complete:
  assumes "hash_laws ops valid entries cap" "valid m" "no_batch ops \<or> batch_laws ops valid entries rest"
    and "key \<notin> fst ` set (entries m)" "length (entries m) \<le> unat cnt" "unat cnt < fuel"
  shows "\<exists>flag' m'. dump_hash fuel ops flag False cnt (Some key) del m =
      Finished (flag', 0, map fst (entries m), map snd (entries m), word_of_nat (length (entries m)), m') \<and>
    valid m' \<and> entries m' = (if del then [] else entries m)"
proof -
  obtain m1 where it: "dump_hash_iter ops cnt key del m = (0, map fst (entries m), map snd (entries m), word_of_nat (length (entries m)), m1)"
    "valid m1" "entries m1 = (if del then [] else entries m)"
    using dump_hash_iter_all [OF assms(1,2,4,5)] by blast
  obtain fuel' where f: "fuel = Suc fuel'"
    using assms(6) by (cases fuel) auto
  consider "flag = False" | "flag" "no_batch ops" | "flag" "batch_laws ops valid entries rest"
    using assms(3) by blast
  then show ?thesis
  proof cases
    case 1
    then show ?thesis
      using it by (auto simp: dump_hash_def)
  next
    case 2
    obtain c' where "bm_batch ops del 0 cnt m = (EINVAL, c', [], m)"
      using 2(2) unfolding no_batch_def by meson
    then show ?thesis
      using 2(1) it assms(2,5)
      by (cases "cnt = 0") (auto simp: dump_hash_def dump_hash_batch_def f EINVAL_def ENOENT_def word_neq_0_conv)
  next
    case 3
    have "rest 0 m = entries m"
      using 3(2) assms(2) by (simp add: batch_laws_def)
    then show ?thesis
      using batch_loop_all [OF 3(2) assms(2), of 0 0 cnt fuel del] assms(5,6) 3(1)
      by (auto simp: dump_hash_def dump_hash_batch_def)
  qed
qed

theorem dump_hash_complete_witness:
  "(\<exists>flag'. dump_hash 11 (list_map 5) True False 10 (Some 0) True [(7 :: u32, 1 :: u64), (9, 2), (4, 6)] =
      Finished (flag', 0, [7, 9, 4], [1, 2, 6], 3, [])) \<and>
   (\<exists>flag'. dump_hash 11 (batch_map 5) True False 10 (Some 0) True [(7, 1 :: u64), (9, 2), (4, 6)] =
      Finished (flag', 0, [7, 9, 4], [1, 2, 6], 3, [])) \<and>
   (\<exists>flag'. dump_hash 11 (batch_map 5) True False 10 (Some 0) False [(7, 1 :: u64), (9, 2), (4, 6)] =
      Finished (flag', 0, [7, 9, 4], [1, 2, 6], 3, [(7, 1), (9, 2), (4, 6)]))"
  using dump_hash_complete [OF list_map_laws [of 5], of "[(7 :: u32, 1 :: u64), (9, 2), (4, 6)]" "\<lambda>c m. m" 0 10 11 True True]
    dump_hash_complete [OF batch_map_laws [of 5], of "[(7, 1 :: u64), (9, 2), (4, 6)]" "\<lambda>c m. drop (unat c) m" 0 10 11 True True]
    dump_hash_complete [OF batch_map_laws [of 5], of "[(7, 1 :: u64), (9, 2), (4, 6)]" "\<lambda>c m. drop (unat c) m" 0 10 11 True False]
  by (simp add: list_map_no_batch batch_map_batch_laws)

end
