(* ===== verification/Runqlat_Props.thy ===== *)
theory Runqlat_Props
  imports Runqlat Map_Dump
begin

text \<open>
  The report of \<^verbatim>\<open>runqlat\<close> against what happened on the run queue: every wait that ended is counted once, in
  the histogram of its task and in the row whose range holds it.
\<close>

section \<open>The specification\<close>

text \<open>Who is waiting since when, and the waits that have ended, with the key of the histogram.\<close>

record runq =
  rq_waiting :: "u32 \<Rightarrow> u64 option"
  rq_done :: "(u32 \<times> u64) list"

definition spec_enqueue :: "runqlat_opts \<Rightarrow> u64 \<Rightarrow> task \<Rightarrow> runq \<Rightarrow> runq" where
  "spec_enqueue opts now p rq =
     (if ts_pid p = 0 \<or> targ_tgid opts \<noteq> 0 \<and> word_of_int (targ_tgid opts) \<noteq> ts_tgid p then rq
      else rq\<lparr>rq_waiting := (rq_waiting rq)(ts_pid p \<mapsto> now)\<rparr>)"

definition spec_run :: "runqlat_opts \<Rightarrow> u64 \<Rightarrow> task \<Rightarrow> runq \<Rightarrow> runq" where
  "spec_run opts now p rq =
     (case rq_waiting rq (ts_pid p) of
        None \<Rightarrow> rq
      | Some since \<Rightarrow>
          rq\<lparr>rq_waiting := (rq_waiting rq)(ts_pid p := None),
             rq_done := (if sint (now - since) < 0 then rq_done rq else rq_done rq @ [(hist_key opts p, now - since)])\<rparr>)"

fun spec_event :: "runqlat_opts \<Rightarrow> sched_event \<Rightarrow> runq \<Rightarrow> runq" where
  "spec_event opts (Sched_wakeup cg now p) rq = (if filter_cg opts \<and> \<not> cg then rq else spec_enqueue opts now p rq)"
| "spec_event opts (Sched_wakeup_new cg now p) rq = (if filter_cg opts \<and> \<not> cg then rq else spec_enqueue opts now p rq)"
| "spec_event opts (Sched_switch cg now now' prev nxt) rq =
     (if filter_cg opts \<and> \<not> cg then rq
      else spec_run opts now' nxt (if ts_state prev = TASK_RUNNING then spec_enqueue opts now prev rq else rq))"

text \<open>The row of a wait; the last one has no upper bound.\<close>

definition in_row :: "runqlat_opts \<Rightarrow> nat \<Rightarrow> u64 \<Rightarrow> bool" where
  "in_row opts s delta \<longleftrightarrow>
     (let v = unat delta div (if targ_ms opts then 1000000 else 1000)
      in row_low s \<le> v \<and> (v \<le> row_high s \<or> Suc s = MAX_SLOTS))"

definition waits_in :: "runqlat_opts \<Rightarrow> u32 \<Rightarrow> nat \<Rightarrow> (u32 \<times> u64) list \<Rightarrow> nat" where
  "waits_in opts k s waits = length (filter (\<lambda>(k', delta). k' = k \<and> in_row opts s delta) waits)"

definition wait_counts :: "runqlat_opts \<Rightarrow> u32 \<Rightarrow> (u32 \<times> u64) list \<Rightarrow> u32 list" where
  "wait_counts opts k waits = map (\<lambda>s. word_of_nat (waits_in opts k s waits)) [0..<MAX_SLOTS]"

section \<open>Slots\<close>

lemma unat_div_units: "unat (delta div (if b then 1000000 else 1000) :: u64) = unat delta div (if b then 1000000 else 1000)"
  by (simp add: unat_div)

lemma wait_slot_less: "unat (wait_slot opts delta) < MAX_SLOTS"
  by (auto simp: wait_slot_def Let_def MAX_SLOTS_def word_le_nat_alt not_le)

lemma log2l_row:
  "row_low s \<le> unat v \<and> unat v \<le> row_high s \<longleftrightarrow> unat (log2l v) = s"
proof (cases "v = 0")
  case True
  then show ?thesis
    by (auto simp: log2l_0 row_low_def)
next
  case False
  then have "0 < unat v"
    by (simp add: unat_gt_0)
  then show ?thesis
    using log2l_correct [OF False] row_iff_log2 is_log2_unique by blast
qed

lemma log2l_above: "2 ^ s \<le> unat v \<longleftrightarrow> s \<le> unat (log2l v)" if "0 < s"
proof (cases "v = 0")
  case True
  then show ?thesis
    using that by (simp add: log2l_0)
next
  case False
  have l: "2 ^ unat (log2l v) \<le> unat v" "unat v < 2 ^ Suc (unat (log2l v))"
    using log2l_correct [OF False] by (auto simp: is_log2_def)
  show ?thesis
  proof
    assume "2 ^ s \<le> unat v"
    then have "(2::nat) ^ s < 2 ^ Suc (unat (log2l v))"
      using l by simp
    then show "s \<le> unat (log2l v)"
      by (subst (asm) power_strict_increasing_iff) simp_all
  next
    assume "s \<le> unat (log2l v)"
    then have "(2::nat) ^ s \<le> 2 ^ unat (log2l v)"
      by (intro power_increasing) simp_all
    then show "2 ^ s \<le> unat v"
      using l(1) by (rule le_trans)
  qed
qed

lemma in_row_wait_slot:
  assumes "s < MAX_SLOTS"
  shows "in_row opts s delta \<longleftrightarrow> unat (wait_slot opts delta) = s"
proof -
  let ?v = "delta div (if targ_ms opts then 1000000 else 1000)"
  have v: "unat ?v = unat delta div (if targ_ms opts then 1000000 else 1000)"
    by (rule unat_div_units)
  have slot: "unat (wait_slot opts delta) = (if MAX_SLOTS \<le> unat (log2l ?v) then MAX_SLOTS - 1 else unat (log2l ?v))"
    by (simp add: wait_slot_def Let_def MAX_SLOTS_def word_le_nat_alt)
  show ?thesis
  proof (cases "Suc s = MAX_SLOTS")
    case True
    then have "row_low s = 2 ^ s" "0 < s"
      by (auto simp: row_low_def MAX_SLOTS_def)
    then show ?thesis
      using True log2l_above [of s ?v] slot by (auto simp: in_row_def v [symmetric])
  next
    case False
    then show ?thesis
      using assms log2l_row [of s ?v] slot by (auto simp: in_row_def v [symmetric])
  qed
qed

section \<open>Hash maps with room\<close>

lemma length_entries: "distinct (map fst es) \<Longrightarrow> length es = card (dom (map_of es))"
  by (metis distinct_card dom_map_of_conv_image_fst length_map list.set_map)

text \<open>All keys are in a set that has no more elements than the map has room for.\<close>

lemma hash_room:
  assumes "hash_laws ops valid entries cap" "valid m" "dom (map_of (entries m)) \<subseteq> P" "finite P" "card P \<le> cap" "k \<in> P"
    and "map_of (entries m) k = None"
  shows "length (entries m) < cap"
proof -
  have "dom (map_of (entries m)) \<subset> P"
    using assms(3,6,7) by blast
  then have "card (dom (map_of (entries m))) < card P"
    by (rule psubset_card_mono [OF assms(4)])
  then show ?thesis
    using length_entries [OF hash_lawsD(1) [OF assms(1,2)]] assms(5) by simp
qed

lemma hash_update:
  assumes "hash_laws ops valid entries cap" "valid m" "dom (map_of (entries m)) \<subseteq> P" "finite P" "card P \<le> cap" "k \<in> P"
  obtains m' where "bm_update ops False k v m = (0, m')" "valid m'" "map_of (entries m') = (map_of (entries m))(k \<mapsto> v)"
proof -
  have "\<exists>m'. bm_update ops False k v m = (0, m') \<and> valid m' \<and> map_of (entries m') = (map_of (entries m))(k \<mapsto> v)"
  proof (cases "k \<in> dom (map_of (entries m))")
    case True
    then show ?thesis
      using assms(1,2) by (simp add: hash_laws_def)
  next
    case False
    then have "map_of (entries m) k = None"
      by (simp add: domIff)
    then show ?thesis
      using hash_room [OF assms] assms(1,2) by (simp add: hash_laws_def)
  qed
  then show thesis
    using that by blast
qed

lemma hash_try_init:
  assumes "hash_laws ops valid entries cap" "valid m" "dom (map_of (entries m)) \<subseteq> P" "finite P" "card P \<le> cap" "k \<in> P"
  obtains m' v where "bpf_map_lookup_or_try_init ops k init m = (Some v, m')" "valid m'"
    "map_of (entries m') = (map_of (entries m))(k \<mapsto> v)" "v = (case map_of (entries m) k of None \<Rightarrow> init | Some v \<Rightarrow> v)"
proof (cases "map_of (entries m) k")
  case None
  then have "\<exists>m'. bm_update ops True k init m = (0, m') \<and> valid m' \<and> map_of (entries m') = (map_of (entries m))(k \<mapsto> init)"
    using hash_room [OF assms] assms(1,2) by (simp add: hash_laws_def)
  then obtain m' where m': "bm_update ops True k init m = (0, m')" "valid m'" "map_of (entries m') = (map_of (entries m))(k \<mapsto> init)"
    by blast
  then show thesis
    using None hash_lawsD(2) [OF assms(1,2), of k] hash_lawsD(2) [OF assms(1) m'(2), of k]
    by (intro that [of init m']) (simp_all add: bpf_map_lookup_or_try_init_def)
next
  case (Some v)
  then show thesis
    using hash_lawsD(2) [OF assms(1,2), of k] assms(2)
    by (intro that [of v m]) (simp_all add: bpf_map_lookup_or_try_init_def fun_upd_idem)
qed

section \<open>The maps and the specification\<close>

definition start_ok :: "('s \<Rightarrow> bool) \<Rightarrow> ('s \<Rightarrow> (u32 \<times> u64) list) \<Rightarrow> runq \<Rightarrow> 's \<Rightarrow> bool" where
  "start_ok valid entries rq start \<longleftrightarrow> valid start \<and> map_of (entries start) = rq_waiting rq"

definition hists_ok :: "runqlat_opts \<Rightarrow> ('h \<Rightarrow> bool) \<Rightarrow> ('h \<Rightarrow> (u32 \<times> hist) list) \<Rightarrow> (u32 \<times> u64) list \<Rightarrow> 'h \<Rightarrow> bool" where
  "hists_ok opts valid entries waits hists \<longleftrightarrow> valid hists \<and> dom (map_of (entries hists)) = fst ` set waits \<and>
     (\<forall>k h. map_of (entries hists) k = Some h \<longrightarrow> hi_slots h = wait_counts opts k waits)"

lemma enqueue_ok:
  assumes "hash_laws sops valid entries cap" "start_ok valid entries rq start"
    and "dom (rq_waiting rq) \<subseteq> P" "finite P" "card P \<le> cap" "ts_pid p \<in> P"
  shows "start_ok valid entries (spec_enqueue opts now p rq) (trace_enqueue opts sops now (ts_tgid p) (ts_pid p) start)"
proof -
  obtain m' where "bm_update sops False (ts_pid p) now start = (0, m')" "valid m'"
    "map_of (entries m') = (map_of (entries start))(ts_pid p \<mapsto> now)"
    by (rule hash_update [OF assms(1) _ _ assms(4-6), of start now]) (use assms(2,3) in \<open>simp_all add: start_ok_def\<close>)
  then show ?thesis
    using assms(2) by (auto simp: spec_enqueue_def trace_enqueue_def start_ok_def)
qed

lemma waits_in_snoc:
  assumes "s < MAX_SLOTS"
  shows "waits_in opts k s (waits @ [(k', delta)]) = waits_in opts k s waits + of_bool (k' = k \<and> unat (wait_slot opts delta) = s)"
  using in_row_wait_slot [OF assms, of opts delta] by (simp add: waits_in_def)

lemma wait_counts_snoc:
  "wait_counts opts k (waits @ [(k', delta)]) =
     (if k' = k then (wait_counts opts k waits)[unat (wait_slot opts delta) := wait_counts opts k waits ! unat (wait_slot opts delta) + 1]
      else wait_counts opts k waits)"
  using wait_slot_less [of opts delta]
  by (intro nth_equalityI) (auto simp: wait_counts_def nth_list_update waits_in_snoc add.commute)

lemma waits_in_none: "k \<notin> fst ` set waits \<Longrightarrow> waits_in opts k s waits = 0"
  by (induction waits) (auto simp: waits_in_def)

lemma wait_counts_none: "k \<notin> fst ` set waits \<Longrightarrow> wait_counts opts k waits = replicate MAX_SLOTS 0"
  by (simp add: wait_counts_def waits_in_none map_replicate_const)

lemma count_wait_ok:
  assumes "hash_laws hops valid entries cap" "hists_ok opts valid entries waits hists"
    and "fst ` set waits \<subseteq> K" "finite K" "card K \<le> cap" "hist_key opts p \<in> K"
  shows "hists_ok opts valid entries (waits @ [(hist_key opts p, delta)]) (count_wait opts hops p delta hists)"
proof -
  let ?k = "hist_key opts p" and ?s = "unat (wait_slot opts delta)"
  have ok: "valid hists" "dom (map_of (entries hists)) = fst ` set waits"
    "\<And>k h. map_of (entries hists) k = Some h \<Longrightarrow> hi_slots h = wait_counts opts k waits"
    using assms(2) by (auto simp: hists_ok_def)
  obtain m' h where m': "bpf_map_lookup_or_try_init hops ?k zero_hist hists = (Some h, m')" "valid m'"
    "map_of (entries m') = (map_of (entries hists))(?k \<mapsto> h)"
    "h = (case map_of (entries hists) ?k of None \<Rightarrow> zero_hist | Some v \<Rightarrow> v)"
    by (rule hash_try_init [OF assms(1) ok(1) _ assms(4,5,6), of zero_hist]) (use ok(2) assms(3) in simp)
  have h: "hi_slots h = wait_counts opts ?k waits"
  proof (cases "map_of (entries hists) ?k")
    case None
    then have "?k \<notin> fst ` set waits"
      unfolding ok(2) [symmetric] by (simp add: domIff)
    then show ?thesis
      using m'(4) None by (simp add: wait_counts_none zero_hist_def)
  qed (use m'(4) ok(3) in simp)
  let ?f = "add_slot ?s \<circ> set_comm p"
  have entries: "map_of (entries (bm_modify hops ?k ?f m')) = (map_of (entries hists))(?k \<mapsto> ?f h)"
    unfolding hash_lawsD(8) [OF assms(1) m'(2)] map_of_modify m'(3) by (simp add: fun_eq_iff)
  have "hi_slots (?f h) = wait_counts opts ?k (waits @ [(?k, delta)])"
    using h by (simp add: add_slot_def set_comm_def wait_counts_snoc)
  then show ?thesis
    using ok hash_lawsD(7) [OF assms(1) m'(2), of ?k ?f] m'(1)
    by (auto simp: hists_ok_def count_wait_def entries wait_counts_snoc split: if_splits)
qed

section \<open>A run\<close>

text \<open>The tasks that an event can put on the queue, and the histograms that it can count in.\<close>

fun queued_pids :: "sched_event \<Rightarrow> u32 set" where
  "queued_pids (Sched_wakeup cg now p) = {ts_pid p}"
| "queued_pids (Sched_wakeup_new cg now p) = {ts_pid p}"
| "queued_pids (Sched_switch cg now now' prev nxt) = {ts_pid prev}"

fun counted_keys :: "runqlat_opts \<Rightarrow> sched_event \<Rightarrow> u32 set" where
  "counted_keys opts (Sched_switch cg now now' prev nxt) = {hist_key opts nxt}"
| "counted_keys opts ev = {}"

definition all_ok ::
  "runqlat_opts \<Rightarrow> ('s \<Rightarrow> bool) \<Rightarrow> ('s \<Rightarrow> (u32 \<times> u64) list) \<Rightarrow> ('h \<Rightarrow> bool) \<Rightarrow> ('h \<Rightarrow> (u32 \<times> hist) list) \<Rightarrow>
   u32 set \<Rightarrow> u32 set \<Rightarrow> runq \<Rightarrow> 's \<times> 'h \<Rightarrow> bool" where
  "all_ok opts svalid sentries hvalid hentries P K rq = (\<lambda>(start, hists).
     start_ok svalid sentries rq start \<and> hists_ok opts hvalid hentries (rq_done rq) hists \<and>
     dom (rq_waiting rq) \<subseteq> P \<and> fst ` set (rq_done rq) \<subseteq> K)"

lemma all_ok_enqueue:
  assumes "hash_laws sops svalid sentries scap" "finite P" "card P \<le> scap" "ts_pid p \<in> P"
    and "all_ok opts svalid sentries hvalid hentries P K rq (start, hists)"
  shows "all_ok opts svalid sentries hvalid hentries P K (spec_enqueue opts now p rq)
    (trace_enqueue opts sops now (ts_tgid p) (ts_pid p) start, hists)"
  using enqueue_ok [OF assms(1) _ _ assms(2-4), of rq start opts now] assms(4,5)
  by (auto simp: all_ok_def spec_enqueue_def)

lemma all_ok_run:
  assumes "hash_laws sops svalid sentries scap" "hash_laws hops hvalid hentries hcap" "finite K" "card K \<le> hcap"
    and "hist_key opts p \<in> K" "all_ok opts svalid sentries hvalid hentries P K rq (start, hists)"
    and "bm_lookup sops (ts_pid p) start = Some since"
  shows "all_ok opts svalid sentries hvalid hentries P K (spec_run opts now p rq)
    (bm_delete sops (ts_pid p) start, if sint (now - since) < 0 then hists else count_wait opts hops p (now - since) hists)"
proof -
  have ok: "svalid start" "map_of (sentries start) = rq_waiting rq" "hists_ok opts hvalid hentries (rq_done rq) hists"
    "dom (rq_waiting rq) \<subseteq> P" "fst ` set (rq_done rq) \<subseteq> K"
    using assms(6) by (auto simp: all_ok_def start_ok_def)
  have w: "rq_waiting rq (ts_pid p) = Some since"
    using assms(7) hash_lawsD(2) [OF assms(1) ok(1), of "ts_pid p"] ok(2) by simp
  have "map_of (without [ts_pid p] (sentries start)) = (rq_waiting rq)(ts_pid p := None)"
  proof
    fix k
    show "map_of (without [ts_pid p] (sentries start)) k = ((rq_waiting rq)(ts_pid p := None)) k"
      using ok(2) map_of_without [of k "[ts_pid p]" "sentries start"]
      by (cases "k = ts_pid p") (auto simp: map_of_eq_None_iff fst_without)
  qed
  then have start: "start_ok svalid sentries (spec_run opts now p rq) (bm_delete sops (ts_pid p) start)"
    using hash_lawsD(5,6) [OF assms(1) ok(1), of "ts_pid p"] w by (simp add: start_ok_def spec_run_def)
  show ?thesis
    using start ok w assms(5) count_wait_ok [OF assms(2) ok(3,5) assms(3-5), of "now - since"]
    by (auto simp: all_ok_def spec_run_def)
qed

lemma all_ok_event:
  assumes "hash_laws sops svalid sentries scap" "hash_laws hops hvalid hentries hcap"
    and "finite P" "card P \<le> scap" "finite K" "card K \<le> hcap" "queued_pids ev \<subseteq> P" "counted_keys opts ev \<subseteq> K"
    and "all_ok opts svalid sentries hvalid hentries P K rq st"
  shows "all_ok opts svalid sentries hvalid hentries P K (spec_event opts ev rq) (sched_handler opts sops hops ev st)"
proof -
  obtain start hists where st: "st = (start, hists)"
    by (cases st)
  note enq = all_ok_enqueue [OF assms(1,3,4)]
  show ?thesis
  proof (cases ev)
    case (Sched_switch cg now now' prev nxt)
    let ?rq = "if ts_state prev = TASK_RUNNING then spec_enqueue opts now prev rq else rq"
    let ?start = "if ts_state prev = TASK_RUNNING then trace_enqueue opts sops now (ts_tgid prev) (ts_pid prev) start else start"
    have ok: "all_ok opts svalid sentries hvalid hentries P K ?rq (?start, hists)"
      using assms(7,9) by (auto simp: st Sched_switch intro: enq)
    have v: "svalid ?start" "map_of (sentries ?start) = rq_waiting ?rq"
      using ok by (simp_all only: all_ok_def start_ok_def case_prod_conv)
    show ?thesis
    proof (cases "bm_lookup sops (ts_pid nxt) ?start")
      case None
      then have "rq_waiting ?rq (ts_pid nxt) = None"
        using hash_lawsD(2) [OF assms(1) v(1), of "ts_pid nxt"] v(2) by simp
      then have "spec_run opts now' nxt ?rq = ?rq"
        by (simp add: spec_run_def)
      then show ?thesis
        using None ok assms(9) by (simp add: st Sched_switch handle_switch_def Let_def del: if_split)
    next
      case (Some since)
      then show ?thesis
        using all_ok_run [OF assms(1,2,5,6) _ ok Some, of now'] assms(8,9)
        by (simp add: st Sched_switch handle_switch_def Let_def del: if_split)
    qed
  qed (use assms(7,9) st in \<open>auto intro: enq\<close>)
qed

lemma all_ok_fold:
  assumes "hash_laws sops svalid sentries scap" "hash_laws hops hvalid hentries hcap"
    and "finite P" "card P \<le> scap" "finite K" "card K \<le> hcap"
  shows "(\<Union>ev \<in> set evs. queued_pids ev) \<subseteq> P \<Longrightarrow> (\<Union>ev \<in> set evs. counted_keys opts ev) \<subseteq> K \<Longrightarrow>
    all_ok opts svalid sentries hvalid hentries P K rq st \<Longrightarrow>
    all_ok opts svalid sentries hvalid hentries P K (fold (spec_event opts) evs rq) (fold (sched_handler opts sops hops) evs st)"
  by (induction evs arbitrary: rq st) (simp_all add: all_ok_event [OF assms])

section \<open>The report\<close>

lemma print_loop_middle:
  assumes "hash_laws hops valid entries cap" "valid m" "\<forall>(k, h) \<in> set (entries m). hist_text opts k h = Some (text k h)"
  shows "entries m = pre @ (k, h) # post \<Longrightarrow> length post < fuel \<Longrightarrow>
    print_loop fuel opts hops k m = Finished (True, concat (map (\<lambda>(k, h). text k h) post))"
proof (induction fuel arbitrary: pre k h post)
  case (Suc fuel)
  have keys: "distinct (map fst pre @ k # map fst post)"
    using hash_lawsD(1) [OF assms(1,2)] Suc.prems(1) by simp
  have nk: "bm_get_next_key hops k m = (case map fst post of [] \<Rightarrow> Inl ENOENT | k' # _ \<Rightarrow> Inr k')"
    using hash_lawsD(3) [OF assms(1,2), of k] Suc.prems(1) next_key_middle [OF keys] by simp
  show ?case
  proof (cases post)
    case (Cons e post')
    obtain k' h' where e: "e = (k', h')"
      by (cases e)
    have "map_of (entries m) k' = Some h'"
      using hash_lawsD(1) [OF assms(1,2)] Suc.prems(1) Cons e by (intro map_of_is_SomeI) simp_all
    then have "bm_lookup_elem hops k' m = Inr h'"
      by (rule hash_lawsD(4) [OF assms(1,2)])
    moreover have "hist_text opts k' h' = Some (text k' h')"
      using assms(3) Suc.prems(1) Cons e by auto
    moreover have "print_loop fuel opts hops k' m = Finished (True, concat (map (\<lambda>(k, h). text k h) post'))"
      using Suc.IH [of "pre @ [(k, h)]" k' h' post'] Suc.prems Cons e by simp
    ultimately show ?thesis
      using nk Cons e by simp
  qed (use nk in simp)
qed simp

lemma print_loop_all:
  assumes "hash_laws hops valid entries cap" "valid m" "\<forall>(k, h) \<in> set (entries m). hist_text opts k h = Some (text k h)"
    and "key \<notin> fst ` set (entries m)" "length (entries m) < fuel"
  shows "print_loop fuel opts hops key m = Finished (True, concat (map (\<lambda>(k, h). text k h) (entries m)))"
proof -
  obtain fuel' where fuel: "fuel = Suc fuel'"
    using assms(5) by (cases fuel) auto
  have "key \<notin> set (map fst (entries m))"
    using assms(4) by simp
  then have nk: "bm_get_next_key hops key m = (case map fst (entries m) of [] \<Rightarrow> Inl ENOENT | k # _ \<Rightarrow> Inr k)"
    using hash_lawsD(3) [OF assms(1,2), of key] by (simp add: next_key_def)
  show ?thesis
  proof (cases "entries m")
    case (Cons e es)
    obtain k h where e: "e = (k, h)"
      by (cases e)
    have "bm_lookup_elem hops k m = Inr h"
      using Cons e by (intro hash_lawsD(4) [OF assms(1,2)]) simp
    moreover have "hist_text opts k h = Some (text k h)"
      using assms(3) Cons e by simp
    moreover have "print_loop fuel' opts hops k m = Finished (True, concat (map (\<lambda>(k, h). text k h) es))"
      using print_loop_middle [OF assms(1-3), of "[]" k h es fuel'] assms(5) Cons e fuel by simp
    ultimately show ?thesis
      using nk Cons e fuel by simp
  qed (use nk fuel in simp)
qed

lemma cleanup_loop_all:
  assumes "hash_laws hops valid entries cap"
  shows "valid m \<Longrightarrow> key \<notin> fst ` set (entries m) \<Longrightarrow> length (entries m) < fuel \<Longrightarrow>
    \<exists>m'. cleanup_loop fuel hops key m = Finished (True, m') \<and> valid m' \<and> entries m' = []"
proof (induction fuel arbitrary: key m)
  case (Suc fuel)
  have "key \<notin> set (map fst (entries m))"
    using Suc.prems(2) by simp
  then have nk: "bm_get_next_key hops key m = (case map fst (entries m) of [] \<Rightarrow> Inl ENOENT | k # _ \<Rightarrow> Inr k)"
    using hash_lawsD(3) [OF assms Suc.prems(1), of key] by (simp add: next_key_def)
  show ?case
  proof (cases "entries m")
    case (Cons e es)
    have d: "fst e \<notin> fst ` set es"
      using hash_lawsD(1) [OF assms Suc.prems(1)] Cons by simp
    have "fst e \<in> fst ` set (entries m)"
      using Cons by simp
    then obtain m' where m': "bm_delete_elem hops (fst e) m = (0, m')" "valid m'" "entries m' = without [fst e] (entries m)"
      using hash_laws_deleteE [OF assms Suc.prems(1)] by blast
    have "filter (\<lambda>x. fst x \<noteq> fst e) es = es"
      using d by (intro filter_True) (auto simp: image_iff)
    then have es: "entries m' = es"
      using m'(3) Cons by (simp add: without_def)
    show ?thesis
      using nk Cons m'(1) Suc.IH [OF m'(2), of "fst e"] d es Suc.prems(3) by simp
  qed (use nk Suc.prems(1) in simp)
qed simp

text \<open>The text that belongs to the counts of a histogram.\<close>

definition report_of :: "runqlat_opts \<Rightarrow> (u32 \<times> u64) list \<Rightarrow> u32 \<Rightarrow> hist \<Rightarrow> string" where
  "report_of opts waits k h =
     hist_head opts k h @ log2_hist_spec (trim_zeros (wait_counts opts k waits)) (if targ_ms opts then ''msecs'' else ''usecs'')"

lemma waits_in_le: "waits_in opts k s waits \<le> length waits"
  by (simp add: waits_in_def)

lemma hist_text_counts:
  assumes "k \<in> fst ` set waits" "length waits * 40 < 2 ^ 32" "hi_slots h = wait_counts opts k waits"
  shows "hist_text opts k h = Some (report_of opts waits k h)"
proof -
  let ?c = "wait_counts opts k waits"
  have small: "unat (word_of_nat (waits_in opts k s waits) :: u32) = waits_in opts k s waits" for s
    using waits_in_le [of opts k s waits] assms(2) by (intro unat_of_nat_u32) simp
  obtain delta where d: "(k, delta) \<in> set waits"
    using assms(1) by auto
  let ?s = "unat (wait_slot opts delta)"
  have "in_row opts ?s delta"
    using in_row_wait_slot [OF wait_slot_less] by simp
  then have "waits_in opts k ?s waits \<noteq> 0"
    using d by (auto simp: waits_in_def filter_empty_conv)
  then have "?c ! ?s \<noteq> 0"
    using small [of ?s] wait_slot_less [of opts delta] by (auto simp: wait_counts_def)
  moreover have "?c ! ?s \<in> set ?c"
    using wait_slot_less [of opts delta] by (simp add: wait_counts_def)
  ultimately have "trim_zeros ?c \<noteq> []"
    using trim_zeros_set(1) [of ?c] by auto
  moreover have "\<forall>v \<in> set ?c. unat v * 40 < 2 ^ 32"
  proof
    fix v
    assume "v \<in> set ?c"
    then obtain s where "unat v = waits_in opts k s waits"
      using small by (auto simp: wait_counts_def)
    then show "unat v * 40 < 2 ^ 32"
      using waits_in_le [of opts k s waits] assms(2) by simp
  qed
  ultimately show ?thesis
    using print_log2_hist_exact [of ?c] assms(3)
    by (simp add: hist_text_def report_of_def wait_counts_def MAX_SLOTS_def)
qed

lemma queued_pids_finite [simp]: "finite (queued_pids ev)"
  by (cases ev) simp_all

lemma counted_keys_finite [simp]: "finite (counted_keys opts ev)"
  by (cases ev) simp_all

text \<open>
  (C31) Let the maps of \<^verbatim>\<open>runqlat\<close> have room for the tasks and histograms of a run, and follow any sequence of
  wakeups and context switches by a report.  The report succeeds, has one histogram for every key that a wait
  ended for and no other, and each histogram is the exact one for the number of waits that ended in each row's
  range, with no wait lost and none counted twice; afterwards the histograms are empty, and the tasks that are still
  waiting are in the table with the time they were queued.  The counts are below the bound up to which bars are exact.
\<close>

theorem runqlat_reports_waits:
  assumes "hash_laws sops svalid sentries scap" "svalid s0" "sentries s0 = []"
    and "hash_laws hops hvalid hentries hcap" "hvalid h0" "hentries h0 = []"
    and "card (\<Union>ev \<in> set evs. queued_pids ev) \<le> scap" "card (\<Union>ev \<in> set evs. counted_keys opts ev) \<le> hcap"
    and "rq = fold (spec_event opts) evs \<lparr>rq_waiting = Map.empty, rq_done = []\<rparr>"
    and "fold (sched_handler opts sops hops) evs (s0, h0) = (s1, h1)"
    and "- 2 \<notin> fst ` set (rq_done rq)" "length (rq_done rq) * 40 < 2 ^ 32" "length (rq_done rq) < fuel"
  shows "\<exists>es h2. print_log2_hists fuel opts hops h1 =
      Finished (0, concat (map (\<lambda>(k, h). report_of opts (rq_done rq) k h) es), h2) \<and>
    distinct (map fst es) \<and> fst ` set es = fst ` set (rq_done rq) \<and> hentries h2 = [] \<and>
    map_of (sentries s1) = rq_waiting rq"
proof -
  let ?P = "\<Union>ev \<in> set evs. queued_pids ev" and ?K = "\<Union>ev \<in> set evs. counted_keys opts ev"
  have fin: "finite ?P" "finite ?K"
    using queued_pids_finite counted_keys_finite by auto
  have "all_ok opts svalid sentries hvalid hentries ?P ?K \<lparr>rq_waiting = Map.empty, rq_done = []\<rparr> (s0, h0)"
    using assms(2,3,5,6) by (simp add: all_ok_def start_ok_def hists_ok_def)
  from all_ok_fold [OF assms(1,4) fin(1) assms(7) fin(2) assms(8) subset_refl subset_refl this]
  have "all_ok opts svalid sentries hvalid hentries ?P ?K rq (s1, h1)"
    by (simp add: assms(9,10))
  then have ok: "map_of (sentries s1) = rq_waiting rq" "hvalid h1" "dom (map_of (hentries h1)) = fst ` set (rq_done rq)"
    "\<And>k h. map_of (hentries h1) k = Some h \<Longrightarrow> hi_slots h = wait_counts opts k (rq_done rq)"
    by (auto simp: all_ok_def start_ok_def hists_ok_def)
  have d: "distinct (map fst (hentries h1))"
    by (rule hash_lawsD(1) [OF assms(4) ok(2)])
  have keys: "fst ` set (hentries h1) = fst ` set (rq_done rq)"
    using ok(3) by (simp add: dom_map_of_conv_image_fst)
  have printed: "\<forall>(k, h) \<in> set (hentries h1). hist_text opts k h = Some (report_of opts (rq_done rq) k h)"
  proof (intro ballI case_prodI2, goal_cases)
    case (1 _ k h)
    then have "k \<in> fst ` set (rq_done rq)" "map_of (hentries h1) k = Some h"
      using d keys by (force, simp)
    then show ?case
      by (intro hist_text_counts assms(12) ok(4))
  qed
  have "length (hentries h1) \<le> length (rq_done rq)"
    using length_entries [OF d] card_image_le [of "set (rq_done rq)" fst] card_length [of "rq_done rq"] ok(3) by simp
  then have fuel: "length (hentries h1) < fuel" and new: "- 2 \<notin> fst ` set (hentries h1)"
    using assms(11,13) keys by simp_all
  obtain h2 where "cleanup_loop fuel hops (- 2) h1 = Finished (True, h2)" "hentries h2 = []"
    using cleanup_loop_all [OF assms(4) ok(2) new fuel] by blast
  then show ?thesis
    using print_loop_all [OF assms(4) ok(2) printed new fuel] d keys ok(1)
    by (intro exI [of _ "hentries h1"] exI [of _ h2]) (simp add: print_log2_hists_def)
qed

definition sample_opts :: runqlat_opts where
  "sample_opts = \<lparr>filter_cg = False, targ_per_process = False, targ_per_thread = True, targ_per_pidns = False,
     targ_ms = False, targ_tgid = 0\<rparr>"

definition sample_task :: "u32 \<Rightarrow> task" where
  "sample_task pid = \<lparr>ts_tgid = pid, ts_pid = pid, ts_state = 0, ts_pidns = 1, ts_comm = ''bash''\<rparr>"

definition sample_events :: "sched_event list" where
  "sample_events =
     [Sched_wakeup False 1000 (sample_task 5), Sched_switch False 4000 5000 (sample_task 6) (sample_task 5),
      Sched_wakeup_new False 6000 (sample_task 7), Sched_switch False 90000 96000 (sample_task 5) (sample_task 6)]"

theorem runqlat_reports_waits_witness:
  "\<exists>es h2. print_log2_hists 3 sample_opts (list_map 8)
       (snd (fold (sched_handler sample_opts (list_map 8) (list_map 8)) sample_events ([], []))) =
     Finished (0, concat (map (\<lambda>(k, h). report_of sample_opts [(5, 4000), (6, 92000)] k h) es), h2) \<and>
     fst ` set es = {5, 6} \<and> h2 = []"
proof -
  let ?f = "fold (sched_handler sample_opts (list_map 8) (list_map 8)) sample_events ([], [])"
  have waits: "rq_done (fold (spec_event sample_opts) sample_events \<lparr>rq_waiting = Map.empty, rq_done = []\<rparr>) = [(5, 4000), (6, 92000)]"
    by (simp add: sample_events_def spec_run_def spec_enqueue_def sample_opts_def sample_task_def TASK_RUNNING_def hist_key_def)
  have "card (\<Union>ev \<in> set sample_events. queued_pids ev) \<le> 8" "card (\<Union>ev \<in> set sample_events. counted_keys sample_opts ev) \<le> 8"
    by (simp_all add: sample_events_def sample_opts_def sample_task_def hist_key_def card_insert_if)
  from runqlat_reports_waits [OF list_map_laws _ _ list_map_laws _ _ this refl prod.collapse [of ?f, symmetric], where fuel = 3]
  show ?thesis
    by (simp add: waits) blast
qed

end
