(* ===== verification/Probe_Attach.thy ===== *)
theory Probe_Attach
  imports Proc Usdt_Args Trace_Misc
begin

text \<open>
  Attaching BPF programs to kernel functions, user functions and perf events, src/cc/libbpf.c.  The kernel is a
  parameter: the answers of its files, of \<^verbatim>\<open>perf_event_open\<close> and of the requests on a perf event, which can
  change its state.  Open files are counted as in theory \<^verbatim>\<open>Zip\<close>; messages are not represented.  \<^const>\<open>None\<close> is
  undefined behaviour.
\<close>

section \<open>The kernel\<close>

record perf_event_attr =
  pa_type :: u32
  pa_disabled :: bool
  pa_config :: u64
  pa_config1 :: string
  pa_config2 :: u64
  pa_sample_period :: u64
  pa_sample_freq :: u64
  pa_freq :: bool
  pa_inherit :: bool
  pa_wakeup_events :: u32

definition perf_attr_zero :: perf_event_attr where
  "perf_attr_zero = \<lparr>pa_type = 0, pa_disabled = False, pa_config = 0, pa_config1 = [], pa_config2 = 0, pa_sample_period = 0, pa_sample_freq = 0,
     pa_freq = False, pa_inherit = False, pa_wakeup_events = 0\<rparr>"

datatype perf_ioctl = Ioc_set_bpf int | Ioc_enable | Ioc_disable

text \<open>
  A file that cannot be opened or read has no contents.  \<open>tk_perf_open\<close> takes the attributes, the process, the
  CPU and the group; a negative result is a failure, as for \<open>tk_ioctl\<close>.
\<close>

record 'k trace_kernel =
  tk_access :: "'k \<Rightarrow> string \<Rightarrow> bool"
  tk_read :: "'k \<Rightarrow> string \<Rightarrow> string option"
  tk_open_append :: "'k \<Rightarrow> string \<Rightarrow> bool"
  tk_write :: "string \<Rightarrow> string \<Rightarrow> 'k \<Rightarrow> bool \<times> 'k"
  tk_perf_open :: "perf_event_attr \<Rightarrow> int \<Rightarrow> int \<Rightarrow> int \<Rightarrow> 'k \<Rightarrow> int \<times> 'k"
  tk_ioctl :: "int \<Rightarrow> perf_ioctl \<Rightarrow> 'k \<Rightarrow> int \<times> 'k"
  tk_close :: "int \<Rightarrow> 'k \<Rightarrow> int \<times> 'k"
  tk_getpid :: int

section \<open>The probe types of the perf subsystem\<close>

text \<open>
  The buffer held the path of the file, and \<^verbatim>\<open>read\<close> does not terminate what it stores, so the number that is
  converted may go on in the rest of the path.  Behind the path nothing is known.  The descriptor is closed at
  once, whatever \<^verbatim>\<open>read\<close> returned.
\<close>

definition read_over :: "string \<Rightarrow> string \<Rightarrow> string option" where
  "read_over path contents =
     (if length contents \<le> length path then Some (contents @ drop (length contents) path)
      else if CHR 0x0A \<in> set contents then Some contents
      else None)"

definition bpf_find_probe_type :: "'k trace_kernel \<Rightarrow> 'k \<Rightarrow> string \<Rightarrow> os_res \<Rightarrow> (int \<times> os_res) option" where
  "bpf_find_probe_type tk k event_type os =
     (let path = ''/sys/bus/event_source/devices/'' @ event_type @ ''/type'' in
      if length path \<ge> PATH_MAX then Some (- 1, os)
      else
        (case tk_read tk k path of
           None \<Rightarrow> Some (- 1, os)
         | Some contents \<Rightarrow>
             (let os = os_open_fd os; os = os_close_fd os in
              if length contents \<ge> PATH_MAX then Some (- 1, os)
              else do {
                buf \<leftarrow> read_over path contents;
                let (v, range) = strtol buf;
                Some (if range then - 1 else to_int32 v, os)
              })))"

definition bpf_get_retprobe_bit :: "'k trace_kernel \<Rightarrow> 'k \<Rightarrow> string \<Rightarrow> os_res \<Rightarrow> (int \<times> os_res) option" where
  "bpf_get_retprobe_bit tk k event_type os =
     (let path = ''/sys/bus/event_source/devices/'' @ event_type @ ''/format/retprobe'' in
      if length path \<ge> PATH_MAX then Some (- 1, os)
      else
        (case tk_read tk k path of
           None \<Rightarrow> Some (- 1, os)
         | Some contents \<Rightarrow>
             (let os = os_open_fd os; os = os_close_fd os in
              if length contents \<ge> PATH_MAX then Some (- 1, os)
              else do {
                buf \<leftarrow> read_over path contents;
                if \<not> starts_with buf ''config:'' then Some (- 1, os)
                else do {
                  let (v, range) = strtol (drop 7 buf);
                  Some (if range then - 1 else to_int32 v, os)
                }
              })))"

definition probe_target :: "int \<Rightarrow> int \<times> int" where
  "probe_target pid = (let pid = (if pid < 0 then - 1 else pid) in (pid, if pid \<noteq> - 1 then - 1 else 0))"

text \<open>The shift of the literal 1 is one of an \<^verbatim>\<open>int\<close>.\<close>

definition bpf_try_perf_event_open_with_probe ::
  "'k trace_kernel \<Rightarrow> string \<Rightarrow> u64 \<Rightarrow> int \<Rightarrow> string \<Rightarrow> bool \<Rightarrow> u64 \<Rightarrow> 'k \<times> os_res \<Rightarrow> (int \<times> 'k \<times> os_res) option" where
  "bpf_try_perf_event_open_with_probe tk name offs pid event_type is_return ref_ctr_offset = (\<lambda>(k, os). do {
     (ty, os) \<leftarrow> bpf_find_probe_type tk k event_type os;
     (is_return_bit, os) \<leftarrow> bpf_get_retprobe_bit tk k event_type os;
     if ty < 0 \<or> is_return_bit < 0 then Some (- 1, k, os)
     else do {
       bit \<leftarrow> (if \<not> is_return then Some 0 else if is_return_bit < 31 then Some (push_bit (nat is_return_bit) 1) else None);
       let config = bit OR push_bit 32 ref_ctr_offset;
       let (pid, cpu) = probe_target pid;
       let (pfd, k) = tk_perf_open tk (perf_attr_zero\<lparr>pa_type := word_of_int ty, pa_config := config, pa_config1 := name,
                        pa_config2 := offs, pa_sample_period := 1, pa_wakeup_events := 1\<rparr>) pid cpu (- 1) k;
       Some (pfd, k, os)
     }
   })"

section \<open>Events in tracefs\<close>

definition DEBUGFS_TRACEFS :: string where "DEBUGFS_TRACEFS = ''/sys/kernel/debug/tracing''"

definition get_tracefs_path :: "'k trace_kernel \<Rightarrow> 'k \<Rightarrow> string" where
  "get_tracefs_path tk k = (if tk_access tk k DEBUGFS_TRACEFS then DEBUGFS_TRACEFS else TRACEFS)"

definition PERF_TYPE_TRACEPOINT :: u32 where "PERF_TYPE_TRACEPOINT = 2"

text \<open>The result, the descriptor of the perf event, the kernel and the open files.\<close>

definition set_and_enable :: "'k trace_kernel \<Rightarrow> int \<Rightarrow> int \<Rightarrow> 'k \<Rightarrow> int \<times> 'k" where
  "set_and_enable tk progfd pfd k =
     (let (r, k) = tk_ioctl tk pfd (Ioc_set_bpf progfd) k in
      if r < 0 then (- 1, k)
      else (let (r, k) = tk_ioctl tk pfd Ioc_enable k in if r < 0 then (- 1, k) else (0, k)))"

definition bpf_attach_tracing_event ::
  "'k trace_kernel \<Rightarrow> int \<Rightarrow> string \<Rightarrow> int \<Rightarrow> int \<Rightarrow> 'k \<times> os_res \<Rightarrow> int \<times> int \<times> 'k \<times> os_res" where
  "bpf_attach_tracing_event tk progfd event_path pid pfd = (\<lambda>(k, os).
     if pfd < 0
     then
       (case tk_read tk k (snprintf_trunc PATH_MAX (event_path @ ''/id'')) of
          None \<Rightarrow> (- 1, pfd, k, os)
        | Some contents \<Rightarrow>
            (let os = os_open_fd os in
             if contents = [] \<or> length contents \<ge> PATH_MAX then (- 1, pfd, k, os_close_fd os)
             else
               (let os = os_close_fd os;
                    config = (case scan_base0 contents of None \<Rightarrow> 0 | Some (neg, n, _) \<Rightarrow> strtol_val neg n);
                    (pid, cpu) = probe_target pid;
                    (pfd, k) = tk_perf_open tk (perf_attr_zero\<lparr>pa_config := word_of_int config, pa_type := PERF_TYPE_TRACEPOINT,
                                 pa_sample_period := 1, pa_wakeup_events := 1\<rparr>) pid cpu (- 1) k
                in if pfd < 0 then (- 1, pfd, k, os)
                   else (let (r, k) = set_and_enable tk progfd pfd k in (r, pfd, k, os)))))
     else (let (r, k) = set_and_enable tk progfd pfd k in (r, pfd, k, os)))"

datatype bpf_probe_attach_type = BPF_PROBE_ENTRY | BPF_PROBE_RETURN

definition probe_alias :: "'k trace_kernel \<Rightarrow> string \<Rightarrow> string" where
  "probe_alias tk ev_name = ev_name @ ''_bcc_'' @ show_int (tk_getpid tk)"

definition events_file :: "'k trace_kernel \<Rightarrow> 'k \<Rightarrow> string \<Rightarrow> string" where
  "events_file tk k event_type = snprintf_trunc PATH_MAX (get_tracefs_path tk k @ ''/'' @ event_type @ ''_events'')"

text \<open>The line that defines the probe, or \<^const>\<open>None\<close> if it does not fit.\<close>

definition probe_line ::
  "string \<Rightarrow> bpf_probe_attach_type \<Rightarrow> string \<Rightarrow> u64 \<Rightarrow> string \<Rightarrow> int \<Rightarrow> string option" where
  "probe_line ev_alias attach_type config1 offset event_type maxactive =
     (let kind = (if attach_type = BPF_PROBE_ENTRY then ''p'' else ''r'') in
      if starts_with event_type ''kprobe''
      then Some (snprintf_trunc PATH_MAX
             (if offset > 0 \<and> attach_type = BPF_PROBE_ENTRY
              then ''p:kprobes/'' @ ev_alias @ '' '' @ config1 @ ''+'' @ show_int (uint offset)
              else if maxactive > 0 \<and> attach_type = BPF_PROBE_RETURN
              then ''r'' @ show_int maxactive @ '':kprobes/'' @ ev_alias @ '' '' @ config1
              else kind @ '':kprobes/'' @ ev_alias @ '' '' @ config1))
      else
        (let line = kind @ '':'' @ event_type @ ''s/'' @ ev_alias @ '' '' @ config1 @ '':0x'' @ nat_digits 16 (unat offset)
         in if length line \<ge> PATH_MAX then None else Some line))"

text \<open>The path of the new event is left in the buffer.\<close>

definition create_probe_event ::
  "'k trace_kernel \<Rightarrow> string \<Rightarrow> bpf_probe_attach_type \<Rightarrow> string \<Rightarrow> u64 \<Rightarrow> string \<Rightarrow> int \<Rightarrow> 'k \<times> os_res \<Rightarrow>
   (int \<times> string) \<times> 'k \<times> os_res" where
  "create_probe_event tk ev_name attach_type config1 offset event_type maxactive = (\<lambda>(k, os).
     (let file = events_file tk k event_type in
      if \<not> tk_open_append tk k file then ((- 1, file), k, os)
      else
        (let os = os_open_fd os; ev_alias = probe_alias tk ev_name in
         if length ev_alias \<ge> 256 then ((- 1, file), k, os_close_fd os)
         else
           (case probe_line ev_alias attach_type config1 offset event_type maxactive of
              None \<Rightarrow> ((- 1, file), k, os_close_fd os)
            | Some line \<Rightarrow>
                (let (ok, k) = tk_write tk file line k in
                 if \<not> ok then ((- 1, line), k, os_close_fd os)
                 else ((0, snprintf_trunc PATH_MAX (get_tracefs_path tk k @ ''/events/'' @ event_type @ ''s/'' @ ev_alias)), k,
                       os_close_fd os))))))"

definition bpf_close_perf_event_fd :: "'k trace_kernel \<Rightarrow> int \<Rightarrow> 'k \<Rightarrow> int \<times> 'k" where
  "bpf_close_perf_event_fd tk fd k =
     (if fd \<ge> 0
      then (let (res, k) = tk_ioctl tk fd Ioc_disable k; err = res; (res, k) = tk_close tk fd k
            in (if res \<noteq> 0 \<and> err = 0 then res else err, k))
      else (0, k))"

text \<open>
  A kernel that does not know \<^verbatim>\<open>maxactive\<close> creates the event under another name: it is deleted, and the event is
  created again without \<^verbatim>\<open>maxactive\<close>.  The result is the path of the event, or \<^const>\<open>None\<close> for a failure.
\<close>

definition retry_maxactive ::
  "'k trace_kernel \<Rightarrow> bpf_probe_attach_type \<Rightarrow> string \<Rightarrow> string \<Rightarrow> string \<Rightarrow> u64 \<Rightarrow> string \<Rightarrow> 'k \<times> os_res \<Rightarrow>
   string option \<times> 'k \<times> os_res" where
  "retry_maxactive tk attach_type ev_name config1 event_type offset buf = (\<lambda>(k, os).
     if length buf + 3 \<ge> 256 then (None, k, os)
     else if tk_access tk k (buf @ ''/id'') then (Some buf, k, os)
     else
       (let file = events_file tk k ''kprobe'' in
        if \<not> tk_open_append tk k file then (None, k, os)
        else
          (let os = os_open_fd os; (ok, k) = tk_write tk file (snprintf_trunc 256 (''-:kprobes/'' @ ev_name @ ''_0'')) k;
               os = os_close_fd os
           in if \<not> ok then (None, k, os)
              else (case create_probe_event tk ev_name attach_type config1 offset event_type 0 (k, os) of
                      ((r, buf), st) \<Rightarrow> (if r < 0 then None else Some buf, st)))))"

text \<open>Creating the event in tracefs.\<close>

definition create_event ::
  "'k trace_kernel \<Rightarrow> bpf_probe_attach_type \<Rightarrow> string \<Rightarrow> string \<Rightarrow> string \<Rightarrow> u64 \<Rightarrow> int \<Rightarrow> 'k \<times> os_res \<Rightarrow>
   string option \<times> 'k \<times> os_res" where
  "create_event tk attach_type ev_name config1 event_type offset maxactive st =
     (case create_probe_event tk ev_name attach_type config1 offset event_type maxactive st of
        ((r, buf), st) \<Rightarrow>
          if r < 0 then (None, st)
          else if starts_with event_type ''kprobe'' \<and> maxactive > 0 \<and> attach_type = BPF_PROBE_RETURN
          then retry_maxactive tk attach_type ev_name config1 event_type offset buf st
          else (Some buf, st))"

definition bpf_attach_probe ::
  "'k trace_kernel \<Rightarrow> int \<Rightarrow> bpf_probe_attach_type \<Rightarrow> string \<Rightarrow> string \<Rightarrow> string \<Rightarrow> u64 \<Rightarrow> int \<Rightarrow> int \<Rightarrow> u32 \<Rightarrow> 'k \<times> os_res \<Rightarrow>
   (int \<times> 'k \<times> os_res) option" where
  "bpf_attach_probe tk progfd attach_type ev_name config1 event_type offset pid maxactive ref_ctr_offset = (\<lambda>(k, os). do {
     (pfd, k, os) \<leftarrow> (if maxactive \<le> 0
                      then bpf_try_perf_event_open_with_probe tk config1 offset pid event_type (attach_type \<noteq> BPF_PROBE_ENTRY)
                             (ucast ref_ctr_offset) (k, os)
                      else Some (- 1, k, os));
     let (buf, k, os) = (if pfd < 0 then create_event tk attach_type ev_name config1 event_type offset maxactive (k, os)
                         else (Some [], k, os));
     case buf of
       None \<Rightarrow> Some (- 1, k, os)
     | Some buf \<Rightarrow> do {
         let (r, pfd, k, os) = bpf_attach_tracing_event tk progfd buf pid pfd (k, os);
         Some (if r = 0 then (pfd, k, os) else (- 1, snd (bpf_close_perf_event_fd tk pfd k), os))
       }
   })"

definition bpf_attach_kprobe ::
  "'k trace_kernel \<Rightarrow> int \<Rightarrow> bpf_probe_attach_type \<Rightarrow> string \<Rightarrow> string \<Rightarrow> u64 \<Rightarrow> int \<Rightarrow> 'k \<times> os_res \<Rightarrow> (int \<times> 'k \<times> os_res) option" where
  "bpf_attach_kprobe tk progfd attach_type ev_name fn_name fn_offset maxactive =
     bpf_attach_probe tk progfd attach_type ev_name fn_name ''kprobe'' fn_offset (- 1) maxactive 0"

text \<open>The entry on the stack is uninitialised; \<open>junk\<close> is what it holds.\<close>

definition find_archive_path_and_offset ::
  "zip_env \<Rightarrow> bcc_zip_entry \<Rightarrow> string \<Rightarrow> u64 \<Rightarrow> os_res \<Rightarrow> ((string \<times> u64) option \<times> os_res) option" where
  "find_archive_path_and_offset zenv junk entry_path offset os =
     (case strstr entry_path ''!/'' of
        None \<Rightarrow> Some (None, os)
      | Some separator \<Rightarrow>
          if separator \<ge> PATH_MAX then Some (None, os)
          else do {
            (archive, entry, os) \<leftarrow> bcc_zip_archive_open_and_find zenv os (bytes_of entry_path) junk;
            case archive of
              None \<Rightarrow> Some (None, os)
            | Some archive \<Rightarrow>
                Some (if ze_compression entry \<noteq> 0 then (None, bcc_zip_archive_close os archive)
                      else (Some (take separator entry_path, offset + ucast (ze_data_offset entry)), bcc_zip_archive_close os archive))
          })"

definition bpf_attach_uprobe ::
  "'k trace_kernel \<Rightarrow> zip_env \<Rightarrow> bcc_zip_entry \<Rightarrow> int \<Rightarrow> bpf_probe_attach_type \<Rightarrow> string \<Rightarrow> string \<Rightarrow> u64 \<Rightarrow> int \<Rightarrow> u32 \<Rightarrow>
   'k \<times> os_res \<Rightarrow> (int \<times> 'k \<times> os_res) option" where
  "bpf_attach_uprobe tk zenv junk progfd attach_type ev_name binary_path offset pid ref_ctr_offset = (\<lambda>(k, os). do {
     (archive, os) \<leftarrow> (if tk_access tk k binary_path then Some (None, os)
                       else find_archive_path_and_offset zenv junk binary_path offset os);
     let (path, offset) = (case archive of None \<Rightarrow> (binary_path, offset) | Some (path, offset) \<Rightarrow> (path, offset));
     bpf_attach_probe tk progfd attach_type ev_name path ''uprobe'' offset pid (- 1) ref_ctr_offset (k, os)
   })"

section \<open>Detaching\<close>

text \<open>The loop over the lines of the events file.\<close>

function detach_finds :: "string \<Rightarrow> string \<Rightarrow> bool" where
  "detach_finds name text =
     (case getline text of
        None \<Rightarrow> False
      | Some (line, rest) \<Rightarrow> if strstr line name \<noteq> None then True else detach_finds name rest)"
  by pat_completeness auto
termination
  by (relation "measure (\<lambda>(name, text). length text)") (auto dest: getline_shorter)

declare detach_finds.simps [simp del]

definition bpf_detach_probe :: "'k trace_kernel \<Rightarrow> string \<Rightarrow> string \<Rightarrow> 'k \<times> os_res \<Rightarrow> int \<times> 'k \<times> os_res" where
  "bpf_detach_probe tk ev_name event_type = (\<lambda>(k, os).
     (let file = events_file tk k event_type; name = event_type @ ''s/'' @ probe_alias tk ev_name in
      case tk_read tk k file of
        None \<Rightarrow> (- 1, k, os)
      | Some text \<Rightarrow>
          (let os = os_open_fd os in
           if length name \<ge> PATH_MAX then (- 1, k, os_close_fd os)
           else
             (let os = os_close_fd os in
              if \<not> detach_finds name text then (0, k, os)
              else if \<not> tk_open_append tk k file then (- 1, k, os)
              else
                (let os = os_open_fd os in
                 if length name + 2 \<ge> PATH_MAX then (- 1, k, os_close_fd os)
                 else (let (ok, k) = tk_write tk file (''-:'' @ name) k in (if ok then 0 else - 1, k, os_close_fd os)))))))"

definition bpf_detach_kprobe :: "'k trace_kernel \<Rightarrow> string \<Rightarrow> 'k \<times> os_res \<Rightarrow> int \<times> 'k \<times> os_res" where
  "bpf_detach_kprobe tk ev_name = bpf_detach_probe tk ev_name ''kprobe''"

definition bpf_detach_uprobe :: "'k trace_kernel \<Rightarrow> string \<Rightarrow> 'k \<times> os_res \<Rightarrow> int \<times> 'k \<times> os_res" where
  "bpf_detach_uprobe tk ev_name = bpf_detach_probe tk ev_name ''uprobe''"

definition bpf_attach_tracepoint :: "'k trace_kernel \<Rightarrow> int \<Rightarrow> string \<Rightarrow> string \<Rightarrow> 'k \<times> os_res \<Rightarrow> int \<times> 'k \<times> os_res" where
  "bpf_attach_tracepoint tk progfd tp_category tp_name = (\<lambda>(k, os).
     (let buf = snprintf_trunc 256 (get_tracefs_path tk k @ ''/events/'' @ tp_category @ ''/'' @ tp_name);
          (r, pfd, k, os) = bpf_attach_tracing_event tk progfd buf (- 1) (- 1) (k, os)
      in if r = 0 then (pfd, k, os) else (- 1, snd (bpf_close_perf_event_fd tk pfd k), os)))"

section \<open>Perf events\<close>

definition PERF_TYPE_HARDWARE :: u32 where "PERF_TYPE_HARDWARE = 0"
definition PERF_TYPE_SOFTWARE :: u32 where "PERF_TYPE_SOFTWARE = 1"
definition PERF_TYPE_HW_CACHE :: u32 where "PERF_TYPE_HW_CACHE = 3"
definition PERF_TYPE_BREAKPOINT :: u32 where "PERF_TYPE_BREAKPOINT = 5"

text \<open>The limits are those of the kernel's header at compile time.\<close>

record perf_limits =
  pl_hw_max :: u64
  pl_sw_max :: u64
  pl_cache_max :: u64
  pl_cache_op_max :: u64
  pl_cache_result_max :: u64

definition invalid_perf_config :: "perf_limits \<Rightarrow> u32 \<Rightarrow> u64 \<Rightarrow> bool" where
  "invalid_perf_config lim ty config \<longleftrightarrow>
     (if ty = PERF_TYPE_HARDWARE then config \<ge> pl_hw_max lim
      else if ty = PERF_TYPE_SOFTWARE then config \<ge> pl_sw_max lim \<or> config = 10
      else if ty = PERF_TYPE_HW_CACHE
      then drop_bit 16 config \<ge> pl_cache_result_max lim \<or> drop_bit 8 config AND 0xFF \<ge> pl_cache_op_max lim \<or>
           config AND 0xFF \<ge> pl_cache_max lim
      else ty = PERF_TYPE_TRACEPOINT \<or> ty = PERF_TYPE_BREAKPOINT)"

definition bpf_open_perf_event :: "'k trace_kernel \<Rightarrow> perf_limits \<Rightarrow> u32 \<Rightarrow> u64 \<Rightarrow> int \<Rightarrow> int \<Rightarrow> 'k \<Rightarrow> int \<times> 'k" where
  "bpf_open_perf_event tk lim ty config pid cpu k =
     (if invalid_perf_config lim ty config then (- 1, k)
      else
        (let (fd, k) = tk_perf_open tk (perf_attr_zero\<lparr>pa_sample_period := 2 ^ 63 - 1, pa_type := ty, pa_config := config\<rparr>)
                         pid cpu (- 1) k
         in if fd < 0 then (- 1, k)
            else (let (r, k) = tk_ioctl tk fd Ioc_enable k in if r < 0 then (- 1, snd (tk_close tk fd k)) else (fd, k))))"

definition bpf_attach_perf_event_raw :: "'k trace_kernel \<Rightarrow> int \<Rightarrow> perf_event_attr \<Rightarrow> int \<Rightarrow> int \<Rightarrow> int \<Rightarrow> 'k \<Rightarrow> int \<times> 'k" where
  "bpf_attach_perf_event_raw tk progfd attr pid cpu group_fd k =
     (let (fd, k) = tk_perf_open tk attr pid cpu group_fd k in
      if fd < 0 then (- 1, k)
      else
        (let (r, k) = tk_ioctl tk fd (Ioc_set_bpf progfd) k in
         if r \<noteq> 0 then (- 1, snd (tk_close tk fd k))
         else (let (r, k) = tk_ioctl tk fd Ioc_enable k in if r \<noteq> 0 then (- 1, snd (tk_close tk fd k)) else (fd, k))))"

definition bpf_attach_perf_event ::
  "'k trace_kernel \<Rightarrow> perf_limits \<Rightarrow> int \<Rightarrow> u32 \<Rightarrow> u32 \<Rightarrow> u64 \<Rightarrow> u64 \<Rightarrow> int \<Rightarrow> int \<Rightarrow> int \<Rightarrow> 'k \<Rightarrow> int \<times> 'k" where
  "bpf_attach_perf_event tk lim progfd ev_type ev_config sample_period sample_freq pid cpu group_fd k =
     (if invalid_perf_config lim ev_type (ucast ev_config) then (- 1, k)
      else if (sample_period > 0) = (sample_freq > 0) then (- 1, k)
      else
        (let attr = perf_attr_zero\<lparr>pa_type := ev_type, pa_config := ucast ev_config, pa_inherit := (pid > 0)\<rparr>;
             attr = (if sample_freq > 0 then attr\<lparr>pa_freq := True, pa_sample_freq := sample_freq\<rparr>
                     else attr\<lparr>pa_sample_period := sample_period\<rparr>)
         in bpf_attach_perf_event_raw tk progfd attr pid cpu group_fd k))"

end
