(* ===== verification/Probe_Props.thy ===== *)
theory Probe_Props
  imports Probe_Attach
begin

text \<open>
  What attaching a probe leaves of the perf events: an enabled one with the program, or no new one.
\<close>

section \<open>Perf events of the kernel\<close>

text \<open>
  A perf event has a program, if one is attached, is enabled or not, and may hold an event of tracefs.  The documented effects of the calls on
  the table of the perf events of the process: a new event is enabled unless its attributes say otherwise; a request
  that fails may leave its event in any state.
\<close>

type_synonym perf_events = "int \<Rightarrow> (int option \<times> bool \<times> string option) option"

definition perf_laws :: "'k trace_kernel \<Rightarrow> ('k \<Rightarrow> perf_events) \<Rightarrow> bool" where
  "perf_laws tk evs \<longleftrightarrow>
     (\<forall>attr pid cpu grp k fd k'. tk_perf_open tk attr pid cpu grp k = (fd, k') \<longrightarrow>
        (if fd < 0 then evs k' = evs k else evs k fd = None \<and> (\<exists>u. evs k' = (evs k)(fd \<mapsto> (None, \<not> pa_disabled attr, u))))) \<and>
     (\<forall>fd prog k r k' s e u. tk_ioctl tk fd (Ioc_set_bpf prog) k = (r, k') \<longrightarrow> evs k fd = Some (s, e, u) \<longrightarrow>
        (if r < 0 then \<exists>x. evs k' = (evs k)(fd \<mapsto> x) else evs k' = (evs k)(fd \<mapsto> (Some prog, e, u)))) \<and>
     (\<forall>fd k r k' s e u. tk_ioctl tk fd Ioc_enable k = (r, k') \<longrightarrow> evs k fd = Some (s, e, u) \<longrightarrow>
        (if r < 0 then \<exists>x. evs k' = (evs k)(fd \<mapsto> x) else evs k' = (evs k)(fd \<mapsto> (s, True, u)))) \<and>
     (\<forall>fd k r k' x. tk_ioctl tk fd Ioc_disable k = (r, k') \<longrightarrow> evs k fd = Some x \<longrightarrow> (\<exists>x. evs k' = (evs k)(fd \<mapsto> x))) \<and>
     (\<forall>fd k r k'. tk_close tk fd k = (r, k') \<longrightarrow> evs k' = (evs k)(fd := None)) \<and>
     (\<forall>file txt k ok k'. tk_write tk file txt k = (ok, k') \<longrightarrow> evs k' = evs k)"

lemma perf_open_events:
  assumes "perf_laws tk evs" "tk_perf_open tk attr pid cpu grp k = (fd, k')"
  shows "if fd < 0 then evs k' = evs k else evs k fd = None \<and> (\<exists>u. evs k' = (evs k)(fd \<mapsto> (None, \<not> pa_disabled attr, u)))"
  using assms unfolding perf_laws_def by metis

lemma write_events:
  assumes "perf_laws tk evs" "tk_write tk file txt k = (ok, k')"
  shows "evs k' = evs k"
  using assms unfolding perf_laws_def by metis

lemma ioctl_events:
  assumes "perf_laws tk evs"
  shows "tk_ioctl tk fd (Ioc_set_bpf prog) k = (r, k') \<Longrightarrow> evs k fd = Some (s, e, u) \<Longrightarrow>
      if r < 0 then \<exists>x. evs k' = (evs k)(fd \<mapsto> x) else evs k' = (evs k)(fd \<mapsto> (Some prog, e, u))"
    and "tk_ioctl tk fd Ioc_enable k = (r, k') \<Longrightarrow> evs k fd = Some (s, e, u) \<Longrightarrow>
      if r < 0 then \<exists>x. evs k' = (evs k)(fd \<mapsto> x) else evs k' = (evs k)(fd \<mapsto> (s, True, u))"
  using assms unfolding perf_laws_def by metis+

lemma close_events:
  assumes "perf_laws tk evs"
  shows "evs (snd (tk_close tk fd k)) = (evs k)(fd := None)"
  using assms unfolding perf_laws_def by (metis prod.collapse)

lemma set_and_enable_events:
  assumes "perf_laws tk evs" "set_and_enable tk prog fd k = (r, k')" "evs k fd = Some (s, e, u)"
  shows "r = 0 \<and> evs k' = (evs k)(fd \<mapsto> (Some prog, True, u)) \<or> r = - 1 \<and> (\<exists>x. evs k' = (evs k)(fd \<mapsto> x))"
proof -
  obtain r1 k1 where s: "tk_ioctl tk fd (Ioc_set_bpf prog) k = (r1, k1)"
    by fastforce
  have s': "if r1 < 0 then \<exists>x. evs k1 = (evs k)(fd \<mapsto> x) else evs k1 = (evs k)(fd \<mapsto> (Some prog, e, u))"
    by (rule ioctl_events(1) [OF assms(1) s assms(3)])
  obtain r2 k2 where n: "tk_ioctl tk fd Ioc_enable k1 = (r2, k2)"
    by fastforce
  have e': "if r2 < 0 then \<exists>x. evs k2 = (evs k1)(fd \<mapsto> x) else evs k2 = (evs k1)(fd \<mapsto> (Some prog, True, u))" if "\<not> r1 < 0"
    by (rule ioctl_events(2) [OF assms(1) n]) (use s' that in simp)
  show ?thesis
    using assms(2) s s' n e' by (auto simp: set_and_enable_def split: if_splits)
qed

lemma close_perf_event_events:
  assumes "perf_laws tk evs" "fd \<ge> 0 \<Longrightarrow> \<exists>x. evs k fd = Some x"
  shows "evs (snd (bpf_close_perf_event_fd tk fd k)) = (if fd \<ge> 0 then (evs k)(fd := None) else evs k)"
proof -
  obtain r1 k1 where d: "tk_ioctl tk fd Ioc_disable k = (r1, k1)"
    by fastforce
  obtain r2 k2 where c: "tk_close tk fd k1 = (r2, k2)"
    by fastforce
  have "evs k2 = (evs k1)(fd := None)"
    using assms(1) c unfolding perf_laws_def by metis
  moreover have "\<exists>x. evs k1 = (evs k)(fd \<mapsto> x)" if "fd \<ge> 0"
    using assms(1) d assms(2) [OF that] unfolding perf_laws_def by metis
  ultimately show ?thesis
    using d c by (auto simp: bpf_close_perf_event_fd_def)
qed

section \<open>Attaching\<close>

lemma create_probe_event_keeps:
  assumes "perf_laws tk evs" "create_probe_event tk ev_name ty config1 offset event_type maxactive (k, os) = (x, k', os')"
  shows "evs k' = evs k \<and> os' = os"
  using assms(2) write_events [OF assms(1)]
  by (auto simp: create_probe_event_def Let_def split: if_splits option.splits prod.splits)

lemma retry_maxactive_keeps:
  assumes "perf_laws tk evs" "retry_maxactive tk ty ev_name config1 event_type offset buf (k, os) = (x, k', os')"
  shows "evs k' = evs k \<and> os' = os"
  using assms(2) write_events [OF assms(1)] create_probe_event_keeps [OF assms(1)]
  by (fastforce simp: retry_maxactive_def Let_def split: if_splits prod.splits)

lemma create_event_keeps:
  assumes "perf_laws tk evs" "create_event tk ty ev_name config1 event_type offset maxactive (k, os) = (x, k', os')"
  shows "evs k' = evs k \<and> os' = os"
proof -
  obtain r buf k1 os1 where c: "create_probe_event tk ev_name ty config1 offset event_type maxactive (k, os) = ((r, buf), k1, os1)"
    by (metis surj_pair)
  have keep: "evs k1 = evs k \<and> os1 = os"
    by (rule create_probe_event_keeps [OF assms(1) c])
  then show ?thesis
    using assms(2) c retry_maxactive_keeps [OF assms(1), of ty ev_name config1 event_type offset buf k1 os1 x k' os']
    by (auto simp: create_event_def split: if_splits)
qed

text \<open>What an attempt to attach has made of an event: attached and enabled, or not.\<close>

definition attach_outcome :: "int \<Rightarrow> int \<Rightarrow> perf_events \<Rightarrow> int \<Rightarrow> perf_events \<Rightarrow> bool" where
  "attach_outcome prog fd es r es' \<longleftrightarrow>
     r = 0 \<and> (\<exists>u. es' = es(fd \<mapsto> (Some prog, True, u))) \<or> r = - 1 \<and> (\<exists>x. es' = es(fd \<mapsto> x))"

lemma attach_tracing_event_given:
  assumes "perf_laws tk evs" "fd \<ge> 0" "evs k fd = Some (s, e, u)"
    and "bpf_attach_tracing_event tk prog path pid fd (k, os) = (r, fd', k', os')"
  shows "fd' = fd \<and> os' = os \<and> attach_outcome prog fd (evs k) r (evs k')"
  using assms set_and_enable_events [OF assms(1) _ assms(3), of prog]
  by (auto simp: bpf_attach_tracing_event_def attach_outcome_def split: prod.splits)

lemma attach_tracing_event_new:
  assumes "perf_laws tk evs" "fd < 0"
    and "bpf_attach_tracing_event tk prog path pid fd (k, os) = (r, fd', k', os')"
  shows "os' = os \<and> (r = - 1 \<and> fd' < 0 \<and> evs k' = evs k \<or> fd' \<ge> 0 \<and> evs k fd' = None \<and> attach_outcome prog fd' (evs k) r (evs k'))"
proof (cases "tk_read tk k (snprintf_trunc PATH_MAX (path @ ''/id''))")
  case None
  then show ?thesis
    using assms(2,3) by (auto simp: bpf_attach_tracing_event_def)
next
  case (Some contents)
  show ?thesis
  proof (cases "contents = [] \<or> length contents \<ge> PATH_MAX")
    case True
    then show ?thesis
      using Some assms(2,3) by (auto simp: bpf_attach_tracing_event_def Let_def)
  next
    case False
    let ?config = "case scan_base0 contents of None \<Rightarrow> 0 | Some (neg, n, _) \<Rightarrow> strtol_val neg n"
    obtain p cpu where t: "probe_target pid = (p, cpu)"
      by fastforce
    obtain pfd k1 where o: "tk_perf_open tk (perf_attr_zero\<lparr>pa_config := word_of_int ?config, pa_type := PERF_TYPE_TRACEPOINT,
        pa_sample_period := 1, pa_wakeup_events := 1\<rparr>) p cpu (- 1) k = (pfd, k1)"
      by fastforce
    obtain r1 k2 where s: "set_and_enable tk prog pfd k1 = (r1, k2)"
      by fastforce
    have eq: "(r, fd', k', os') = (if pfd < 0 then (- 1, pfd, k1, os) else (r1, pfd, k2, os))"
      using assms(2,3) Some False t o s by (cases "pfd < 0") (simp_all add: bpf_attach_tracing_event_def Let_def)
    have new: "if pfd < 0 then evs k1 = evs k else evs k pfd = None \<and> (\<exists>u. evs k1 = (evs k)(pfd \<mapsto> (None, True, u)))"
      using perf_open_events [OF assms(1) o] by (auto simp: perf_attr_zero_def split: if_splits)
    show ?thesis
    proof (cases "pfd < 0")
      case False
      then obtain u where u: "evs k pfd = None" "evs k1 = (evs k)(pfd \<mapsto> (None, True, u))"
        using new by auto
      have "attach_outcome prog pfd (evs k) r1 (evs k2)"
        using set_and_enable_events [OF assms(1) s, of None True u] u unfolding attach_outcome_def by auto
      then show ?thesis
        using eq u False by simp
    qed (use eq new in simp)
  qed
qed

text \<open>The caller keeps the descriptor of an attached event and closes that of any other.\<close>

definition probe_outcome :: "int \<Rightarrow> perf_events \<Rightarrow> os_res \<Rightarrow> int \<Rightarrow> perf_events \<Rightarrow> os_res \<Rightarrow> bool" where
  "probe_outcome prog es os r es' os' \<longleftrightarrow> os' = os \<and>
     (if r \<ge> 0 then es r = None \<and> (\<exists>u. es' = es(r \<mapsto> (Some prog, True, u))) else r = - 1 \<and> es' = es)"

lemma finish_attach:
  assumes "perf_laws tk evs"
    and "r = - 1 \<and> fd < 0 \<and> evs k = es \<or> fd \<ge> 0 \<and> es fd = None \<and> attach_outcome prog fd es r (evs k)"
  shows "probe_outcome prog es os (if r = 0 then fd else - 1)
    (evs (if r = 0 then k else snd (bpf_close_perf_event_fd tk fd k))) os"
  using assms(2) close_perf_event_events [OF assms(1), of fd k]
  by (auto simp: attach_outcome_def probe_outcome_def fun_upd_idem)

text \<open>The files of sysfs end with a newline, and the bit of a return probe is that of an \<^verbatim>\<open>int\<close>.\<close>

definition sysfs_ok :: "'k trace_kernel \<Rightarrow> string \<Rightarrow> 'k \<Rightarrow> bool" where
  "sysfs_ok tk event_type k \<longleftrightarrow>
     (\<forall>file c. tk_read tk k (''/sys/bus/event_source/devices/'' @ file) = Some c \<longrightarrow> CHR 0x0A \<in> set c) \<and>
     (\<forall>os b os'. bpf_get_retprobe_bit tk k event_type os = Some (b, os') \<longrightarrow> b < 31)"

lemma read_over_some: "CHR 0x0A \<in> set c \<Longrightarrow> \<exists>buf. read_over path c = Some buf"
  by (simp add: read_over_def)

lemma find_probe_type_some:
  assumes "sysfs_ok tk event_type k"
  shows "\<exists>r. bpf_find_probe_type tk k ev os = Some (r, os)"
proof (cases "tk_read tk k (''/sys/bus/event_source/devices/'' @ ev @ ''/type'')")
  case (Some c)
  then obtain buf where "read_over (''/sys/bus/event_source/devices/'' @ ev @ ''/type'') c = Some buf"
    using assms read_over_some unfolding sysfs_ok_def by meson
  then show ?thesis
    using Some by (auto simp: bpf_find_probe_type_def Let_def split: prod.split)
qed (simp add: bpf_find_probe_type_def Let_def)

lemma get_retprobe_bit_some:
  assumes "sysfs_ok tk event_type k"
  shows "\<exists>r. bpf_get_retprobe_bit tk k ev os = Some (r, os)"
proof (cases "tk_read tk k (''/sys/bus/event_source/devices/'' @ ev @ ''/format/retprobe'')")
  case (Some c)
  then obtain buf where "read_over (''/sys/bus/event_source/devices/'' @ ev @ ''/format/retprobe'') c = Some buf"
    using assms read_over_some unfolding sysfs_ok_def by meson
  then show ?thesis
    using Some by (auto simp: bpf_get_retprobe_bit_def Let_def split: prod.split)
qed (simp add: bpf_get_retprobe_bit_def Let_def)

lemma try_perf_event:
  assumes "perf_laws tk evs" "sysfs_ok tk event_type k"
  shows "\<exists>fd k'. bpf_try_perf_event_open_with_probe tk name offs pid event_type is_return ref_ctr (k, os) = Some (fd, k', os) \<and>
    (if fd < 0 then evs k' = evs k else evs k fd = None \<and> (\<exists>u. evs k' = (evs k)(fd \<mapsto> (None, True, u))))"
proof -
  obtain ty b where r: "bpf_find_probe_type tk k event_type os = Some (ty, os)" "bpf_get_retprobe_bit tk k event_type os = Some (b, os)" "b < 31"
    using find_probe_type_some [OF assms(2)] get_retprobe_bit_some [OF assms(2)] assms(2) unfolding sysfs_ok_def by meson
  obtain p cpu where t: "probe_target pid = (p, cpu)"
    by fastforce
  let ?bit = "if is_return then push_bit (nat b) 1 else 0 :: u64"
  let ?attr = "perf_attr_zero\<lparr>pa_type := word_of_int ty, pa_config := ?bit OR push_bit 32 ref_ctr, pa_config1 := name,
    pa_config2 := offs, pa_sample_period := 1, pa_wakeup_events := 1\<rparr>"
  obtain fd k' where o: "tk_perf_open tk ?attr p cpu (- 1) k = (fd, k')"
    by fastforce
  show ?thesis
  proof (cases "ty < 0 \<or> b < 0")
    case True
    then show ?thesis
      using r by (auto simp: bpf_try_perf_event_open_with_probe_def)
  next
    case False
    then have "bpf_try_perf_event_open_with_probe tk name offs pid event_type is_return ref_ctr (k, os) = Some (fd, k', os)"
      using r t o by (cases is_return) (simp_all add: bpf_try_perf_event_open_with_probe_def Let_def)
    then show ?thesis
      using perf_open_events [OF assms(1) o] by (auto simp: perf_attr_zero_def split: if_splits)
  qed
qed

lemma bpf_attach_probe_outcome:
  assumes "perf_laws tk evs" "maxactive \<le> 0 \<Longrightarrow> sysfs_ok tk event_type k"
  shows "\<exists>r k' os'. bpf_attach_probe tk prog ty ev_name config1 event_type offset pid maxactive ref_ctr (k, os) = Some (r, k', os') \<and>
    probe_outcome prog (evs k) os r (evs k') os'"
proof -
  obtain fd k1 where t: "(if maxactive \<le> 0
      then bpf_try_perf_event_open_with_probe tk config1 offset pid event_type (ty \<noteq> BPF_PROBE_ENTRY) (ucast ref_ctr) (k, os)
      else Some (- 1, k, os)) = Some (fd, k1, os)"
    and new: "if fd < 0 then evs k1 = evs k else evs k fd = None \<and> (\<exists>u. evs k1 = (evs k)(fd \<mapsto> (None, True, u)))"
    using try_perf_event [OF assms] by (cases "maxactive \<le> 0") (simp, meson, force)
  obtain buf k2 os2 where c: "create_event tk ty ev_name config1 event_type offset maxactive (k1, os) = (buf, k2, os2)"
    by (metis surj_pair)
  show ?thesis
  proof (cases "fd < 0")
    case True
    have keep: "evs k2 = evs k" "os2 = os"
      using create_event_keeps [OF assms(1) c] new True by simp_all
    show ?thesis
    proof (cases buf)
      case None
      then show ?thesis
        using t c True keep by (simp add: bpf_attach_probe_def probe_outcome_def Let_def)
    next
      case (Some b)
      obtain r fd' k' os' where a: "bpf_attach_tracing_event tk prog b pid fd (k2, os) = (r, fd', k', os')"
        by (metis surj_pair)
      have "os' = os" "r = - 1 \<and> fd' < 0 \<and> evs k' = evs k \<or> fd' \<ge> 0 \<and> evs k fd' = None \<and> attach_outcome prog fd' (evs k) r (evs k')"
        using attach_tracing_event_new [OF assms(1) True a] keep by simp_all
      then show ?thesis
        using t c True Some a keep finish_attach [OF assms(1), of r fd' k' "evs k" prog os]
        by (cases "r = 0") (simp_all add: bpf_attach_probe_def Let_def)
    qed
  next
    case False
    obtain r fd' k' os' where a: "bpf_attach_tracing_event tk prog [] pid fd (k1, os) = (r, fd', k', os')"
      by (metis surj_pair)
    obtain u where k1: "evs k fd = None" "evs k1 = (evs k)(fd \<mapsto> (None, True, u))"
      using new False by auto
    have "fd' = fd" "os' = os" "attach_outcome prog fd (evs k) r (evs k')"
      using attach_tracing_event_given [OF assms(1) _ _ a] False k1 by (auto simp: attach_outcome_def)
    then show ?thesis
      using t False a k1(1) finish_attach [OF assms(1), of r fd k' "evs k" prog os]
      by (cases "r = 0") (simp_all add: bpf_attach_probe_def Let_def)
  qed
qed

lemma find_archive_accounts:
  "\<exists>a. find_archive_path_and_offset zenv junk path offset os = Some (a, os)"
proof -
  obtain r e os' where o: "bcc_zip_archive_open_and_find zenv os (bytes_of path) junk = Some (r, e, os')"
    and acc: "case r of None \<Rightarrow> os' = os
      | Some a \<Rightarrow> wf_archive a \<and> entry_in_bounds a e \<and> bcc_zip_archive_close os' a = os"
    using open_and_find_accounts by blast
  show ?thesis
    using acc by (cases r) (auto simp: find_archive_path_and_offset_def o split: option.split)
qed

lemma bpf_attach_uprobe_outcome:
  assumes "perf_laws tk evs" "sysfs_ok tk ''uprobe'' k"
  shows "\<exists>r k' os'. bpf_attach_uprobe tk zenv junk prog ty ev_name path offset pid ref_ctr (k, os) = Some (r, k', os') \<and>
    probe_outcome prog (evs k) os r (evs k') os'"
proof -
  obtain a where "(if tk_access tk k path then Some (None, os) else find_archive_path_and_offset zenv junk path offset os) =
      Some (a, os)"
    using find_archive_accounts by fastforce
  then show ?thesis
    using bpf_attach_probe_outcome [OF assms(1), of "- 1" "''uprobe''" k] assms(2)
    by (cases a) (auto simp: bpf_attach_uprobe_def Let_def split: prod.split)
qed

lemma bpf_attach_tracepoint_outcome:
  assumes "perf_laws tk evs"
  shows "\<exists>r k' os'. bpf_attach_tracepoint tk prog category name (k, os) = (r, k', os') \<and>
    probe_outcome prog (evs k) os r (evs k') os'"
proof -
  let ?path = "snprintf_trunc 256 (get_tracefs_path tk k @ ''/events/'' @ category @ ''/'' @ name)"
  obtain r fd k' os' where a: "bpf_attach_tracing_event tk prog ?path (- 1) (- 1) (k, os) = (r, fd, k', os')"
    by (metis surj_pair)
  have "os' = os" "r = - 1 \<and> fd < 0 \<and> evs k' = evs k \<or> fd \<ge> 0 \<and> evs k fd = None \<and> attach_outcome prog fd (evs k) r (evs k')"
    using attach_tracing_event_new [OF assms _ a] by simp_all
  then show ?thesis
    using a finish_attach [OF assms, of r fd k' "evs k" prog os]
    by (cases "r = 0") (simp_all add: bpf_attach_tracepoint_def Let_def)
qed

lemma bpf_attach_perf_event_raw_outcome:
  assumes "perf_laws tk evs"
  shows "\<exists>r k'. bpf_attach_perf_event_raw tk prog attr pid cpu grp k = (r, k') \<and> probe_outcome prog (evs k) os r (evs k') os"
proof -
  obtain fd k1 where o: "tk_perf_open tk attr pid cpu grp k = (fd, k1)"
    by fastforce
  show ?thesis
  proof (cases "fd < 0")
    case True
    then show ?thesis
      using perf_open_events [OF assms o] o by (simp add: bpf_attach_perf_event_raw_def probe_outcome_def)
  next
    case False
    then obtain u where u: "evs k fd = None" "evs k1 = (evs k)(fd \<mapsto> (None, \<not> pa_disabled attr, u))"
      using perf_open_events [OF assms o] by auto
    obtain r2 k2 where s: "tk_ioctl tk fd (Ioc_set_bpf prog) k1 = (r2, k2)"
      by fastforce
    have k1: "evs k1 fd = Some (None, \<not> pa_disabled attr, u)"
      using u(2) by simp
    then have s': "(\<exists>x. evs k2 = (evs k)(fd \<mapsto> x)) \<and> (r2 = 0 \<longrightarrow> evs k2 = (evs k)(fd \<mapsto> (Some prog, \<not> pa_disabled attr, u)))"
      using ioctl_events(1) [OF assms s k1] u(2) by (cases "r2 < 0") auto
    obtain r3 k3 where n: "tk_ioctl tk fd Ioc_enable k2 = (r3, k3)"
      by fastforce
    have n': "(\<exists>x. evs k3 = (evs k)(fd \<mapsto> x)) \<and> (r3 = 0 \<longrightarrow> evs k3 = (evs k)(fd \<mapsto> (Some prog, True, u)))" if "r2 = 0"
    proof -
      have "evs k2 fd = Some (Some prog, \<not> pa_disabled attr, u)"
        using s' that by simp
      then show ?thesis
        using ioctl_events(2) [OF assms n, of "Some prog" "\<not> pa_disabled attr" u] s' that by (cases "r3 < 0") auto
    qed
    have closed: "evs (snd (tk_close tk fd k')) = evs k" if "\<exists>x. evs k' = (evs k)(fd \<mapsto> x)" for k'
      using close_events [OF assms, of fd k'] that u(1) by (auto simp: fun_upd_idem)
    show ?thesis
    proof (cases "r2 = 0 \<and> r3 = 0")
      case True
      then show ?thesis
        using False o s s' n n' u(1) by (auto simp: bpf_attach_perf_event_raw_def probe_outcome_def)
    next
      case False
      then show ?thesis
        using \<open>\<not> fd < 0\<close> o s s' n n' closed by (auto simp: bpf_attach_perf_event_raw_def probe_outcome_def)
    qed
  qed
qed

lemma bpf_attach_perf_event_outcome:
  assumes "perf_laws tk evs"
  shows "\<exists>r k'. bpf_attach_perf_event tk lim prog ty config period freq pid cpu grp k = (r, k') \<and>
    probe_outcome prog (evs k) os r (evs k') os"
  using bpf_attach_perf_event_raw_outcome [OF assms]
  by (simp add: bpf_attach_perf_event_def Let_def probe_outcome_def)

end
