(* ===== verification/Probe_Detach.thy ===== *)
theory Probe_Detach
  imports Probe_Props
begin

text \<open>
  Probes that are defined in the events files of tracefs: what a file lists, and that detaching a probe removes
  what attaching it has added.  A small kernel with perf events and an events file is an instance of the laws.
\<close>

section \<open>The events files of tracefs\<close>

text \<open>An event is of a kind, has a name and a place; the file of the events has a line for each.\<close>

type_synonym probe_events = "(string \<times> string \<times> string) list"

definition event_line :: "string \<times> string \<times> string \<Rightarrow> string" where
  "event_line e = (case e of (kind, name, place) \<Rightarrow> kind @ '':'' @ name @ '' '' @ place)"

definition listing :: "probe_events \<Rightarrow> string" where
  "listing es = concat (map (\<lambda>e. event_line e @ [CHR 0x0A]) es)"

definition busy :: "perf_events \<Rightarrow> string \<Rightarrow> bool" where
  "busy es name \<longleftrightarrow> (\<exists>fd s e. es fd = Some (s, e, Some name))"

text \<open>
  The documented behaviour: a line that defines a new event adds it or fails, a line that deletes an event no
  perf event holds removes it, and the calls on perf events do not change the list.
\<close>

definition tracefs_laws :: "'k trace_kernel \<Rightarrow> ('k \<Rightarrow> perf_events) \<Rightarrow> ('k \<Rightarrow> probe_events) \<Rightarrow> string \<Rightarrow> bool" where
  "tracefs_laws tk evs ents event_type \<longleftrightarrow>
     (\<forall>k k'. tk_access tk k' DEBUGFS_TRACEFS = tk_access tk k DEBUGFS_TRACEFS) \<and>
     (\<forall>k k'. tk_open_append tk k' (events_file tk k event_type) = tk_open_append tk k (events_file tk k event_type)) \<and>
     (\<forall>k. tk_read tk k (events_file tk k event_type) = Some (listing (ents k))) \<and>
     (\<forall>k kind name place ok k'. tk_write tk (events_file tk k event_type) (kind @ '':'' @ name @ '' '' @ place) k = (ok, k') \<longrightarrow>
        kind \<in> {''p'', ''r''} \<longrightarrow> CHR '' '' \<notin> set name \<longrightarrow> name \<notin> (fst \<circ> snd) ` set (ents k) \<longrightarrow>
        ents k' = ents k \<or> (\<exists>place. ents k' = ents k @ [(kind, name, place)])) \<and>
     (\<forall>k name ok k'. tk_write tk (events_file tk k event_type) (''-:'' @ name) k = (ok, k') \<longrightarrow>
        name \<in> (fst \<circ> snd) ` set (ents k) \<longrightarrow> \<not> busy (evs k) name \<longrightarrow>
        ok \<and> ents k' = filter (\<lambda>e. fst (snd e) \<noteq> name) (ents k)) \<and>
     (\<forall>attr pid cpu grp k fd k'. tk_perf_open tk attr pid cpu grp k = (fd, k') \<longrightarrow> ents k' = ents k) \<and>
     (\<forall>fd req k r k'. tk_ioctl tk fd req k = (r, k') \<longrightarrow> ents k' = ents k) \<and>
     (\<forall>fd k r k'. tk_close tk fd k = (r, k') \<longrightarrow> ents k' = ents k)"

lemma tracefs_perf_calls:
  assumes "tracefs_laws tk evs ents event_type"
  shows "tk_perf_open tk attr pid cpu grp k = (fd, k') \<Longrightarrow> ents k' = ents k"
    "tk_ioctl tk fd req k = (r, k') \<Longrightarrow> ents k' = ents k"
    "tk_close tk fd k = (r, k') \<Longrightarrow> ents k' = ents k"
  using assms by (simp_all add: tracefs_laws_def)

lemma tracefs_events_file:
  assumes "tracefs_laws tk evs ents event_type"
  shows "events_file tk k' event_type = events_file tk k event_type"
proof -
  have "tk_access tk k' DEBUGFS_TRACEFS = tk_access tk k DEBUGFS_TRACEFS"
    using assms by (simp add: tracefs_laws_def)
  then show ?thesis
    by (simp add: events_file_def get_tracefs_path_def)
qed

lemma tracefs_add:
  assumes "tracefs_laws tk evs ents event_type"
    and "tk_write tk (events_file tk k event_type) (kind @ '':'' @ name @ '' '' @ place) k = (ok, k')"
    and "kind \<in> {''p'', ''r''}" "CHR '' '' \<notin> set name" "name \<notin> (fst \<circ> snd) ` set (ents k)"
  shows "ents k' = ents k \<or> (\<exists>place. ents k' = ents k @ [(kind, name, place)])"
proof -
  have "\<forall>k kind name place ok k'. tk_write tk (events_file tk k event_type) (kind @ '':'' @ name @ '' '' @ place) k = (ok, k') \<longrightarrow>
        kind \<in> {''p'', ''r''} \<longrightarrow> CHR '' '' \<notin> set name \<longrightarrow> name \<notin> (fst \<circ> snd) ` set (ents k) \<longrightarrow>
        ents k' = ents k \<or> (\<exists>place. ents k' = ents k @ [(kind, name, place)])"
    using assms(1) unfolding tracefs_laws_def by (elim conjE) assumption
  then show ?thesis
    using assms(2-5) by blast
qed

lemma tracefs_remove:
  assumes "tracefs_laws tk evs ents event_type" "tk_write tk (events_file tk k event_type) (''-:'' @ name) k = (ok, k')"
    and "name \<in> (fst \<circ> snd) ` set (ents k)" "\<not> busy (evs k) name"
  shows "ok \<and> ents k' = filter (\<lambda>e. fst (snd e) \<noteq> name) (ents k)"
proof -
  have "\<forall>k name ok k'. tk_write tk (events_file tk k event_type) (''-:'' @ name) k = (ok, k') \<longrightarrow>
        name \<in> (fst \<circ> snd) ` set (ents k) \<longrightarrow> \<not> busy (evs k) name \<longrightarrow>
        ok \<and> ents k' = filter (\<lambda>e. fst (snd e) \<noteq> name) (ents k)"
    using assms(1) unfolding tracefs_laws_def by (elim conjE) assumption
  then show ?thesis
    using assms(2-4) by blast
qed

section \<open>Finding an event in the list\<close>

lemma strstr_iff: "strstr hay needle \<noteq> None \<longleftrightarrow> (\<exists>u v. hay = u @ needle @ v)"
proof
  assume "strstr hay needle \<noteq> None"
  then show "\<exists>u v. hay = u @ needle @ v"
    using strstr_Some_decomp by blast
next
  assume "\<exists>u v. hay = u @ needle @ v"
  then obtain u v where "hay = u @ needle @ v"
    by blast
  then show "strstr hay needle \<noteq> None"
    using strstr_NoneD [of hay needle "length u"] by auto
qed

text \<open>A needle without the separator lies on one side of it.\<close>

lemma strstr_either:
  assumes "strstr (w @ [c]) needle \<noteq> None \<or> strstr rest needle \<noteq> None"
  shows "strstr (w @ c # rest) needle \<noteq> None"
  using assms unfolding strstr_iff
proof
  assume "\<exists>u v. w @ [c] = u @ needle @ v"
  then obtain u v where "w @ [c] = u @ needle @ v"
    by blast
  then have "w @ c # rest = u @ needle @ (v @ rest)"
    by (metis append.assoc append_Cons append_Nil)
  then show "\<exists>u v. w @ c # rest = u @ needle @ v"
    by blast
next
  assume "\<exists>u v. rest = u @ needle @ v"
  then show "\<exists>u v. w @ c # rest = u @ needle @ v"
    by (metis append.assoc append_Cons)
qed

lemma strstr_separated:
  assumes "c \<notin> set needle" "needle \<noteq> []"
  shows "strstr (w @ c # rest) needle \<noteq> None \<longleftrightarrow> strstr (w @ [c]) needle \<noteq> None \<or> strstr rest needle \<noteq> None"
proof
  assume "strstr (w @ c # rest) needle \<noteq> None"
  then obtain u v where eq: "w @ c # rest = u @ needle @ v"
    unfolding strstr_iff by blast
  consider "length u + length needle \<le> length w" | "length w < length u" | "length u \<le> length w" "length w < length u + length needle"
    by linarith
  then show "strstr (w @ [c]) needle \<noteq> None \<or> strstr rest needle \<noteq> None"
  proof cases
    case 1
    then have "w = u @ needle @ take (length w - length u - length needle) v"
      using arg_cong [OF eq, of "take (length w)"] by simp
    then show ?thesis
      unfolding strstr_iff by (metis append.assoc)
  next
    case 2
    then have "rest = drop (length w + 1) u @ needle @ v"
      using arg_cong [OF eq, of "drop (length w + 1)"] by simp
    then show ?thesis
      unfolding strstr_iff by blast
  next
    case 3
    then have i: "length w - length u < length needle"
      by linarith
    then have "needle ! (length w - length u) = c"
      using 3 arg_cong [OF eq, of "\<lambda>xs. xs ! length w"] by (simp add: nth_append)
    then have "c \<in> set needle"
      using i nth_mem by blast
    then show ?thesis
      using assms(1) by blast
  qed
qed (rule strstr_either)

lemma line_of_last: "CHR 0x0A \<notin> set s \<Longrightarrow> line_of s = s"
  by (induction s) (auto simp: line_of_def)

lemma detach_finds_iff:
  assumes "CHR 0x0A \<notin> set name" "name \<noteq> []"
  shows "detach_finds name contents \<longleftrightarrow> strstr contents name \<noteq> None"
proof (induction contents rule: measure_induct_rule [where f = length])
  case (less contents)
  show ?case
  proof (cases "CHR 0x0A \<in> set contents")
    case True
    then obtain w rest where t: "contents = w @ CHR 0x0A # rest" "CHR 0x0A \<notin> set w"
      using split_list_first by metis
    then show ?thesis
      using less [of rest] getline_line [OF t(2), of rest] strstr_separated [OF assms, of w rest]
      by (subst detach_finds.simps) simp
  next
    case False
    show ?thesis
    proof (cases "contents = []")
      case True
      then show ?thesis
        using assms(2) by (subst detach_finds.simps) (simp add: getline_def)
    next
      case ne: False
      then have "getline contents = Some (contents, [])"
        using False by (simp add: getline_def line_of_last)
      moreover have "\<not> detach_finds name []"
        by (subst detach_finds.simps) (simp add: getline_def)
      ultimately show ?thesis
        by (subst detach_finds.simps) simp
    qed
  qed
qed

lemma listing_names:
  assumes "e \<in> set es" "fst (snd e) = name"
  shows "strstr (listing es) name \<noteq> None"
proof -
  obtain kind place where e: "e = (kind, name, place)"
    using assms(2) by (metis prod.collapse)
  obtain us vs where "es = us @ e # vs"
    using assms(1) split_list by metis
  then have "listing es = (listing us @ kind @ '':'') @ name @ ('' '' @ place @ [CHR 0x0A] @ listing vs)"
    by (simp add: listing_def event_line_def e)
  then show ?thesis
    unfolding strstr_iff by blast
qed

section \<open>Detaching\<close>

lemma snprintf_trunc_append: "length xs \<le> n - 1 \<Longrightarrow> snprintf_trunc n (xs @ ys) = xs @ take (n - 1 - length xs) ys"
  by (simp add: snprintf_trunc_def)

lemma probe_line_form:
  assumes "probe_line ev_alias ty config1 offset event_type maxactive = Some line" "maxactive \<le> 0" "length ev_alias < 256"
    and "event_type = ''kprobe'' \<or> event_type = ''uprobe''"
  shows "\<exists>kind place. kind \<in> {''p'', ''r''} \<and> line = kind @ '':'' @ (event_type @ ''s/'' @ ev_alias) @ '' '' @ place"
proof -
  have trunc: "\<exists>place'. snprintf_trunc PATH_MAX ([c] @ '':'' @ (''kprobes/'' @ ev_alias) @ '' '' @ place) =
      [c] @ '':'' @ (''kprobes/'' @ ev_alias) @ '' '' @ place'" for c place
  proof -
    let ?xs = "[c] @ '':'' @ (''kprobes/'' @ ev_alias) @ '' ''"
    have "length ?xs \<le> PATH_MAX - 1"
      using assms(3) by (simp add: PATH_MAX_def)
    then have "snprintf_trunc PATH_MAX (?xs @ place) = ?xs @ take (PATH_MAX - 1 - length ?xs) place"
      by (rule snprintf_trunc_append)
    then show ?thesis
      by (metis append.assoc)
  qed
  show ?thesis
    using assms(4)
  proof
    assume k: "event_type = ''kprobe''"
    let ?place = "if offset > 0 \<and> ty = BPF_PROBE_ENTRY then config1 @ ''+'' @ show_int (uint offset) else config1"
    have "line = snprintf_trunc PATH_MAX ([if ty = BPF_PROBE_ENTRY then CHR ''p'' else CHR ''r''] @ '':'' @ (''kprobes/'' @ ev_alias) @ '' '' @ ?place)"
      using assms(1,2) k by (auto simp: probe_line_def Let_def split: if_splits)
    then obtain place where
      "line = [if ty = BPF_PROBE_ENTRY then CHR ''p'' else CHR ''r''] @ '':'' @ (''kprobes/'' @ ev_alias) @ '' '' @ place"
      using trunc by metis
    then show ?thesis
      using k by (intro exI [of _ "[if ty = BPF_PROBE_ENTRY then CHR ''p'' else CHR ''r'']"] exI [of _ place]) simp
  next
    assume u: "event_type = ''uprobe''"
    then show ?thesis
      using assms(1) by (auto simp: probe_line_def Let_def split: if_splits)
  qed
qed

text \<open>The events of a file before and after a probe has been defined in it.\<close>

definition defines_at_most :: "string \<Rightarrow> probe_events \<Rightarrow> probe_events \<Rightarrow> bool" where
  "defines_at_most name es es' \<longleftrightarrow> es' = es \<or> (\<exists>kind place. es' = es @ [(kind, name, place)])"

definition probe_name :: "'k trace_kernel \<Rightarrow> string \<Rightarrow> string \<Rightarrow> string" where
  "probe_name tk event_type ev_name = event_type @ ''s/'' @ probe_alias tk ev_name"

lemma create_event_defines:
  assumes "tracefs_laws tk evs ents event_type" "event_type = ''kprobe'' \<or> event_type = ''uprobe''" "maxactive \<le> 0"
    and "create_event tk ty ev_name config1 event_type offset maxactive (k, os) = (buf, k', os')"
    and "CHR '' '' \<notin> set (probe_name tk event_type ev_name)" "strstr (listing (ents k)) (probe_name tk event_type ev_name) = None"
  shows "defines_at_most (probe_name tk event_type ev_name) (ents k) (ents k')"
    and "tk_open_append tk k (events_file tk k event_type) \<or> ents k' = ents k"
proof -
  let ?file = "events_file tk k event_type" and ?al = "probe_alias tk ev_name"
  have fresh: "probe_name tk event_type ev_name \<notin> (fst \<circ> snd) ` set (ents k)"
    using assms(6) listing_names by fastforce
  have written: "defines_at_most (probe_name tk event_type ev_name) (ents k) (ents k1)"
    if pl: "probe_line ?al ty config1 offset event_type maxactive = Some line" and len: "length ?al < 256"
      and wr: "tk_write tk ?file line k = (ok, k1)"
    for line ok k1
  proof -
    obtain kind place where l: "kind \<in> {''p'', ''r''}" "line = kind @ '':'' @ probe_name tk event_type ev_name @ '' '' @ place"
      using probe_line_form [OF pl assms(3) len assms(2)] unfolding probe_name_def by blast
    show ?thesis
      using tracefs_add [OF assms(1) wr [unfolded l(2)] l(1) assms(5) fresh] unfolding defines_at_most_def by blast
  qed
  have "defines_at_most (probe_name tk event_type ev_name) (ents k) (ents k') \<and> (tk_open_append tk k ?file \<or> k' = k)"
    using assms(3,4) written
    by (auto simp: create_event_def create_probe_event_def Let_def defines_at_most_def split: if_splits option.splits prod.splits)
  then show "defines_at_most (probe_name tk event_type ev_name) (ents k) (ents k')"
    "tk_open_append tk k ?file \<or> ents k' = ents k"
    by auto
qed

lemma set_and_enable_ents:
  assumes "tracefs_laws tk evs ents event_type" "set_and_enable tk prog fd k = (r, k')"
  shows "ents k' = ents k"
  using assms(2) tracefs_perf_calls [OF assms(1)] by (fastforce simp: set_and_enable_def split: if_splits prod.splits)

lemma attach_tracing_event_ents:
  assumes "tracefs_laws tk evs ents event_type" "bpf_attach_tracing_event tk prog path pid fd (k, os) = (r, fd', k', os')"
  shows "ents k' = ents k"
  using assms(2) tracefs_perf_calls(1) [OF assms(1)] set_and_enable_ents [OF assms(1)]
  by (fastforce simp: bpf_attach_tracing_event_def Let_def split: if_splits option.splits prod.splits)

lemma close_perf_event_ents:
  assumes "tracefs_laws tk evs ents event_type"
  shows "ents (snd (bpf_close_perf_event_fd tk fd k)) = ents k"
  using tracefs_perf_calls [OF assms] by (fastforce simp: bpf_close_perf_event_fd_def Let_def split: prod.splits)

lemma try_perf_event_ents:
  assumes "tracefs_laws tk evs ents ev" "bpf_try_perf_event_open_with_probe tk name offs pid event_type is_return ref_ctr (k, os) = Some (fd, k', os')"
  shows "ents k' = ents k"
  using assms(2) tracefs_perf_calls(1) [OF assms(1)]
  by (auto simp: bpf_try_perf_event_open_with_probe_def Let_def split: if_splits option.splits prod.splits bind_splits)

lemma bpf_attach_probe_defines:
  assumes "tracefs_laws tk evs ents event_type" "event_type = ''kprobe'' \<or> event_type = ''uprobe''" "maxactive \<le> 0"
    and "bpf_attach_probe tk prog ty ev_name config1 event_type offset pid maxactive ref_ctr (k, os) = Some (r, k', os')"
    and "CHR '' '' \<notin> set (probe_name tk event_type ev_name)" "strstr (listing (ents k)) (probe_name tk event_type ev_name) = None"
  shows "defines_at_most (probe_name tk event_type ev_name) (ents k) (ents k')"
    and "tk_open_append tk k (events_file tk k event_type) \<or> ents k' = ents k"
proof -
  obtain fd k1 os1 where t: "bpf_try_perf_event_open_with_probe tk config1 offset pid event_type (ty \<noteq> BPF_PROBE_ENTRY) (ucast ref_ctr) (k, os) =
      Some (fd, k1, os1)"
    using assms(3,4) by (auto simp: bpf_attach_probe_def split: bind_splits)
  obtain buf k2 os2 where c: "(if fd < 0 then create_event tk ty ev_name config1 event_type offset maxactive (k1, os1)
      else (Some [], k1, os1)) = (buf, k2, os2)"
    by (metis surj_pair)
  have k1: "ents k1 = ents k" "events_file tk k1 event_type = events_file tk k event_type"
    "tk_open_append tk k1 (events_file tk k event_type) = tk_open_append tk k (events_file tk k event_type)"
    using try_perf_event_ents [OF assms(1) t] tracefs_events_file [OF assms(1)] assms(1) by (simp_all add: tracefs_laws_def)
  have k2: "defines_at_most (probe_name tk event_type ev_name) (ents k) (ents k2)"
    "tk_open_append tk k (events_file tk k event_type) \<or> ents k2 = ents k"
    using create_event_defines [OF assms(1-3) _ assms(5), of ty config1 offset k1 os1 buf k2 os2] c k1 assms(6)
    by (auto simp: defines_at_most_def split: if_splits)
  have "ents k' = ents k2"
  proof (cases buf)
    case None
    then show ?thesis
      using assms(3,4) t c by (simp add: bpf_attach_probe_def Let_def split: if_splits)
  next
    case (Some b)
    obtain r1 fd' k3 os3 where a: "bpf_attach_tracing_event tk prog b pid fd (k2, os2) = (r1, fd', k3, os3)"
      by (metis surj_pair)
    have "k' = k3 \<or> k' = snd (bpf_close_perf_event_fd tk fd' k3)"
      using assms(3,4) t c Some a by (auto simp: bpf_attach_probe_def Let_def split: if_splits)
    then show ?thesis
      using attach_tracing_event_ents [OF assms(1) a] close_perf_event_ents [OF assms(1)] by auto
  qed
  then show "defines_at_most (probe_name tk event_type ev_name) (ents k) (ents k')"
    "tk_open_append tk k (events_file tk k event_type) \<or> ents k' = ents k"
    using k2 by simp_all
qed

text \<open>Detaching removes the event of the probe if the file has it.\<close>

lemma bpf_detach_probe_removes:
  assumes "perf_laws tk evs" "tracefs_laws tk evs ents event_type"
    and "defines_at_most name es (ents k)" "tk_open_append tk k (events_file tk k event_type) \<or> ents k = es"
    and name: "name = probe_name tk event_type ev_name" "CHR 0x0A \<notin> set name" "name \<noteq> []" "length name < PATH_MAX - 2"
    and fresh: "strstr (listing es) name = None" and idle: "\<not> busy (evs k) name"
  shows "\<exists>k'. bpf_detach_probe tk ev_name event_type (k, os) = (0, k', os) \<and> ents k' = es \<and> evs k' = evs k"
proof (cases "ents k = es")
  case True
  then have "tk_read tk k (events_file tk k event_type) = Some (listing es)"
    using assms(2) by (simp add: tracefs_laws_def)
  then show ?thesis
    using True fresh name detach_finds_iff [OF name(2,3)]
    by (simp add: bpf_detach_probe_def Let_def probe_name_def)
next
  case False
  then obtain kind place where e: "ents k = es @ [(kind, name, place)]"
    using assms(3) by (auto simp: defines_at_most_def)
  have open_ok: "tk_open_append tk k (events_file tk k event_type)"
    using assms(4) False by blast
  have rd: "tk_read tk k (events_file tk k event_type) = Some (listing (ents k))"
    using assms(2) by (simp add: tracefs_laws_def)
  have found: "detach_finds name (listing (ents k))"
    unfolding detach_finds_iff [OF name(2,3)] by (rule listing_names [of "(kind, name, place)"]) (simp_all add: e)
  obtain ok k' where w: "tk_write tk (events_file tk k event_type) (''-:'' @ name) k = (ok, k')"
    by fastforce
  have "ok \<and> ents k' = filter (\<lambda>e. fst (snd e) \<noteq> name) (ents k)"
    by (rule tracefs_remove [OF assms(2) w _ idle]) (simp add: e)
  moreover have "filter (\<lambda>e. fst (snd e) \<noteq> name) es = es"
    using fresh listing_names by (force simp: filter_id_conv)
  ultimately show ?thesis
    using open_ok rd found w name e write_events [OF assms(1) w]
    by (simp add: bpf_detach_probe_def Let_def probe_name_def)
qed

section \<open>A kernel with two events files\<close>

text \<open>
  The perf events with their descriptors, and the probes with the file that lists them, \<^verbatim>\<open>uprobe_events\<close> or not.  A perf
  event holds the probe that was defined last.  Attaching a program to a perf event fails if the descriptor of
  the program is negative.
\<close>

type_synonym small_state = "(int \<times> int option \<times> bool \<times> string option) list \<times> (bool \<times> string \<times> string \<times> string) list"

definition small_ents :: "bool \<Rightarrow> small_state \<Rightarrow> probe_events" where
  "small_ents u k = map snd (filter (\<lambda>e. fst e = u) (snd k))"

definition small_file :: "bool \<Rightarrow> string" where
  "small_file u = (if u then ''/sys/kernel/debug/tracing/uprobe_events'' else ''/sys/kernel/debug/tracing/kprobe_events'')"

definition small_write :: "string \<Rightarrow> string \<Rightarrow> small_state \<Rightarrow> bool \<times> small_state" where
  "small_write file line = (\<lambda>(fds, es).
     (let u = (file = small_file True); names = map (fst \<circ> snd) (small_ents u (fds, es)) in
      if take 2 line = ''-:''
      then (let name = drop 2 line in
            if name \<in> set names \<and> (\<forall>fd \<in> set (map fst fds). map_option (snd \<circ> snd) (map_of fds fd) \<noteq> Some (Some name))
            then (True, fds, filter (\<lambda>e. \<not> (fst e = u \<and> fst (snd (snd e)) = name)) es) else (False, fds, es))
      else (let kind = takeWhile (\<lambda>c. c \<noteq> CHR '':'') line; rest = drop (length kind + 1) line;
                name = takeWhile (\<lambda>c. c \<noteq> CHR '' '') rest
            in if name \<in> set names then (False, fds, es)
               else (True, fds, es @ [(u, kind, name, drop (length name + 1) rest)]))))"

definition small_open :: "perf_event_attr \<Rightarrow> small_state \<Rightarrow> int \<times> small_state" where
  "small_open attr = (\<lambda>(fds, es).
     (let fd = foldr max (map fst fds) 2 + 1; held = (if es = [] then None else Some (fst (snd (snd (last es)))))
      in (fd, (fd, None, \<not> pa_disabled attr, held) # fds, es)))"

definition small_ioctl :: "int \<Rightarrow> perf_ioctl \<Rightarrow> small_state \<Rightarrow> int \<times> small_state" where
  "small_ioctl fd req = (\<lambda>(fds, es).
     (case map_of fds fd of
        None \<Rightarrow> (- 1, fds, es)
      | Some (prog, enabled, held) \<Rightarrow>
          if (case req of Ioc_set_bpf prog \<Rightarrow> prog < 0 | _ \<Rightarrow> False) then (- 1, fds, es)
          else (0, map (\<lambda>p. if fst p = fd
                            then (fd, case req of Ioc_set_bpf prog \<Rightarrow> (Some prog, enabled, held) | Ioc_enable \<Rightarrow> (prog, True, held)
                                      | Ioc_disable \<Rightarrow> (prog, False, held)) else p) fds, es)))"

definition small_kernel :: "small_state trace_kernel" where
  "small_kernel =
     \<lparr>tk_access = \<lambda>k path. path = DEBUGFS_TRACEFS,
      tk_read = \<lambda>k path. if path = small_file True then Some (listing (small_ents True k))
        else if path = small_file False then Some (listing (small_ents False k))
        else if take 19 path = ''/sys/kernel/debug/t'' then Some ''1234'' else None,
      tk_open_append = \<lambda>k path. True,
      tk_write = small_write,
      tk_perf_open = \<lambda>attr pid cpu grp. small_open attr,
      tk_ioctl = small_ioctl,
      tk_close = \<lambda>fd (fds, es). (0, filter (\<lambda>p. fst p \<noteq> fd) fds, es),
      tk_getpid = 7\<rparr>"

definition small_events :: "small_state \<Rightarrow> perf_events" where
  "small_events k = map_of (fst k)"

lemma map_of_update_all:
  "map_of (map (\<lambda>p. if fst p = k then (k, v) else p) xs) x =
     (if x = k then map_option (\<lambda>_. v) (map_of xs k) else map_of xs x)"
  by (induction xs) auto

lemma map_of_filter_key: "map_of (filter (\<lambda>p. fst p \<noteq> k) xs) = (map_of xs)(k := None)"
  by (induction xs) (auto simp: fun_eq_iff)

lemma small_open_fresh: "map_of fds (foldr max (map fst fds) 2 + 1) = (None :: 'a option)" for fds :: "(int \<times> 'a) list"
proof -
  have "fst p \<le> foldr max (map fst fds) 2" if "p \<in> set fds" for p
    using that by (induction fds) auto
  then have "foldr max (map fst fds) 2 + 1 \<notin> fst ` set fds"
    by force
  then show ?thesis
    by (simp add: map_of_eq_None_iff)
qed

lemma small_open_events:
  assumes "small_open attr k = (fd, k')"
  shows "0 \<le> fd" "small_events k fd = None" "\<exists>u. small_events k' = (small_events k)(fd \<mapsto> (None, \<not> pa_disabled attr, u))" "snd k' = snd k"
proof -
  obtain fds es where k: "k = (fds, es)"
    by fastforce
  have "2 \<le> foldr max (map fst fds) 2"
    by (induction fds) auto
  then show "0 \<le> fd" "small_events k fd = None" "\<exists>u. small_events k' = (small_events k)(fd \<mapsto> (None, \<not> pa_disabled attr, u))" "snd k' = snd k"
    using assms by (auto simp: k small_open_def Let_def small_events_def small_open_fresh)
qed

lemma small_ioctl_events:
  assumes "small_ioctl fd req k = (r, k')" "small_events k fd = Some (s, e, u)"
  shows "if r < 0 then small_events k' = small_events k else small_events k' = (small_events k)(fd \<mapsto>
    (case req of Ioc_set_bpf prog \<Rightarrow> (Some prog, e, u) | Ioc_enable \<Rightarrow> (s, True, u) | Ioc_disable \<Rightarrow> (s, False, u)))"
  using assms by (cases k; force simp: small_ioctl_def small_events_def map_of_update_all fun_eq_iff split: if_splits)

lemma small_ioctl_upd:
  assumes "small_ioctl fd req k = (r, k')" "small_events k fd = Some x"
  shows "\<exists>x. small_events k' = (small_events k)(fd \<mapsto> x)"
proof -
  obtain s e u where x: "x = (s, e, u)"
    by (cases x)
  show ?thesis
    using small_ioctl_events [OF assms(1), of s e u] assms(2) unfolding x by (metis fun_upd_triv)
qed

lemma small_kernel_perf_laws: "perf_laws small_kernel small_events"
  unfolding perf_laws_def
proof (intro conjI allI impI)
  fix f line k ok k'
  assume "tk_write small_kernel f line k = (ok, k')"
  then show "small_events k' = small_events k"
    by (cases k) (auto simp: small_kernel_def small_write_def Let_def small_events_def split: if_splits)
next
  fix fd k r k'
  assume "tk_close small_kernel fd k = (r, k')"
  then show "small_events k' = (small_events k)(fd := None)"
    by (cases k) (auto simp: small_kernel_def small_events_def map_of_filter_key)
next
  fix attr pid cpu grp k fd k'
  assume "tk_perf_open small_kernel attr pid cpu grp k = (fd, k')"
  then show "if fd < 0 then small_events k' = small_events k
      else small_events k fd = None \<and> (\<exists>u. small_events k' = (small_events k)(fd \<mapsto> (None, \<not> pa_disabled attr, u)))"
    using small_open_events [of attr k fd k'] by (simp add: small_kernel_def)
next
  fix fd k r k' x
  assume "tk_ioctl small_kernel fd Ioc_disable k = (r, k')" "small_events k fd = Some x"
  then show "\<exists>x. small_events k' = (small_events k)(fd \<mapsto> x)"
    using small_ioctl_upd by (simp add: small_kernel_def)
next
  fix fd prog k r k' s e u
  assume "tk_ioctl small_kernel fd (Ioc_set_bpf prog) k = (r, k')" "small_events k fd = Some (s, e, u)"
  then show "if r < 0 then \<exists>x. small_events k' = (small_events k)(fd \<mapsto> x)
      else small_events k' = (small_events k)(fd \<mapsto> (Some prog, e, u))"
    using small_ioctl_events [of fd "Ioc_set_bpf prog" k r k' s e u] small_ioctl_upd [of fd "Ioc_set_bpf prog" k r k']
    by (cases "r < 0") (simp_all add: small_kernel_def del: ex_simps split_paired_Ex)
next
  fix fd k r k' s e u
  assume "tk_ioctl small_kernel fd Ioc_enable k = (r, k')" "small_events k fd = Some (s, e, u)"
  then show "if r < 0 then \<exists>x. small_events k' = (small_events k)(fd \<mapsto> x)
      else small_events k' = (small_events k)(fd \<mapsto> (s, True, u))"
    using small_ioctl_events [of fd Ioc_enable k r k' s e u] small_ioctl_upd [of fd Ioc_enable k r k']
    by (cases "r < 0") (simp_all add: small_kernel_def del: ex_simps split_paired_Ex)
qed

text \<open>The type of the probes that a file lists.\<close>

definition small_type :: "bool \<Rightarrow> string" where
  "small_type u = (if u then ''uprobe'' else ''kprobe'')"

lemma small_events_file: "events_file small_kernel k (small_type u) = small_file u"
  by (simp add: events_file_def get_tracefs_path_def small_kernel_def small_type_def small_file_def DEBUGFS_TRACEFS_def
      snprintf_trunc_def PATH_MAX_def)

lemma small_file_eq [simp]: "(small_file u = small_file v) = (u = v)"
  by (simp add: small_file_def)

lemma small_write_add:
  assumes "small_write (small_file u) (kind @ '':'' @ name @ '' '' @ place) k = (ok, k')" "kind \<in> {''p'', ''r''}" "CHR '' '' \<notin> set name"
  shows "small_ents u k' = small_ents u k \<or> (\<exists>place. small_ents u k' = small_ents u k @ [(kind, name, place)])"
proof -
  have t: "takeWhile (\<lambda>c. c \<noteq> CHR '' '') (name @ CHR '' '' # place) = name"
    using assms(3) by (induction name) auto
  show ?thesis
    using assms(1,2) by (cases k) (auto simp: small_write_def Let_def t small_ents_def split: if_splits)
qed

lemma small_ents_remove:
  "map snd (filter (\<lambda>e. fst e = u) (filter (\<lambda>e. \<not> (fst e = u \<and> fst (snd (snd e)) = name)) es)) =
     filter (\<lambda>e. fst (snd e) \<noteq> name) (map snd (filter (\<lambda>e. fst e = u) es))"
  by (induction es) auto

lemma small_write_remove:
  assumes "small_write (small_file u) (''-:'' @ name) k = (ok, k')" "name \<in> (fst \<circ> snd) ` set (small_ents u k)"
    "\<not> busy (small_events k) name"
  shows "ok \<and> small_ents u k' = filter (\<lambda>e. fst (snd e) \<noteq> name) (small_ents u k)"
proof -
  obtain fds es where k: "k = (fds, es)"
    by fastforce
  have "map_option (snd \<circ> snd) (map_of fds fd) \<noteq> Some (Some name)" for fd
    using assms(3) unfolding busy_def small_events_def k by (cases "map_of fds fd") auto
  then have "(ok, k') = (True, fds, filter (\<lambda>e. \<not> (fst e = u \<and> fst (snd (snd e)) = name)) es)"
    using assms(1,2) by (simp add: small_write_def Let_def k)
  then show ?thesis
    using small_ents_remove [of u name es] by (simp add: small_ents_def k)
qed

lemma small_kernel_tracefs_laws: "tracefs_laws small_kernel small_events (small_ents u) (small_type u)"
  unfolding tracefs_laws_def small_events_file
proof (intro conjI allI impI)
  fix k
  show "tk_read small_kernel k (small_file u) = Some (listing (small_ents u k))"
    by (cases u) (simp_all add: small_kernel_def)
next
  fix k kind name place ok k'
  assume "tk_write small_kernel (small_file u) (kind @ '':'' @ name @ '' '' @ place) k = (ok, k')"
    "kind \<in> {''p'', ''r''}" "CHR '' '' \<notin> set name"
  then show "small_ents u k' = small_ents u k \<or> (\<exists>place. small_ents u k' = small_ents u k @ [(kind, name, place)])"
    using small_write_add [of u kind name place k ok k'] by (simp add: small_kernel_def)
next
  fix k name ok k'
  assume "tk_write small_kernel (small_file u) (''-:'' @ name) k = (ok, k')"
    "name \<in> (fst \<circ> snd) ` set (small_ents u k)" "\<not> busy (small_events k) name"
  then show "ok" "small_ents u k' = filter (\<lambda>e. fst (snd e) \<noteq> name) (small_ents u k)"
    using small_write_remove [of u name k ok k'] by (simp_all add: small_kernel_def)
next
  fix fd req k r k'
  assume "tk_ioctl small_kernel fd req k = (r, k')"
  then show "small_ents u k' = small_ents u k"
    by (cases k) (auto simp: small_kernel_def small_ioctl_def small_ents_def split: option.splits if_splits)
next
  fix attr pid cpu grp k fd k'
  assume "tk_perf_open small_kernel attr pid cpu grp k = (fd, k')"
  then show "small_ents u k' = small_ents u k"
    using small_open_events(4) [of attr k fd k'] by (simp add: small_kernel_def small_ents_def)
qed (auto simp: small_kernel_def small_ents_def)

lemma small_kernel_sysfs: "sysfs_ok small_kernel event_type k"
  by (auto simp: sysfs_ok_def small_kernel_def bpf_get_retprobe_bit_def Let_def small_file_def)

section \<open>Attaching and detaching\<close>

text \<open>A file of tracefs follows the laws, and none of its lines contains the name of the probe.\<close>

definition tracefs_fresh ::
  "'k trace_kernel \<Rightarrow> ('k \<Rightarrow> perf_events) \<Rightarrow> ('k \<Rightarrow> probe_events) \<Rightarrow> string \<Rightarrow> string \<Rightarrow> 'k \<Rightarrow> bool" where
  "tracefs_fresh tk evs ents event_type ev_name k \<longleftrightarrow>
     tracefs_laws tk evs ents event_type \<and> CHR '' '' \<notin> set (probe_name tk event_type ev_name) \<and>
     strstr (listing (ents k)) (probe_name tk event_type ev_name) = None"

lemma bpf_attach_probe_tracefs:
  assumes "event_type = ''kprobe'' \<or> event_type = ''uprobe''" "maxactive \<le> 0" "tracefs_fresh tk evs ents event_type ev_name k"
    and "bpf_attach_probe tk prog ty ev_name config1 event_type offset pid maxactive ref_ctr (k, os) = Some (r, k', os')"
  shows "defines_at_most (probe_name tk event_type ev_name) (ents k) (ents k')"
proof -
  have "tracefs_laws tk evs ents event_type" "CHR '' '' \<notin> set (probe_name tk event_type ev_name)"
    "strstr (listing (ents k)) (probe_name tk event_type ev_name) = None"
    using assms(3) by (simp_all add: tracefs_fresh_def)
  then show ?thesis
    using bpf_attach_probe_defines(1) [OF _ assms(1,2,4)] by blast
qed

lemma bpf_attach_kprobe_tracefs:
  assumes "maxactive \<le> 0" "tracefs_fresh tk evs ents ''kprobe'' ev_name k"
    and "bpf_attach_kprobe tk prog ty ev_name fn_name fn_offset maxactive (k, os) = Some (r, k', os')"
  shows "defines_at_most (probe_name tk ''kprobe'' ev_name) (ents k) (ents k')"
  using bpf_attach_probe_tracefs [of "''kprobe''" maxactive, OF _ assms(1,2)] assms(3) by (simp add: bpf_attach_kprobe_def)

lemma bpf_attach_uprobe_tracefs:
  assumes "tracefs_fresh tk evs ents ''uprobe'' ev_name k"
    and "bpf_attach_uprobe tk zenv junk prog ty ev_name path offset pid ref_ctr (k, os) = Some (r, k', os')"
  shows "defines_at_most (probe_name tk ''uprobe'' ev_name) (ents k) (ents k')"
  using bpf_attach_probe_tracefs [of "''uprobe''" "- 1", OF _ _ assms(1)] assms(2)
  by (auto simp: bpf_attach_uprobe_def Let_def split: bind_splits option.splits prod.splits)

lemma bpf_attach_tracepoint_tracefs:
  assumes "tracefs_laws tk evs ents event_type" "bpf_attach_tracepoint tk prog category name (k, os) = (r, k', os')"
  shows "ents k' = ents k"
  using assms(2) attach_tracing_event_ents [OF assms(1)] close_perf_event_ents [OF assms(1)]
  by (auto simp: bpf_attach_tracepoint_def Let_def split: prod.splits if_splits)

lemma bpf_attach_perf_event_tracefs:
  assumes "tracefs_laws tk evs ents event_type" "bpf_attach_perf_event tk lim prog ty config period freq pid cpu grp k = (r, k')"
  shows "ents k' = ents k"
proof -
  have closed: "ents (snd (tk_close tk fd k)) = ents k" for fd k
    using tracefs_perf_calls(3) [OF assms(1)] by (metis prod.collapse)
  have raw: "ents k1 = ents k" if "bpf_attach_perf_event_raw tk prog attr pid cpu grp k = (r1, k1)" for attr r1 k1
    using that tracefs_perf_calls(1,2) [OF assms(1)] closed
    by (fastforce simp: bpf_attach_perf_event_raw_def split: prod.splits if_splits)
  show ?thesis
    using assms(2) raw by (auto simp: bpf_attach_perf_event_def Let_def split: if_splits)
qed

text \<open>
  (C32) Attaching a program to a kernel function, to a function of a binary or of a library inside an archive, to a
  tracepoint or to a perf event either returns the descriptor of a new perf event that is enabled and has the program, or
  -1 with the perf events as they were.  No other perf event changes, and every other file that was opened is closed.
  In the events file of tracefs a probe that is attached with \<^verbatim>\<open>maxactive\<close> at most 0, and whose name no line of the file
  contains, adds nothing or one event of its own name: attaching that fails after the event has been written leaves it
  there.  Attaching to a tracepoint or a perf event does not change these files.
\<close>

theorem attach_leaves_perf_event_or_none:
  assumes "perf_laws tk evs" "sysfs_ok tk ''kprobe'' k" "sysfs_ok tk ''uprobe'' k"
  shows "(\<exists>r k' os'. bpf_attach_kprobe tk prog ty ev_name fn_name fn_offset maxactive (k, os) = Some (r, k', os') \<and>
      probe_outcome prog (evs k) os r (evs k') os' \<and>
      (maxactive \<le> 0 \<longrightarrow> tracefs_fresh tk evs ents ''kprobe'' ev_name k \<longrightarrow>
         defines_at_most (probe_name tk ''kprobe'' ev_name) (ents k) (ents k'))) \<and>
    (\<exists>r k' os'. bpf_attach_uprobe tk zenv junk prog ty ev_name path offset pid ref_ctr (k, os) = Some (r, k', os') \<and>
      probe_outcome prog (evs k) os r (evs k') os' \<and>
      (tracefs_fresh tk evs uents ''uprobe'' ev_name k \<longrightarrow>
         defines_at_most (probe_name tk ''uprobe'' ev_name) (uents k) (uents k'))) \<and>
    (\<exists>r k' os'. bpf_attach_tracepoint tk prog category name (k, os) = (r, k', os') \<and>
      probe_outcome prog (evs k) os r (evs k') os' \<and> (tracefs_laws tk evs ents ''kprobe'' \<longrightarrow> ents k' = ents k)) \<and>
    (\<exists>r k'. bpf_attach_perf_event tk lim prog ev_type config period freq pid cpu grp k = (r, k') \<and>
      probe_outcome prog (evs k) os r (evs k') os \<and> (tracefs_laws tk evs ents ''kprobe'' \<longrightarrow> ents k' = ents k))"
proof -
  obtain r1 k1 os1 where kprobe: "bpf_attach_kprobe tk prog ty ev_name fn_name fn_offset maxactive (k, os) = Some (r1, k1, os1)"
    "probe_outcome prog (evs k) os r1 (evs k1) os1"
    using bpf_attach_probe_outcome [OF assms(1,2)] unfolding bpf_attach_kprobe_def by blast
  obtain r2 k2 os2 where uprobe: "bpf_attach_uprobe tk zenv junk prog ty ev_name path offset pid ref_ctr (k, os) = Some (r2, k2, os2)"
    "probe_outcome prog (evs k) os r2 (evs k2) os2"
    using bpf_attach_uprobe_outcome [OF assms(1,3)] by blast
  obtain r3 k3 os3 where tracepoint: "bpf_attach_tracepoint tk prog category name (k, os) = (r3, k3, os3)"
    "probe_outcome prog (evs k) os r3 (evs k3) os3"
    using bpf_attach_tracepoint_outcome [OF assms(1)] by blast
  obtain r4 k4 where perf: "bpf_attach_perf_event tk lim prog ev_type config period freq pid cpu grp k = (r4, k4)"
    "probe_outcome prog (evs k) os r4 (evs k4) os"
    using bpf_attach_perf_event_outcome [OF assms(1)] by blast
  show ?thesis
    using kprobe uprobe tracepoint perf bpf_attach_kprobe_tracefs [OF _ _ kprobe(1)] bpf_attach_uprobe_tracefs [OF _ uprobe(1)]
      bpf_attach_tracepoint_tracefs [OF _ tracepoint(1)] bpf_attach_perf_event_tracefs [OF _ perf(1)] by simp
qed

theorem attach_leaves_perf_event_or_none_witness:
  "perf_laws small_kernel small_events \<and> sysfs_ok small_kernel ''kprobe'' ([], []) \<and> sysfs_ok small_kernel ''uprobe'' ([], []) \<and>
   tracefs_fresh small_kernel small_events (small_ents False) ''kprobe'' ''f'' ([], []) \<and>
   tracefs_fresh small_kernel small_events (small_ents True) ''uprobe'' ''f'' ([], []) \<and>
   (let os = \<lparr>os_fds = 0, os_maps = 0, os_allocs = 0\<rparr>; es = [(False, ''p'', ''kprobes/f_bcc_7'', ''do_f'')];
        good = ([(3, Some 9, True, Some ''kprobes/f_bcc_7'')], es); bad = ([], es)
    in bpf_attach_kprobe small_kernel 9 BPF_PROBE_ENTRY ''f'' ''do_f'' 0 0 (([], []), os) = Some (3, good, os) \<and>
       probe_outcome 9 (small_events ([], [])) os 3 (small_events good) os \<and>
       defines_at_most ''kprobes/f_bcc_7'' [] (small_ents False good) \<and>
       bpf_attach_kprobe small_kernel (- 5) BPF_PROBE_ENTRY ''f'' ''do_f'' 0 0 (([], []), os) = Some (- 1, bad, os) \<and>
       probe_outcome (- 5) (small_events ([], [])) os (- 1) (small_events bad) os \<and>
       defines_at_most ''kprobes/f_bcc_7'' [] (small_ents False bad))"
proof -
  let ?os = "\<lparr>os_fds = 0, os_maps = 0, os_allocs = 0\<rparr>"
  have name: "probe_name small_kernel ''kprobe'' ''f'' = ''kprobes/f_bcc_7''" "probe_name small_kernel ''uprobe'' ''f'' = ''uprobes/f_bcc_7''"
    by code_simp+
  have none: "small_ents u ([], []) = []" for u
    by (simp add: small_ents_def)
  have fresh: "tracefs_fresh small_kernel small_events (small_ents False) ''kprobe'' ''f'' ([], [])"
    "tracefs_fresh small_kernel small_events (small_ents True) ''uprobe'' ''f'' ([], [])"
    using small_kernel_tracefs_laws [of False] small_kernel_tracefs_laws [of True]
    by (simp_all add: tracefs_fresh_def name none small_type_def listing_def)
  have "bpf_attach_kprobe small_kernel 9 BPF_PROBE_ENTRY ''f'' ''do_f'' 0 0 (([], []), ?os) =
      Some (3, ([(3, Some 9, True, Some ''kprobes/f_bcc_7'')], [(False, ''p'', ''kprobes/f_bcc_7'', ''do_f'')]), ?os)"
    "bpf_attach_kprobe small_kernel (- 5) BPF_PROBE_ENTRY ''f'' ''do_f'' 0 0 (([], []), ?os) =
      Some (- 1, ([], [(False, ''p'', ''kprobes/f_bcc_7'', ''do_f'')]), ?os)"
    by code_simp+
  then show ?thesis
    using attach_leaves_perf_event_or_none [OF small_kernel_perf_laws small_kernel_sysfs small_kernel_sysfs,
        where k = "([], [])" and ty = BPF_PROBE_ENTRY and ev_name = "''f''" and fn_name = "''do_f''" and fn_offset = 0
          and maxactive = 0 and os = ?os and ents = "small_ents False" and prog = 9]
      attach_leaves_perf_event_or_none [OF small_kernel_perf_laws small_kernel_sysfs small_kernel_sysfs,
        where k = "([], [])" and ty = BPF_PROBE_ENTRY and ev_name = "''f''" and fn_name = "''do_f''" and fn_offset = 0
          and maxactive = 0 and os = ?os and ents = "small_ents False" and prog = "- 5"]
      small_kernel_perf_laws small_kernel_sysfs fresh by (simp add: Let_def name none)
qed

text \<open>
  (C33) Attaching a probe with \<^verbatim>\<open>maxactive\<close> at most 0, closing its descriptor and detaching it leaves the events of tracefs
  and the perf events as they were, whether attaching succeeded or not.  No line of the events file contains the name of
  the probe before: \<^verbatim>\<open>bpf_detach_probe\<close> looks for the name anywhere in a line, so that the event of a process whose
  identifier begins with the same digits would be taken for the own one.
\<close>

theorem detach_undoes_attach:
  assumes "perf_laws tk evs" "tracefs_laws tk evs ents event_type" "sysfs_ok tk event_type k"
    and "event_type = ''kprobe'' \<or> event_type = ''uprobe''" "maxactive \<le> 0"
    and "set (probe_name tk event_type ev_name) \<inter> {CHR '' '', CHR 0x0A} = {}" "length (probe_alias tk ev_name) < 256"
    and "strstr (listing (ents k)) (probe_name tk event_type ev_name) = None"
    and "\<not> busy (evs k) (probe_name tk event_type ev_name)"
  shows "\<exists>r k1 k2. bpf_attach_probe tk prog ty ev_name target event_type offset pid maxactive ref_ctr (k, os) = Some (r, k1, os) \<and>
    bpf_detach_probe tk ev_name event_type (snd (bpf_close_perf_event_fd tk r k1), os) = (0, k2, os) \<and>
    ents k2 = ents k \<and> evs k2 = evs k"
proof -
  let ?name = "probe_name tk event_type ev_name"
  obtain r k1 where a: "bpf_attach_probe tk prog ty ev_name target event_type offset pid maxactive ref_ctr (k, os) = Some (r, k1, os)"
    and out: "probe_outcome prog (evs k) os r (evs k1) os"
    using bpf_attach_probe_outcome [OF assms(1), of maxactive event_type k] assms(3) unfolding probe_outcome_def by blast
  define k' where "k' = snd (bpf_close_perf_event_fd tk r k1)"
  have evs: "evs k' = evs k"
  proof (cases "r \<ge> 0")
    case True
    then obtain u where "evs k r = None" "evs k1 = (evs k)(r \<mapsto> (Some prog, True, u))"
      using out by (auto simp: probe_outcome_def)
    moreover have "evs k1 r = Some (Some prog, True, u)"
      using calculation by simp
    ultimately show ?thesis
      using True close_perf_event_events [OF assms(1) exI] by (simp add: k'_def fun_upd_idem)
  qed (use out in \<open>simp add: k'_def probe_outcome_def bpf_close_perf_event_fd_def\<close>)
  have ents: "ents k' = ents k1"
    unfolding k'_def by (rule close_perf_event_ents [OF assms(2)])
  have no_blank: "CHR '' '' \<notin> set ?name" and no_newline: "CHR 0x0A \<notin> set ?name"
    using assms(6) by auto
  have len: "?name \<noteq> []" "length ?name < PATH_MAX - 2"
    using assms(4,7) by (auto simp: probe_name_def PATH_MAX_def)
  have stable: "tk_open_append tk k' (events_file tk k' event_type) = tk_open_append tk k (events_file tk k event_type)"
    using assms(2) tracefs_events_file [OF assms(2), of k' k] by (simp add: tracefs_laws_def)
  obtain k2 where "bpf_detach_probe tk ev_name event_type (k', os) = (0, k2, os)" "ents k2 = ents k" "evs k2 = evs k'"
    using bpf_detach_probe_removes [OF assms(1,2), of ?name "ents k" k' ev_name os]
      bpf_attach_probe_defines [OF assms(2,4,5) a no_blank assms(8)] no_newline len assms(8,9) evs ents stable by auto
  then show ?thesis
    using a evs unfolding k'_def by auto
qed

theorem detach_undoes_attach_witness:
  "perf_laws small_kernel small_events \<and> tracefs_laws small_kernel small_events (small_ents False) ''kprobe'' \<and>
   (let os = \<lparr>os_fds = 0, os_maps = 0, os_allocs = 0\<rparr>; es = [(False, ''p'', ''kprobes/g_bcc_7'', ''do_g'')] in
    \<exists>r k1 k2. bpf_attach_probe small_kernel 9 BPF_PROBE_RETURN ''f'' ''do_f'' ''kprobe'' 0 (- 1) 0 0 (([], es), os) = Some (r, k1, os) \<and>
      snd k1 = es @ [(False, ''r'', ''kprobes/f_bcc_7'', ''do_f'')] \<and>
      bpf_detach_probe small_kernel ''f'' ''kprobe'' (snd (bpf_close_perf_event_fd small_kernel r k1), os) = (0, k2, os) \<and>
      small_ents False k2 = [(''p'', ''kprobes/g_bcc_7'', ''do_g'')] \<and> small_events k2 = small_events ([], es))"
proof -
  let ?os = "\<lparr>os_fds = 0, os_maps = 0, os_allocs = 0\<rparr>" and ?es = "[(False, ''p'', ''kprobes/g_bcc_7'', ''do_g'')]"
  have name: "probe_name small_kernel ''kprobe'' ''f'' = ''kprobes/f_bcc_7''" "probe_alias small_kernel ''f'' = ''f_bcc_7''"
    by code_simp+
  have laws: "tracefs_laws small_kernel small_events (small_ents False) ''kprobe''"
    using small_kernel_tracefs_laws [of False] by (simp add: small_type_def)
  have s: "strstr (listing (small_ents False ([], ?es))) ''kprobes/f_bcc_7'' = None"
    by code_simp
  have run: "bpf_attach_probe small_kernel 9 BPF_PROBE_RETURN ''f'' ''do_f'' ''kprobe'' 0 (- 1) 0 0 (([], ?es), ?os) =
      Some (3, ([(3, Some 9, True, Some ''kprobes/f_bcc_7'')], ?es @ [(False, ''r'', ''kprobes/f_bcc_7'', ''do_f'')]), ?os)"
    by code_simp
  have "\<not> busy (small_events ([], ?es)) ''kprobes/f_bcc_7''"
    by (simp add: busy_def small_events_def)
  then show ?thesis
    using detach_undoes_attach [OF small_kernel_perf_laws laws small_kernel_sysfs, where k = "([], ?es)" and ev_name = "''f''"
        and maxactive = 0 and prog = 9 and ty = BPF_PROBE_RETURN and target = "''do_f''" and offset = 0 and pid = "- 1" and ref_ctr = 0
        and os = ?os, unfolded name run] s small_kernel_perf_laws laws
    by (auto simp: run Let_def small_ents_def)
qed

end
