(* ===== verification/Elf_Crc.thy ===== *)
theory Elf_Crc
  imports Zip
begin

text \<open>
  The checksum of a separate debug file, \<^verbatim>\<open>gnu_debuglink_crc32\<close> of src/cc/bcc_elf.c.  The table of the source
  is compared with the division of one bit after the other by the polynomial, and a file that differs from another
  one in a single byte has another checksum.
\<close>

unbundle bit_operations_syntax

section \<open>The table\<close>

definition crc32_table :: "u32 list" where
  "crc32_table =
    [0x00000000, 0x77073096, 0xee0e612c, 0x990951ba, 0x076dc419, 0x706af48f, 0xe963a535, 0x9e6495a3, 0x0edb8832, 0x79dcb8a4,
     0xe0d5e91e, 0x97d2d988, 0x09b64c2b, 0x7eb17cbd, 0xe7b82d07, 0x90bf1d91, 0x1db71064, 0x6ab020f2, 0xf3b97148, 0x84be41de,
     0x1adad47d, 0x6ddde4eb, 0xf4d4b551, 0x83d385c7, 0x136c9856, 0x646ba8c0, 0xfd62f97a, 0x8a65c9ec, 0x14015c4f, 0x63066cd9,
     0xfa0f3d63, 0x8d080df5, 0x3b6e20c8, 0x4c69105e, 0xd56041e4, 0xa2677172, 0x3c03e4d1, 0x4b04d447, 0xd20d85fd, 0xa50ab56b,
     0x35b5a8fa, 0x42b2986c, 0xdbbbc9d6, 0xacbcf940, 0x32d86ce3, 0x45df5c75, 0xdcd60dcf, 0xabd13d59, 0x26d930ac, 0x51de003a,
     0xc8d75180, 0xbfd06116, 0x21b4f4b5, 0x56b3c423, 0xcfba9599, 0xb8bda50f, 0x2802b89e, 0x5f058808, 0xc60cd9b2, 0xb10be924,
     0x2f6f7c87, 0x58684c11, 0xc1611dab, 0xb6662d3d, 0x76dc4190, 0x01db7106, 0x98d220bc, 0xefd5102a, 0x71b18589, 0x06b6b51f,
     0x9fbfe4a5, 0xe8b8d433, 0x7807c9a2, 0x0f00f934, 0x9609a88e, 0xe10e9818, 0x7f6a0dbb, 0x086d3d2d, 0x91646c97, 0xe6635c01,
     0x6b6b51f4, 0x1c6c6162, 0x856530d8, 0xf262004e, 0x6c0695ed, 0x1b01a57b, 0x8208f4c1, 0xf50fc457, 0x65b0d9c6, 0x12b7e950,
     0x8bbeb8ea, 0xfcb9887c, 0x62dd1ddf, 0x15da2d49, 0x8cd37cf3, 0xfbd44c65, 0x4db26158, 0x3ab551ce, 0xa3bc0074, 0xd4bb30e2,
     0x4adfa541, 0x3dd895d7, 0xa4d1c46d, 0xd3d6f4fb, 0x4369e96a, 0x346ed9fc, 0xad678846, 0xda60b8d0, 0x44042d73, 0x33031de5,
     0xaa0a4c5f, 0xdd0d7cc9, 0x5005713c, 0x270241aa, 0xbe0b1010, 0xc90c2086, 0x5768b525, 0x206f85b3, 0xb966d409, 0xce61e49f,
     0x5edef90e, 0x29d9c998, 0xb0d09822, 0xc7d7a8b4, 0x59b33d17, 0x2eb40d81, 0xb7bd5c3b, 0xc0ba6cad, 0xedb88320, 0x9abfb3b6,
     0x03b6e20c, 0x74b1d29a, 0xead54739, 0x9dd277af, 0x04db2615, 0x73dc1683, 0xe3630b12, 0x94643b84, 0x0d6d6a3e, 0x7a6a5aa8,
     0xe40ecf0b, 0x9309ff9d, 0x0a00ae27, 0x7d079eb1, 0xf00f9344, 0x8708a3d2, 0x1e01f268, 0x6906c2fe, 0xf762575d, 0x806567cb,
     0x196c3671, 0x6e6b06e7, 0xfed41b76, 0x89d32be0, 0x10da7a5a, 0x67dd4acc, 0xf9b9df6f, 0x8ebeeff9, 0x17b7be43, 0x60b08ed5,
     0xd6d6a3e8, 0xa1d1937e, 0x38d8c2c4, 0x4fdff252, 0xd1bb67f1, 0xa6bc5767, 0x3fb506dd, 0x48b2364b, 0xd80d2bda, 0xaf0a1b4c,
     0x36034af6, 0x41047a60, 0xdf60efc3, 0xa867df55, 0x316e8eef, 0x4669be79, 0xcb61b38c, 0xbc66831a, 0x256fd2a0, 0x5268e236,
     0xcc0c7795, 0xbb0b4703, 0x220216b9, 0x5505262f, 0xc5ba3bbe, 0xb2bd0b28, 0x2bb45a92, 0x5cb36a04, 0xc2d7ffa7, 0xb5d0cf31,
     0x2cd99e8b, 0x5bdeae1d, 0x9b64c2b0, 0xec63f226, 0x756aa39c, 0x026d930a, 0x9c0906a9, 0xeb0e363f, 0x72076785, 0x05005713,
     0x95bf4a82, 0xe2b87a14, 0x7bb12bae, 0x0cb61b38, 0x92d28e9b, 0xe5d5be0d, 0x7cdcefb7, 0x0bdbdf21, 0x86d3d2d4, 0xf1d4e242,
     0x68ddb3f8, 0x1fda836e, 0x81be16cd, 0xf6b9265b, 0x6fb077e1, 0x18b74777, 0x88085ae6, 0xff0f6a70, 0x66063bca, 0x11010b5c,
     0x8f659eff, 0xf862ae69, 0x616bffd3, 0x166ccf45, 0xa00ae278, 0xd70dd2ee, 0x4e048354, 0x3903b3c2, 0xa7672661, 0xd06016f7,
     0x4969474d, 0x3e6e77db, 0xaed16a4a, 0xd9d65adc, 0x40df0b66, 0x37d83bf0, 0xa9bcae53, 0xdebb9ec5, 0x47b2cf7f, 0x30b5ffe9,
     0xbdbdf21c, 0xcabac28a, 0x53b39330, 0x24b4a3a6, 0xbad03605, 0xcdd70693, 0x54de5729, 0x23d967bf, 0xb3667a2e, 0xc4614ab8,
     0x5d681b02, 0x2a6f2b94, 0xb40bbe37, 0xc30c8ea1, 0x5a05df1b, 0x2d02ef8d]"

text \<open>The bytes of the buffer are of type \<^verbatim>\<open>char\<close>, which is signed.\<close>

fun crc32_loop :: "u32 \<Rightarrow> bytes \<Rightarrow> u32" where
  "crc32_loop crc [] = crc"
| "crc32_loop crc (b # buf) = crc32_loop (crc32_table ! unat ((crc XOR scast b) AND 0xFF) XOR drop_bit 8 crc) buf"

definition gnu_debuglink_crc32 :: "u32 \<Rightarrow> bytes \<Rightarrow> u32" where
  "gnu_debuglink_crc32 crc buf = NOT (crc32_loop (NOT crc AND 0xFFFFFFFF) buf) AND 0xFFFFFFFF"

section \<open>The division\<close>

definition crc_bit :: "u32 \<Rightarrow> u32" where
  "crc_bit c = (if bit c 0 then 0xEDB88320 XOR drop_bit 1 c else drop_bit 1 c)"

definition crc_bits8 :: "u32 \<Rightarrow> u32" where
  "crc_bits8 c = crc_bit (crc_bit (crc_bit (crc_bit (crc_bit (crc_bit (crc_bit (crc_bit c)))))))"

definition crc32_spec :: "u32 \<Rightarrow> bytes \<Rightarrow> u32" where
  "crc32_spec crc buf = NOT (fold (\<lambda>b c. crc_bits8 (c XOR ucast b)) buf (NOT crc))"

fun words_from :: "nat \<Rightarrow> u32 \<Rightarrow> u32 list" where
  "words_from 0 w = []"
| "words_from (Suc n) w = w # words_from n (w + 1)"

lemma words_from_nth: "i < n \<Longrightarrow> words_from n w ! i = w + word_of_nat i"
  by (induction n w arbitrary: i rule: words_from.induct) (auto simp: nth_Cons split: nat.splits)

lemma length_words_from [simp]: "length (words_from n w) = n"
  by (induction n w rule: words_from.induct) auto

lemma crc32_table_division: "crc32_table = map crc_bits8 (words_from 256 0)"
  by code_simp

lemma crc32_table_nth: "w < 256 \<Longrightarrow> crc32_table ! unat w = crc_bits8 w"
proof -
  assume "w < 256"
  then have "unat w < 256"
    by (simp add: word_less_nat_alt)
  then show ?thesis
    by (simp add: crc32_table_division words_from_nth)
qed

lemma crc_bit_xor: "crc_bit (x XOR y) = crc_bit x XOR crc_bit y"
  by (simp add: crc_bit_def bit_xor_iff drop_bit_xor xor.assoc xor.commute xor.left_commute)

lemma crc_bits8_xor: "crc_bits8 (x XOR y) = crc_bits8 x XOR crc_bits8 y"
  by (simp only: crc_bits8_def crc_bit_xor)

lemma crc_bits8_shift: "(\<And>i. i < 8 \<Longrightarrow> \<not> bit x i) \<Longrightarrow> crc_bits8 x = drop_bit 8 x"
  by (simp add: crc_bits8_def crc_bit_def bit_drop_bit_eq numeral_eq_Suc)

lemma low_byte: "x AND 0xFF = take_bit 8 x" for x :: u32
  by (simp add: take_bit_eq_mask mask_eq_exp_minus_1)

lemma crc_bits8_table: "crc_bits8 x = crc32_table ! unat (x AND 0xFF) XOR drop_bit 8 x"
proof -
  let ?hi = "push_bit 8 (drop_bit 8 x)"
  have "take_bit 8 x < 256"
    using take_bit_int_less_exp [of 8 "uint x"] by (simp add: word_less_alt unsigned_take_bit_eq)
  moreover have "x = take_bit 8 x XOR ?hi"
    by (simp add: bit_eq_iff bit_simps) (metis le_add_diff_inverse2 not_less)
  moreover have "crc_bits8 ?hi = drop_bit 8 ?hi"
    by (rule crc_bits8_shift) (simp add: bit_push_bit_iff)
  moreover have "drop_bit 8 ?hi = drop_bit 8 x"
    using bit_imp_le_length [of x] by (force simp: bit_eq_iff bit_simps)
  ultimately show ?thesis
    unfolding low_byte by (metis crc_bits8_xor crc32_table_nth)
qed

lemma crc_bit_top: "bit (crc_bit x) 31 = bit x 0"
proof -
  have "bit (0xEDB88320 :: u32) 31" "\<not> bit x 32"
    using bit_imp_le_length [of x 32] by auto
  then show ?thesis
    by (simp add: crc_bit_def bit_xor_iff bit_drop_bit_eq)
qed

lemma xor_cancel: "z XOR x = z XOR y \<longleftrightarrow> x = y" "x XOR z = y XOR z \<longleftrightarrow> x = y" for x y z :: u32
  by (metis xor.assoc xor_self_eq xor.left_neutral xor.commute)+

lemma crc_bit_inj: "crc_bit x = crc_bit y \<longleftrightarrow> x = y"
proof
  assume eq: "crc_bit x = crc_bit y"
  then have low: "bit x 0 = bit y 0"
    by (metis crc_bit_top)
  then have "drop_bit 1 x = drop_bit 1 y"
    using eq by (auto simp: crc_bit_def xor_cancel split: if_splits)
  then have "bit x (Suc n) = bit y (Suc n)" for n
    by (metis bit_drop_bit_eq comp_apply plus_1_eq_Suc)
  then have "bit x n = bit y n" for n
    using low by (cases n) auto
  then show "x = y"
    by (simp add: bit_eq_iff)
qed simp

lemma crc_bits8_inj: "crc_bits8 x = crc_bits8 y \<longleftrightarrow> x = y"
  by (simp add: crc_bits8_def crc_bit_inj)

lemma crc32_loop_division: "crc32_loop c buf = fold (\<lambda>b c. crc_bits8 (c XOR ucast b)) buf c"
proof (induction c buf rule: crc32_loop.induct)
  case (2 c b buf)
  have "(c XOR scast b) AND 0xFF = (c XOR ucast b) AND 0xFF"
    unfolding low_byte by (simp add: bit_eq_iff bit_simps)
  moreover have "drop_bit 8 (c XOR ucast b) = drop_bit 8 c"
    using bit_imp_le_length [of b] by (force simp: bit_eq_iff bit_simps)
  ultimately show ?case
    using 2 by (simp add: crc_bits8_table)
qed simp

lemma crc_fold_inj:
  "fold (\<lambda>b c. crc_bits8 (c XOR ucast b)) buf c = fold (\<lambda>b c. crc_bits8 (c XOR ucast b)) buf c' \<longleftrightarrow> c = c'"
  by (induction buf arbitrary: c c') (simp_all add: crc_bits8_inj xor_cancel)

text \<open>
  (C36) The checksum that is compared with the one recorded in a binary is the CRC-32 of the file, computed with a
  table: it is what dividing bit by bit gives, and changing a single byte of a file always changes it.
\<close>

theorem debuglink_crc_detects:
  "gnu_debuglink_crc32 crc buf = crc32_spec crc buf \<and>
   (gnu_debuglink_crc32 crc (pre @ b # post) = gnu_debuglink_crc32 crc (pre @ b' # post) \<longleftrightarrow> b = b')"
proof -
  have "(0xFFFFFFFF :: u32) = - 1"
    by simp
  then have all: "w AND 0xFFFFFFFF = w" for w :: u32
    by (simp only: and.right_neutral)
  have byte: "ucast b = (ucast b' :: u32) \<longleftrightarrow> b = b'"
  proof
    assume eq: "ucast b = (ucast b' :: u32)"
    have "bit b n = bit b' n" if "n < 8" for n
      using arg_cong [OF eq, of "\<lambda>w. bit w n"] that by (simp add: bit_simps)
    then show "b = b'"
      by (simp add: bit_eq_iff)
  qed simp
  show ?thesis
    by (simp add: all gnu_debuglink_crc32_def crc32_spec_def crc32_loop_division crc_fold_inj crc_bits8_inj xor_cancel byte)
qed

end
