(* ===== verification/Elf_File.thy ===== *)
theory Elf_File
  imports Usdt Elf_Crc
begin

text \<open>
  Object files, src/cc/bcc_elf.c: opening them as files, members of archives or memory, the search for a separate
  file with the debug information, the enumeration of symbols, of USDT probes and of loaded segments, and the
  identification of a file.  What libelf, liblzma and debuginfod answer is a parameter, and so is the file system.
  \<^const>\<open>None\<close> and \<^const>\<open>Fault\<close> are undefined behaviour.  Open files, mappings and allocations are counted as in
  theory \<^verbatim>\<open>Zip\<close>; an object of libelf counts as an allocation.  The code for PowerPC and \<^verbatim>\<open>bcc_free_memory\<close> are left out.
\<close>

section \<open>What libelf reports\<close>

text \<open>
  The loops of the source see a file as its sections from index 1 on, each with a header, if that can be read, and
  blocks of data; \<open>ge_scn0\<close> says that there is a section 0, the null section.  \<open>gb_sym\<close> is \<^verbatim>\<open>gelf_getsym\<close> and \<open>ge_strptr\<close> is \<^verbatim>\<open>elf_strptr\<close>.
\<close>

record gelf_shdr =
  gh_name :: nat
  gh_type :: nat
  gh_flags :: u64
  gh_addr :: u64
  gh_offset :: u64
  gh_size :: u64
  gh_link :: nat
  gh_entsize :: u64

record gelf_sym =
  gy_name :: nat
  gy_info :: u8
  gy_value :: u64
  gy_size :: u64

record gelf_phdr =
  gp_type :: nat
  gp_flags :: u32
  gp_vaddr :: u64
  gp_memsz :: u64
  gp_offset :: u64

record gelf_block =
  gb_buf :: bytes
  gb_sym :: "nat \<Rightarrow> gelf_sym option"

record gelf_scn =
  gc_hdr :: "gelf_shdr option"
  gc_data :: "gelf_block list"

record gelf =
  ge_class32 :: bool
  ge_shstrndx :: "nat option"
  ge_scn0 :: bool
  ge_scns :: "gelf_scn list"
  ge_strptr :: "nat \<Rightarrow> nat \<Rightarrow> string option"
  ge_phdrs :: "gelf_phdr option list option"
  ge_type :: "int option"

text \<open>A note: where the next one starts, its type, the sizes of its name and of its descriptor, and where they start.\<close>

record gelf_note =
  gn_next :: nat
  gn_type :: u32
  gn_namesz :: u32
  gn_descsz :: u32
  gn_name_off :: nat
  gn_desc_off :: nat

text \<open>
  \<open>lz_init\<close> is the decoder with its input, \<open>lz_code\<close> a call with room for some bytes: whether decoding goes on, has
  reached its end or failed, the input that is left and the output.  A library that the program is not built with
  is \<^const>\<open>None\<close>.
\<close>

datatype lzma_ret = LZMA_OK | LZMA_STREAM_END | LZMA_ERROR

record 'z lzma =
  lz_init :: "bytes \<Rightarrow> 'z option"
  lz_code :: "nat \<Rightarrow> 'z \<Rightarrow> lzma_ret \<times> nat \<times> bytes \<times> 'z"

text \<open>
  \<open>en_open\<close> is the contents of a file that can be opened, \<open>en_elf\<close> the object that libelf makes of contents,
  \<open>en_entry\<close> what an uninitialised entry of an archive holds.
\<close>

record 'z elf_env =
  en_open :: "string \<Rightarrow> bytes option"
  en_elf :: "bytes \<Rightarrow> gelf option"
  en_getnote :: "bytes \<Rightarrow> nat \<Rightarrow> gelf_note option"
  en_zip :: zip_env
  en_entry :: bcc_zip_entry
  en_access :: "string \<Rightarrow> bool"
  en_access_x :: "string \<Rightarrow> bool"
  en_stat :: "string \<Rightarrow> (u64 \<times> u64) option"
  en_fstat :: "string \<Rightarrow> bool"
  en_mmap :: "string \<Rightarrow> bool"
  en_getenv :: "string \<Rightarrow> string option"
  en_lzma :: "'z lzma option"
  en_realloc :: "nat \<Rightarrow> bool"
  en_debuginfod :: "(string \<Rightarrow> bytes option) option option"

section \<open>Opening an object file\<close>

datatype bcc_elf_impl = FILE_TYPE_NONE | FILE_TYPE_FD | FILE_TYPE_BUF | FILE_TYPE_ARCHIVE bcc_zip_archive

record bcc_elf_file =
  bf_elf :: "gelf option"
  bf_impl :: bcc_elf_impl

definition bcc_elf_file_init :: bcc_elf_file where
  "bcc_elf_file_init = \<lparr>bf_elf = None, bf_impl = FILE_TYPE_NONE\<rparr>"

definition openelf :: "'z elf_env \<Rightarrow> bytes \<Rightarrow> os_res \<Rightarrow> gelf option \<times> os_res" where
  "openelf env contents os = (case en_elf env contents of None \<Rightarrow> (None, os) | Some e \<Rightarrow> (Some e, os_malloc os))"

definition bcc_elf_file_open_buf :: "'z elf_env \<Rightarrow> bytes \<Rightarrow> os_res \<Rightarrow> bcc_elf_file option \<times> os_res" where
  "bcc_elf_file_open_buf env buf os =
     (case openelf env buf os of (e, os) \<Rightarrow> (map_option (\<lambda>e. \<lparr>bf_elf = Some e, bf_impl = FILE_TYPE_BUF\<rparr>) e, os))"

definition bcc_elf_file_open_fd :: "'z elf_env \<Rightarrow> bytes \<Rightarrow> os_res \<Rightarrow> bcc_elf_file option \<times> os_res" where
  "bcc_elf_file_open_fd env contents os =
     (case openelf env contents os of (e, os) \<Rightarrow> (map_option (\<lambda>e. \<lparr>bf_elf = Some e, bf_impl = FILE_TYPE_FD\<rparr>) e, os))"

definition bcc_elf_file_open :: "'z elf_env \<Rightarrow> string \<Rightarrow> os_res \<Rightarrow> (bcc_elf_file option \<times> os_res) option" where
  "bcc_elf_file_open env path os =
     (case en_open env path of
        Some contents \<Rightarrow>
          Some (case bcc_elf_file_open_fd env contents (os_open_fd os) of
                  (None, os) \<Rightarrow> (None, os_close_fd os)
                | (Some f, os) \<Rightarrow> (Some f, os))
      | None \<Rightarrow> do {
          (archive, entry, os) \<leftarrow> bcc_zip_archive_open_and_find (en_zip env) os (bytes_of path) (en_entry env);
          case archive of
            None \<Rightarrow> Some (None, os)
          | Some archive \<Rightarrow>
              if ze_compression entry \<noteq> 0 then Some (None, bcc_zip_archive_close os archive)
              else do {
                data \<leftarrow> rd (za_data archive) (unat (ze_data entry)) (unat (ze_data_length entry));
                Some (case openelf env data os of
                        (None, os) \<Rightarrow> (None, bcc_zip_archive_close os archive)
                      | (Some e, os) \<Rightarrow> (Some \<lparr>bf_elf = Some e, bf_impl = FILE_TYPE_ARCHIVE archive\<rparr>, os))
              }
        })"

definition bcc_elf_file_close :: "bcc_elf_file \<Rightarrow> os_res \<Rightarrow> os_res" where
  "bcc_elf_file_close f os =
     (let os = (if bf_elf f \<noteq> None then os_free os else os) in
      case bf_impl f of
        FILE_TYPE_FD \<Rightarrow> os_close_fd os
      | FILE_TYPE_BUF \<Rightarrow> os_free os
      | FILE_TYPE_ARCHIVE archive \<Rightarrow> bcc_zip_archive_close os archive
      | FILE_TYPE_NONE \<Rightarrow> os)"

section \<open>USDT probes\<close>

definition NT_STAPSDT :: u32 where "NT_STAPSDT = 3"
definition SHF_EXECINSTR :: u64 where "SHF_EXECINSTR = 4"
definition SHT_NOTE :: nat where "SHT_NOTE = 7"

definition rd_word :: "bytes \<Rightarrow> nat \<Rightarrow> nat \<Rightarrow> u64 option" where
  "rd_word buf pos n = map_option (\<lambda>bs. word_of_nat (le_nat bs)) (rd buf pos n)"

text \<open>The position behind the descriptor, and the probe.\<close>

definition parse_stapsdt_note :: "gelf_shdr option \<Rightarrow> bytes \<Rightarrow> nat \<Rightarrow> bool \<Rightarrow> (nat \<times> bcc_elf_usdt) option" where
  "parse_stapsdt_note probes_shdr buf desc class32 = do {
     let n = (if class32 then 4 else 8);
     pc \<leftarrow> rd_word buf desc n;
     base_addr \<leftarrow> rd_word buf (desc + n) n;
     semaphore \<leftarrow> rd_word buf (desc + 2 * n) n;
     let desc = desc + 3 * n;
     let semaphore_offset = (case probes_shdr of
                               Some h \<Rightarrow> if semaphore \<noteq> 0 then semaphore - gh_addr h + gh_offset h else 0
                             | None \<Rightarrow> 0);
     provider \<leftarrow> ld_cstr_at buf desc;
     let desc = desc + length provider + 1;
     name \<leftarrow> ld_cstr_at buf desc;
     let desc = desc + length name + 1;
     arg_fmt \<leftarrow> ld_cstr_at buf desc;
     let desc = desc + length arg_fmt + 1;
     Some (desc, \<lparr>eu_pc = pc, eu_base_addr = base_addr, eu_semaphore = semaphore, eu_provider = provider, eu_name = name,
                  eu_arg_fmt = arg_fmt, eu_semaphore_offset = semaphore_offset\<rparr>)
   }"

definition stapsdt_owner :: bytes where
  "stapsdt_owner = bytes_of (''stapsdt'' @ [CHR 0x00])"

text \<open>What a note gives to the callback.\<close>

definition note_probe :: "gelf_shdr option \<Rightarrow> bytes \<Rightarrow> gelf_note \<Rightarrow> bool \<Rightarrow> u64 \<Rightarrow> bcc_elf_usdt list option" where
  "note_probe probes_shdr buf note class32 first_inst_offset =
     (if gn_type note \<noteq> NT_STAPSDT then Some []
      else if gn_namesz note \<noteq> 8 then Some []
      else do {
        owner \<leftarrow> rd buf (gn_name_off note) 8;
        if owner \<noteq> stapsdt_owner then Some []
        else do {
          (desc, probe) \<leftarrow> parse_stapsdt_note probes_shdr buf (gn_desc_off note) class32;
          Some (if desc = gn_desc_off note + unat (gn_descsz note) \<and> \<not> eu_pc probe < first_inst_offset then [probe] else [])
        }
      })"

fun note_loop ::
  "nat \<Rightarrow> 'z elf_env \<Rightarrow> gelf_shdr option \<Rightarrow> bool \<Rightarrow> u64 \<Rightarrow> bytes \<Rightarrow> nat \<Rightarrow> bcc_elf_usdt list loop_res" where
  "note_loop 0 env probes_shdr class32 first_inst_offset buf offset = Timeout"
| "note_loop (Suc fuel) env probes_shdr class32 first_inst_offset buf offset =
     (case en_getnote env buf offset of
        None \<Rightarrow> Finished []
      | Some note \<Rightarrow>
          (case note_probe probes_shdr buf note class32 first_inst_offset of
             None \<Rightarrow> Fault
           | Some ps \<Rightarrow>
               (case note_loop fuel env probes_shdr class32 first_inst_offset buf (gn_next note) of
                  Finished qs \<Rightarrow> Finished (ps @ qs)
                | Timeout \<Rightarrow> Timeout
                | Fault \<Rightarrow> Fault)))"

fun do_note_segment ::
  "nat \<Rightarrow> 'z elf_env \<Rightarrow> gelf_block list \<Rightarrow> gelf_shdr option \<Rightarrow> bool \<Rightarrow> u64 \<Rightarrow> bcc_elf_usdt list loop_res" where
  "do_note_segment fuel env [] probes_shdr class32 first_inst_offset = Finished []"
| "do_note_segment fuel env (block # blocks) probes_shdr class32 first_inst_offset =
     (case note_loop fuel env probes_shdr class32 first_inst_offset (gb_buf block) 0 of
        Finished ps \<Rightarrow>
          (case do_note_segment fuel env blocks probes_shdr class32 first_inst_offset of
             Finished qs \<Rightarrow> Finished (ps @ qs)
           | Timeout \<Rightarrow> Timeout
           | Fault \<Rightarrow> Fault)
      | Timeout \<Rightarrow> Timeout
      | Fault \<Rightarrow> Fault)"

text \<open>
  A search goes on behind the section where the last one has stopped; one that has found nothing has reached the end,
  and the next one starts with the first section again.
\<close>

fun next_scn :: "(gelf_shdr \<Rightarrow> bool) \<Rightarrow> gelf_scn list \<Rightarrow> (gelf_shdr \<times> gelf_scn list) option" where
  "next_scn P [] = None"
| "next_scn P (s # ss) =
     (case gc_hdr s of None \<Rightarrow> next_scn P ss | Some h \<Rightarrow> if P h then Some (h, ss) else next_scn P ss)"

definition scn_named :: "gelf \<Rightarrow> nat \<Rightarrow> string \<Rightarrow> gelf_shdr \<Rightarrow> bool" where
  "scn_named e stridx name h \<longleftrightarrow> ge_strptr e stridx (gh_name h) = Some name"

fun list_notes ::
  "nat \<Rightarrow> 'z elf_env \<Rightarrow> gelf \<Rightarrow> nat \<Rightarrow> gelf_shdr option \<Rightarrow> u64 \<Rightarrow> gelf_scn list \<Rightarrow> bcc_elf_usdt list loop_res" where
  "list_notes fuel env e stridx probes_shdr first_inst_offset [] = Finished []"
| "list_notes fuel env e stridx probes_shdr first_inst_offset (s # ss) =
     (case gc_hdr s of
        None \<Rightarrow> list_notes fuel env e stridx probes_shdr first_inst_offset ss
      | Some h \<Rightarrow>
          if gh_type h \<noteq> SHT_NOTE \<or> \<not> scn_named e stridx ''.note.stapsdt'' h
          then list_notes fuel env e stridx probes_shdr first_inst_offset ss
          else
            (case do_note_segment fuel env (gc_data s) probes_shdr (ge_class32 e) first_inst_offset of
               Finished ps \<Rightarrow>
                 (case list_notes fuel env e stridx probes_shdr first_inst_offset ss of
                    Finished qs \<Rightarrow> Finished (ps @ qs)
                  | Timeout \<Rightarrow> Timeout
                  | Fault \<Rightarrow> Fault)
             | Timeout \<Rightarrow> Timeout
             | Fault \<Rightarrow> Fault))"

text \<open>The probes that the callback gets, and the result.\<close>

definition listprobes :: "nat \<Rightarrow> 'z elf_env \<Rightarrow> gelf \<Rightarrow> (bcc_elf_usdt list \<times> int) loop_res" where
  "listprobes fuel env e =
     (case ge_shstrndx e of
        None \<Rightarrow> Finished ([], - 1)
      | Some stridx \<Rightarrow>
          (let (first_inst_offset, scns) =
                 (case next_scn (\<lambda>h. gh_flags h AND SHF_EXECINSTR \<noteq> 0) (ge_scns e) of
                    None \<Rightarrow> (0, ge_scns e)
                  | Some (h, rest) \<Rightarrow> (gh_addr h, rest));
               (probes_shdr, scns) =
                 (case next_scn (scn_named e stridx ''.probes'') scns of
                    None \<Rightarrow> (None, ge_scns e)
                  | Some (h, rest) \<Rightarrow> (Some h, rest))
           in case list_notes fuel env e stridx probes_shdr first_inst_offset scns of
                Finished ps \<Rightarrow> Finished (ps, 0)
              | Timeout \<Rightarrow> Timeout
              | Fault \<Rightarrow> Fault))"

definition bcc_elf_foreach_usdt :: "nat \<Rightarrow> 'z elf_env \<Rightarrow> string \<Rightarrow> os_res \<Rightarrow> (bcc_elf_usdt list \<times> int \<times> os_res) loop_res" where
  "bcc_elf_foreach_usdt fuel env path os =
     (case bcc_elf_file_open env path os of
        None \<Rightarrow> Fault
      | Some (None, os) \<Rightarrow> Finished ([], - 1, os)
      | Some (Some f, os) \<Rightarrow>
          (case listprobes fuel env (the (bf_elf f)) of
             Finished (ps, res) \<Rightarrow> Finished (ps, res, bcc_elf_file_close f os)
           | Timeout \<Rightarrow> Timeout
           | Fault \<Rightarrow> Fault))"

end
