(* ===== verification/Elf_Debug.thy ===== *)
theory Elf_Debug
  imports Elf_File
begin

text \<open>
  The second half of src/cc/bcc_elf.c: the search for a file with debug information, the enumeration of symbols and
  segments, and the identification of a file.
\<close>

section \<open>Sections\<close>

fun section_from :: "gelf \<Rightarrow> nat \<Rightarrow> string \<Rightarrow> nat \<Rightarrow> gelf_scn list \<Rightarrow> (nat \<times> gelf_shdr \<times> gelf_scn) option" where
  "section_from e stridx name index [] = None"
| "section_from e stridx name index (s # ss) =
     (case gc_hdr s of
        None \<Rightarrow> section_from e stridx name (index + 1) ss
      | Some h \<Rightarrow> if scn_named e stridx name h then Some (index, h, s) else section_from e stridx name (index + 1) ss)"

definition get_section :: "gelf \<Rightarrow> string \<Rightarrow> (nat \<times> gelf_shdr \<times> gelf_scn) option" where
  "get_section e section_name =
     (case ge_shstrndx e of None \<Rightarrow> None | Some stridx \<Rightarrow> section_from e stridx section_name 1 (ge_scns e))"

definition get_section_elf_data :: "gelf \<Rightarrow> string \<Rightarrow> gelf_block option" where
  "get_section_elf_data e section_name =
     (case get_section e section_name of
        None \<Rightarrow> None
      | Some (_, _, s) \<Rightarrow> (case gc_data s of [] \<Rightarrow> None | block # _ \<Rightarrow> Some block))"

section \<open>Symbols\<close>

text \<open>The name of a symbol that is reported.\<close>

definition sym_reported :: "bcc_symbol_option \<Rightarrow> gelf \<Rightarrow> nat \<Rightarrow> gelf_sym \<Rightarrow> string option" where
  "sym_reported opt e stridx symb =
     (case ge_strptr e stridx (gy_name symb) of
        None \<Rightarrow> None
      | Some name \<Rightarrow>
          if name = [] then None
          else if gy_value symb = 0 then None
          else if so_use_symbol_type opt AND push_bit (unat (gy_info symb AND 0xF)) 1 = 0 then None
          else Some name)"

text \<open>
  The callback gets the symbol under a name, which is a string or, for lazy symbolisation, the place of the string:
  \<open>mk\<close> makes it of the string table, the symbol and the string.
\<close>

fun sym_loop ::
  "('n \<Rightarrow> u64 \<Rightarrow> u64 \<Rightarrow> 's \<Rightarrow> int \<times> 's) \<Rightarrow> (nat \<Rightarrow> gelf_sym \<Rightarrow> string \<Rightarrow> 'n) \<Rightarrow> bcc_symbol_option \<Rightarrow> gelf \<Rightarrow> nat \<Rightarrow>
   gelf_block \<Rightarrow> nat list \<Rightarrow> 's \<Rightarrow> bool \<times> 's" where
  "sym_loop callback mk opt e stridx block [] payload = (False, payload)"
| "sym_loop callback mk opt e stridx block (i # is) payload =
     (case gb_sym block i of
        None \<Rightarrow> sym_loop callback mk opt e stridx block is payload
      | Some symb \<Rightarrow>
          (case sym_reported opt e stridx symb of
             None \<Rightarrow> sym_loop callback mk opt e stridx block is payload
           | Some name \<Rightarrow>
               (let (ret, payload) = callback (mk stridx symb name) (gy_value symb) (gy_size symb) payload in
                if ret < 0 then (True, payload) else sym_loop callback mk opt e stridx block is payload)))"

text \<open>A size of zero is divided by.\<close>

fun list_in_scn ::
  "('n \<Rightarrow> u64 \<Rightarrow> u64 \<Rightarrow> 's \<Rightarrow> int \<times> 's) \<Rightarrow> (nat \<Rightarrow> gelf_sym \<Rightarrow> string \<Rightarrow> 'n) \<Rightarrow> bcc_symbol_option \<Rightarrow> gelf \<Rightarrow> nat \<Rightarrow> nat \<Rightarrow>
   gelf_block list \<Rightarrow> 's \<Rightarrow> (int \<times> 's) option" where
  "list_in_scn callback mk opt e stridx symsize [] payload = Some (0, payload)"
| "list_in_scn callback mk opt e stridx symsize (block # blocks) payload =
     (if symsize = 0 then None
      else if length (gb_buf block) mod symsize \<noteq> 0 then Some (- 1, payload)
      else (case sym_loop callback mk opt e stridx block [0..<length (gb_buf block) div symsize] payload of
              (stopped, payload) \<Rightarrow>
                if stopped then Some (1, payload) else list_in_scn callback mk opt e stridx symsize blocks payload))"

fun listsymbols ::
  "('n \<Rightarrow> u64 \<Rightarrow> u64 \<Rightarrow> 's \<Rightarrow> int \<times> 's) \<Rightarrow> (nat \<Rightarrow> gelf_sym \<Rightarrow> string \<Rightarrow> 'n) \<Rightarrow> bcc_symbol_option \<Rightarrow> gelf \<Rightarrow>
   gelf_scn list \<Rightarrow> 's \<Rightarrow> (int \<times> 's) option" where
  "listsymbols callback mk opt e [] payload = Some (0, payload)"
| "listsymbols callback mk opt e (s # ss) payload =
     (case gc_hdr s of
        None \<Rightarrow> listsymbols callback mk opt e ss payload
      | Some h \<Rightarrow>
          if gh_type h \<noteq> SHT_SYMTAB \<and> gh_type h \<noteq> SHT_DYNSYM then listsymbols callback mk opt e ss payload
          else
            (case list_in_scn callback mk opt e (gh_link h) (unat (gh_entsize h)) (gc_data s) payload of
               None \<Rightarrow> None
             | Some (rc, payload) \<Rightarrow>
                 if rc = 1 then Some (0, payload)
                 else if rc < 0 then Some (rc, payload)
                 else listsymbols callback mk opt e ss payload))"

section \<open>Links to debug information\<close>

text \<open>The start of the data is used as a string, and its last four bytes are the checksum.\<close>

definition find_debuglink :: "gelf \<Rightarrow> (bytes \<times> u32) option" where
  "find_debuglink e =
     (case get_section_elf_data e ''.gnu_debuglink'' of
        None \<Rightarrow> None
      | Some block \<Rightarrow>
          (let buf = gb_buf block in
           if length buf \<le> 5 then None else Some (buf, word_of_nat (le_nat (drop (length buf - 4) buf)))))"

definition hex_byte :: "u8 \<Rightarrow> string" where
  "hex_byte b = [digit_char (unat b div 16), digit_char (unat b mod 16)]"

text \<open>The buffer has a size, which is not checked.\<close>

definition find_buildid :: "nat \<Rightarrow> gelf \<Rightarrow> string option option" where
  "find_buildid sz e =
     (case get_section_elf_data e ''.note.gnu.build-id'' of
        None \<Rightarrow> Some None
      | Some block \<Rightarrow>
          (let buf = gb_buf block in
           if length buf \<le> 16 \<or> take 4 (drop 12 buf) \<noteq> bytes_of (''GNU'' @ [CHR 0x00]) then Some None
           else if 2 * (length buf - 16) + 1 > sz then None
           else Some (Some (concat (map hex_byte (drop 16 buf))))))"

text \<open>A failure of \<^verbatim>\<open>mmap\<close> is not a null pointer, so it is not noticed.\<close>

definition verify_checksum :: "'z elf_env \<Rightarrow> string \<Rightarrow> u32 \<Rightarrow> os_res \<Rightarrow> (bool \<times> os_res) option" where
  "verify_checksum env file crc os =
     (case en_open env file of
        None \<Rightarrow> Some (False, os)
      | Some contents \<Rightarrow>
          (let os = os_open_fd os in
           if \<not> en_fstat env file then Some (False, os_close_fd os)
           else if en_mmap env file \<and> contents \<noteq> []
           then Some (gnu_debuglink_crc32 0 contents = crc, os_close_fd (os_munmap (os_mmap os)))
           else if contents = [] then Some (gnu_debuglink_crc32 0 [] = crc, os_close_fd os)
           else None))"

definition same_file :: "'z elf_env \<Rightarrow> string \<Rightarrow> string \<Rightarrow> bool" where
  "same_file env a b = (case (en_stat env a, en_stat env b) of (Some x, Some y) \<Rightarrow> x = y | _ \<Rightarrow> False)"

definition try_open_debuglink_candidate ::
  "'z elf_env \<Rightarrow> string \<Rightarrow> bool \<Rightarrow> u32 \<Rightarrow> os_res \<Rightarrow> (bcc_elf_file option \<times> os_res) option" where
  "try_open_debuglink_candidate env path check_crc crc os =
     (if \<not> en_access env path then Some (None, os)
      else do {
        (ok, os) \<leftarrow> (if check_crc then verify_checksum env path crc os else Some (True, os));
        if \<not> ok then Some (None, os) else bcc_elf_file_open env path os
      })"

definition strip_slashes :: "string \<Rightarrow> string" where
  "strip_slashes s = rev (dropWhile (\<lambda>c. c = CHR ''/'') (rev s))"

definition dirname :: "string \<Rightarrow> string" where
  "dirname path =
     (let s = strip_slashes path in
      if s = [] then (if path = [] then ''.'' else ''/'')
      else
        (let d = rev (dropWhile (\<lambda>c. c \<noteq> CHR ''/'') (rev s)) in
         if d = [] then ''.'' else if strip_slashes d = [] then ''/'' else strip_slashes d))"

text \<open>The files that are tried, in this order.\<close>

fun first_opened ::
  "(os_res \<Rightarrow> (bcc_elf_file option \<times> os_res) option) list \<Rightarrow> os_res \<Rightarrow> (bcc_elf_file option \<times> os_res) option" where
  "first_opened [] os = Some (None, os)"
| "first_opened (t # ts) os = do {
     (r, os) \<leftarrow> t os;
     case r of Some f \<Rightarrow> Some (Some f, os) | None \<Rightarrow> first_opened ts os
   }"

definition find_debug_via_debuglink ::
  "'z elf_env \<Rightarrow> gelf \<Rightarrow> string \<Rightarrow> bool \<Rightarrow> os_res \<Rightarrow> (bcc_elf_file option \<times> os_res) option" where
  "find_debug_via_debuglink env e binpath check_crc os =
     (case find_debuglink e of
        None \<Rightarrow> Some (None, os)
      | Some (buf, crc) \<Rightarrow> do {
          name \<leftarrow> ld_cstr_at buf 0;
          let bindir = dirname (take (PATH_MAX - 1) binpath);
          let fullpath = snprintf_trunc PATH_MAX (bindir @ ''/'' @ name);
          first_opened
            [\<lambda>os. if same_file env fullpath binpath then Some (None, os) else try_open_debuglink_candidate env fullpath check_crc crc os,
             try_open_debuglink_candidate env (snprintf_trunc PATH_MAX (bindir @ ''/.debug/'' @ name)) check_crc crc,
             try_open_debuglink_candidate env (snprintf_trunc PATH_MAX (''/usr/lib/debug'' @ bindir @ ''/'' @ name)) check_crc crc] os
        })"

definition find_debug_via_buildid :: "'z elf_env \<Rightarrow> gelf \<Rightarrow> os_res \<Rightarrow> (bcc_elf_file option \<times> os_res) option" where
  "find_debug_via_buildid env e os = do {
     r \<leftarrow> find_buildid 128 e;
     case r of
       None \<Rightarrow> Some (None, os)
     | Some buildid \<Rightarrow> do {
         let root = (case en_getenv env ''BCC_DEBUGINFO_ROOT'' of Some root \<Rightarrow> root | None \<Rightarrow> ''/usr/lib/debug'');
         bcc_elf_file_open env
           (snprintf_trunc PATH_MAX (root @ ''/.build-id/'' @ take 2 buildid @ ''/'' @ drop 2 buildid @ ''.debug'')) os
       }
   }"

text \<open>The number of characters that \<^verbatim>\<open>/proc/<pid>/root/\<close> takes at the start of a path.\<close>

definition ns_prefix_length :: "string \<Rightarrow> nat" where
  "ns_prefix_length path =
     (if \<not> starts_with path ''/proc/'' then 0
      else
        (case scan_num 10 (drop 6 path) of
           None \<Rightarrow> 0
         | Some (_, rest) \<Rightarrow> if starts_with rest ''/root/'' then length path - length rest + 6 else 0))"

definition find_debug_via_symfs :: "'z elf_env \<Rightarrow> gelf \<Rightarrow> string \<Rightarrow> os_res \<Rightarrow> (bcc_elf_file option \<times> os_res) option" where
  "find_debug_via_symfs env e path os =
     (case en_getenv env ''BCC_SYMFS'' of
        None \<Rightarrow> Some (None, os)
      | Some symfs \<Rightarrow>
          if symfs = [] then Some (None, os)
          else do {
            buildid \<leftarrow> find_buildid 128 e;
            let fullpath = snprintf_trunc PATH_MAX (symfs @ ''/'' @ drop (ns_prefix_length path) path);
            if \<not> en_access env fullpath then Some (None, os)
            else do {
              (f, os) \<leftarrow> bcc_elf_file_open env fullpath os;
              case f of
                None \<Rightarrow> Some (None, os)
              | Some f \<Rightarrow>
                  (case buildid of
                     None \<Rightarrow> Some (Some f, os)
                   | Some buildid \<Rightarrow> do {
                       symfs_buildid \<leftarrow> find_buildid 128 (the (bf_elf f));
                       Some (if symfs_buildid = Some buildid then (Some f, os) else (None, bcc_elf_file_close f os))
                     })
            }
          })"

section \<open>Compressed debug information\<close>

definition LZMA_MIN_BUFFER_SIZE :: nat where "LZMA_MIN_BUFFER_SIZE = 4096"

text \<open>
  The last result, what has been decompressed and whether the buffer has been allocated.  The library may not use up
  its input, so the loop has fuel; output that does not fit is written outside the buffer.
\<close>

fun lzma_loop ::
  "nat \<Rightarrow> 'z elf_env \<Rightarrow> 'z lzma \<Rightarrow> lzma_ret \<Rightarrow> nat \<Rightarrow> nat \<Rightarrow> nat \<Rightarrow> bytes \<Rightarrow> 'z \<Rightarrow> os_res \<Rightarrow>
   (lzma_ret \<times> bytes \<times> bool \<times> os_res) loop_res" where
  "lzma_loop 0 env lz ret avail_in avail_out sz data z os = Timeout"
| "lzma_loop (Suc fuel) env lz ret avail_in avail_out sz data z os =
     (if ret \<noteq> LZMA_OK \<or> avail_in = 0 then Finished (ret, data, sz > 0, os)
      else
        (let grow = (avail_out < LZMA_MIN_BUFFER_SIZE);
             new_sz = (if grow then sz + LZMA_MIN_BUFFER_SIZE else sz)
         in if grow \<and> \<not> en_realloc env new_sz then Finished (LZMA_ERROR, data, sz > 0, os)
            else
              (let os = (if sz = 0 \<and> grow then os_malloc os else os);
                   avail_out = (if grow then avail_out + LZMA_MIN_BUFFER_SIZE else avail_out);
                   (ret, avail_in, out, z) = lz_code lz avail_out z
               in if length out > avail_out then Fault
                  else lzma_loop fuel env lz ret avail_in (avail_out - length out) new_sz (data @ out) z os)))"

definition open_mini_debug_info_file ::
  "nat \<Rightarrow> 'z elf_env \<Rightarrow> 'z lzma \<Rightarrow> bytes \<Rightarrow> os_res \<Rightarrow> (bcc_elf_file option \<times> os_res) loop_res" where
  "open_mini_debug_info_file fuel env lz gnu_debugdata os =
     (case lz_init lz gnu_debugdata of
        None \<Rightarrow> Finished (None, os)
      | Some z \<Rightarrow>
          (case lzma_loop fuel env lz LZMA_OK (length gnu_debugdata) 0 0 [] z os of
             Finished (ret, data, allocated, os) \<Rightarrow>
               (let free = (\<lambda>os. if allocated then os_free os else os) in
                if ret \<noteq> LZMA_STREAM_END then Finished (None, free os)
                else (case bcc_elf_file_open_buf env data os of
                        (None, os) \<Rightarrow> Finished (None, free os)
                      | (Some f, os) \<Rightarrow> Finished (Some f, os)))
           | Timeout \<Rightarrow> Timeout
           | Fault \<Rightarrow> Fault))"

definition find_debug_via_mini_debug_info ::
  "nat \<Rightarrow> 'z elf_env \<Rightarrow> gelf \<Rightarrow> os_res \<Rightarrow> (bcc_elf_file option \<times> os_res) loop_res" where
  "find_debug_via_mini_debug_info fuel env e os =
     (case en_lzma env of
        None \<Rightarrow> Finished (None, os)
      | Some lz \<Rightarrow>
          (case get_section_elf_data e ''.gnu_debugdata'' of
             None \<Rightarrow> Finished (None, os)
           | Some block \<Rightarrow> open_mini_debug_info_file fuel env lz (gb_buf block) os))"

definition find_debug_via_debuginfod :: "'z elf_env \<Rightarrow> gelf \<Rightarrow> os_res \<Rightarrow> (bcc_elf_file option \<times> os_res) option" where
  "find_debug_via_debuginfod env e os =
     (case en_debuginfod env of
        None \<Rightarrow> Some (None, os)
      | Some client \<Rightarrow> do {
          r \<leftarrow> find_buildid 128 e;
          case (r, client) of
            (Some buildid, Some find_debuginfo) \<Rightarrow>
              (case find_debuginfo buildid of
                 None \<Rightarrow> Some (None, os)
               | Some contents \<Rightarrow>
                   Some (case bcc_elf_file_open_fd env contents (os_open_fd os) of
                           (None, os) \<Rightarrow> (None, os_close_fd os)
                         | (Some f, os) \<Rightarrow> (Some f, os)))
          | _ \<Rightarrow> Some (None, os)
        })"

definition find_debug_file ::
  "nat \<Rightarrow> 'z elf_env \<Rightarrow> gelf \<Rightarrow> string \<Rightarrow> bool \<Rightarrow> os_res \<Rightarrow> (bcc_elf_file option \<times> os_res) loop_res" where
  "find_debug_file fuel env e path check_crc os =
     (case first_opened
             [find_debug_via_symfs env e path, find_debug_via_buildid env e, find_debug_via_debuglink env e path check_crc] os of
        None \<Rightarrow> Fault
      | Some (Some f, os) \<Rightarrow> Finished (Some f, os)
      | Some (None, os) \<Rightarrow>
          (case find_debug_via_mini_debug_info fuel env e os of
             Finished (None, os) \<Rightarrow> opt_loop (find_debug_via_debuginfod env e os)
           | r \<Rightarrow> r))"

section \<open>Enumerating symbols\<close>

text \<open>The flag of the naming function says that the symbol is one of the debug file.\<close>

definition elf_foreach_sym_core ::
  "nat \<Rightarrow> 'z elf_env \<Rightarrow> string \<Rightarrow> ('n \<Rightarrow> u64 \<Rightarrow> u64 \<Rightarrow> 's \<Rightarrow> int \<times> 's) \<Rightarrow> (bool \<Rightarrow> nat \<Rightarrow> gelf_sym \<Rightarrow> string \<Rightarrow> 'n) \<Rightarrow>
   bcc_symbol_option \<Rightarrow> 's \<Rightarrow> os_res \<Rightarrow> (int \<times> 's \<times> os_res) loop_res" where
  "elf_foreach_sym_core fuel env path callback mk opt payload os =
     (case bcc_elf_file_open env path os of
        None \<Rightarrow> Fault
      | Some (None, os) \<Rightarrow> Finished (- 1, payload, os)
      | Some (Some f, os) \<Rightarrow>
          (let e = the (bf_elf f);
               own = (\<lambda>payload os.
                 case listsymbols callback (mk False) opt e (ge_scns e) payload of
                   None \<Rightarrow> Fault
                 | Some (res, payload) \<Rightarrow> Finished (res, payload, bcc_elf_file_close f os))
           in if \<not> so_use_debug_file opt then own payload os
              else
                (case find_debug_file fuel env e path (so_check_debug_file_crc opt) os of
                   Finished (None, os) \<Rightarrow> own payload os
                 | Finished (Some d, os) \<Rightarrow>
                     (case listsymbols callback (mk True) opt (the (bf_elf d)) (ge_scns (the (bf_elf d))) payload of
                        None \<Rightarrow> Fault
                      | Some (_, payload) \<Rightarrow> own payload (bcc_elf_file_close d os))
                 | Timeout \<Rightarrow> Timeout
                 | Fault \<Rightarrow> Fault)))"

definition elf_foreach_sym ::
  "nat \<Rightarrow> 'z elf_env \<Rightarrow> string \<Rightarrow> (string \<Rightarrow> u64 \<Rightarrow> u64 \<Rightarrow> 's \<Rightarrow> int \<times> 's) \<Rightarrow> bcc_symbol_option \<Rightarrow> 's \<Rightarrow> os_res \<Rightarrow>
   (int \<times> 's \<times> os_res) loop_res" where
  "elf_foreach_sym fuel env path callback opt =
     elf_foreach_sym_core fuel env path callback (\<lambda>_ _ _ name. name) (opt\<lparr>so_lazy_symbolize := False\<rparr>)"

definition elf_foreach_sym_lazy ::
  "nat \<Rightarrow> 'z elf_env \<Rightarrow> string \<Rightarrow> (name_idx \<Rightarrow> u64 \<Rightarrow> u64 \<Rightarrow> 's \<Rightarrow> int \<times> 's) \<Rightarrow> bcc_symbol_option \<Rightarrow> 's \<Rightarrow> os_res \<Rightarrow>
   (int \<times> 's \<times> os_res) loop_res" where
  "elf_foreach_sym_lazy fuel env path callback opt =
     elf_foreach_sym_core fuel env path callback
       (\<lambda>debugfile stridx symb name.
          \<lparr>ni_section_idx = stridx, ni_str_table_idx = gy_name symb, ni_str_len = length name, ni_debugfile = debugfile\<rparr>)
       (opt\<lparr>so_lazy_symbolize := True\<rparr>)"

section \<open>Reading single facts\<close>

text \<open>The result of the function is 0 if there is a value.\<close>

definition bcc_elf_get_text_scn_info :: "'z elf_env \<Rightarrow> string \<Rightarrow> os_res \<Rightarrow> ((u64 \<times> u64) option \<times> os_res) option" where
  "bcc_elf_get_text_scn_info env path os = do {
     (f, os) \<leftarrow> bcc_elf_file_open env path os;
     case f of
       None \<Rightarrow> Some (None, os)
     | Some f \<Rightarrow>
         (let e = the (bf_elf f) in
          Some (case ge_shstrndx e of
                  None \<Rightarrow> None
                | Some stridx \<Rightarrow> map_option (\<lambda>(h, _). (gh_addr h, gh_offset h)) (next_scn (scn_named e stridx ''.text'') (ge_scns e)),
                bcc_elf_file_close f os))
   }"

definition PT_LOAD :: nat where "PT_LOAD = 1"
definition PF_X :: u32 where "PF_X = 1"

fun load_loop :: "(u64 \<Rightarrow> u64 \<Rightarrow> u64 \<Rightarrow> 's \<Rightarrow> int \<times> 's) \<Rightarrow> gelf_phdr option list \<Rightarrow> 's \<Rightarrow> int \<times> 's" where
  "load_loop callback [] payload = (0, payload)"
| "load_loop callback (None # hs) payload = load_loop callback hs payload"
| "load_loop callback (Some h # hs) payload =
     (if gp_type h \<noteq> PT_LOAD \<or> gp_flags h AND PF_X = 0 then load_loop callback hs payload
      else (let (res, payload) = callback (gp_vaddr h) (gp_memsz h) (gp_offset h) payload
            in if res < 0 then (1, payload) else load_loop callback hs payload))"

definition bcc_elf_foreach_load_section ::
  "'z elf_env \<Rightarrow> string \<Rightarrow> (u64 \<Rightarrow> u64 \<Rightarrow> u64 \<Rightarrow> 's \<Rightarrow> int \<times> 's) \<Rightarrow> 's \<Rightarrow> os_res \<Rightarrow> (int \<times> 's \<times> os_res) option" where
  "bcc_elf_foreach_load_section env path callback payload os = do {
     (f, os) \<leftarrow> bcc_elf_file_open env path os;
     case f of
       None \<Rightarrow> Some (- 1, payload, os)
     | Some f \<Rightarrow>
         (case ge_phdrs (the (bf_elf f)) of
            None \<Rightarrow> Some (- 1, payload, bcc_elf_file_close f os)
          | Some hs \<Rightarrow> (case load_loop callback hs payload of (err, payload) \<Rightarrow> Some (err, payload, bcc_elf_file_close f os)))
   }"

definition bcc_elf_get_type :: "'z elf_env \<Rightarrow> string \<Rightarrow> os_res \<Rightarrow> (int \<times> os_res) option" where
  "bcc_elf_get_type env path os = do {
     (f, os) \<leftarrow> bcc_elf_file_open env path os;
     case f of
       None \<Rightarrow> Some (- 1, os)
     | Some f \<Rightarrow> Some (case ge_type (the (bf_elf f)) of None \<Rightarrow> - 1 | Some t \<Rightarrow> t, bcc_elf_file_close f os)
   }"

definition SHT_DYNAMIC :: nat where "SHT_DYNAMIC = 6"
definition DT_FLAGS_1 :: u64 where "DT_FLAGS_1 = 0x6FFFFFFB"
definition DF_1_PIE :: u64 where "DF_1_PIE = 0x08000000"

text \<open>The entries are taken to have 16 bytes each, whatever the header says.\<close>

fun dyn_loop :: "nat \<Rightarrow> bytes \<Rightarrow> u64 \<Rightarrow> u64 \<Rightarrow> nat \<Rightarrow> bool loop_res" where
  "dyn_loop 0 buf entsize sz j = Timeout"
| "dyn_loop (Suc fuel) buf entsize sz j =
     (if \<not> word_of_nat j * entsize < sz then Finished False
      else
        (case rd_word buf (16 * j) 8 of
           None \<Rightarrow> Fault
         | Some tag \<Rightarrow>
             if tag \<noteq> DT_FLAGS_1 then dyn_loop fuel buf entsize sz (j + 1)
             else
               (case rd_word buf (16 * j + 8) 8 of
                  None \<Rightarrow> Fault
                | Some v \<Rightarrow> if v AND DF_1_PIE \<noteq> 0 then Finished True else dyn_loop fuel buf entsize sz (j + 1))))"

text \<open>The header of a section is a null pointer for a file of 32 bits, and used all the same.\<close>

fun pie_loop :: "nat \<Rightarrow> gelf_scn list \<Rightarrow> bool loop_res" where
  "pie_loop fuel [] = Finished False"
| "pie_loop fuel (s # ss) =
     (case gc_hdr s of
        None \<Rightarrow> Fault
      | Some h \<Rightarrow>
          if gh_type h \<noteq> SHT_DYNAMIC then pie_loop fuel ss
          else
            (case gc_data s of
               [] \<Rightarrow> Fault
             | block # _ \<Rightarrow>
                 (case dyn_loop fuel (gb_buf block) (gh_entsize h) (gh_size h) 0 of
                    Finished found \<Rightarrow> if found then Finished True else pie_loop fuel ss
                  | r \<Rightarrow> r)))"

definition bcc_elf_is_pie :: "nat \<Rightarrow> 'z elf_env \<Rightarrow> string \<Rightarrow> os_res \<Rightarrow> (bool \<times> os_res) loop_res" where
  "bcc_elf_is_pie fuel env path os =
     (case bcc_elf_file_open env path os of
        None \<Rightarrow> Fault
      | Some (None, os) \<Rightarrow> Finished (False, os)
      | Some (Some f, os) \<Rightarrow>
          (let e = the (bf_elf f) in
           if ge_class32 e \<and> ge_scn0 e then Fault
           else (case pie_loop fuel (ge_scns e) of
                   Finished res \<Rightarrow> Finished (res, bcc_elf_file_close f os)
                 | Timeout \<Rightarrow> Timeout
                 | Fault \<Rightarrow> Fault)))"

definition elf_is_exe :: "'z elf_env \<Rightarrow> string \<Rightarrow> os_res \<Rightarrow> (bool \<times> os_res) option" where
  "elf_is_exe env path os = do {
     (ty, os) \<leftarrow> bcc_elf_get_type env path os;
     Some (ty \<noteq> - 1 \<and> en_access_x env path, os)
   }"

definition elf_is_shared_obj :: "nat \<Rightarrow> 'z elf_env \<Rightarrow> string \<Rightarrow> os_res \<Rightarrow> (bool \<times> os_res) loop_res" where
  "elf_is_shared_obj fuel env path os =
     (case bcc_elf_get_type env path os of
        None \<Rightarrow> Fault
      | Some (ty, os) \<Rightarrow>
          (case bcc_elf_is_pie fuel env path os of
             Finished (is_pie, os) \<Rightarrow> Finished (ty = int ET_DYN \<and> \<not> is_pie, os)
           | Timeout \<Rightarrow> Timeout
           | Fault \<Rightarrow> Fault))"

definition bcc_elf_get_buildid :: "'z elf_env \<Rightarrow> string \<Rightarrow> nat \<Rightarrow> os_res \<Rightarrow> (string option \<times> os_res) option" where
  "bcc_elf_get_buildid env path sz os = do {
     (f, os) \<leftarrow> bcc_elf_file_open env path os;
     case f of
       None \<Rightarrow> Some (None, os)
     | Some f \<Rightarrow> do {
         r \<leftarrow> find_buildid sz (the (bf_elf f));
         Some (r, bcc_elf_file_close f os)
       }
   }"

definition bcc_elf_symbol_str ::
  "nat \<Rightarrow> 'z elf_env \<Rightarrow> string \<Rightarrow> nat \<Rightarrow> nat \<Rightarrow> nat \<Rightarrow> bool \<Rightarrow> os_res \<Rightarrow> (string option \<times> os_res) loop_res" where
  "bcc_elf_symbol_str fuel env path section_idx str_table_idx len debugfile os =
     (case bcc_elf_file_open env path os of
        None \<Rightarrow> Fault
      | Some (None, os) \<Rightarrow> Finished (None, os)
      | Some (Some f, os) \<Rightarrow>
          (let str = (\<lambda>e. map_option (take len) (ge_strptr e section_idx str_table_idx)) in
           if \<not> debugfile then Finished (str (the (bf_elf f)), bcc_elf_file_close f os)
           else
             (case find_debug_file fuel env (the (bf_elf f)) path False os of
                Finished (None, os) \<Rightarrow> Finished (None, bcc_elf_file_close f os)
              | Finished (Some d, os) \<Rightarrow> Finished (str (the (bf_elf d)), bcc_elf_file_close f (bcc_elf_file_close d os))
              | Timeout \<Rightarrow> Timeout
              | Fault \<Rightarrow> Fault)))"

section \<open>The vDSO\<close>

text \<open>
  The static variable \<^verbatim>\<open>vdso_image_fd\<close>: not initialised, failed, or a file with the image, which stays open.  The memory of the
  process, and whether it can be copied and written to a temporary file, are parameters.
\<close>

datatype vdso_image = Vdso_unset | Vdso_failed | Vdso_image bytes

record vdso_env =
  vd_mem :: "u64 \<Rightarrow> u64 \<Rightarrow> bytes"
  vd_malloc :: bool
  vd_mkostemp :: bool
  vd_write :: bool

definition find_vdso :: "vdso_env \<Rightarrow> mod_info \<Rightarrow> bool \<Rightarrow> vdso_image \<Rightarrow> int \<times> vdso_image" where
  "find_vdso venv info enter_ns st =
     (if \<not> bcc_elf_is_vdso (mi_name info) then (0, st)
      else if vd_malloc venv \<and> vd_mkostemp venv \<and> vd_write venv
      then (- 1, Vdso_image (vd_mem venv (mi_start_addr info) (mi_end_addr info - mi_start_addr info)))
      else (- 1, st))"

definition vdso_symbol_option :: bcc_symbol_option where
  "vdso_symbol_option = \<lparr>so_use_debug_file = False, so_check_debug_file_crc = False, so_lazy_symbolize = False,
     so_use_symbol_type = push_bit 2 1 OR push_bit 10 1\<rparr>"

definition bcc_elf_foreach_vdso_sym ::
  "'z elf_env \<Rightarrow> 'e proc_env_scheme \<Rightarrow> vdso_env \<Rightarrow> int \<Rightarrow> (string \<Rightarrow> u64 \<Rightarrow> u64 \<Rightarrow> 's \<Rightarrow> int \<times> 's) \<Rightarrow> 's \<Rightarrow>
   vdso_image \<Rightarrow> os_res \<Rightarrow> (int \<times> 's \<times> vdso_image \<times> os_res) option" where
  "bcc_elf_foreach_vdso_sym env penv venv pid callback payload st os = do {
     (os, st) \<leftarrow> (if st = Vdso_unset
                  then map_option snd (bcc_procutils_each_module penv os (en_entry env) pid (find_vdso venv) Vdso_failed)
                  else Some (os, st));
     case st of
       Vdso_image bs \<Rightarrow>
         (case openelf env bs os of
            (None, os) \<Rightarrow> Some (- 1, payload, st, os)
          | (Some e, os) \<Rightarrow> do {
              (rc, payload) \<leftarrow> listsymbols callback (\<lambda>_ _ name. name) vdso_symbol_option e (ge_scns e) payload;
              Some (rc, payload, st, os_free os)
            })
     | _ \<Rightarrow> Some (- 1, payload, st, os)
   }"

end
