(* ===== verification/Elf_Props.thy ===== *)
theory Elf_Props
  imports Elf_Debug
begin

text \<open>
  Reading object files holds no resource at its end, whatever file is found, and what the callback of a symbol
  enumeration sees is one list of symbols for the debug file, if there is one, and one for the file itself.
\<close>

section \<open>Well-formed objects\<close>

text \<open>
  The entries of a symbol table have a size, a build id has at most 63 bytes and the name of a debug file is terminated.
  The code relies on this without checking it.
\<close>

definition gelf_ok :: "gelf \<Rightarrow> bool" where
  "gelf_ok e \<longleftrightarrow>
     (\<forall>s \<in> set (ge_scns e). \<forall>h. gc_hdr s = Some h \<longrightarrow> gh_type h = SHT_SYMTAB \<or> gh_type h = SHT_DYNSYM \<longrightarrow> unat (gh_entsize h) \<noteq> 0) \<and>
     find_buildid 128 e \<noteq> None \<and> (\<forall>buf crc. find_debuglink e = Some (buf, crc) \<longrightarrow> 0 \<in> set buf)"

text \<open>
  A call of the decompressor stays inside its buffer, and one that does not end the decompression makes progress.
\<close>

definition elf_env_ok :: "nat \<Rightarrow> 'z elf_env \<Rightarrow> bool" where
  "elf_env_ok fuel env \<longleftrightarrow>
     (\<forall>contents e. en_elf env contents = Some e \<longrightarrow> gelf_ok e) \<and>
     (\<forall>lz. en_lzma env = Some lz \<longrightarrow> (\<exists>left.
        (\<forall>n z ret avail_in out z'. lz_code lz n z = (ret, avail_in, out, z') \<longrightarrow>
           length out \<le> n \<and> (ret = LZMA_OK \<longrightarrow> left z' < left z)) \<and>
        (\<forall>buf z. lz_init lz buf = Some z \<longrightarrow> left z + (1 :: nat) < fuel)))"

text \<open>
  A file that can be opened can be mapped; \<^verbatim>\<open>verify_checksum\<close> relies on it, which is called only when the checksums of debug
  files are asked for.
\<close>

definition mmap_ok :: "'z elf_env \<Rightarrow> bool" where
  "mmap_ok env \<longleftrightarrow> (\<forall>file. en_open env file \<noteq> None \<longrightarrow> en_mmap env file)"

section \<open>Resources\<close>

text \<open>The outcome of an attempt to open a file: nothing is held, or a file whose closing releases what is held for it.\<close>

definition opened :: "os_res \<Rightarrow> bcc_elf_file option \<Rightarrow> os_res \<Rightarrow> bool" where
  "opened os r os' \<longleftrightarrow>
     (case r of None \<Rightarrow> os' = os | Some f \<Rightarrow> (\<exists>e. bf_elf f = Some e \<and> gelf_ok e) \<and> bcc_elf_file_close f os' = os)"

lemma open_none [simp]: "opened os None os' \<longleftrightarrow> os' = os"
  by (simp add: opened_def)

lemma openelf_cases:
  assumes "elf_env_ok fuel env"
  shows "openelf env contents os = (None, os) \<or> (\<exists>e. openelf env contents os = (Some e, os_malloc os) \<and> gelf_ok e)"
  using assms by (auto simp: openelf_def elf_env_ok_def split: option.split)

lemma file_open_accounts:
  assumes "elf_env_ok fuel env"
  shows "\<exists>r os'. bcc_elf_file_open env path os = Some (r, os') \<and> opened os r os'"
proof (cases "en_open env path")
  case (Some contents)
  then show ?thesis
    using openelf_cases [OF assms, of contents "os_open_fd os"]
    by (auto simp: bcc_elf_file_open_def bcc_elf_file_open_fd_def opened_def bcc_elf_file_close_def)
next
  case None
  obtain r e os' where o: "bcc_zip_archive_open_and_find (en_zip env) os (bytes_of path) (en_entry env) = Some (r, e, os')"
    and acc: "case r of None \<Rightarrow> os' = os
      | Some a \<Rightarrow> wf_archive a \<and> entry_in_bounds a e \<and> bcc_zip_archive_close os' a = os"
    using open_and_find_accounts by blast
  show ?thesis
  proof (cases r)
    case (Some a)
    then have "unat (ze_data e) + unat (ze_data_length e) \<le> length (za_data a)" and close: "bcc_zip_archive_close os' a = os"
      using acc by (auto simp: entry_in_bounds_def)
    then obtain data where "rd (za_data a) (unat (ze_data e)) (unat (ze_data_length e)) = Some data"
      by (auto simp: rd_def)
    then show ?thesis
      using None o Some close openelf_cases [OF assms, of data os']
      by (auto simp: bcc_elf_file_open_def opened_def bcc_elf_file_close_def)
  qed (use None o acc in \<open>auto simp: bcc_elf_file_open_def\<close>)
qed

lemma verify_checksum_accounts:
  assumes "mmap_ok env"
  shows "\<exists>ok. verify_checksum env file crc os = Some (ok, os)"
  using assms by (auto simp: verify_checksum_def mmap_ok_def Let_def split: option.split)

lemma debuglink_candidate_accounts:
  assumes "elf_env_ok fuel env" "check_crc \<Longrightarrow> mmap_ok env"
  shows "\<exists>r os'. try_open_debuglink_candidate env path check_crc crc os = Some (r, os') \<and> opened os r os'"
proof -
  obtain ok where "(if check_crc then verify_checksum env path crc os else Some (True, os)) = Some (ok, os)"
    using verify_checksum_accounts [of env path crc os] assms(2) by (cases check_crc) auto
  then show ?thesis
    using file_open_accounts [OF assms(1), of path os] by (auto simp: try_open_debuglink_candidate_def)
qed

lemma first_opened_accounts:
  assumes "\<And>t os. t \<in> set ts \<Longrightarrow> \<exists>r os'. t os = Some (r, os') \<and> opened os r os'"
  shows "\<exists>r os'. first_opened ts os = Some (r, os') \<and> opened os r os'"
  using assms
proof (induction ts)
  case (Cons t ts)
  obtain r os' where t: "t os = Some (r, os')" "opened os r os'"
    using Cons.prems by (meson list.set_intros(1))
  show ?case
    using t Cons by (cases r) auto
qed simp

lemma debuglink_accounts:
  assumes "elf_env_ok fuel env" "gelf_ok e" "check_crc \<Longrightarrow> mmap_ok env"
  shows "\<exists>r os'. find_debug_via_debuglink env e path check_crc os = Some (r, os') \<and> opened os r os'"
proof (cases "find_debuglink e")
  case (Some p)
  obtain buf crc where p: "p = (buf, crc)"
    by fastforce
  then have "0 \<in> set buf"
    using Some assms(2) by (auto simp: gelf_ok_def)
  then obtain name where "ld_cstr_at buf 0 = Some name"
    by (auto simp: ld_cstr_at_def split: if_splits)
  then show ?thesis
    unfolding find_debug_via_debuglink_def Some p
    using debuglink_candidate_accounts [OF assms(1,3)]
    by (simp add: Let_def del: first_opened.simps) (rule first_opened_accounts, auto)
qed (simp add: find_debug_via_debuglink_def)

lemma buildid_some: "gelf_ok e \<Longrightarrow> \<exists>r. find_buildid 128 e = Some r"
  by (auto simp: gelf_ok_def)

lemma buildid_accounts:
  assumes "elf_env_ok fuel env" "gelf_ok e"
  shows "\<exists>r os'. find_debug_via_buildid env e os = Some (r, os') \<and> opened os r os'"
proof -
  obtain r where "find_buildid 128 e = Some r"
    using buildid_some [OF assms(2)] by blast
  then show ?thesis
    using file_open_accounts [OF assms(1)] by (cases r) (auto simp: find_debug_via_buildid_def)
qed

lemma symfs_accounts:
  assumes "elf_env_ok fuel env" "gelf_ok e"
  shows "\<exists>r os'. find_debug_via_symfs env e path os = Some (r, os') \<and> opened os r os'"
proof (cases "en_getenv env ''BCC_SYMFS''")
  case (Some symfs)
  let ?path = "snprintf_trunc PATH_MAX (symfs @ ''/'' @ drop (ns_prefix_length path) path)"
  obtain id where id: "find_buildid 128 e = Some id"
    using buildid_some [OF assms(2)] by blast
  obtain r os' where o: "bcc_elf_file_open env ?path os = Some (r, os')" "opened os r os'"
    using file_open_accounts [OF assms(1)] by blast
  show ?thesis
  proof (cases r)
    case (Some f)
    obtain fe where "bf_elf f = Some fe" "gelf_ok fe" "bcc_elf_file_close f os' = os"
      using o(2) Some by (auto simp: opened_def)
    then show ?thesis
      using \<open>en_getenv env _ = Some symfs\<close> id o Some buildid_some [of fe]
      by (cases id) (auto simp: find_debug_via_symfs_def Let_def)
  qed (use Some id o in \<open>auto simp: find_debug_via_symfs_def Let_def\<close>)
qed (simp add: find_debug_via_symfs_def)

lemma lzma_loop_accounts:
  assumes "\<And>n z ret avail_in out z'. lz_code lz n z = (ret, avail_in, out, z') \<Longrightarrow>
      length out \<le> n \<and> (ret = LZMA_OK \<longrightarrow> left z' < left z)"
    and "(left z :: nat) + 1 < fuel \<or> ret \<noteq> LZMA_OK \<and> 0 < fuel" "ret = LZMA_OK \<or> sz > 0" "avail_out < LZMA_MIN_BUFFER_SIZE \<or> sz > 0"
  shows "\<exists>ret' data' allocated os'. lzma_loop fuel env lz ret avail_in avail_out sz data z os = Finished (ret', data', allocated, os') \<and>
    os' = (if allocated \<and> sz = 0 then os_malloc os else os) \<and> (sz > 0 \<longrightarrow> allocated) \<and> (ret' = LZMA_STREAM_END \<longrightarrow> allocated)"
  using assms(2-4)
proof (induction fuel arbitrary: ret avail_in avail_out sz data z os)
  case (Suc fuel)
  show ?case
  proof (cases "ret \<noteq> LZMA_OK \<or> avail_in = 0")
    case True
    then show ?thesis
      using Suc.prems by auto
  next
    case False
    let ?grow = "avail_out < LZMA_MIN_BUFFER_SIZE"
    let ?sz = "if ?grow then sz + LZMA_MIN_BUFFER_SIZE else sz"
    let ?out = "if ?grow then avail_out + LZMA_MIN_BUFFER_SIZE else avail_out"
    obtain ret' ai out z' where c: "lz_code lz ?out z = (ret', ai, out, z')"
      by (metis surj_pair)
    have law: "length out \<le> ?out" "ret' = LZMA_OK \<Longrightarrow> left z' < left z"
      using assms(1) [OF c] by auto
    have sz: "?sz > 0"
      using Suc.prems(3) by (auto simp: LZMA_MIN_BUFFER_SIZE_def)
    show ?thesis
    proof (cases "?grow \<and> \<not> en_realloc env ?sz")
      case True
      then show ?thesis
        using False by (auto simp: Let_def)
    next
      case ok: False
      obtain rr dd aa oo where "lzma_loop fuel env lz ret' ai (?out - length out) ?sz (data @ out) z'
          (if sz = 0 \<and> ?grow then os_malloc os else os) = Finished (rr, dd, aa, oo)"
        "oo = (if sz = 0 \<and> ?grow then os_malloc os else os)" "aa"
        using Suc.IH [of z' ret' ?sz "?out - length out" ai "data @ out" "if sz = 0 \<and> ?grow then os_malloc os else os"]
          Suc.prems(1) False law(2) sz by (cases "ret' = LZMA_OK") auto
      then show ?thesis
        using False ok c law(1) Suc.prems(3) by (auto simp: Let_def)
    qed
  qed
qed auto

lemma mini_debug_info_accounts:
  assumes "elf_env_ok fuel env"
  shows "\<exists>r os'. find_debug_via_mini_debug_info fuel env e os = Finished (r, os') \<and> opened os r os'"
proof -
  have "\<exists>r os'. open_mini_debug_info_file fuel env lz buf os = Finished (r, os') \<and> opened os r os'" if lz: "en_lzma env = Some lz" for lz buf
  proof (cases "lz_init lz buf")
    case (Some z)
    have "\<exists>left. (\<forall>n z ret avail_in out z'. lz_code lz n z = (ret, avail_in, out, z') \<longrightarrow>
        length out \<le> n \<and> (ret = LZMA_OK \<longrightarrow> left z' < left z)) \<and>
        (\<forall>buf z. lz_init lz buf = Some z \<longrightarrow> left z + (1 :: nat) < fuel)"
      using assms lz by (simp add: elf_env_ok_def)
    then obtain left where left: "\<And>n z ret avail_in out z'. lz_code lz n z = (ret, avail_in, out, z') \<Longrightarrow>
        length out \<le> n \<and> (ret = LZMA_OK \<longrightarrow> left z' < left z)" "left z + (1 :: nat) < fuel"
      using Some by blast
    obtain ret data a os1 where l: "lzma_loop fuel env lz LZMA_OK (length buf) 0 0 [] z os = Finished (ret, data, a, os1)"
      "os1 = (if a then os_malloc os else os)" "ret = LZMA_STREAM_END \<Longrightarrow> a"
      using lzma_loop_accounts [of lz left z fuel LZMA_OK 0 0 env "length buf" "[]" os] left
      by (auto simp: LZMA_MIN_BUFFER_SIZE_def)
    show ?thesis
      using Some l openelf_cases [OF assms, of data os1]
      by (cases "ret = LZMA_STREAM_END")
        (auto simp: open_mini_debug_info_file_def Let_def bcc_elf_file_open_buf_def opened_def bcc_elf_file_close_def)
  qed (simp add: open_mini_debug_info_file_def)
  then show ?thesis
    by (auto simp: find_debug_via_mini_debug_info_def split: option.split)
qed

lemma debuginfod_accounts:
  assumes "elf_env_ok fuel env" "gelf_ok e"
  shows "\<exists>r os'. find_debug_via_debuginfod env e os = Some (r, os') \<and> opened os r os'"
proof -
  obtain r where r: "find_buildid 128 e = Some r"
    using buildid_some [OF assms(2)] by blast
  have fd: "\<exists>r os'. (case bcc_elf_file_open_fd env contents (os_open_fd os) of
      (None, os) \<Rightarrow> (None, os_close_fd os) | (Some f, os) \<Rightarrow> (Some f, os)) = (r, os') \<and> opened os r os'" for contents
    using openelf_cases [OF assms(1), of contents "os_open_fd os"]
    by (auto simp: bcc_elf_file_open_fd_def opened_def bcc_elf_file_close_def)
  show ?thesis
    using r fd by (auto simp: find_debug_via_debuginfod_def split: option.split)
qed

lemma find_debug_file_accounts:
  assumes "elf_env_ok fuel env" "gelf_ok e" "check_crc \<Longrightarrow> mmap_ok env"
  shows "\<exists>r os'. find_debug_file fuel env e path check_crc os = Finished (r, os') \<and> opened os r os'"
proof -
  let ?ts = "[find_debug_via_symfs env e path, find_debug_via_buildid env e, find_debug_via_debuglink env e path check_crc]"
  have "\<exists>r os'. first_opened ?ts os = Some (r, os') \<and> opened os r os'"
    by (rule first_opened_accounts) (use symfs_accounts [OF assms(1,2)] buildid_accounts [OF assms(1,2)] debuglink_accounts [OF assms] in auto)
  then obtain r os1 where f: "first_opened ?ts os = Some (r, os1)" "opened os r os1"
    by blast
  obtain r2 os2 where m: "find_debug_via_mini_debug_info fuel env e os = Finished (r2, os2)" "opened os r2 os2"
    using mini_debug_info_accounts [OF assms(1)] by blast
  show ?thesis
  proof (cases r)
    case None
    then show ?thesis
      using f m debuginfod_accounts [OF assms(1,2), of os]
      by (cases r2) (auto simp: find_debug_file_def opt_loop_def simp del: first_opened.simps)
  qed (use f in \<open>auto simp: find_debug_file_def simp del: first_opened.simps\<close>)
qed

text \<open>The functions that read a single fact.\<close>

lemma elf_readers_release:
  assumes "elf_env_ok fuel env"
  shows "\<exists>r. bcc_elf_get_text_scn_info env path os = Some (r, os)"
    and "\<exists>r. bcc_elf_get_type env path os = Some (r, os)"
    and "\<exists>r p'. bcc_elf_foreach_load_section env path cb p os = Some (r, p', os)"
    and "\<exists>r. bcc_elf_get_buildid env path 128 os = Some (r, os)"
    and "\<exists>r. bcc_elf_symbol_str fuel env path section_idx str_table_idx len debugfile os = Finished (r, os)"
proof -
  obtain r os1 where o: "bcc_elf_file_open env path os = Some (r, os1)" "opened os r os1"
    using file_open_accounts [OF assms] by blast
  show "\<exists>r. bcc_elf_get_text_scn_info env path os = Some (r, os)" "\<exists>r. bcc_elf_get_type env path os = Some (r, os)"
    "\<exists>r p'. bcc_elf_foreach_load_section env path cb p os = Some (r, p', os)"
    using o by (auto simp: bcc_elf_get_text_scn_info_def bcc_elf_get_type_def bcc_elf_foreach_load_section_def opened_def Let_def
        split: option.splits prod.split)
  show "\<exists>r. bcc_elf_get_buildid env path 128 os = Some (r, os)"
    using o buildid_some by (cases r) (fastforce simp: bcc_elf_get_buildid_def opened_def)+
  show "\<exists>r. bcc_elf_symbol_str fuel env path section_idx str_table_idx len debugfile os = Finished (r, os)"
  proof (cases r)
    case (Some f)
    then obtain e where e: "bf_elf f = Some e" "gelf_ok e" "bcc_elf_file_close f os1 = os"
      using o(2) by (auto simp: opened_def)
    obtain d os2 where "find_debug_file fuel env e path False os1 = Finished (d, os2)" "opened os1 d os2"
      using find_debug_file_accounts [OF assms e(2), of False path os1] by auto
    then show ?thesis
      using o(1) Some e by (cases d) (auto simp: bcc_elf_symbol_str_def opened_def Let_def)
  qed (use o in \<open>auto simp: bcc_elf_symbol_str_def\<close>)
qed

text \<open>What is not checked: a build id of 64 bytes does not fit, and a file of 32 bits is a null pointer.\<close>

lemma find_buildid_overflows:
  assumes "get_section_elf_data e ''.note.gnu.build-id'' = Some block" "gb_buf block = hdr @ bytes_of (''GNU'' @ [CHR 0x00]) @ bid"
    and "length hdr = 12" "length bid = 64"
  shows "find_buildid 128 e = None"
  using assms by (simp add: find_buildid_def bytes_of_def)

lemma is_pie_null_header:
  assumes "bcc_elf_file_open env path os = Some (Some f, os1)" "bf_elf f = Some e" "ge_class32 e" "ge_scn0 e"
  shows "bcc_elf_is_pie fuel env path os = Fault"
  using assms by (simp add: bcc_elf_is_pie_def)

section \<open>The symbols that are reported\<close>

definition sym_entries :: "(nat \<Rightarrow> gelf_sym \<Rightarrow> string \<Rightarrow> 'n) \<Rightarrow> bcc_symbol_option \<Rightarrow> gelf \<Rightarrow> nat \<Rightarrow> gelf_sym option \<Rightarrow> ('n \<times> u64 \<times> u64) list" where
  "sym_entries mk opt e stridx s =
     (case s of
        None \<Rightarrow> []
      | Some symb \<Rightarrow>
          (case sym_reported opt e stridx symb of None \<Rightarrow> [] | Some name \<Rightarrow> [(mk stridx symb name, gy_value symb, gy_size symb)]))"

text \<open>The symbols up to the first block whose size is not a multiple of that of a symbol, and whether there is one.\<close>

fun block_entries ::
  "(nat \<Rightarrow> gelf_sym \<Rightarrow> string \<Rightarrow> 'n) \<Rightarrow> bcc_symbol_option \<Rightarrow> gelf \<Rightarrow> nat \<Rightarrow> nat \<Rightarrow> gelf_block list \<Rightarrow> ('n \<times> u64 \<times> u64) list \<times> bool" where
  "block_entries mk opt e stridx symsize [] = ([], False)"
| "block_entries mk opt e stridx symsize (b # bs) =
     (if length (gb_buf b) mod symsize \<noteq> 0 then ([], True)
      else (case block_entries mk opt e stridx symsize bs of
              (xs, err) \<Rightarrow> (concat (map (sym_entries mk opt e stridx \<circ> gb_sym b) [0..<length (gb_buf b) div symsize]) @ xs, err)))"

fun file_entries ::
  "(nat \<Rightarrow> gelf_sym \<Rightarrow> string \<Rightarrow> 'n) \<Rightarrow> bcc_symbol_option \<Rightarrow> gelf \<Rightarrow> gelf_scn list \<Rightarrow> ('n \<times> u64 \<times> u64) list \<times> bool" where
  "file_entries mk opt e [] = ([], False)"
| "file_entries mk opt e (s # ss) =
     (case gc_hdr s of
        None \<Rightarrow> file_entries mk opt e ss
      | Some h \<Rightarrow>
          if gh_type h \<noteq> SHT_SYMTAB \<and> gh_type h \<noteq> SHT_DYNSYM then file_entries mk opt e ss
          else (case block_entries mk opt e (gh_link h) (unat (gh_entsize h)) (gc_data s) of
                  (xs, err) \<Rightarrow> if err then (xs, True) else (case file_entries mk opt e ss of (ys, err) \<Rightarrow> (xs @ ys, err))))"

lemma list_syms_append:
  "list_syms cb (xs @ ys) p = (case list_syms cb xs p of (stopped, p) \<Rightarrow> if stopped then (True, p) else list_syms cb ys p)"
  by (induction cb xs p rule: list_syms.induct) (auto simp: Let_def split: prod.split)

lemma sym_loop_entries:
  "sym_loop cb mk opt e stridx b is p = list_syms cb (concat (map (sym_entries mk opt e stridx \<circ> gb_sym b) is)) p"
  by (induction "is" arbitrary: p) (auto simp: sym_entries_def Let_def split: option.split prod.split)

lemma list_in_scn_entries:
  assumes "symsize \<noteq> 0"
  shows "list_in_scn cb mk opt e stridx symsize bs p =
    (case block_entries mk opt e stridx symsize bs of (xs, err) \<Rightarrow>
       (case list_syms cb xs p of (stopped, p) \<Rightarrow> Some (if stopped then 1 else if err then - 1 else 0, p)))"
  using assms
  by (induction bs arbitrary: p) (auto simp: sym_loop_entries list_syms_append split: prod.split)

lemma listsymbols_entries:
  assumes "\<forall>s \<in> set ss. \<forall>h. gc_hdr s = Some h \<longrightarrow> gh_type h = SHT_SYMTAB \<or> gh_type h = SHT_DYNSYM \<longrightarrow> unat (gh_entsize h) \<noteq> 0"
  shows "listsymbols cb mk opt e ss p =
    (case file_entries mk opt e ss of (xs, err) \<Rightarrow>
       (case list_syms cb xs p of (stopped, p) \<Rightarrow> Some (if err \<and> \<not> stopped then - 1 else 0, p)))"
  using assms
proof (induction ss arbitrary: p)
  case (Cons s ss)
  show ?case
  proof (cases "gc_hdr s")
    case (Some h)
    obtain xs err ys err' where b: "block_entries mk opt e (gh_link h) (unat (gh_entsize h)) (gc_data s) = (xs, err)"
        "file_entries mk opt e ss = (ys, err')"
      by fastforce
    show ?thesis
      using Cons Some b
      by (auto simp: list_in_scn_entries list_syms_append split: prod.split)
  qed (use Cons in auto)
qed simp

lemma listsymbols_ok:
  assumes "gelf_ok e"
  shows "listsymbols cb mk opt e (ge_scns e) p =
    (case list_syms cb (fst (file_entries mk opt e (ge_scns e))) p of
       (stopped, p) \<Rightarrow> Some (if snd (file_entries mk opt e (ge_scns e)) \<and> \<not> stopped then - 1 else 0, p))"
  using assms by (subst listsymbols_entries) (auto simp: gelf_ok_def case_prod_beta)

text \<open>
  The documented iteration over a list of symbols: it ends at the first negative value of the callback; the result is -1 on
  an error and 0 if the callback has stopped it.
\<close>

definition doc_foreach_sym :: "('n \<Rightarrow> u64 \<Rightarrow> u64 \<Rightarrow> 's \<Rightarrow> int \<times> 's) \<Rightarrow> ('n \<times> u64 \<times> u64) list \<Rightarrow> bool \<Rightarrow> 's \<Rightarrow> int \<times> 's" where
  "doc_foreach_sym cb syms err p = (case list_syms cb syms p of (stopped, p) \<Rightarrow> (if err \<and> \<not> stopped then - 1 else 0, p))"

lemma foreach_sym_core_doc:
  assumes "length ds \<le> 1" "\<not> fst (list_syms cb (concat ds) p)"
  shows "foreach_sym_core cb (ds @ [syms], err) p = doc_foreach_sym cb (concat ds @ syms) err p"
proof -
  have "ds = [] \<or> (\<exists>d. ds = [d])"
    using assms(1) by (cases ds) auto
  then show ?thesis
    using assms(2) by (auto simp: foreach_sym_core_def doc_foreach_sym_def list_syms_append split: prod.splits)
qed

text \<open>Not so when the callback stops in the debug file: it is called again for the symbols of the file itself.\<close>

lemma foreach_sym_core_goes_on:
  assumes "fst (list_syms cb d p)"
  shows "doc_foreach_sym cb (d @ syms) err p = (0, snd (list_syms cb d p))"
    and "foreach_sym_core cb ([d, syms], err) p = doc_foreach_sym cb syms err (snd (list_syms cb d p))"
  using assms by (auto simp: foreach_sym_core_def doc_foreach_sym_def list_syms_append split: prod.splits)

lemma elf_foreach_sym_core_own:
  assumes "bcc_elf_file_open env path os = Some (Some f, os1)" "bf_elf f = Some e" "gelf_ok e" "bcc_elf_file_close f os1 = os"
    and "so_use_debug_file opt \<Longrightarrow> find_debug_file fuel env e path (so_check_debug_file_crc opt) os1 = Finished (None, os1)"
  shows "elf_foreach_sym_core fuel env path cb mk opt p os = Finished (case foreach_sym_core cb
      ([fst (file_entries (mk False) opt e (ge_scns e))], snd (file_entries (mk False) opt e (ge_scns e))) p of (ret, p) \<Rightarrow> (ret, p, os))"
  using assms by (simp add: elf_foreach_sym_core_def foreach_sym_core_def listsymbols_ok Let_def split: prod.split)

lemma elf_foreach_sym_core_debug:
  assumes "bcc_elf_file_open env path os = Some (Some f, os1)" "bf_elf f = Some e" "gelf_ok e" "bcc_elf_file_close f os1 = os"
    and "so_use_debug_file opt" "find_debug_file fuel env e path (so_check_debug_file_crc opt) os1 = Finished (Some df, os2)"
    and "bf_elf df = Some de" "gelf_ok de" "bcc_elf_file_close df os2 = os1"
  shows "elf_foreach_sym_core fuel env path cb mk opt p os = Finished (case foreach_sym_core cb
      ([fst (file_entries (mk True) opt de (ge_scns de)), fst (file_entries (mk False) opt e (ge_scns e))],
       snd (file_entries (mk False) opt e (ge_scns e))) p of (ret, p) \<Rightarrow> (ret, p, os))"
  using assms by (simp add: elf_foreach_sym_core_def foreach_sym_core_def listsymbols_ok Let_def split: prod.split)

text \<open>The lists of symbols of the debug file, none or one, and the symbols of the file itself.\<close>

definition debug_lists ::
  "nat \<Rightarrow> 'z elf_env \<Rightarrow> string \<Rightarrow> (nat \<Rightarrow> gelf_sym \<Rightarrow> string \<Rightarrow> 'n) \<Rightarrow> bcc_symbol_option \<Rightarrow> gelf \<Rightarrow> os_res \<Rightarrow> ('n \<times> u64 \<times> u64) list list" where
  "debug_lists fuel env path mk opt e os =
     (if \<not> so_use_debug_file opt then []
      else (case find_debug_file fuel env e path (so_check_debug_file_crc opt) os of
              Finished (Some d, _) \<Rightarrow> [fst (file_entries mk opt (the (bf_elf d)) (ge_scns (the (bf_elf d))))]
            | _ \<Rightarrow> []))"

definition reported_syms ::
  "nat \<Rightarrow> 'z elf_env \<Rightarrow> string \<Rightarrow> (bool \<Rightarrow> nat \<Rightarrow> gelf_sym \<Rightarrow> string \<Rightarrow> 'n) \<Rightarrow> bcc_symbol_option \<Rightarrow> os_res \<Rightarrow>
   ('n \<times> u64 \<times> u64) list list \<times> ('n \<times> u64 \<times> u64) list \<times> bool" where
  "reported_syms fuel env path mk opt os =
     (case bcc_elf_file_open env path os of
        Some (Some f, os) \<Rightarrow>
          (let e = the (bf_elf f) in (debug_lists fuel env path (mk True) opt e os, file_entries (mk False) opt e (ge_scns e)))
      | _ \<Rightarrow> ([], [], True))"

lemma reported_syms_length: "reported_syms fuel env path mk opt os = (ds, syms, err) \<Longrightarrow> length ds \<le> 1"
  by (auto simp: reported_syms_def debug_lists_def Let_def split: option.splits prod.splits loop_res.splits if_splits)

lemma elf_foreach_sym_core_lists:
  assumes "elf_env_ok fuel env" "so_use_debug_file opt \<Longrightarrow> so_check_debug_file_crc opt \<Longrightarrow> mmap_ok env"
    and "reported_syms fuel env path mk opt os = (ds, syms, err)"
  shows "elf_foreach_sym_core fuel env path cb mk opt p os =
      Finished (case foreach_sym_core cb (ds @ [syms], err) p of (ret, p) \<Rightarrow> (ret, p, os))"
proof -
  obtain r os1 where o: "bcc_elf_file_open env path os = Some (r, os1)" "opened os r os1"
    using file_open_accounts [OF assms(1)] by blast
  show ?thesis
  proof (cases r)
    case None
    then show ?thesis
      using o assms(3) by (auto simp: elf_foreach_sym_core_def foreach_sym_core_def reported_syms_def)
  next
    case (Some f)
    then obtain e where e: "bf_elf f = Some e" "gelf_ok e" "bcc_elf_file_close f os1 = os"
      using o(2) by (auto simp: opened_def)
    note own = o(1) [unfolded Some] e
    have d: "\<exists>d os2. find_debug_file fuel env e path (so_check_debug_file_crc opt) os1 = Finished (d, os2) \<and> opened os1 d os2"
      if "so_use_debug_file opt"
      by (rule find_debug_file_accounts [OF assms(1) e(2) assms(2) [OF that]])
    have lists: "ds = debug_lists fuel env path (mk True) opt e os1" "file_entries (mk False) opt e (ge_scns e) = (syms, err)"
      using assms(3) own by (simp_all add: reported_syms_def)
    consider "so_use_debug_file opt \<Longrightarrow> find_debug_file fuel env e path (so_check_debug_file_crc opt) os1 = Finished (None, os1)"
      | df de os2 where "so_use_debug_file opt"
          "find_debug_file fuel env e path (so_check_debug_file_crc opt) os1 = Finished (Some df, os2)"
          "bf_elf df = Some de" "gelf_ok de" "bcc_elf_file_close df os2 = os1"
    proof (cases "so_use_debug_file opt")
      case True
      then obtain d os2 where "find_debug_file fuel env e path (so_check_debug_file_crc opt) os1 = Finished (d, os2)" "opened os1 d os2"
        using d by blast
      then show thesis
        using that True by (cases d) (auto simp: opened_def)
    qed (use that in blast)
    then show ?thesis
    proof cases
      case 1
      then show ?thesis
        using elf_foreach_sym_core_own [OF own, of opt fuel cb mk p] lists by (auto simp: debug_lists_def)
    next
      case 2
      then show ?thesis
        using elf_foreach_sym_core_debug [OF own 2, of cb mk p] lists by (simp add: debug_lists_def)
    qed
  qed
qed

text \<open>The vDSO is searched for once; after that its symbols come from the image that was saved.\<close>

lemma vdso_saved:
  assumes "elf_env_ok fuel env" "st = Vdso_image bs"
  shows "\<exists>ls. \<forall>(cb :: string \<Rightarrow> u64 \<Rightarrow> u64 \<Rightarrow> 's \<Rightarrow> int \<times> 's) p.
    bcc_elf_foreach_vdso_sym env penv venv pid cb p st os = Some (case foreach_sym_core cb ls p of (rc, p) \<Rightarrow> (rc, p, st, os))"
proof (cases "en_elf env bs")
  case None
  then show ?thesis
    using assms(2)
    by (intro exI [of _ "([], True)"]) (simp add: bcc_elf_foreach_vdso_sym_def openelf_def foreach_sym_core_def)
next
  case (Some e)
  then have "gelf_ok e"
    using assms(1) by (simp add: elf_env_ok_def)
  then show ?thesis
    using assms(2) Some
    by (intro exI [of _ "([fst (file_entries (\<lambda>_ _ name. name) vdso_symbol_option e (ge_scns e))],
          snd (file_entries (\<lambda>_ _ name. name) vdso_symbol_option e (ge_scns e)))"])
      (auto simp: bcc_elf_foreach_vdso_sym_def openelf_def foreach_sym_core_def listsymbols_ok split: prod.split)
qed

text \<open>
  (C35) Enumerating the symbols of a file is the documented iteration, for a callback that does not stop it at a symbol of the
  debug file: the callback is called for the symbols of the debug file, if debug files are asked for and one is found, and then for
  those of the file itself, of the wanted types and in the order of its tables, up to its first negative value.  The model that
  the symbol caches use in theory \<^verbatim>\<open>Sym_Cache\<close> yields the same.  Every file, mapping and allocation is released.  If the
  checksum of debug files is asked for, a file that can be opened can be mapped.
\<close>

theorem elf_foreach_sym_refines:
  assumes "elf_env_ok fuel env" "so_use_debug_file opt \<Longrightarrow> so_check_debug_file_crc opt \<Longrightarrow> mmap_ok env"
    and "reported_syms fuel env path (\<lambda>_ _ _ name. name) (opt\<lparr>so_lazy_symbolize := False\<rparr>) os = (ds, syms, err)"
    and "\<not> fst (list_syms cb (concat ds) p)"
    and "doc_foreach_sym cb (concat ds @ syms) err p = (ret, p')"
  shows "elf_foreach_sym fuel env path cb opt p os = Finished (ret, p', os) \<and>
    (se_list_syms senv path (opt\<lparr>so_lazy_symbolize := False\<rparr>) = (ds @ [syms], err) \<longrightarrow>
      bcc_elf_foreach_sym senv path cb opt p = (ret, opt\<lparr>so_lazy_symbolize := False\<rparr>, p'))"
proof -
  let ?opt = "opt\<lparr>so_lazy_symbolize := False\<rparr>"
  have core: "foreach_sym_core cb (ds @ [syms], err) p = (ret, p')"
    using foreach_sym_core_doc [OF reported_syms_length [OF assms(3)] assms(4)] assms(5) by simp
  have "elf_foreach_sym_core fuel env path cb (\<lambda>_ _ _ name. name) ?opt p os =
      Finished (case foreach_sym_core cb (ds @ [syms], err) p of (ret, p) \<Rightarrow> (ret, p, os))"
    by (rule elf_foreach_sym_core_lists [OF assms(1) _ assms(3)]) (use assms(2) in simp)
  then show ?thesis
    using core by (simp add: elf_foreach_sym_def bcc_elf_foreach_sym_def)
qed

text \<open>A file with a table of two symbols, one of which has no address, and a file below \<^verbatim>\<open>BCC_SYMFS\<close> with another name for it.\<close>

definition wit_gelf :: "string \<Rightarrow> gelf" where
  "wit_gelf name = \<lparr>ge_class32 = False, ge_shstrndx = Some 1, ge_scn0 = True,
     ge_scns = [\<lparr>gc_hdr = Some \<lparr>gh_name = 0, gh_type = SHT_SYMTAB, gh_flags = 0, gh_addr = 0, gh_offset = 0, gh_size = 48, gh_link = 2,
                                  gh_entsize = 24\<rparr>,
                 gc_data = [\<lparr>gb_buf = replicate 48 0,
                             gb_sym = (\<lambda>i. Some \<lparr>gy_name = i, gy_info = 0x12, gy_value = of_nat (16 * i), gy_size = 4\<rparr>)\<rparr>]\<rparr>],
     ge_strptr = (\<lambda>_ i. Some (if i = 0 then ''main'' else name)), ge_phdrs = None, ge_type = Some 2\<rparr>"

definition wit_elf_env :: "unit elf_env" where
  "wit_elf_env = \<lparr>en_open = (\<lambda>p. if p = ''/bin/a'' then Some [0x7F] else if p = ''/sym//bin/a'' then Some [0x7E] else None),
     en_elf = (\<lambda>bs. if bs = [0x7F] then Some (wit_gelf ''stop'') else if bs = [0x7E] then Some (wit_gelf ''halt'') else None),
     en_getnote = (\<lambda>_ _. None), en_zip = wit_env,
     en_entry = \<lparr>ze_compression = 0, ze_name = 0, ze_name_length = 0, ze_data = 0, ze_data_length = 0, ze_data_offset = 0\<rparr>,
     en_access = (\<lambda>p. p = ''/sym//bin/a''), en_access_x = (\<lambda>_. True), en_stat = (\<lambda>_. None), en_fstat = (\<lambda>_. True), en_mmap = (\<lambda>_. True),
     en_getenv = (\<lambda>v. if v = ''BCC_SYMFS'' then Some ''/sym'' else None), en_lzma = None, en_realloc = (\<lambda>_. True), en_debuginfod = None\<rparr>"

lemma wit_gelf_ok: "gelf_ok (wit_gelf name)"
  by (simp add: gelf_ok_def wit_gelf_def find_buildid_def find_debuglink_def get_section_elf_data_def get_section_def scn_named_def)

lemma wit_elf_env_ok: "elf_env_ok fuel wit_elf_env" "mmap_ok wit_elf_env"
  using wit_gelf_ok by (simp_all add: elf_env_ok_def mmap_ok_def wit_elf_env_def)

lemma wit_open:
  "bcc_elf_file_open wit_elf_env ''/bin/a'' os = Some (Some \<lparr>bf_elf = Some (wit_gelf ''stop''), bf_impl = FILE_TYPE_FD\<rparr>, os_malloc (os_open_fd os))"
  "bcc_elf_file_open wit_elf_env ''/sym//bin/a'' os = Some (Some \<lparr>bf_elf = Some (wit_gelf ''halt''), bf_impl = FILE_TYPE_FD\<rparr>, os_malloc (os_open_fd os))"
  by (simp_all add: bcc_elf_file_open_def bcc_elf_file_open_fd_def openelf_def wit_elf_env_def)

lemma wit_symfs:
  "find_debug_via_symfs wit_elf_env (wit_gelf name) ''/bin/a'' os = bcc_elf_file_open wit_elf_env ''/sym//bin/a'' os"
proof -
  have "ns_prefix_length ''/bin/a'' = 0"
    by code_simp
  moreover have "find_buildid 128 (wit_gelf name) = Some None"
    by (simp add: find_buildid_def get_section_elf_data_def get_section_def scn_named_def wit_gelf_def)
  moreover have "en_getenv wit_elf_env ''BCC_SYMFS'' = Some ''/sym''" "en_access wit_elf_env ''/sym//bin/a''"
    by (simp_all add: wit_elf_env_def)
  ultimately show ?thesis
    using wit_open(2) [of os] by (simp add: find_debug_via_symfs_def snprintf_trunc_def PATH_MAX_def)
qed

theorem elf_foreach_sym_refines_witness:
  "elf_env_ok 1 wit_elf_env \<and> mmap_ok wit_elf_env \<and> so_use_debug_file default_symbol_option \<and>
   elf_foreach_sym 1 wit_elf_env ''/bin/a'' (\<lambda>name addr sz p. (0, p @ [(name, addr)])) default_symbol_option []
     \<lparr>os_fds = 0, os_maps = 0, os_allocs = 0\<rparr> =
   Finished (0, [(''halt'', 16), (''stop'', 16)], \<lparr>os_fds = 0, os_maps = 0, os_allocs = 0\<rparr>)"
proof -
  let ?opt = "default_symbol_option\<lparr>so_lazy_symbolize := False\<rparr>" and ?os = "\<lparr>os_fds = 0, os_maps = 0, os_allocs = 0\<rparr>"
  let ?cb = "\<lambda>name addr sz p. (0, p @ [(name, addr)]) :: int \<times> (string \<times> u64) list"
  have use: "so_use_debug_file default_symbol_option" "so_use_debug_file ?opt"
    by (simp_all add: default_symbol_option_def)
  have entries: "file_entries (\<lambda>_ _ name. name) ?opt (wit_gelf n) (ge_scns (wit_gelf n)) = ([(n, 16, 4)], False)" if "n \<noteq> []" for n
    using that by (simp add: wit_gelf_def sym_entries_def sym_reported_def default_symbol_option_def upt_conv_Cons SHT_SYMTAB_def)
  have reported: "reported_syms 1 wit_elf_env ''/bin/a'' (\<lambda>_ _ _ name. name) ?opt ?os = ([[(''halt'', 16, 4)]], [(''stop'', 16, 4)], False)"
    using entries use
    by (simp add: reported_syms_def debug_lists_def find_debug_file_def wit_symfs wit_open Let_def)
  have run: "\<not> fst (list_syms ?cb (concat [[(''halt'', 16, 4)]]) [])"
    "doc_foreach_sym ?cb (concat [[(''halt'', 16, 4)]] @ [(''stop'', 16, 4)]) False [] = (0, [(''halt'', 16), (''stop'', 16)])"
    by (simp_all add: doc_foreach_sym_def)
  show ?thesis
    using conjunct1 [OF elf_foreach_sym_refines [OF wit_elf_env_ok(1) wit_elf_env_ok(2) reported run]] wit_elf_env_ok use(1) by simp
qed

end
