(* ===== verification/Elf_Notes.thy ===== *)
theory Elf_Notes
  imports Elf_Props
begin

text \<open>
  The notes that describe USDT probes: what the linker writes is what the callback of \<^verbatim>\<open>bcc_elf_foreach_usdt\<close> gets.
\<close>

section \<open>The format of notes\<close>

definition pad4 :: "bytes \<Rightarrow> bytes" where
  "pad4 bs = bs @ replicate ((4 - length bs mod 4) mod 4) 0"

definition note_bytes :: "u32 \<times> bytes \<times> bytes \<Rightarrow> bytes" where
  "note_bytes n = (case n of (ty, owner, desc) \<Rightarrow>
     enc_le 4 (length owner) @ enc_le 4 (length desc) @ enc_le 4 (unat ty) @ pad4 owner @ pad4 desc)"

text \<open>The documented behaviour of \<^verbatim>\<open>gelf_getnote\<close>.\<close>

definition getnote_law :: "(bytes \<Rightarrow> nat \<Rightarrow> gelf_note option) \<Rightarrow> bool" where
  "getnote_law getnote \<longleftrightarrow>
     (\<forall>pre ty owner desc post. length pre mod 4 = 0 \<longrightarrow> length owner < 2 ^ 32 \<longrightarrow> length desc < 2 ^ 32 \<longrightarrow>
        getnote (pre @ note_bytes (ty, owner, desc) @ post) (length pre) =
          Some \<lparr>gn_next = length pre + length (note_bytes (ty, owner, desc)), gn_type = ty, gn_namesz = word_of_nat (length owner),
                gn_descsz = word_of_nat (length desc), gn_name_off = length pre + 12,
                gn_desc_off = length pre + 12 + length (pad4 owner)\<rparr>) \<and>
     (\<forall>buf. getnote buf (length buf) = None)"

lemma length_pad4: "length (pad4 bs) mod 4 = 0"
proof -
  have "4 dvd m + (4 - m mod 4) mod 4" for m :: nat
  proof -
    have "4 dvd m mod 4 + (4 - m mod 4) mod 4"
      by (cases "m mod 4 = 0") simp_all
    then have "4 dvd 4 * (m div 4) + (m mod 4 + (4 - m mod 4) mod 4)"
      by (simp only: dvd_add_right_iff dvd_triv_left)
    then show ?thesis
      by (simp only: add.assoc [symmetric] mult_div_mod_eq)
  qed
  then show ?thesis
    unfolding pad4_def by (simp only: length_append length_replicate dvd_eq_mod_eq_0)
qed

lemma length_note_bytes: "length (note_bytes n) mod 4 = 0"
  using length_pad4 by (cases n) (simp add: note_bytes_def mod_add_eq [symmetric])

section \<open>Probes\<close>

definition usdt_desc :: "bool \<Rightarrow> bcc_elf_usdt \<Rightarrow> bytes" where
  "usdt_desc class32 p =
     (let n = (if class32 then 4 else 8) in
      enc_le n (unat (eu_pc p)) @ enc_le n (unat (eu_base_addr p)) @ enc_le n (unat (eu_semaphore p)) @
      bytes_of (eu_provider p) @ 0 # bytes_of (eu_name p) @ 0 # bytes_of (eu_arg_fmt p) @ [0])"

text \<open>A note describes a probe or is foreign.\<close>

datatype note_src = Usdt_note bcc_elf_usdt | Foreign_note u32 bytes bytes

lemma length_stapsdt_owner [simp]: "length stapsdt_owner = 8" "pad4 stapsdt_owner = stapsdt_owner"
  by (simp_all add: stapsdt_owner_def pad4_def)

fun src_note :: "bool \<Rightarrow> note_src \<Rightarrow> u32 \<times> bytes \<times> bytes" where
  "src_note class32 (Usdt_note p) = (NT_STAPSDT, stapsdt_owner, usdt_desc class32 p)"
| "src_note class32 (Foreign_note ty owner desc) = (ty, owner, desc)"

fun src_ok :: "bool \<Rightarrow> note_src \<Rightarrow> bool" where
  "src_ok class32 (Usdt_note p) \<longleftrightarrow>
     CHR 0x00 \<notin> set (eu_provider p) \<and> CHR 0x00 \<notin> set (eu_name p) \<and> CHR 0x00 \<notin> set (eu_arg_fmt p) \<and>
     length (usdt_desc class32 p) < 2 ^ 32 \<and>
     (class32 \<longrightarrow> unat (eu_pc p) < 2 ^ 32 \<and> unat (eu_base_addr p) < 2 ^ 32 \<and> unat (eu_semaphore p) < 2 ^ 32)"
| "src_ok class32 (Foreign_note ty owner desc) \<longleftrightarrow>
     (ty \<noteq> NT_STAPSDT \<or> owner \<noteq> stapsdt_owner) \<and> length owner < 2 ^ 32 \<and> length desc < 2 ^ 32"

text \<open>What the callback gets of a note: the offset of the semaphore is that in the file.\<close>

definition file_semaphore :: "gelf_shdr option \<Rightarrow> u64 \<Rightarrow> u64" where
  "file_semaphore ph semaphore =
     (case ph of None \<Rightarrow> 0 | Some h \<Rightarrow> if semaphore = 0 then 0 else semaphore - gh_addr h + gh_offset h)"

fun delivered :: "gelf_shdr option \<Rightarrow> u64 \<Rightarrow> note_src \<Rightarrow> bcc_elf_usdt list" where
  "delivered ph first_inst (Usdt_note p) =
     (if eu_pc p < first_inst then [] else [p\<lparr>eu_semaphore_offset := file_semaphore ph (eu_semaphore p)\<rparr>])"
| "delivered ph first_inst (Foreign_note ty owner desc) = []"

lemma rd_word_append:
  assumes "unat v < 256 ^ n" "k = length pre"
  shows "rd_word (pre @ enc_le n (unat v) @ post) k n = Some v"
  using assms by (simp add: rd_word_def rd_def le_nat_enc_le)

lemma parse_stapsdt_note_desc:
  assumes "src_ok class32 (Usdt_note p)"
  shows "parse_stapsdt_note ph (pre @ usdt_desc class32 p @ post) (length pre) class32 =
    Some (length pre + length (usdt_desc class32 p), p\<lparr>eu_semaphore_offset := file_semaphore ph (eu_semaphore p)\<rparr>)"
proof -
  define n where "n = (if class32 then 4 else 8 :: nat)"
  let ?pc = "enc_le n (unat (eu_pc p))" and ?ba = "enc_le n (unat (eu_base_addr p))" and ?se = "enc_le n (unat (eu_semaphore p))"
  let ?pr = "bytes_of (eu_provider p) @ [0]" and ?na = "bytes_of (eu_name p) @ [0]"
  define buf where "buf = pre @ usdt_desc class32 p @ post"
  have fits: "unat (eu_pc p) < 256 ^ n" "unat (eu_base_addr p) < 256 ^ n" "unat (eu_semaphore p) < 256 ^ n"
    using assms unsigned_less [of "eu_pc p", where 'a = nat] unsigned_less [of "eu_base_addr p", where 'a = nat]
      unsigned_less [of "eu_semaphore p", where 'a = nat] by (auto simp: n_def)
  have 1: "rd_word buf (length pre) n = Some (eu_pc p)"
    using rd_word_append [OF fits(1), of "length pre" pre] by (simp add: buf_def usdt_desc_def n_def Let_def)
  have 2: "rd_word buf (length pre + n) n = Some (eu_base_addr p)"
    using rd_word_append [OF fits(2), of "length pre + n" "pre @ ?pc"] by (simp add: buf_def usdt_desc_def n_def Let_def)
  have 3: "rd_word buf (length pre + 2 * n) n = Some (eu_semaphore p)"
    using rd_word_append [OF fits(3), of "length pre + 2 * n" "pre @ ?pc @ ?ba"] by (simp add: buf_def usdt_desc_def n_def Let_def)
  have 4: "ld_cstr_at buf (length pre + 3 * n) = Some (eu_provider p)"
    using ld_cstr_at_append [of "eu_provider p" "length pre + 3 * n" "pre @ ?pc @ ?ba @ ?se"] assms
    by (simp add: buf_def usdt_desc_def n_def Let_def)
  have 5: "ld_cstr_at buf (length pre + 3 * n + length (eu_provider p) + 1) = Some (eu_name p)"
    using ld_cstr_at_append [of "eu_name p" "length pre + 3 * n + length (eu_provider p) + 1" "pre @ ?pc @ ?ba @ ?se @ ?pr"] assms
    by (simp add: buf_def usdt_desc_def n_def Let_def)
  have 6: "ld_cstr_at buf (length pre + 3 * n + length (eu_provider p) + 1 + length (eu_name p) + 1) = Some (eu_arg_fmt p)"
    using ld_cstr_at_append [of "eu_arg_fmt p" "length pre + 3 * n + length (eu_provider p) + 1 + length (eu_name p) + 1"
        "pre @ ?pc @ ?ba @ ?se @ ?pr @ ?na"] assms
    by (simp add: buf_def usdt_desc_def n_def Let_def)
  have "length (usdt_desc class32 p) = 3 * n + length (eu_provider p) + 1 + length (eu_name p) + 1 + length (eu_arg_fmt p) + 1"
    by (simp add: usdt_desc_def n_def Let_def)
  then have len: "length pre + length (usdt_desc class32 p) =
      length pre + 3 * n + length (eu_provider p) + 1 + length (eu_name p) + 1 + length (eu_arg_fmt p) + 1"
    by simp
  have "(case ph of None \<Rightarrow> 0 | Some h \<Rightarrow> if eu_semaphore p \<noteq> 0 then eu_semaphore p - gh_addr h + gh_offset h else 0) =
      file_semaphore ph (eu_semaphore p)"
    by (simp add: file_semaphore_def split: option.split)
  then show ?thesis
    unfolding parse_stapsdt_note_def n_def [symmetric] buf_def [symmetric] len
    by (simp only: Let_def 1 2 3 4 5 6 bind.bind_lunit) simp
qed

lemma note_probe_src:
  assumes "src_ok class32 src" "src_note class32 src = (ty, owner, desc)"
  shows "note_probe ph (pre @ note_bytes (ty, owner, desc) @ post)
      \<lparr>gn_next = nx, gn_type = ty, gn_namesz = word_of_nat (length owner), gn_descsz = word_of_nat (length desc),
       gn_name_off = length pre + 12, gn_desc_off = length pre + 12 + length (pad4 owner)\<rparr> class32 first_inst =
    Some (delivered ph first_inst src)"
proof (cases "ty = NT_STAPSDT \<and> length owner = 8")
  case False
  have "length owner < 2 ^ 32"
    using assms by (cases src) auto
  then have "word_of_nat (length owner) = (8 :: u32) \<longleftrightarrow> length owner = 8"
    by (simp add: word_unat_eq_iff unat_of_nat)
  then show ?thesis
    using False assms by (cases src) (auto simp: note_probe_def)
next
  case True
  have pad: "pad4 owner = owner"
    using True by (simp add: pad4_def)
  let ?pre = "pre @ enc_le 4 (length owner) @ enc_le 4 (length desc) @ enc_le 4 (unat ty)"
  have buf: "pre @ note_bytes (ty, owner, desc) @ post = ?pre @ owner @ pad4 desc @ post"
    by (simp add: note_bytes_def pad)
  have rd: "rd (?pre @ owner @ pad4 desc @ post) (length pre + 12) 8 = Some owner"
    using True by (simp add: rd_def)
  show ?thesis
  proof (cases src)
    case (Usdt_note p)
    have d: "desc = usdt_desc class32 p" "owner = stapsdt_owner"
      using assms(2) Usdt_note by auto
    have "parse_stapsdt_note ph ((?pre @ owner) @ usdt_desc class32 p @ replicate ((4 - length desc mod 4) mod 4) 0 @ post)
        (length (?pre @ owner)) class32 =
      Some (length (?pre @ owner) + length desc, p\<lparr>eu_semaphore_offset := file_semaphore ph (eu_semaphore p)\<rparr>)"
      using parse_stapsdt_note_desc [of class32 p ph "?pre @ owner"] assms(1) Usdt_note d by simp
    then have "parse_stapsdt_note ph (?pre @ owner @ pad4 desc @ post) (length pre + 12 + 8) class32 =
      Some (length pre + 12 + 8 + length desc, p\<lparr>eu_semaphore_offset := file_semaphore ph (eu_semaphore p)\<rparr>)"
      using True d(1) by (simp add: pad4_def add.commute)
    moreover have "unat (word_of_nat (length desc) :: u32) = length desc"
      using assms(1) Usdt_note d by (simp add: unat_of_nat)
    ultimately show ?thesis
      unfolding buf using True rd d(2) Usdt_note by (simp add: note_probe_def pad)
  next
    case (Foreign_note ty' owner' desc')
    then show ?thesis
      unfolding buf using True rd assms by (auto simp: note_probe_def)
  qed
qed

section \<open>Sections of notes\<close>

lemma note_loop_notes:
  assumes "getnote_law (en_getnote env)" "list_all (src_ok class32) srcs" "length srcs < fuel" "length pre mod 4 = 0"
  shows "note_loop fuel env ph class32 first_inst (pre @ concat (map (note_bytes \<circ> src_note class32) srcs)) (length pre) =
    Finished (concat (map (delivered ph first_inst) srcs))"
  using assms(2-4)
proof (induction srcs arbitrary: fuel pre)
  case Nil
  have "en_getnote env pre (length pre) = None"
    using assms(1) by (simp add: getnote_law_def)
  then show ?case
    using Nil by (cases fuel) simp_all
next
  case (Cons src srcs)
  obtain ty owner desc where n: "src_note class32 src = (ty, owner, desc)"
    by (metis surj_pair)
  let ?buf = "pre @ concat (map (note_bytes \<circ> src_note class32) (src # srcs))"
  let ?note = "note_bytes (ty, owner, desc)" and ?rest = "concat (map (note_bytes \<circ> src_note class32) srcs)"
  have buf: "?buf = pre @ ?note @ ?rest"
    by (simp add: n)
  have "length owner < 2 ^ 32" "length desc < 2 ^ 32"
    using Cons.prems(1) n by (cases src; auto)+
  then have g: "en_getnote env ?buf (length pre) =
      Some \<lparr>gn_next = length pre + length ?note, gn_type = ty, gn_namesz = word_of_nat (length owner), gn_descsz = word_of_nat (length desc),
            gn_name_off = length pre + 12, gn_desc_off = length pre + 12 + length (pad4 owner)\<rparr>"
    using assms(1) Cons.prems(3) unfolding buf by (simp only: getnote_law_def simp_thms)
  obtain f where f: "fuel = Suc f" "length srcs < f"
    using Cons.prems(2) by (cases fuel) auto
  have "length (pre @ ?note) mod 4 = 0"
    using Cons.prems(3) length_note_bytes [of "(ty, owner, desc)"] by (simp add: mod_add_eq [symmetric])
  then have "note_loop f env ph class32 first_inst ?buf (length pre + length ?note) = Finished (concat (map (delivered ph first_inst) srcs))"
    using Cons.IH [of f "pre @ ?note"] Cons.prems(1) f(2) by (simp add: n comp_def)
  then show ?case
    using g note_probe_src [OF _ n, of ph pre ?rest "length pre + length ?note" first_inst] Cons.prems(1)
    unfolding f(1) buf by simp
qed

text \<open>What a section has to do with notes: a section of probe notes is one block of notes, another one has none.\<close>

definition holds_notes :: "gelf \<Rightarrow> nat \<Rightarrow> gelf_scn \<Rightarrow> note_src list \<Rightarrow> bool" where
  "holds_notes e stridx s srcs \<longleftrightarrow>
     (case gc_hdr s of
        None \<Rightarrow> srcs = []
      | Some h \<Rightarrow>
          if gh_type h = SHT_NOTE \<and> scn_named e stridx ''.note.stapsdt'' h
          then map gb_buf (gc_data s) = [concat (map (note_bytes \<circ> src_note (ge_class32 e)) srcs)] \<and> list_all (src_ok (ge_class32 e)) srcs
          else srcs = [])"

lemma list_notes_sections:
  assumes "getnote_law (en_getnote env)" "list_all2 (holds_notes e stridx) ss srcss" "length (concat srcss) < fuel"
  shows "list_notes fuel env e stridx ph first_inst ss = Finished (concat (map (delivered ph first_inst) (concat srcss)))"
  using assms(2,3)
proof (induction rule: list_all2_induct)
  case (Cons s ss srcs srcss)
  have IH: "list_notes fuel env e stridx ph first_inst ss = Finished (concat (map (delivered ph first_inst) (concat srcss)))"
    using Cons by simp
  show ?case
  proof (cases "\<exists>h. gc_hdr s = Some h \<and> gh_type h = SHT_NOTE \<and> scn_named e stridx ''.note.stapsdt'' h")
    case True
    then obtain h b where h: "gc_hdr s = Some h" "gh_type h = SHT_NOTE" "scn_named e stridx ''.note.stapsdt'' h"
      "gc_data s = [b]" "gb_buf b = concat (map (note_bytes \<circ> src_note (ge_class32 e)) srcs)" "list_all (src_ok (ge_class32 e)) srcs"
      using Cons.hyps(1) by (auto simp: holds_notes_def map_eq_Cons_conv)
    have "note_loop fuel env ph (ge_class32 e) first_inst (gb_buf b) 0 = Finished (concat (map (delivered ph first_inst) srcs))"
      using note_loop_notes [OF assms(1) h(6), of fuel "[]"] h(5) Cons.prems by simp
    then show ?thesis
      using h(1-4) IH by simp
  next
    case False
    then have "srcs = []"
      using Cons.hyps(1) by (auto simp: holds_notes_def split: option.splits if_splits)
    then show ?thesis
      using False IH by (auto split: option.split)
  qed
qed simp

lemma next_scn_found:
  assumes "\<forall>s \<in> set as. \<forall>h. gc_hdr s = Some h \<longrightarrow> \<not> P h" "gc_hdr t = Some th" "P th"
  shows "next_scn P (as @ t # rest) = Some (th, rest)"
  using assms by (induction as) (auto split: option.split)

text \<open>
  (C34) If a section \<^verbatim>\<open>.probes\<close> precedes the notes of a file, the callback of \<^verbatim>\<open>bcc_elf_foreach_usdt\<close> gets exactly the probes that the notes of the file describe, in their order, with
  the place of the semaphore in the file; a probe below the first executable section is left out, and foreign notes are
  skipped.  Nothing stays open.
\<close>

theorem foreach_usdt_delivers:
  assumes "getnote_law (en_getnote env)" "en_open env path = Some contents" "en_elf env contents = Some e"
    and "ge_shstrndx e = Some stridx" "ge_scns e = as @ t # bs @ p # cs"
    and "\<forall>s \<in> set as. \<forall>h. gc_hdr s = Some h \<longrightarrow> gh_flags h AND SHF_EXECINSTR = 0" "gc_hdr t = Some th" "gh_flags th AND SHF_EXECINSTR \<noteq> 0"
    and "\<forall>s \<in> set bs. \<forall>h. gc_hdr s = Some h \<longrightarrow> \<not> scn_named e stridx ''.probes'' h" "gc_hdr p = Some ph" "scn_named e stridx ''.probes'' ph"
    and "list_all2 (holds_notes e stridx) cs srcss" "length (concat srcss) < fuel"
  shows "bcc_elf_foreach_usdt fuel env path os =
    Finished (concat (map (delivered (Some ph) (gh_addr th)) (concat srcss)), 0, os)"
proof -
  have t: "next_scn (\<lambda>h. gh_flags h AND SHF_EXECINSTR \<noteq> 0) (ge_scns e) = Some (th, bs @ p # cs)"
    unfolding assms(5) by (rule next_scn_found) (use assms(6-8) in auto)
  have p: "next_scn (scn_named e stridx ''.probes'') (bs @ p # cs) = Some (ph, cs)"
    by (rule next_scn_found) (use assms(9-11) in auto)
  have "listprobes fuel env e = Finished (concat (map (delivered (Some ph) (gh_addr th)) (concat srcss)), 0)"
    using assms(4) t p list_notes_sections [OF assms(1,12,13)] by (simp add: listprobes_def)
  then show ?thesis
    using assms(2,3)
    by (simp add: bcc_elf_foreach_usdt_def bcc_elf_file_open_def bcc_elf_file_open_fd_def openelf_def bcc_elf_file_close_def)
qed

section \<open>A file with probes\<close>

definition wit_getnote :: "bytes \<Rightarrow> nat \<Rightarrow> gelf_note option" where
  "wit_getnote buf off =
     (if length buf < off + 12 then None
      else
        (let namesz = le_nat (take 4 (drop off buf)); descsz = le_nat (take 4 (drop (off + 4) buf));
             ty = le_nat (take 4 (drop (off + 8) buf));
             padded = (\<lambda>n. n + (4 - n mod 4) mod 4)
         in Some \<lparr>gn_next = off + 12 + padded namesz + padded descsz, gn_type = word_of_nat ty, gn_namesz = word_of_nat namesz,
                  gn_descsz = word_of_nat descsz, gn_name_off = off + 12, gn_desc_off = off + 12 + padded namesz\<rparr>))"

lemma wit_getnote_law: "getnote_law wit_getnote"
proof -
  have "wit_getnote (pre @ note_bytes (ty, owner, desc) @ post) (length pre) =
      Some \<lparr>gn_next = length pre + length (note_bytes (ty, owner, desc)), gn_type = ty, gn_namesz = word_of_nat (length owner),
            gn_descsz = word_of_nat (length desc), gn_name_off = length pre + 12,
            gn_desc_off = length pre + 12 + length (pad4 owner)\<rparr>"
    if "length owner < 2 ^ 32" "length desc < 2 ^ 32" for pre ty owner desc post
  proof -
    have "unat ty < 2 ^ 32"
      using unsigned_less [of ty, where 'a = nat] by simp
    then show ?thesis
      using that by (simp add: wit_getnote_def note_bytes_def Let_def pad4_def le_nat_enc_le)
  qed
  then show ?thesis
    by (simp add: getnote_law_def) (simp add: wit_getnote_def)
qed

definition wit_usdt :: bcc_elf_usdt where
  "wit_usdt = \<lparr>eu_pc = 0x1100, eu_base_addr = 0x2000, eu_semaphore = 0x3010, eu_provider = ''app'', eu_name = ''go'', eu_arg_fmt = ''8@%rdi'',
     eu_semaphore_offset = 0\<rparr>"

definition wit_probes_gelf :: gelf where
  "wit_probes_gelf =
     (let scn = (\<lambda>i ty fl addr off data. \<lparr>gc_hdr = Some \<lparr>gh_name = i, gh_type = ty, gh_flags = fl, gh_addr = addr, gh_offset = off, gh_size = 0,
            gh_link = 0, gh_entsize = 0\<rparr>, gc_data = data\<rparr>)
      in \<lparr>ge_class32 = False, ge_shstrndx = Some 9, ge_scn0 = True,
          ge_scns = [scn 0 1 4 0x1000 0x1000 [], scn 1 1 3 0x3000 0x2000 [],
                     scn 2 SHT_NOTE 0 0 0 [\<lparr>gb_buf = concat (map (note_bytes \<circ> src_note False) [Foreign_note 1 [0] [7], Usdt_note wit_usdt]),
                                            gb_sym = (\<lambda>_. None)\<rparr>]],
          ge_strptr = (\<lambda>_ i. Some ([''.text'', ''.probes'', ''.note.stapsdt''] ! i)), ge_phdrs = None, ge_type = Some 2\<rparr>)"

theorem foreach_usdt_delivers_witness:
  "bcc_elf_foreach_usdt 3 (wit_elf_env\<lparr>en_elf := \<lambda>_. Some wit_probes_gelf, en_getnote := wit_getnote\<rparr>) ''/bin/a''
     \<lparr>os_fds = 0, os_maps = 0, os_allocs = 0\<rparr> =
   Finished ([wit_usdt\<lparr>eu_semaphore_offset := 0x2010\<rparr>], 0, \<lparr>os_fds = 0, os_maps = 0, os_allocs = 0\<rparr>)"
proof -
  let ?env = "wit_elf_env\<lparr>en_elf := \<lambda>_. Some wit_probes_gelf, en_getnote := wit_getnote\<rparr>"
  let ?srcss = "[[Foreign_note 1 [0] [7], Usdt_note wit_usdt]]"
  obtain t p n th ph where scns: "ge_scns wit_probes_gelf = [] @ t # [] @ p # [n]" and hdrs: "gc_hdr t = Some th" "gc_hdr p = Some ph"
    and flags: "gh_flags th AND SHF_EXECINSTR \<noteq> 0" "gh_addr th = 0x1000"
    and probes: "scn_named wit_probes_gelf 9 ''.probes'' ph" "gh_addr ph = 0x3000" "gh_offset ph = 0x2000"
    and held: "holds_notes wit_probes_gelf 9 n [Foreign_note 1 [0] [7], Usdt_note wit_usdt]"
    by (auto simp: wit_probes_gelf_def Let_def SHF_EXECINSTR_def scn_named_def holds_notes_def wit_usdt_def usdt_desc_def NT_STAPSDT_def)
  have "getnote_law (en_getnote ?env)" "en_open ?env ''/bin/a'' = Some [0x7F]" "en_elf ?env [0x7F] = Some wit_probes_gelf"
    "ge_shstrndx wit_probes_gelf = Some 9"
    using wit_getnote_law by (simp_all add: wit_elf_env_def wit_probes_gelf_def)
  from foreach_usdt_delivers [OF this scns _ hdrs(1) flags(1) _ hdrs(2) probes(1), of ?srcss 3] held flags(2) probes(2,3)
  show ?thesis
    by (simp add: wit_usdt_def file_semaphore_def)
qed

end
