(* ===== verification/Spec2Isabelle.thy ===== *)
theory Spec2Isabelle
  imports Zip_Roundtrip Perf_Ring Perf_Live Hist Trace_Files Ld_Cache Sym_Build Usdt_Sized Usdt_Props Tracepoint_Layout Runqlat_Props Probe_Detach Elf_Notes
begin

text \<open>
  A verification development for \<^verbatim>\<open>bcc\<close>, the BPF compiler collection: the part of the library in \<^verbatim>\<open>src/cc\<close> that finds
  symbols, probes and events and attaches programs to them, and the helpers of \<^verbatim>\<open>libbpf-tools\<close> with one tool, \<^verbatim>\<open>runqlat\<close>.
  Paths are those of the repository.

  \<^bold>\<open>The program.\<close>  A tracing tool resolves the place to trace, attaches a BPF program there, reads what the program reports and prints
  it with symbols.  A user function is found through the modules of a process (\<^verbatim>\<open>bcc_proc.c\<close>), which may be members of ZIP
  archives (\<^verbatim>\<open>bcc_zip.c\<close>), and through the symbols and notes of object files (\<^verbatim>\<open>bcc_elf.c\<close>); a static probe also has arguments
  and semaphores (\<^verbatim>\<open>usdt/\<close>).  Programs are attached by \<^verbatim>\<open>libbpf.c\<close>.  They report through perf rings (\<^verbatim>\<open>perf_reader.c\<close>) or
  BPF maps (\<^verbatim>\<open>map_helpers.c\<close>), and addresses become symbols by \<^verbatim>\<open>bcc_syms.cc\<close>, \<^verbatim>\<open>bcc_perf_map.c\<close> and \<^verbatim>\<open>trace_helpers.c\<close>.

  \<^bold>\<open>Conventions.\<close>  A struct or class is a record and a method returns the updated one; machine integers are words.  A result
  \<^const>\<open>None\<close> is undefined behaviour, that is a load outside a buffer, of a byte that was never written or of freed memory, or an
  exception that nothing catches, so a theorem that a function returns \<^const>\<open>Some\<close> says that it has none.  A function whose
  own result is optional has an option inside.  A loop with fuel returns \<^const>\<open>Finished\<close>, \<^const>\<open>Timeout\<close> or, for undefined behaviour,
  \<^const>\<open>Fault\<close>.  Open files, mappings and allocations are counted in \<^typ>\<open>os_res\<close>, so that a function that gives back the count it
  was given has no leak.  The kernel, libelf, liblzma, debuginfod, the environment and the memory of other processes are parameters: records
  of functions, with what is relied on as a named predicate (\<^const>\<open>hash_laws\<close>, \<^const>\<open>batch_laws\<close>, \<^const>\<open>btf_laws\<close>, \<^const>\<open>perf_laws\<close>,
  \<^const>\<open>tracefs_laws\<close>, \<^const>\<open>getnote_law\<close>, \<^const>\<open>elf_env_ok\<close>, \<^const>\<open>mmap_ok\<close>, \<^const>\<open>std_sort\<close>), which the witnesses instantiate by small concrete systems.

  \<^bold>\<open>The theories.\<close>

  \<^item> \<^verbatim>\<open>Bcc_Prelude\<close>, \<^verbatim>\<open>C_Lib\<close>, \<^verbatim>\<open>Addr_Search\<close>: words, bytes and checked loads; the conversions of \<^verbatim>\<open>scanf\<close> and \<^verbatim>\<open>printf\<close> and other parts of
    the C library; binary search and the locale \<^verbatim>\<open>addr_table\<close> of tables that are searched by address.
  \<^item> \<^verbatim>\<open>Zip\<close>, \<^verbatim>\<open>Zip_Roundtrip\<close>: \<^verbatim>\<open>src/cc/bcc_zip.c\<close>.  No archive makes the reader leave its mapping (the locale \<^verbatim>\<open>bounded_view\<close>), nothing leaks,
    and the entries of an archive that an encoder writes are found by name and by offset.
  \<^item> \<^verbatim>\<open>Perf_Reader\<close>, \<^verbatim>\<open>Perf_Ring\<close>, \<^verbatim>\<open>Perf_Sync\<close>, \<^verbatim>\<open>Perf_Live\<close>: \<^verbatim>\<open>src/cc/perf_reader.c\<close>.  The records that the kernel publishes reach the
    callbacks once and in order; the protocol between reading and freeing threads is a step relation with its invariant, the
    progress of the freeing thread, and the races that remain.
  \<^item> \<^verbatim>\<open>Hist\<close>, \<^verbatim>\<open>Ksyms\<close>, \<^verbatim>\<open>Dso_Syms\<close>, \<^verbatim>\<open>Dso_Lookup\<close>, \<^verbatim>\<open>Dso_Load\<close>, \<^verbatim>\<open>Trace_Misc\<close>, \<^verbatim>\<open>Trace_Files\<close>: \<^verbatim>\<open>libbpf-tools/trace_helpers.c\<close> and \<^verbatim>\<open>bits.bpf.h\<close>.
    Histogram rows, the kernel's symbol table, the symbol tables of processes and their cache, the files of tracefs and the splitting
    of option strings, each against what its input file says; the use of freed memory after a malformed object file.
  \<^item> \<^verbatim>\<open>Perf_Map\<close>, \<^verbatim>\<open>Proc\<close>, \<^verbatim>\<open>Proc_Props\<close>, \<^verbatim>\<open>Ld_Cache\<close>: \<^verbatim>\<open>src/cc/bcc_perf_map.c\<close> and \<^verbatim>\<open>src/cc/bcc_proc.c\<close>.  Symbol maps of run-time compilers, the modules of a
    process, members of archives among them, the kernel's symbols, and the cache of the dynamic linker in both formats.
  \<^item> \<^verbatim>\<open>Elf_Crc\<close>, \<^verbatim>\<open>Elf_File\<close>, \<^verbatim>\<open>Elf_Debug\<close>, \<^verbatim>\<open>Elf_Props\<close>, \<^verbatim>\<open>Elf_Notes\<close>: \<^verbatim>\<open>src/cc/bcc_elf.c\<close>.  The checksum of debug files is CRC-32; reading an object
    file releases all it holds; its symbols are reported as documented, but for a callback that stops in the debug file, and as the symbol caches
    rely on; the notes of the linker become probes.
  \<^item> \<^verbatim>\<open>Sym_Cache\<close>, \<^verbatim>\<open>Sym_Props\<close>, \<^verbatim>\<open>Sym_Modules\<close>, \<^verbatim>\<open>Sym_Build\<close>: \<^verbatim>\<open>src/cc/bcc_syms.cc\<close> and \<^verbatim>\<open>syms.h\<close>.  The caches of kernel symbols, of the modules of a
    process and of modules by build id: their invariants, what a lookup returns, and the translation of addresses there and back.
    The interface to object files is a parameter here, which theory \<^verbatim>\<open>Elf_Props\<close> connects with \<^verbatim>\<open>bcc_elf.c\<close>.
  \<^item> \<^verbatim>\<open>Usdt_Args\<close>, \<^verbatim>\<open>Usdt_Regex\<close>, \<^verbatim>\<open>Usdt_Parse\<close>, \<^verbatim>\<open>Usdt_Roundtrip\<close>, \<^verbatim>\<open>Usdt_X64\<close>, \<^verbatim>\<open>Usdt_Sized\<close>: the parsers of \<^verbatim>\<open>src/cc/usdt/usdt_args.cc\<close> for six
    architectures.  The loop over arguments ends for each (the locales \<^verbatim>\<open>arg_parser\<close> and \<^verbatim>\<open>reg_parser\<close>), and for three of them printed
    arguments are read back (\<^verbatim>\<open>arg_syntax\<close>, \<^verbatim>\<open>sized_syntax\<close>).
  \<^item> \<^verbatim>\<open>Usdt\<close>, \<^verbatim>\<open>Usdt_Context\<close>, \<^verbatim>\<open>Usdt_Props\<close>: \<^verbatim>\<open>src/cc/usdt/usdt.cc\<close>.  Probes, contexts and the C interface; the semaphores of a process count
    the enabled probes, and closing a context restores its memory.
  \<^item> \<^verbatim>\<open>Tracepoint\<close>, \<^verbatim>\<open>Tracepoint_Layout\<close>: \<^verbatim>\<open>src/cc/common.cc\<close>.  The structure generated for a tracepoint has its fields where the kernel has them.
  \<^item> \<^verbatim>\<open>Bpf_Maps\<close>, \<^verbatim>\<open>Map_Dump\<close>, \<^verbatim>\<open>Runqlat\<close>, \<^verbatim>\<open>Runqlat_Props\<close>: \<^verbatim>\<open>libbpf-tools/map_helpers.c\<close>, \<^verbatim>\<open>maps.bpf.h\<close>, \<^verbatim>\<open>runqlat.bpf.c\<close> and \<^verbatim>\<open>runqlat.c\<close>.  A map is read out
    whole, by keys or by batches (the witness has a kernel with batch calls and one without); for every sequence of scheduler events \<^verbatim>\<open>runqlat\<close> prints the histograms of the waits on the run queue.
  \<^item> \<^verbatim>\<open>Probe_Attach\<close>, \<^verbatim>\<open>Probe_Props\<close>, \<^verbatim>\<open>Probe_Detach\<close>: \<^verbatim>\<open>src/cc/libbpf.c\<close>.  Attaching leaves an enabled perf event with the program or no
    new perf event, and at most the probe's own event in tracefs, also when it fails; closing the descriptor and detaching undoes both.

  \<^bold>\<open>Bounds and fuel.\<close>  A loop over the lines of a file or the records of a ring gets fuel above the number of lines or records, since an iteration
  uses up one of them; the loop over USDT arguments one more than the length of the string, since an iteration moves forward; the batches of
  a map more than the number of entries asked for, since a batch is not empty or the last one; the decompression of debug information more than
  a measure that each call of liblzma decreases.  The theorems give the result for every such fuel, so none holds because a loop did not
  end.  Sizes are bounded only where the code has a type for them: archives below \<open>2\<^sup>3\<^sup>2\<close> bytes, symbol tables of up to \<open>2\<^sup>2\<^sup>8\<close> symbols or bytes of names, where the
  growth of the arrays by a third stays in an \<^verbatim>\<open>int\<close>, and counts of waits whose bars are computed without wrapping around.

  \<^bold>\<open>Not modelled.\<close>  The compiler (\<^verbatim>\<open>bpf_module.cc\<close>, \<^verbatim>\<open>frontends/clang\<close>) and BTF (\<^verbatim>\<open>bcc_btf.cc\<close>) are written against the data structures of clang, LLVM and
  libbpf, which are not part of the repository, and so are the tables of maps and the C++ interface (\<^verbatim>\<open>api\<close>) that serve them.  The rest of \<^verbatim>\<open>libbpf.c\<close>
  prepares single calls of libbpf.  The other tools have the structure of \<^verbatim>\<open>runqlat\<close>; the Python and Lua front ends, the tools and the examples
  call the library.  Of the files above, \<^verbatim>\<open>bcc_free_memory\<close>, which gives pages of the running program back to the kernel, the code for PowerPC in
  \<^verbatim>\<open>bcc_elf.c\<close>, and \<^verbatim>\<open>main\<close> of \<^verbatim>\<open>runqlat.c\<close> are left out.  Messages on the error output are modelled only where they are the result.  Memory is
  not weakly ordered, and the handlers of a BPF program do not overlap; the steps of the threads of a perf reader do.
\<close>

end
